(* ===== verification/Py_Prelude.thy ===== *)
theory Py_Prelude
  imports Complex_Main "HOL-Library.Char_ord" "HOL-Library.List_Lexorder"
    "HOL-Library.Product_Lexorder" "HOL-Library.AList"
begin

text \<open>
  The part of Python that every component uses.
  \<^item> Exceptions are values: \<open>py_error\<close> names the exception classes the code raises, with the
    message, and \<open>'a res\<close> is a computation that returns a value or raises.
    \<open>Diverged\<close> is no exception: it stands for a loop that has not ended within the fuel of the model.
  \<^item> A \<open>str\<close> is a \<open>string\<close>: a list of code points below 256. \<open>py_lower\<close>, \<open>py_strip\<close> and
    \<open>py_replace\<close> are the methods \<open>lower\<close>, \<open>strip\<close> and \<open>replace\<close> (with a non-empty first
    argument) on such strings, \<open>show_int\<close> is \<open>str\<close> of an \<open>int\<close> and \<open>nat_of_digits\<close> is
    \<open>int\<close> of a non-empty string of decimal digits.
  \<^item> A \<open>dict\<close> is an association list in insertion order: \<open>AList.update\<close> overwrites in place
    or appends, as \<open>d[k] = v\<close> does, and \<open>map_of\<close> is \<open>d.get\<close>.
  \<^item> \<open>pyval\<close> is a dynamically typed value (\<open>Any\<close>), with \<open>truthy\<close> its \<open>bool()\<close>.
  The collections \<open>res_simps\<close> and \<open>str_simps\<close> hold the rules that the component proofs use.
\<close>

named_theorems res_simps "rules that push a successful or failed result through the monad"
named_theorems str_simps "rules on decimal notation and prefixes of strings"

subsection \<open>Exceptions as values\<close>

datatype py_error =
    ValueError string
  | KeyError string
  | IndexError string
  | TypeError string
  | RuntimeError string
  | TimeoutError string
  | OperationCancelled string
  | AttributeError string
  | Diverged

type_synonym 'a res = "py_error + 'a"

definition rbind :: "'a res \<Rightarrow> ('a \<Rightarrow> 'b res) \<Rightarrow> 'b res" where
  "rbind m f = (case m of Inl e \<Rightarrow> Inl e | Inr x \<Rightarrow> f x)"

definition raise_if :: "bool \<Rightarrow> py_error \<Rightarrow> unit res" where
  "raise_if b e = (if b then Inl e else Inr ())"

fun rmapM :: "('a \<Rightarrow> 'b res) \<Rightarrow> 'a list \<Rightarrow> 'b list res" where
  "rmapM f [] = Inr []"
| "rmapM f (x # xs) = rbind (f x) (\<lambda>y. rbind (rmapM f xs) (\<lambda>ys. Inr (y # ys)))"

fun rfoldM :: "('s \<Rightarrow> 'a \<Rightarrow> 's res) \<Rightarrow> 's \<Rightarrow> 'a list \<Rightarrow> 's res" where
  "rfoldM f s [] = Inr s"
| "rfoldM f s (x # xs) = rbind (f s x) (\<lambda>s'. rfoldM f s' xs)"

definition is_ok :: "'a res \<Rightarrow> bool" where
  "is_ok r = (case r of Inl _ \<Rightarrow> False | Inr _ \<Rightarrow> True)"

lemma rbind_Inr [simp, res_simps]: "rbind (Inr x) f = f x"
  by (simp add: rbind_def)

lemma rbind_Inl [simp, res_simps]: "rbind (Inl e) f = Inl e"
  by (simp add: rbind_def)

lemma rbind_eq_Inr [res_simps]: "(rbind m f = Inr y) = (\<exists>x. m = Inr x \<and> f x = Inr y)"
  by (cases m) auto

lemma rbind_eq_Inl [res_simps]: "(rbind m f = Inl e) = (m = Inl e \<or> (\<exists>x. m = Inr x \<and> f x = Inl e))"
  by (cases m) auto

lemma raise_if_eq_Inr [simp, res_simps]: "(raise_if b e = Inr u) = (\<not> b)"
  by (simp add: raise_if_def)

lemma raise_if_eq_Inl [simp, res_simps]: "(raise_if b e = Inl e') = (b \<and> e' = e)"
  by (auto simp: raise_if_def)

lemma raise_if_False [simp]: "raise_if False e = Inr ()"
  by (simp add: raise_if_def)

lemma raise_if_True [simp]: "raise_if True e = Inl e"
  by (simp add: raise_if_def)

lemma is_ok_simps [simp]: "is_ok (Inr x)" "\<not> is_ok (Inl e)"
  by (simp_all add: is_ok_def)

lemma is_ok_iff: "is_ok r = (\<exists>x. r = Inr x)"
  by (cases r) auto

lemma rmapM_eq_Inr: "(rmapM f xs = Inr ys) = list_all2 (\<lambda>x y. f x = Inr y) xs ys"
  by (induction xs arbitrary: ys) (auto simp: rbind_eq_Inr list_all2_Cons1)

lemma rmapM_total: "(\<And>x. x \<in> set xs \<Longrightarrow> f x = Inr (g x)) \<Longrightarrow> rmapM f xs = Inr (map g xs)"
  by (induction xs) auto

lemma rmapM_length: "rmapM f xs = Inr ys \<Longrightarrow> length ys = length xs"
  by (simp add: rmapM_eq_Inr list_all2_lengthD)

lemma rmapM_is_ok: "is_ok (rmapM f xs) = (\<forall>x \<in> set xs. is_ok (f x))"
  by (induction xs) (auto simp: is_ok_iff rbind_eq_Inr)

lemma rbind_rmapM_unit [res_simps]:
  "(rbind (rmapM f xs) (\<lambda>_. r) = Inr y) = ((\<forall>x \<in> set xs. f x = Inr ()) \<and> r = Inr y)" for f :: "'a \<Rightarrow> unit res"
proof -
  have "is_ok (f x) = (f x = Inr ())" for x by (cases "f x") auto
  then show ?thesis using rmapM_is_ok [of f xs] by (auto simp: is_ok_iff rbind_eq_Inr)
qed

lemma rbind_unit [res_simps]: "(rbind u (\<lambda>_. r) = Inr y) = (u = Inr () \<and> r = Inr y)" for u :: "unit res"
  by (cases u) auto

lemma rfoldM_append: "rfoldM f s (xs @ ys) = rbind (rfoldM f s xs) (\<lambda>s'. rfoldM f s' ys)"
proof (induction xs arbitrary: s)
  case (Cons x xs)
  then show ?case by (cases "f s x") auto
qed simp

lemma rfoldM_invariant:
  assumes "rfoldM f s xs = Inr t" and "P s"
    and "\<And>s x s'. P s \<Longrightarrow> x \<in> set xs \<Longrightarrow> f s x = Inr s' \<Longrightarrow> P s'"
  shows "P t"
  using assms
proof (induction xs arbitrary: s)
  case (Cons x xs)
  from Cons.prems(1) obtain s' where s': "f s x = Inr s'" "rfoldM f s' xs = Inr t"
    by (auto simp: rbind_eq_Inr)
  have "P s'" by (rule Cons.prems(3) [OF Cons.prems(2) _ s'(1)]) simp
  then show ?case
    by (rule Cons.IH [OF s'(2)]) (rule Cons.prems(3), auto)
qed simp

subsection \<open>Strings\<close>

definition is_digit :: "char \<Rightarrow> bool" where
  "is_digit c \<longleftrightarrow> CHR ''0'' \<le> c \<and> c \<le> CHR ''9''"

definition digit_char :: "nat \<Rightarrow> char" where
  "digit_char d = ''0123456789'' ! d"

definition digit_val :: "char \<Rightarrow> nat" where
  "digit_val c = of_char c - 48"

fun show_nat :: "nat \<Rightarrow> string" where
  "show_nat n = (if n < 10 then [digit_char n] else show_nat (n div 10) @ [digit_char (n mod 10)])"

declare show_nat.simps [simp del]

definition show_int :: "int \<Rightarrow> string" where
  "show_int i = (if i < 0 then ''-'' @ show_nat (nat (- i)) else show_nat (nat i))"

definition nat_of_digits :: "string \<Rightarrow> nat" where
  "nat_of_digits s = foldl (\<lambda>a c. 10 * a + digit_val c) 0 s"

text \<open>\<open>str.isspace\<close> and \<open>str.lower\<close> on code points below 256.\<close>

definition is_space :: "char \<Rightarrow> bool" where
  "is_space c = (let n = (of_char c :: nat) in (9 \<le> n \<and> n \<le> 13) \<or> (28 \<le> n \<and> n \<le> 32) \<or> n = 133 \<or> n = 160)"

definition lower_char :: "char \<Rightarrow> char" where
  "lower_char c = (let n = (of_char c :: nat) in
     if (65 \<le> n \<and> n \<le> 90) \<or> (192 \<le> n \<and> n \<le> 222 \<and> n \<noteq> 215) then char_of (n + 32) else c)"

definition py_lower :: "string \<Rightarrow> string" where
  "py_lower s = map lower_char s"

definition py_rstrip :: "string \<Rightarrow> string" where
  "py_rstrip s = rev (dropWhile is_space (rev s))"

definition py_strip :: "string \<Rightarrow> string" where
  "py_strip s = py_rstrip (dropWhile is_space s)"

definition starts_with :: "string \<Rightarrow> string \<Rightarrow> bool" where
  "starts_with s pre = (take (length pre) s = pre)"

function py_replace :: "string \<Rightarrow> string \<Rightarrow> string \<Rightarrow> string" where
  "py_replace old new [] = []"
| "py_replace old new (c # s) =
     (if old \<noteq> [] \<and> starts_with (c # s) old
      then new @ py_replace old new (drop (length old) (c # s))
      else c # py_replace old new s)"
  by pat_completeness auto
termination
  by (relation "measure (\<lambda>(old, new, s). length s)") (auto simp: neq_Nil_conv)

fun join :: "string \<Rightarrow> string list \<Rightarrow> string" where
  "join sep [] = []"
| "join sep [x] = x"
| "join sep (x # y # xs) = x @ sep @ join sep (y # xs)"

text \<open>\<open>repr\<close> of a string: single quotes unless only those occur in it, and escapes.\<close>

definition hex_digit :: "nat \<Rightarrow> char" where
  "hex_digit d = ''0123456789abcdef'' ! d"

definition repr_char :: "char \<Rightarrow> char \<Rightarrow> string" where
  "repr_char q c = (let n = (of_char c :: nat) in
     if c = q \<or> n = 92 then [char_of (92 :: nat), c]
     else if n = 10 then [char_of (92 :: nat), CHR ''n'']
     else if n = 13 then [char_of (92 :: nat), CHR ''r'']
     else if n = 9 then [char_of (92 :: nat), CHR ''t'']
     else if n < 32 \<or> (127 \<le> n \<and> n \<le> 160) \<or> n = 173
     then [char_of (92 :: nat), CHR ''x'', hex_digit (n div 16), hex_digit (n mod 16)]
     else [c])"

definition py_repr :: "string \<Rightarrow> string" where
  "py_repr s = (let q = (if char_of (39 :: nat) \<in> set s \<and> char_of (34 :: nat) \<notin> set s
                        then char_of (34 :: nat) else char_of (39 :: nat)) in
     [q] @ concat (map (repr_char q) s) @ [q])"

subsection \<open>Decimal notation\<close>

lemma digit_char_digit [simp]: "d < 10 \<Longrightarrow> is_digit (digit_char d)"
  by (auto simp: digit_char_def is_digit_def less_Suc_eq numeral_eq_Suc)

lemma digit_val_digit_char [simp]: "d < 10 \<Longrightarrow> digit_val (digit_char d) = d"
  by (auto simp: digit_char_def digit_val_def less_Suc_eq numeral_eq_Suc)

lemma show_nat_digits: "c \<in> set (show_nat n) \<Longrightarrow> is_digit c"
proof (induction n rule: show_nat.induct)
  case (1 n)
  then show ?case
    by (cases "n < 10") (auto simp: show_nat.simps [of n])
qed

lemma show_nat_nonempty [simp]: "show_nat n \<noteq> []"
  by (simp add: show_nat.simps)

lemma nat_of_digits_snoc: "nat_of_digits (s @ [c]) = 10 * nat_of_digits s + digit_val c"
  by (simp add: nat_of_digits_def)

lemma nat_of_digits_show_nat [simp, str_simps]: "nat_of_digits (show_nat n) = n"
proof (induction n rule: show_nat.induct)
  case (1 n)
  show ?case
  proof (cases "n < 10")
    case True
    then show ?thesis by (simp add: show_nat.simps [of n] nat_of_digits_def)
  next
    case False
    with 1 show ?thesis
      by (simp add: show_nat.simps [of n] nat_of_digits_snoc)
  qed
qed

lemma show_nat_inj [simp, str_simps]: "(show_nat m = show_nat n) = (m = n)"
  by (metis nat_of_digits_show_nat)

lemma show_int_nonneg: "0 \<le> i \<Longrightarrow> show_int i = show_nat (nat i)"
  by (simp add: show_int_def)

lemma show_int_nonempty [simp]: "show_int i \<noteq> []"
  by (simp add: show_int_def)

lemma minus_not_digit [simp]: "\<not> is_digit CHR ''-''" "\<not> is_digit CHR ''.''" "\<not> is_digit CHR ''/''"
    "\<not> is_digit (CHR 0x0A)"
  by (simp_all add: is_digit_def)

lemma show_int_chars: "c \<in> set (show_int i) \<Longrightarrow> is_digit c \<or> c = CHR ''-''"
  by (auto simp: show_int_def dest: show_nat_digits split: if_splits)

lemma show_int_no_dot [simp]: "CHR ''.'' \<notin> set (show_int i)" "CHR ''/'' \<notin> set (show_int i)"
  using show_int_chars by fastforce+

lemma show_int_inj [simp, str_simps]: "(show_int i = show_int j) = (i = j)"
proof
  assume eq: "show_int i = show_int j"
  have head: "hd (show_nat n) \<noteq> CHR ''-''" for n
    using show_nat_digits [of "hd (show_nat n)" n] by (metis hd_in_set minus_not_digit(1) show_nat_nonempty)
  show "i = j"
  proof (cases "i < 0"; cases "j < 0")
    assume "i < 0" "j < 0"
    then show ?thesis using eq by (simp add: show_int_def)
  next
    assume "i < 0" "\<not> j < 0"
    then show ?thesis using eq head [of "nat j"] by (auto simp: show_int_def dest: arg_cong [where f = hd])
  next
    assume "\<not> i < 0" "j < 0"
    then show ?thesis using eq head [of "nat i"] by (auto simp: show_int_def)
  next
    assume "\<not> i < 0" "\<not> j < 0"
    then show ?thesis using eq by (simp add: show_int_def)
  qed
qed simp

lemma sep_inj:
  assumes "c \<notin> set a" and "c \<notin> set a'"
  shows "(a @ c # b = a' @ c # b') = (a = a' \<and> b = b')"
proof
  assume eq: "a @ c # b = a' @ c # b'"
  have "takeWhile (\<lambda>x. x \<noteq> c) (xs @ c # ys) = xs" if "c \<notin> set xs" for xs ys
    using that by (induction xs) auto
  with eq assms have "a = a'" by metis
  with eq show "a = a' \<and> b = b'" by simp
qed simp

lemma starts_with_append [simp]: "starts_with (pre @ s) pre"
  by (simp add: starts_with_def)

lemma py_replace_absent: "(\<And>i. \<not> starts_with (drop i s) old) \<Longrightarrow> py_replace old new s = s"
proof (induction s)
  case (Cons c s)
  have "\<not> starts_with (drop i s) old" for i using Cons.prems [of "Suc i"] by simp
  moreover have "\<not> starts_with (c # s) old" using Cons.prems [of 0] by simp
  ultimately show ?case using Cons.IH by simp
qed simp

lemma py_replace_single_absent: "c \<notin> set s \<Longrightarrow> py_replace [c] new s = s"
  by (induction s) (auto simp: starts_with_def)

lemma py_strip_id: "s = [] \<or> (\<not> is_space (hd s) \<and> \<not> is_space (last s)) \<Longrightarrow> py_strip s = s"
proof (cases "s = []")
  case False
  assume "s = [] \<or> (\<not> is_space (hd s) \<and> \<not> is_space (last s))"
  with False have "dropWhile is_space s = s" "dropWhile is_space (rev s) = rev s"
    by (simp_all add: dropWhile_eq_self_iff hd_rev)
  then show ?thesis by (simp add: py_strip_def py_rstrip_def)
qed (simp add: py_strip_def py_rstrip_def)

subsection \<open>Dictionaries in insertion order\<close>

type_synonym ('k, 'v) dict = "('k \<times> 'v) list"

definition dict_keys :: "('k, 'v) dict \<Rightarrow> 'k list" where
  "dict_keys d = map fst d"

definition dict_values :: "('k, 'v) dict \<Rightarrow> 'v list" where
  "dict_values d = map snd d"

text \<open>\<open>d.setdefault(k, []).append(v)\<close>: the grouping idiom.\<close>

definition dict_append :: "'k \<Rightarrow> 'v \<Rightarrow> ('k, 'v list) dict \<Rightarrow> ('k, 'v list) dict" where
  "dict_append k v d = AList.update k (case map_of d k of None \<Rightarrow> [v] | Some vs \<Rightarrow> vs @ [v]) d"

text \<open>A dict comprehension \<open>{k(x): v(x) for x in xs}\<close>: later entries win, the first fixes the place.\<close>

definition dict_of :: "('k \<times> 'v) list \<Rightarrow> ('k, 'v) dict" where
  "dict_of kvs = fold (\<lambda>(k, v) d. AList.update k v d) kvs []"

definition dict_get :: "('k, 'v) dict \<Rightarrow> 'k \<Rightarrow> 'v \<Rightarrow> 'v" where
  "dict_get d k dflt = (case map_of d k of None \<Rightarrow> dflt | Some v \<Rightarrow> v)"

definition wf_dict :: "('k, 'v) dict \<Rightarrow> bool" where
  "wf_dict d = distinct (map fst d)"

lemma set_alist_update: "set (AList.update k v d) \<subseteq> insert (k, v) (set d)"
  by (induction d) auto

lemma alist_update_fresh: "k \<notin> fst ` set d \<Longrightarrow> AList.update k v d = d @ [(k, v)]"
  by (induction d) auto

lemma keys_update_set: "fst ` set (AList.update k v al) = insert k (fst ` set al)"
  by (induction al) auto

lemma keys_delete_set: "fst ` set (AList.delete k al) = fst ` set al - {k}"
  by (induction al) auto

text \<open>The contract of a mutable map, and the lemmas its clients share.\<close>

locale py_map =
  fixes empty :: "'m" and lookup :: "'m \<Rightarrow> 'k \<Rightarrow> 'v option"
    and store :: "'k \<Rightarrow> 'v \<Rightarrow> 'm \<Rightarrow> 'm" and wf :: "'m \<Rightarrow> bool" and keys :: "'m \<Rightarrow> 'k list"
  assumes lookup_empty: "lookup empty k = None"
    and lookup_store: "lookup (store k v m) k' = (if k' = k then Some v else lookup m k')"
    and wf_empty: "wf empty"
    and wf_store: "wf m \<Longrightarrow> wf (store k v m)"
    and keys_lookup: "(k \<in> set (keys m)) = (lookup m k \<noteq> None)"
    and wf_keys: "wf m \<Longrightarrow> distinct (keys m)"
begin

lemma lookup_fold_store:
  "lookup (fold (\<lambda>(k, v). store k v) kvs m) k = (case map_of (rev kvs) k of None \<Rightarrow> lookup m k | Some v \<Rightarrow> Some v)"
proof (induction kvs arbitrary: m)
  case (Cons kv kvs)
  then show ?case
    by (cases kv) (auto simp: lookup_store map_add_def split: option.split)
qed simp

lemma wf_fold_store: "wf m \<Longrightarrow> wf (fold (\<lambda>(k, v). store k v) kvs m)"
  by (induction kvs arbitrary: m) (auto simp: wf_store)

lemma keys_fold_store: "set (keys (fold (\<lambda>(k, v). store k v) kvs m)) = fst ` set kvs \<union> set (keys m)"
proof (induction kvs arbitrary: m)
  case (Cons kv kvs)
  have "set (keys (store k v m)) = insert k (set (keys m))" for k v
    by (auto simp: keys_lookup lookup_store split: if_splits)
  with Cons show ?case by (cases kv) auto
qed simp

end

interpretation al: py_map "[] :: ('k, 'v) dict" map_of AList.update wf_dict dict_keys
proof (unfold_locales, goal_cases)
  case (2 k v m k') show ?case by (simp add: AList.update_conv)
next
  case (4 m k v) then show ?case by (simp add: wf_dict_def AList.distinct_update)
next
  case (5 k m) show ?case by (auto simp: dict_keys_def map_of_eq_None_iff)
qed (simp_all add: wf_dict_def dict_keys_def)

lemma map_of_dict_of: "map_of (dict_of kvs) k = map_of (rev kvs) k"
  using al.lookup_fold_store [of kvs "[]" k] by (simp add: dict_of_def split: option.splits)

lemma wf_dict_of [simp]: "wf_dict (dict_of kvs)"
  unfolding dict_of_def by (rule al.wf_fold_store) (simp add: al.wf_empty)

lemma keys_dict_of: "set (dict_keys (dict_of kvs)) = fst ` set kvs"
  using al.keys_fold_store [of kvs "[]"] by (simp add: dict_of_def dict_keys_def)

lemma dict_of_distinct:
  assumes "distinct (map fst kvs)"
  shows "dict_of kvs = kvs"
proof -
  have "distinct (map fst (d @ kvs)) \<Longrightarrow> fold (\<lambda>(k, v) d. AList.update k v d) kvs d = d @ kvs" for d
  proof (induction kvs arbitrary: d)
    case (Cons kv kvs)
    obtain k v where kv: "kv = (k, v)" by fastforce
    have "AList.update k v d = d @ [(k, v)]"
      using Cons.prems by (intro alist_update_fresh) (auto simp: kv)
    then show ?case using Cons.IH [of "d @ [(k, v)]"] Cons.prems by (simp add: kv)
  qed simp
  from this [of "[]"] assms show ?thesis by (simp add: dict_of_def)
qed

lemma map_of_dict_append:
  "map_of (dict_append k v d) k' = (if k' = k then Some ((case map_of d k of None \<Rightarrow> [] | Some vs \<Rightarrow> vs) @ [v])
     else map_of d k')"
  by (auto simp: dict_append_def AList.update_conv split: option.split)

lemma wf_dict_append [simp]: "wf_dict d \<Longrightarrow> wf_dict (dict_append k v d)"
  by (simp add: dict_append_def al.wf_store)

text \<open>Grouping a list by a key: every group holds the elements with that key, in order.\<close>

definition group_by :: "('a \<Rightarrow> 'k) \<Rightarrow> 'a list \<Rightarrow> ('k, 'a list) dict" where
  "group_by f xs = fold (\<lambda>x. dict_append (f x) x) xs []"

lemma map_of_fold_append:
  "map_of (fold (\<lambda>x. dict_append (f x) x) xs d) k =
     (if [x \<leftarrow> xs. f x = k] = [] then map_of d k
      else Some ((case map_of d k of None \<Rightarrow> [] | Some vs \<Rightarrow> vs) @ [x \<leftarrow> xs. f x = k]))"
  by (induction xs arbitrary: d) (auto simp: map_of_dict_append split: option.split)

lemma map_of_group_by:
  "map_of (group_by f xs) k = (let g = [x \<leftarrow> xs. f x = k] in if g = [] then None else Some g)"
  by (simp add: group_by_def map_of_fold_append Let_def)

lemma wf_group_by [simp]: "wf_dict (group_by f xs)"
proof -
  have "wf_dict d \<Longrightarrow> wf_dict (fold (\<lambda>x. dict_append (f x) x) xs d)" for d
    by (induction xs arbitrary: d) auto
  then show ?thesis by (simp add: group_by_def al.wf_empty)
qed

lemma keys_group_by: "set (dict_keys (group_by f xs)) = f ` set xs"
  by (auto simp: al.keys_lookup map_of_group_by Let_def filter_empty_conv split: if_splits)

lemma group_by_entry:
  assumes "(k, g) \<in> set (group_by f xs)"
  shows "g = [x \<leftarrow> xs. f x = k]" and "g \<noteq> []"
proof -
  from assms have "map_of (group_by f xs) k = Some g"
    using wf_group_by [of f xs] by (simp add: wf_dict_def)
  then show "g = [x \<leftarrow> xs. f x = k]" "g \<noteq> []"
    by (auto simp: map_of_group_by Let_def split: if_splits)
qed

subsection \<open>Dynamically typed values\<close>

datatype pyval =
    PNone
  | PBool bool
  | PInt int
  | PFloat rat
  | PStr string
  | PList "pyval list"
  | PDict "(string \<times> pyval) list"

fun truthy :: "pyval \<Rightarrow> bool" where
  "truthy PNone = False"
| "truthy (PBool b) = b"
| "truthy (PInt i) = (i \<noteq> 0)"
| "truthy (PFloat r) = (r \<noteq> 0)"
| "truthy (PStr s) = (s \<noteq> [])"
| "truthy (PList vs) = (vs \<noteq> [])"
| "truthy (PDict d) = (d \<noteq> [])"

type_synonym pydict = "(string \<times> pyval) list"

definition get_val :: "pydict \<Rightarrow> string \<Rightarrow> pyval" where
  "get_val d k = (case map_of d k of None \<Rightarrow> PNone | Some v \<Rightarrow> v)"

subsection \<open>Lists and integer ranges\<close>

lemma find_append: "find P (xs @ ys) = (case find P xs of None \<Rightarrow> find P ys | Some x \<Rightarrow> Some x)"
  by (induction xs) auto

lemma set_upto_int [simp]: "set [a..b] = {a..b}" for a b :: int
  by simp

lemma distinct_concat_map:
  assumes "distinct xs" and "\<And>x. x \<in> set xs \<Longrightarrow> distinct (f x)"
    and "\<And>x y. x \<in> set xs \<Longrightarrow> y \<in> set xs \<Longrightarrow> x \<noteq> y \<Longrightarrow> set (f x) \<inter> set (f y) = {}"
  shows "distinct (concat (map f xs))"
  using assms by (induction xs) (auto simp: disjoint_iff)

text \<open>Numbering a grid row by row from one: \<open>(l - 1) * c + p\<close>.\<close>

lemma grid_div: "1 \<le> p \<Longrightarrow> p \<le> c \<Longrightarrow> ((l - 1) * c + p - 1) div c = l - 1" for l p c :: int
  by (rule int_div_pos_eq [of _ _ _ "p - 1"]) (auto simp: algebra_simps)

lemma grid_inj:
  fixes l p c l' p' :: int
  assumes "1 \<le> p" "p \<le> c" "1 \<le> p'" "p' \<le> c" and "(l - 1) * c + p = (l' - 1) * c + p'"
  shows "l = l' \<and> p = p'"
proof -
  have "l - 1 = l' - 1" using grid_div [OF assms(1,2), of l] grid_div [OF assms(3,4), of l'] assms(5) by simp
  then show ?thesis using assms(5) by simp
qed

lemma grid_bound:
  fixes l p c n :: int
  assumes "1 \<le> l" "l \<le> n" "1 \<le> p" "p \<le> c"
  shows "1 \<le> (l - 1) * c + p" and "(l - 1) * c + p \<le> n * c"
proof -
  have "(l - 1) * c \<le> (n - 1) * c" using assms by (intro mult_right_mono) auto
  moreover have "(n - 1) * c = n * c - c" by (simp add: algebra_simps)
  ultimately show "(l - 1) * c + p \<le> n * c" using assms by linarith
  have "0 \<le> (l - 1) * c" using assms by (intro mult_nonneg_nonneg) auto
  then show "1 \<le> (l - 1) * c + p" using assms by linarith
qed

lemma concat_map_product: "concat (map (\<lambda>x. map (f x) ys) xs) = map (\<lambda>(x, y). f x y) (List.product xs ys)"
  by (induction xs) (auto simp: comp_def)

lemma grid_surj:
  fixes c n h :: int
  assumes "1 \<le> c" "c \<le> n * h" "1 \<le> h"
  obtains l p where "1 \<le> l" "l \<le> n" "1 \<le> p" "p \<le> h" "c = (l - 1) * h + p"
proof
  let ?l = "(c - 1) div h + 1" and ?p = "(c - 1) mod h + 1"
  have "(c - 1) div h * h + (c - 1) mod h = c - 1" by (rule div_mult_mod_eq)
  then show "c = (?l - 1) * h + ?p" by simp
  show "1 \<le> ?l" using assms by (simp add: pos_imp_zdiv_nonneg_iff)
  have "(c - 1) div h < n"
  proof (rule ccontr)
    assume "\<not> (c - 1) div h < n"
    then have "n * h \<le> (c - 1) div h * h" using assms(3) by (intro mult_right_mono) auto
    also have "\<dots> \<le> c - 1" using div_mult_mod_eq [of "c - 1" h] pos_mod_sign [of h "c - 1"] assms(3) by linarith
    finally show False using assms(2) by linarith
  qed
  then show "?l \<le> n" by simp
  show "1 \<le> ?p" "?p \<le> h" using assms by (simp_all add: pos_mod_bound [THEN zless_imp_add1_zle] )
qed

definition grid :: "int \<Rightarrow> int \<Rightarrow> int \<Rightarrow> int" where
  "grid h l p = (l - 1) * h + p"

lemma grid_eq:
  "p \<in> {1..h} \<Longrightarrow> p' \<in> {1..h} \<Longrightarrow> (grid h l p = grid h l' p') = (l = l' \<and> p = p')"
  unfolding grid_def using grid_inj [of p h p' l l'] by auto

lemma grid_range: "l \<in> {1..n} \<Longrightarrow> p \<in> {1..h} \<Longrightarrow> grid h l p \<in> {1..n * h}"
  unfolding grid_def using grid_bound [of l n p h] by simp

lemma grid_cases:
  assumes "c \<in> {1..n * h}" and "1 \<le> h"
  obtains l p where "l \<in> {1..n}" "p \<in> {1..h}" "c = grid h l p"
proof -
  have "1 \<le> c" "c \<le> n * h" using assms(1) by simp_all
  then show thesis
    by (rule grid_surj [OF _ _ assms(2)]) (rule that, auto simp: grid_def)
qed

lemma card_grid_row: "1 \<le> h \<Longrightarrow> card ((\<lambda>i. grid h i x) ` {1..n}) = nat n"
  unfolding grid_def by (subst card_image) (auto simp: inj_on_def)

lemma card_grid_col: "card (grid h i ` {1..n}) = nat n"
  unfolding grid_def by (subst card_image) (auto simp: inj_on_def)

end
