(* ===== verification/Scale_Profiles.thy ===== *)
theory Scale_Profiles
  imports Py_Prelude
begin

text \<open>
  The benchmark scale profiles of \<open>netopsbench/models/profiles.py\<close>: the validated profile models,
  the derived switch and client counts, the merge of experiment defaults into a profile document
  and the registry with its \<open>merged\<close>, \<open>get\<close>, \<open>names\<close> and \<open>values\<close> operations. A pydantic
  model is a record and a \<open>validate_\<close> function that raises where a field constraint or the
  model validator does; the error of a field constraint carries the field's name.
  The built-in registry is the content of \<open>netopsbench/models/scale_profiles.yaml\<close>.
  Digests (a hash over the JSON form) and reading YAML files are not modelled.
\<close>

subsection \<open>Profile models\<close>

record clos_topology_profile =
  spines :: int
  leafs :: int
  prof_clients_per_leaf :: int

record fat_tree_topology_profile =
  prof_k :: int
  prof_clients_per_edge :: int

datatype topology_profile =
    ClosTopologyProfile clos_topology_profile
  | FatTreeTopologyProfile fat_tree_topology_profile

record management_profile =
  prefix :: int
  subnet_base :: int

record pingmesh_profile =
  prof_cross_rack_pairs :: "int option"
  prof_destination_batch_size :: "int option"
  prof_rtt_port_pool_size :: int
  prof_rtt_ports_per_cycle :: int
  prof_cycle_interval_seconds :: int

record runtime_profile =
  deploy_timeout_seconds :: int
  worker_deploy_parallelism :: int
  health_timeout_seconds :: int
  containerlab_max_workers :: "int option"

record experiment_profile =
  observation_seconds :: int
  diagnosis_timeout_seconds :: int
  recovery_timeout_seconds :: int
  flapping_down_seconds :: int
  flapping_up_seconds :: int

datatype purpose = Benchmark | Validation

record scale_profile =
  profile_name :: string
  profile_purpose :: purpose
  topology :: topology_profile
  management_prof :: management_profile
  pingmesh_prof :: pingmesh_profile
  max_pps_per_client :: int
  runtime_prof :: runtime_profile
  experiment_prof :: experiment_profile

definition field_error :: "string \<Rightarrow> py_error" where
  "field_error f = ValueError (''field constraint: '' @ f)"

text \<open>\<open>Field(gt=0)\<close> on a required and on an optional field.\<close>

definition gt0 :: "string \<Rightarrow> int \<Rightarrow> unit res" where
  "gt0 f i = raise_if (\<not> 0 < i) (field_error f)"

definition gt0_opt :: "string \<Rightarrow> int option \<Rightarrow> unit res" where
  "gt0_opt f io = (case io of None \<Rightarrow> Inr () | Some i \<Rightarrow> gt0 f i)"

definition validate_clos :: "clos_topology_profile \<Rightarrow> unit res" where
  "validate_clos p = rbind (gt0 ''spines'' (spines p)) (\<lambda>_. rbind (gt0 ''leafs'' (leafs p))
     (\<lambda>_. gt0 ''clients_per_leaf'' (prof_clients_per_leaf p)))"

definition validate_fat_tree :: "fat_tree_topology_profile \<Rightarrow> unit res" where
  "validate_fat_tree p = rbind (gt0 ''k'' (prof_k p)) (\<lambda>_. rbind (gt0 ''clients_per_edge'' (prof_clients_per_edge p))
     (\<lambda>_. rbind (raise_if (prof_k p mod 2 \<noteq> 0) (ValueError ''fat-tree k must be even''))
     (\<lambda>_. raise_if (prof_k p div 2 < prof_clients_per_edge p) (ValueError ''clients_per_edge cannot exceed k/2''))))"

definition validate_topology_profile :: "topology_profile \<Rightarrow> unit res" where
  "validate_topology_profile t = (case t of ClosTopologyProfile p \<Rightarrow> validate_clos p | FatTreeTopologyProfile p \<Rightarrow> validate_fat_tree p)"

definition validate_management :: "management_profile \<Rightarrow> unit res" where
  "validate_management m = rbind (raise_if (\<not> (16 \<le> prefix m \<and> prefix m \<le> 30)) (field_error ''prefix''))
     (\<lambda>_. raise_if (\<not> (0 \<le> subnet_base m \<and> subnet_base m \<le> 255)) (field_error ''subnet_base''))"

definition validate_port_batches :: "pingmesh_profile \<Rightarrow> unit res" where
  "validate_port_batches p =
     rbind (gt0_opt ''cross_rack_pairs'' (prof_cross_rack_pairs p)) (\<lambda>_.
     rbind (gt0_opt ''destination_batch_size'' (prof_destination_batch_size p)) (\<lambda>_.
     rbind (gt0 ''rtt_port_pool_size'' (prof_rtt_port_pool_size p)) (\<lambda>_.
     rbind (gt0 ''rtt_ports_per_cycle'' (prof_rtt_ports_per_cycle p)) (\<lambda>_.
     rbind (gt0 ''cycle_interval_seconds'' (prof_cycle_interval_seconds p)) (\<lambda>_.
     raise_if (prof_rtt_port_pool_size p < prof_rtt_ports_per_cycle p)
       (ValueError ''rtt_ports_per_cycle cannot exceed rtt_port_pool_size''))))))"

definition validate_runtime :: "runtime_profile \<Rightarrow> unit res" where
  "validate_runtime r =
     rbind (gt0 ''deploy_timeout_seconds'' (deploy_timeout_seconds r)) (\<lambda>_.
     rbind (gt0 ''worker_deploy_parallelism'' (worker_deploy_parallelism r)) (\<lambda>_.
     rbind (gt0 ''health_timeout_seconds'' (health_timeout_seconds r)) (\<lambda>_.
     gt0_opt ''containerlab_max_workers'' (containerlab_max_workers r))))"

definition validate_experiment :: "experiment_profile \<Rightarrow> unit res" where
  "validate_experiment e =
     rbind (gt0 ''observation_seconds'' (observation_seconds e)) (\<lambda>_.
     rbind (gt0 ''diagnosis_timeout_seconds'' (diagnosis_timeout_seconds e)) (\<lambda>_.
     rbind (gt0 ''recovery_timeout_seconds'' (recovery_timeout_seconds e)) (\<lambda>_.
     rbind (gt0 ''flapping_down_seconds'' (flapping_down_seconds e)) (\<lambda>_.
     gt0 ''flapping_up_seconds'' (flapping_up_seconds e)))))"

definition window_seconds :: "experiment_profile \<Rightarrow> int \<Rightarrow> int" where
  "window_seconds e complete_window_seconds = max (observation_seconds e) complete_window_seconds"

definition validate_scale_profile :: "scale_profile \<Rightarrow> unit res" where
  "validate_scale_profile p =
     rbind (raise_if (profile_name p = []) (field_error ''name'')) (\<lambda>_.
     rbind (validate_topology_profile (topology p)) (\<lambda>_.
     rbind (validate_management (management_prof p)) (\<lambda>_.
     rbind (validate_port_batches (pingmesh_prof p)) (\<lambda>_.
     rbind (gt0 ''max_pps_per_client'' (max_pps_per_client p)) (\<lambda>_.
     rbind (validate_runtime (runtime_prof p)) (\<lambda>_.
     validate_experiment (experiment_prof p)))))))"

subsection \<open>Derived facts\<close>

datatype topo_family = FClos | FFatTree

definition family :: "scale_profile \<Rightarrow> topo_family" where
  "family p = (case topology p of ClosTopologyProfile _ \<Rightarrow> FClos | FatTreeTopologyProfile _ \<Rightarrow> FFatTree)"

definition num_spines :: "scale_profile \<Rightarrow> int option" where
  "num_spines p = (case topology p of ClosTopologyProfile t \<Rightarrow> Some (spines t) | FatTreeTopologyProfile _ \<Rightarrow> None)"

definition num_leafs :: "scale_profile \<Rightarrow> int option" where
  "num_leafs p = (case topology p of ClosTopologyProfile t \<Rightarrow> Some (leafs t) | FatTreeTopologyProfile _ \<Rightarrow> None)"

definition fat_tree_k :: "scale_profile \<Rightarrow> int option" where
  "fat_tree_k p = (case topology p of ClosTopologyProfile _ \<Rightarrow> None | FatTreeTopologyProfile t \<Rightarrow> Some (prof_k t))"

definition num_cores :: "scale_profile \<Rightarrow> int option" where
  "num_cores p = (case topology p of ClosTopologyProfile _ \<Rightarrow> None | FatTreeTopologyProfile t \<Rightarrow> Some ((prof_k t div 2) ^ 2))"

definition num_aggs :: "scale_profile \<Rightarrow> int option" where
  "num_aggs p = (case topology p of ClosTopologyProfile _ \<Rightarrow> None | FatTreeTopologyProfile t \<Rightarrow> Some (prof_k t * (prof_k t div 2)))"

definition num_edges :: "scale_profile \<Rightarrow> int option" where
  "num_edges p = num_aggs p"

definition clients_per_attached_switch :: "scale_profile \<Rightarrow> int" where
  "clients_per_attached_switch p = (case topology p of ClosTopologyProfile t \<Rightarrow> prof_clients_per_leaf t
     | FatTreeTopologyProfile t \<Rightarrow> prof_clients_per_edge t)"

definition or0 :: "int option \<Rightarrow> int" where
  "or0 io = (case io of None \<Rightarrow> 0 | Some i \<Rightarrow> i)"

definition total_clients :: "scale_profile \<Rightarrow> int" where
  "total_clients p = (let attached_switches = (if family p = FClos then num_leafs p else num_edges p)
     in or0 attached_switches * clients_per_attached_switch p)"

definition total_switches :: "scale_profile \<Rightarrow> int" where
  "total_switches p = (if family p = FClos then or0 (num_spines p) + or0 (num_leafs p)
     else or0 (num_cores p) + or0 (num_aggs p) + or0 (num_edges p))"

subsection \<open>The registry\<close>

record scale_profile_document =
  override :: bool
  doc_profiles :: "scale_profile list"

type_synonym scale_registry = "scale_profile list"

fun check_duplicates :: "string list \<Rightarrow> scale_profile list \<Rightarrow> unit res" where
  "check_duplicates seen [] = Inr ()"
| "check_duplicates seen (p # ps) =
     (if profile_name p \<in> set seen then Inl (ValueError (''Duplicate scale profile: '' @ profile_name p))
      else check_duplicates (profile_name p # seen) ps)"

definition validate_profiles :: "scale_profile list \<Rightarrow> scale_registry res" where
  "validate_profiles ps =
     rbind (check_duplicates [] ps) (\<lambda>_.
     rbind (raise_if (ps = []) (ValueError ''Scale registry must contain at least one profile''))
     (\<lambda>_. Inr ps))"

definition profile_map :: "scale_registry \<Rightarrow> (string, scale_profile) dict" where
  "profile_map reg = dict_of (map (\<lambda>p. (profile_name p, p)) reg)"

definition merge_step :: "bool \<Rightarrow> (string, scale_profile) dict \<Rightarrow> scale_profile \<Rightarrow> (string, scale_profile) dict res" where
  "merge_step ovr profiles p =
     rbind (raise_if (profile_name p \<in> fst ` set profiles \<and> \<not> ovr)
        (ValueError (''Scale profile '' @ py_repr (profile_name p) @ '' already exists; set override: true in the profile file'')))
     (\<lambda>_. Inr (AList.update (profile_name p) p profiles))"

definition merged :: "scale_registry \<Rightarrow> scale_profile_document \<Rightarrow> scale_registry res" where
  "merged reg document =
     rbind (rfoldM (merge_step (override document)) (profile_map reg) (doc_profiles document))
       (\<lambda>profiles. validate_profiles (dict_values profiles))"

definition with_builtins :: "scale_profile list \<Rightarrow> scale_profile_document list \<Rightarrow> scale_registry res" where
  "with_builtins builtin docs = rbind (validate_profiles builtin) (\<lambda>reg. rfoldM merged reg docs)"

definition registry_get :: "scale_registry \<Rightarrow> string \<Rightarrow> scale_profile res" where
  "registry_get reg name = (case map_of (profile_map reg) name of
       Some p \<Rightarrow> Inr p
     | None \<Rightarrow> Inl (ValueError (''Unknown scale: '' @ name)))"

definition registry_names :: "scale_registry \<Rightarrow> string list" where
  "registry_names reg = dict_keys (profile_map reg)"

definition registry_values :: "scale_registry \<Rightarrow> scale_profile list" where
  "registry_values reg = dict_values (profile_map reg)"

text \<open>The experiment defaults of a document: the built-in values, overridden by the document's, and
  each profile's own on top (dict merges \<open>{**a, **b}\<close>).\<close>

definition dict_merge :: "pydict \<Rightarrow> pydict \<Rightarrow> pydict" where
  "dict_merge a b = fold (\<lambda>(k, v) d. AList.update k v d) b a"

text \<open>\<open>{**v}\<close> needs a mapping.\<close>

definition as_mapping :: "pyval \<Rightarrow> pydict res" where
  "as_mapping v = (case v of PDict d \<Rightarrow> Inr d | _ \<Rightarrow> Inl (TypeError ''object is not a mapping''))"

definition merge_profile_experiment :: "pydict \<Rightarrow> pyval \<Rightarrow> pyval res" where
  "merge_profile_experiment defaults profile =
     (case profile of
        PDict d \<Rightarrow>
          rbind (case map_of d ''experiment'' of None \<Rightarrow> Inr [] | Some v \<Rightarrow> as_mapping v)
            (\<lambda>own. Inr (PDict (AList.update ''experiment'' (PDict (dict_merge defaults own)) d)))
      | v \<Rightarrow> Inr v)"

definition as_list :: "pyval \<Rightarrow> pyval list res" where
  "as_list v = (case v of PList vs \<Rightarrow> Inr vs | _ \<Rightarrow> Inl (TypeError ''object is not a list''))"

definition resolve_experiment_defaults :: "pydict \<Rightarrow> pyval \<Rightarrow> pyval res" where
  "resolve_experiment_defaults builtin value =
     (case value of
        PDict payload \<Rightarrow>
          (let given = get_val payload ''experiment_defaults'' in
           rbind (if truthy given then as_mapping given else Inr []) (\<lambda>supplied.
           let defaults = dict_merge builtin supplied;
               payload1 = AList.update ''experiment_defaults'' (PDict defaults) payload in
           rbind (case map_of payload ''profiles'' of None \<Rightarrow> Inr [] | Some v \<Rightarrow> as_list v) (\<lambda>ps.
           rbind (rmapM (merge_profile_experiment defaults) ps) (\<lambda>profiles.
           Inr (PDict (AList.update ''profiles'' (PList profiles) payload1))))))
      | v \<Rightarrow> Inr v)"

text \<open>The built-in document, \<open>scale_profiles.yaml\<close>, after the experiment defaults are merged in.\<close>

definition default_experiment_profile :: experiment_profile where
  "default_experiment_profile = \<lparr>observation_seconds = 30, diagnosis_timeout_seconds = 600,
     recovery_timeout_seconds = 120, flapping_down_seconds = 10, flapping_up_seconds = 10\<rparr>"

definition builtin_profiles :: "scale_profile list" where
  "builtin_profiles =
    [\<lparr>profile_name = ''xs'', profile_purpose = Validation, topology = ClosTopologyProfile \<lparr>spines = 2, leafs = 2, prof_clients_per_leaf = 1\<rparr>,
      management_prof = \<lparr>prefix = 24, subnet_base = 100\<rparr>,
      pingmesh_prof = \<lparr>prof_cross_rack_pairs = None, prof_destination_batch_size = None, prof_rtt_port_pool_size = 16,
        prof_rtt_ports_per_cycle = 8, prof_cycle_interval_seconds = 1\<rparr>,
      max_pps_per_client = 250,
      runtime_prof = \<lparr>deploy_timeout_seconds = 1800, worker_deploy_parallelism = 2, health_timeout_seconds = 60,
        containerlab_max_workers = None\<rparr>,
      experiment_prof = default_experiment_profile\<lparr>recovery_timeout_seconds := 120\<rparr>\<rparr>,
     \<lparr>profile_name = ''medium'', profile_purpose = Benchmark, topology = ClosTopologyProfile \<lparr>spines = 4, leafs = 8, prof_clients_per_leaf = 2\<rparr>,
      management_prof = \<lparr>prefix = 24, subnet_base = 140\<rparr>,
      pingmesh_prof = \<lparr>prof_cross_rack_pairs = None, prof_destination_batch_size = None, prof_rtt_port_pool_size = 16,
        prof_rtt_ports_per_cycle = 6, prof_cycle_interval_seconds = 1\<rparr>,
      max_pps_per_client = 200,
      runtime_prof = \<lparr>deploy_timeout_seconds = 1800, worker_deploy_parallelism = 2, health_timeout_seconds = 60,
        containerlab_max_workers = None\<rparr>,
      experiment_prof = default_experiment_profile\<lparr>recovery_timeout_seconds := 120\<rparr>\<rparr>,
     \<lparr>profile_name = ''large'', profile_purpose = Benchmark, topology = ClosTopologyProfile \<lparr>spines = 4, leafs = 16, prof_clients_per_leaf = 4\<rparr>,
      management_prof = \<lparr>prefix = 24, subnet_base = 160\<rparr>,
      pingmesh_prof = \<lparr>prof_cross_rack_pairs = None, prof_destination_batch_size = Some 16, prof_rtt_port_pool_size = 16,
        prof_rtt_ports_per_cycle = 4, prof_cycle_interval_seconds = 3\<rparr>,
      max_pps_per_client = 100,
      runtime_prof = \<lparr>deploy_timeout_seconds = 2700, worker_deploy_parallelism = 1, health_timeout_seconds = 180,
        containerlab_max_workers = Some 16\<rparr>,
      experiment_prof = default_experiment_profile\<lparr>recovery_timeout_seconds := 180\<rparr>\<rparr>,
     \<lparr>profile_name = ''xlarge'', profile_purpose = Benchmark, topology = ClosTopologyProfile \<lparr>spines = 16, leafs = 128, prof_clients_per_leaf = 2\<rparr>,
      management_prof = \<lparr>prefix = 23, subnet_base = 180\<rparr>,
      pingmesh_prof = \<lparr>prof_cross_rack_pairs = Some 1, prof_destination_batch_size = Some 16, prof_rtt_port_pool_size = 16,
        prof_rtt_ports_per_cycle = 4, prof_cycle_interval_seconds = 3\<rparr>,
      max_pps_per_client = 50,
      runtime_prof = \<lparr>deploy_timeout_seconds = 3600, worker_deploy_parallelism = 1, health_timeout_seconds = 240,
        containerlab_max_workers = Some 16\<rparr>,
      experiment_prof = default_experiment_profile\<lparr>recovery_timeout_seconds := 240\<rparr>\<rparr>,
     \<lparr>profile_name = ''fat-tree-k8'', profile_purpose = Benchmark, topology = FatTreeTopologyProfile \<lparr>prof_k = 8, prof_clients_per_edge = 4\<rparr>,
      management_prof = \<lparr>prefix = 24, subnet_base = 200\<rparr>,
      pingmesh_prof = \<lparr>prof_cross_rack_pairs = None, prof_destination_batch_size = Some 16, prof_rtt_port_pool_size = 16,
        prof_rtt_ports_per_cycle = 4, prof_cycle_interval_seconds = 3\<rparr>,
      max_pps_per_client = 100,
      runtime_prof = \<lparr>deploy_timeout_seconds = 3600, worker_deploy_parallelism = 1, health_timeout_seconds = 240,
        containerlab_max_workers = Some 16\<rparr>,
      experiment_prof = default_experiment_profile\<lparr>recovery_timeout_seconds := 240\<rparr>\<rparr>,
     \<lparr>profile_name = ''fat-tree-k12'', profile_purpose = Benchmark, topology = FatTreeTopologyProfile \<lparr>prof_k = 12, prof_clients_per_edge = 2\<rparr>,
      management_prof = \<lparr>prefix = 23, subnet_base = 220\<rparr>,
      pingmesh_prof = \<lparr>prof_cross_rack_pairs = None, prof_destination_batch_size = Some 32, prof_rtt_port_pool_size = 16,
        prof_rtt_ports_per_cycle = 4, prof_cycle_interval_seconds = 3\<rparr>,
      max_pps_per_client = 50,
      runtime_prof = \<lparr>deploy_timeout_seconds = 5400, worker_deploy_parallelism = 1, health_timeout_seconds = 300,
        containerlab_max_workers = Some 16\<rparr>,
      experiment_prof = default_experiment_profile\<lparr>recovery_timeout_seconds := 300\<rparr>\<rparr>,
     \<lparr>profile_name = ''fat-tree-k18'', profile_purpose = Benchmark, topology = FatTreeTopologyProfile \<lparr>prof_k = 18, prof_clients_per_edge = 2\<rparr>,
      management_prof = \<lparr>prefix = 22, subnet_base = 224\<rparr>,
      pingmesh_prof = \<lparr>prof_cross_rack_pairs = Some 1, prof_destination_batch_size = Some 32, prof_rtt_port_pool_size = 16,
        prof_rtt_ports_per_cycle = 4, prof_cycle_interval_seconds = 3\<rparr>,
      max_pps_per_client = 50,
      runtime_prof = \<lparr>deploy_timeout_seconds = 10800, worker_deploy_parallelism = 1, health_timeout_seconds = 600,
        containerlab_max_workers = Some 16\<rparr>,
      experiment_prof = default_experiment_profile\<lparr>recovery_timeout_seconds := 600\<rparr>\<rparr>]"

definition default_scale_registry :: "scale_registry res" where
  "default_scale_registry = with_builtins builtin_profiles []"

subsection \<open>The registry as a map\<close>

definition registry_wf :: "scale_registry \<Rightarrow> bool" where
  "registry_wf reg \<longleftrightarrow> distinct (map profile_name reg) \<and> reg \<noteq> []"

lemma check_duplicates_ok:
  "(check_duplicates seen ps = Inr ()) = (distinct (map profile_name ps) \<and> set (map profile_name ps) \<inter> set seen = {})"
  by (induction ps arbitrary: seen) auto

lemma validate_profiles_ok: "(validate_profiles ps = Inr reg) = (registry_wf ps \<and> reg = ps)"
  by (auto simp: validate_profiles_def rbind_eq_Inr check_duplicates_ok registry_wf_def)

lemma profile_map_wf: "registry_wf reg \<Longrightarrow> profile_map reg = map (\<lambda>p. (profile_name p, p)) reg"
  by (simp add: profile_map_def registry_wf_def dict_of_distinct comp_def)

text \<open>The dictionary that \<open>merged\<close> builds keeps every profile under its own name.\<close>

definition named_dict :: "(string, scale_profile) dict \<Rightarrow> bool" where
  "named_dict d \<longleftrightarrow> wf_dict d \<and> (\<forall>(k, p) \<in> set d. k = profile_name p)"

lemma named_dict_values: "named_dict d \<Longrightarrow> map profile_name (dict_values d) = map fst d"
  by (auto simp: named_dict_def dict_values_def)

lemma named_dict_update: "named_dict d \<Longrightarrow> named_dict (AList.update (profile_name p) p d)"
  using set_alist_update [of "profile_name p" p d] by (auto simp: named_dict_def al.wf_store)

lemma named_dict_profile_map: "named_dict (profile_map reg)"
proof -
  have "\<forall>(k, p) \<in> set d. k = profile_name p \<Longrightarrow>
      \<forall>(k, p) \<in> set (fold (\<lambda>(k, v) d. AList.update k v d) (map (\<lambda>p. (profile_name p, p)) reg) d). k = profile_name p" for d
  proof (induction reg arbitrary: d)
    case (Cons p reg)
    then show ?case using set_alist_update [of "profile_name p" p d] by simp blast
  qed simp
  from this [of "[]"] show ?thesis
    using wf_dict_of by (auto simp: named_dict_def profile_map_def dict_of_def)
qed

lemma merge_fold_named:
  "rfoldM (merge_step ovr) d ps = Inr d' \<Longrightarrow> named_dict d \<Longrightarrow> named_dict d'"
  by (rule rfoldM_invariant) (auto simp: merge_step_def rbind_eq_Inr named_dict_update)

lemma merge_fold_lookup:
  "rfoldM (merge_step ovr) d ps = Inr d' \<Longrightarrow>
     map_of d' n = (case find (\<lambda>p. profile_name p = n) (rev ps) of None \<Rightarrow> map_of d n | Some p \<Rightarrow> Some p)"
proof (induction ps arbitrary: d)
  case (Cons p ps)
  then show ?case
    by (auto simp: rbind_eq_Inr merge_step_def find_append AList.update_conv split: option.splits)
qed simp

lemma merge_fold_ok:
  "is_ok (rfoldM (merge_step ovr) d ps) =
     (ovr \<or> (distinct (map profile_name ps) \<and> set (map profile_name ps) \<inter> fst ` set d = {}))"
proof (induction ps arbitrary: d)
  case (Cons p ps)
  show ?case
  proof (cases "ovr \<or> profile_name p \<notin> fst ` set d")
    case True
    then show ?thesis using Cons [of "AList.update (profile_name p) p d"]
      by (auto simp: merge_step_def AList.dom_update)
  next
    case False
    then show ?thesis by (simp add: merge_step_def)
  qed
qed simp

lemma merge_fold_nonempty: "rfoldM (merge_step ovr) d ps = Inr d' \<Longrightarrow> d \<noteq> [] \<Longrightarrow> d' \<noteq> []"
  by (rule rfoldM_invariant [where P = "\<lambda>d. d \<noteq> []"]) (auto simp: merge_step_def rbind_eq_Inr)

lemma find_rev_unique:
  assumes "distinct (map f xs)"
  shows "find (\<lambda>x. f x = n) (rev xs) = find (\<lambda>x. f x = n) xs"
  using assms
proof (induction xs)
  case (Cons x xs)
  then have ih: "find (\<lambda>x. f x = n) (rev xs) = find (\<lambda>x. f x = n) xs" by simp
  show ?case
  proof (cases "f x = n")
    case True
    then have "find (\<lambda>x. f x = n) xs = None" using Cons.prems by (auto simp: find_None_iff) (metis imageI)
    then show ?thesis using True by (simp add: find_append ih)
  next
    case False
    then show ?thesis by (auto simp: find_append ih split: option.splits)
  qed
qed simp

lemma registry_get_map: "registry_wf reg \<Longrightarrow> registry_get reg n =
    (case find (\<lambda>p. profile_name p = n) reg of Some p \<Rightarrow> Inr p | None \<Rightarrow> Inl (ValueError (''Unknown scale: '' @ n)))"
proof -
  assume "registry_wf reg"
  moreover have "map_of (map (\<lambda>p. (profile_name p, p)) reg) n = find (\<lambda>p. profile_name p = n) reg"
    by (induction reg) auto
  ultimately show ?thesis by (simp add: registry_get_def profile_map_wf)
qed

lemma registry_get_named: "registry_get reg n = Inr p \<Longrightarrow> profile_name p = n"
  using named_dict_profile_map [of reg]
  by (auto simp: registry_get_def named_dict_def dest!: map_of_SomeD split: option.splits)

lemma dict_values_profile_map:
  assumes "named_dict d"
  shows "profile_map (dict_values d) = d"
proof -
  have "map (\<lambda>p. (profile_name p, p)) (dict_values d) = d"
    using assms by (auto simp: named_dict_def dict_values_def intro!: map_idI)
  then show ?thesis
    using assms dict_of_distinct [of d] by (simp add: profile_map_def named_dict_def wf_dict_def)
qed

text \<open>Merging a profile document into a valid registry gives a valid registry in which a name
  resolves to the document's last profile of that name, and to the old profile otherwise.\<close>

lemma merged_lookup:
  assumes "registry_wf reg" and "merged reg doc = Inr reg'"
  shows "registry_wf reg' \<and> registry_get reg' n =
    (case find (\<lambda>p. profile_name p = n) (rev (doc_profiles doc)) of Some p \<Rightarrow> Inr p | None \<Rightarrow> registry_get reg n)"
proof -
  obtain d where d: "rfoldM (merge_step (override doc)) (profile_map reg) (doc_profiles doc) = Inr d"
      and reg': "registry_wf (dict_values d)" "reg' = dict_values d"
    using assms(2) by (auto simp: merged_def rbind_eq_Inr validate_profiles_ok)
  have "named_dict d" using merge_fold_named [OF d] named_dict_profile_map by blast
  then have "map_of (profile_map reg') n = map_of d n" by (simp add: reg'(2) dict_values_profile_map)
  with merge_fold_lookup [OF d, of n] reg' show ?thesis
    by (auto simp: registry_get_def split: option.splits)
qed

text \<open>A merge is rejected exactly when the document does not set \<open>override\<close> and names a profile
  that the registry or the document itself already has.\<close>

lemma merged_rejects_clash:
  assumes "registry_wf reg"
  shows "is_ok (merged reg doc) = (override doc \<or>
    (distinct (map profile_name (doc_profiles doc)) \<and>
     set (map profile_name (doc_profiles doc)) \<inter> set (registry_names reg) = {}))"
proof -
  let ?f = "rfoldM (merge_step (override doc)) (profile_map reg) (doc_profiles doc)"
  have "is_ok (merged reg doc) = is_ok ?f"
  proof (cases ?f)
    case (Inr d)
    have "named_dict d" using merge_fold_named [OF Inr] named_dict_profile_map by blast
    moreover have "d \<noteq> []"
      using merge_fold_nonempty [OF Inr] assms by (simp add: profile_map_wf registry_wf_def)
    ultimately have "registry_wf (dict_values d)"
      by (simp add: registry_wf_def named_dict_values named_dict_def wf_dict_def) (simp add: dict_values_def)
    then show ?thesis using Inr by (simp add: merged_def validate_profiles_ok is_ok_iff)
  qed (simp add: merged_def)
  then show ?thesis by (simp add: merge_fold_ok registry_names_def dict_keys_def)
qed

text \<open>Profile files are merged one after the other, so the last definition of a name wins.\<close>

lemma with_builtins_lookup:
  assumes "with_builtins builtin docs = Inr reg"
  shows "registry_wf reg \<and> registry_get reg n =
    (case find (\<lambda>p. profile_name p = n) (rev (builtin @ concat (map doc_profiles docs))) of
       Some p \<Rightarrow> Inr p | None \<Rightarrow> Inl (ValueError (''Unknown scale: '' @ n)))"
proof -
  have "registry_wf reg' \<and> registry_get reg' n = (case find (\<lambda>p. profile_name p = n) (rev (concat (map doc_profiles docs))) of
      Some p \<Rightarrow> Inr p | None \<Rightarrow> registry_get reg0 n)"
    if "registry_wf reg0" "rfoldM merged reg0 docs = Inr reg'" for reg0 reg'
    using that
  proof (induction docs arbitrary: reg0)
    case (Cons doc docs)
    then obtain reg1 where m: "merged reg0 doc = Inr reg1" "rfoldM merged reg1 docs = Inr reg'"
      by (auto simp: rbind_eq_Inr)
    show ?case
      using Cons.IH [OF _ m(2)] merged_lookup [OF Cons.prems(1) m(1), of n]
      by (auto simp: find_append split: option.splits)
  qed simp
  moreover have wf: "registry_wf builtin" "rfoldM merged builtin docs = Inr reg"
    using assms by (auto simp: with_builtins_def rbind_eq_Inr validate_profiles_ok)
  moreover have "find (\<lambda>p. profile_name p = n) (rev builtin) = find (\<lambda>p. profile_name p = n) builtin"
    using wf(1) by (intro find_rev_unique) (auto simp: registry_wf_def)
  ultimately show ?thesis
    by (auto simp: find_append registry_get_map [OF wf(1)] split: option.splits)
qed

text \<open>C13: a registry built from the built-in profiles and any number of profile files is valid: it is not
  empty and its names are distinct. A name resolves to the last profile of that name in the built-in profiles
  and the files, in order, and any other name is an unknown scale. A further file is rejected exactly when it
  does not set \<open>override\<close> and redefines a name of the registry or uses a name twice itself.\<close>

theorem registry_last_definition_wins:
  assumes "with_builtins builtin docs = Inr reg"
  shows "registry_wf reg
   \<and> registry_get reg n = (case find (\<lambda>p. profile_name p = n) (rev (builtin @ concat (map doc_profiles docs))) of
       Some p \<Rightarrow> Inr p | None \<Rightarrow> Inl (ValueError (''Unknown scale: '' @ n)))
   \<and> is_ok (merged reg doc) = (override doc \<or> (distinct (map profile_name (doc_profiles doc))
       \<and> set (map profile_name (doc_profiles doc)) \<inter> set (registry_names reg) = {}))"
  using with_builtins_lookup [OF assms, of n] merged_rejects_clash [of reg doc] by blast

text \<open>Every built-in profile passes validation, the default registry is built from them without an error, and
  the derived switch and client counts of each scale are the published ones. There is no profile named
  \<open>small\<close>.\<close>

lemma builtin_registry:
  "list_all (\<lambda>p. validate_scale_profile p = Inr ()) builtin_profiles
   \<and> default_scale_registry = Inr builtin_profiles
   \<and> map (\<lambda>p. (profile_name p, total_switches p, total_clients p)) builtin_profiles =
      [(''xs'', 4, 2), (''medium'', 12, 16), (''large'', 20, 64), (''xlarge'', 144, 256),
       (''fat-tree-k8'', 80, 128), (''fat-tree-k12'', 180, 144), (''fat-tree-k18'', 405, 324)]
   \<and> registry_get builtin_profiles ''small'' = Inl (ValueError ''Unknown scale: small'')"
proof (intro conjI)
  have wf: "registry_wf builtin_profiles"
    by (simp add: registry_wf_def builtin_profiles_def)
  then show "default_scale_registry = Inr builtin_profiles"
    by (simp add: default_scale_registry_def with_builtins_def validate_profiles_ok rbind_eq_Inr)
  show "registry_get builtin_profiles ''small'' = Inl (ValueError ''Unknown scale: small'')"
    by (simp add: registry_get_map [OF wf]) (simp add: builtin_profiles_def)
  show "list_all (\<lambda>p. validate_scale_profile p = Inr ()) builtin_profiles"
    by (simp add: builtin_profiles_def default_experiment_profile_def validate_scale_profile_def
        validate_topology_profile_def validate_clos_def validate_fat_tree_def validate_management_def
        validate_port_batches_def validate_runtime_def validate_experiment_def gt0_def gt0_opt_def)
  show "map (\<lambda>p. (profile_name p, total_switches p, total_clients p)) builtin_profiles =
      [(''xs'', 4, 2), (''medium'', 12, 16), (''large'', 20, 64), (''xlarge'', 144, 256),
       (''fat-tree-k8'', 80, 128), (''fat-tree-k12'', 180, 144), (''fat-tree-k18'', 405, 324)]"
    by (simp add: builtin_profiles_def total_switches_def total_clients_def family_def num_spines_def
        num_leafs_def num_cores_def num_aggs_def num_edges_def clients_per_attached_switch_def or0_def Let_def)
qed

theorem registry_last_definition_wins_witness:
  "registry_get [(hd builtin_profiles)\<lparr>max_pps_per_client := 99\<rparr>] ''xs'' = Inr ((hd builtin_profiles)\<lparr>max_pps_per_client := 99\<rparr>)"
proof -
  let ?p = "(hd builtin_profiles)\<lparr>max_pps_per_client := 99\<rparr>"
  have "with_builtins [hd builtin_profiles] [\<lparr>override = True, doc_profiles = [?p]\<rparr>] = Inr [?p]" by code_simp
  from registry_last_definition_wins [OF this, of "''xs''"] show ?thesis by (simp add: builtin_profiles_def)
qed

end
