(* ===== verification/Addressing.thy ===== *)
theory Addressing
  imports Py_Prelude
begin

text \<open>
  IPv4 addressing for the generated fabrics: what \<open>planning.py\<close> uses of Python's \<open>ipaddress\<close>
  module, and its classes \<open>ManagementAddressing\<close> and \<open>ClientAddressing\<close>. An address is an
  \<open>int\<close> below \<open>2 ^ 32\<close>, \<open>show_ip\<close> and \<open>parse_ip\<close> are its dotted form, and a network is its
  address and prefix length. An integer from \<open>2 ^ 32\<close> up is an IPv6 address for
  \<open>ip_address\<close>, which is in no IPv4 network; its text is never computed, because only members of
  the network are printed. A network is written \<open>address/length\<close>; the netmask notation that
  \<open>ip_network\<close> also reads is a \<open>ValueError\<close> here. The text of an IPv6 address or network is a
  \<open>ValueError\<close> too, as in the code, which raises it with another message once it has been read.
  The set of allocated offsets is a list without order of its own, since it is only searched and
  checked.
  Shown: the dotted form can be read back; management addresses are in the subnet, never
  reserved and distinct for distinct offsets; a collector address never collides with a
  device; the access links of all racks have disjoint /30 networks inside the rack's /24.
\<close>

subsection \<open>Addresses and their text\<close>

definition show_ip :: "int \<Rightarrow> string" where
  "show_ip a = show_int (a div 2 ^ 24) @ ''.'' @ show_int (a div 2 ^ 16 mod 256) @ ''.''
     @ show_int (a div 2 ^ 8 mod 256) @ ''.'' @ show_int (a mod 256)"

fun split_on :: "char \<Rightarrow> string \<Rightarrow> string list" where
  "split_on c [] = [[]]"
| "split_on c (x # xs) = (if x = c then [] # split_on c xs
     else case split_on c xs of [] \<Rightarrow> [[x]] | w # ws \<Rightarrow> (x # w) # ws)"

definition parse_octet :: "string \<Rightarrow> int res" where
  "parse_octet s =
     (if s \<noteq> [] \<and> list_all is_digit s \<and> length s \<le> 3 \<and> (length s = 1 \<or> hd s \<noteq> CHR ''0'') \<and> nat_of_digits s \<le> 255
      then Inr (int (nat_of_digits s)) else Inl (ValueError ''invalid octet''))"

definition parse_ip :: "string \<Rightarrow> int res" where
  "parse_ip s = (case split_on CHR ''.'' s of
       [a, b, c, d] \<Rightarrow>
         rbind (parse_octet a) (\<lambda>a. rbind (parse_octet b) (\<lambda>b. rbind (parse_octet c) (\<lambda>c.
         rbind (parse_octet d) (\<lambda>d. Inr (a * 2 ^ 24 + b * 2 ^ 16 + c * 2 ^ 8 + d)))))
     | _ \<Rightarrow> Inl (ValueError ''not an IPv4 address''))"

text \<open>\<open>ipaddress.ip_address\<close> of an integer: an IPv4 address when it fits, otherwise an IPv6 one.\<close>

datatype ip_addr = IPv4 (ip_value: int) | IPv6 (ip_value: int)

definition ip_of_int :: "int \<Rightarrow> ip_addr res" where
  "ip_of_int a =
     (if 0 \<le> a \<and> a < 2 ^ 32 then Inr (IPv4 a)
      else if 0 \<le> a \<and> a < 2 ^ 128 then Inr (IPv6 a)
      else Inl (ValueError (show_int a @ '' does not appear to be an IPv4 or IPv6 address'')))"

text \<open>\<open>IPv4Address\<close> of an integer.\<close>

definition ipv4_of_int :: "int \<Rightarrow> int res" where
  "ipv4_of_int a = rbind (raise_if (\<not> (0 \<le> a \<and> a < 2 ^ 32)) (ValueError ''not an IPv4 address'')) (\<lambda>_. Inr a)"

record ipv4_network =
  network_address :: int
  prefixlen :: nat

definition num_addresses :: "ipv4_network \<Rightarrow> int" where
  "num_addresses n = 2 ^ (32 - prefixlen n)"

definition broadcast_address :: "ipv4_network \<Rightarrow> int" where
  "broadcast_address n = network_address n + num_addresses n - 1"

definition in_network :: "int \<Rightarrow> ipv4_network \<Rightarrow> bool" where
  "in_network a n \<longleftrightarrow> network_address n \<le> a \<and> a \<le> broadcast_address n"

definition is_reserved :: "int \<Rightarrow> ipv4_network \<Rightarrow> bool" where
  "is_reserved a n \<longleftrightarrow> a = network_address n \<or> a = broadcast_address n"

text \<open>The same tests of an address of either version.\<close>

fun ip_in_network :: "ip_addr \<Rightarrow> ipv4_network \<Rightarrow> bool" where
  "ip_in_network (IPv4 a) n = in_network a n"
| "ip_in_network (IPv6 a) n = False"

fun ip_is_reserved :: "ip_addr \<Rightarrow> ipv4_network \<Rightarrow> bool" where
  "ip_is_reserved (IPv4 a) n = is_reserved a n"
| "ip_is_reserved (IPv6 a) n = False"

definition show_network :: "ipv4_network \<Rightarrow> string" where
  "show_network n = show_ip (network_address n) @ ''/'' @ show_nat (prefixlen n)"

text \<open>\<open>ip_network(s, strict=False)\<close>: host bits are cleared.\<close>

definition parse_network :: "string \<Rightarrow> ipv4_network res" where
  "parse_network s = (case split_on CHR ''/'' s of
       [a] \<Rightarrow> rbind (parse_ip a) (\<lambda>a. Inr \<lparr>network_address = a, prefixlen = 32\<rparr>)
     | [a, p] \<Rightarrow> rbind (parse_ip a) (\<lambda>a.
         rbind (raise_if (\<not> (p \<noteq> [] \<and> list_all is_digit p \<and> nat_of_digits p \<le> 32)) (ValueError ''invalid prefix'')) (\<lambda>_.
         let len = nat_of_digits p in Inr \<lparr>network_address = a - a mod 2 ^ (32 - len), prefixlen = len\<rparr>))
     | _ \<Rightarrow> Inl (ValueError ''not an IPv4 network''))"

text \<open>\<open>IPv4Network((address, length))\<close>: host bits are an error.\<close>

definition mk_network :: "int \<Rightarrow> nat \<Rightarrow> ipv4_network res" where
  "mk_network a len = rbind (ipv4_of_int a) (\<lambda>a.
     rbind (raise_if (a mod 2 ^ (32 - len) \<noteq> 0) (ValueError ''has host bits set'')) (\<lambda>_.
     Inr \<lparr>network_address = a, prefixlen = len\<rparr>))"

subsection \<open>ManagementAddressing\<close>

record management_addressing =
  ma_network :: ipv4_network
  allocated_offsets :: "int list"

definition host_addr :: "management_addressing \<Rightarrow> int \<Rightarrow> int res" where
  "host_addr ma offset =
     rbind (raise_if (offset \<le> 0) (ValueError (''Management host offset must be positive, got '' @ show_int offset))) (\<lambda>_.
     rbind (ip_of_int (network_address (ma_network ma) + offset)) (\<lambda>candidate.
     rbind (raise_if (\<not> ip_in_network candidate (ma_network ma))
        (ValueError (''Management host offset '' @ show_int offset @ '' falls outside subnet '' @ show_network (ma_network ma)))) (\<lambda>_.
     rbind (raise_if (ip_is_reserved candidate (ma_network ma))
        (ValueError (''Management host offset '' @ show_int offset @ '' resolves to reserved address '' @ show_ip (ip_value candidate)))) (\<lambda>_.
     Inr (ip_value candidate)))))"

definition host_ip :: "management_addressing \<Rightarrow> int \<Rightarrow> string res" where
  "host_ip ma offset = rbind (host_addr ma offset) (\<lambda>a. Inr (show_ip a))"

definition create_addressing :: "string \<Rightarrow> int list \<Rightarrow> management_addressing res" where
  "create_addressing subnet offsets =
     rbind (parse_network subnet) (\<lambda>network.
     let addressing = \<lparr>ma_network = network, allocated_offsets = offsets\<rparr> in
     rbind (rmapM (host_ip addressing) offsets) (\<lambda>_. Inr addressing))"

definition allocated_ips :: "management_addressing \<Rightarrow> ip_addr list res" where
  "allocated_ips ma = rmapM (\<lambda>off. ip_of_int (network_address (ma_network ma) + off)) (allocated_offsets ma)"

definition validate_collector :: "management_addressing \<Rightarrow> string \<Rightarrow> string res" where
  "validate_collector ma collector_ip =
     rbind (parse_ip collector_ip) (\<lambda>candidate.
     rbind (raise_if (\<not> in_network candidate (ma_network ma))
        (ValueError (''Collector IP '' @ collector_ip @ '' falls outside management subnet '' @ show_network (ma_network ma)))) (\<lambda>_.
     rbind (raise_if (is_reserved candidate (ma_network ma))
        (ValueError (''Collector IP '' @ collector_ip @ '' is reserved in management subnet '' @ show_network (ma_network ma)))) (\<lambda>_.
     rbind (allocated_ips ma) (\<lambda>allocated.
     rbind (raise_if (IPv4 candidate \<in> set allocated)
        (ValueError (''Collector IP '' @ collector_ip @ '' overlaps a generated device management address''))) (\<lambda>_.
     Inr (show_ip candidate))))))"

definition default_collector :: "management_addressing \<Rightarrow> int \<Rightarrow> bool \<Rightarrow> string res" where
  "default_collector ma last_device_offset prefer_offset_200 =
     (let net = ma_network ma;
          fallback_branch =
            rbind (ip_of_int (network_address net + last_device_offset + 1)) (\<lambda>fallback.
            if \<not> ip_in_network fallback net \<or> ip_is_reserved fallback net
            then rbind (ip_of_int (broadcast_address net - 1)) (\<lambda>fallback. validate_collector ma (show_ip (ip_value fallback)))
            else validate_collector ma (show_ip (ip_value fallback)))
      in if prefer_offset_200 \<and> last_device_offset < 200
         then rbind (ip_of_int (network_address net + 200)) (\<lambda>preferred.
              if ip_in_network preferred net \<and> \<not> ip_is_reserved preferred net
              then validate_collector ma (show_ip (ip_value preferred)) else fallback_branch)
         else fallback_branch)"

definition sonic_port_name :: "int \<Rightarrow> string" where
  "sonic_port_name eth_index = ''Ethernet'' @ show_int ((eth_index - 1) * 4)"

subsection \<open>ClientAddressing\<close>

record client_addressing =
  rack_count :: int
  clients_per_rack :: int

definition mk_client_addressing :: "int \<Rightarrow> int \<Rightarrow> client_addressing res" where
  "mk_client_addressing racks clients =
     rbind (raise_if (\<not> (1 \<le> racks \<and> racks \<le> 255)) (ValueError ''Client address pool supports 1-255 racks'')) (\<lambda>_.
     rbind (raise_if (\<not> (1 \<le> clients \<and> clients \<le> 64)) (ValueError ''Each client /24 supports 1-64 access links'')) (\<lambda>_.
     Inr \<lparr>rack_count = racks, clients_per_rack = clients\<rparr>))"

definition client_pool_base :: int where
  "client_pool_base = 192 * 2 ^ 24 + 168 * 2 ^ 16"

definition rack_subnet :: "client_addressing \<Rightarrow> int \<Rightarrow> ipv4_network res" where
  "rack_subnet ca rack =
     rbind (raise_if (\<not> (1 \<le> rack \<and> rack \<le> rack_count ca)) (ValueError ''Client rack index exceeds allocated address pool'')) (\<lambda>_.
     mk_network (client_pool_base + rack * 256) 24)"

text \<open>The two hosts of a /30 are its middle addresses: the gateway and the client.\<close>

definition access_addrs :: "client_addressing \<Rightarrow> int \<Rightarrow> int \<Rightarrow> (ipv4_network \<times> int \<times> int) res" where
  "access_addrs ca rack position =
     rbind (raise_if (\<not> (1 \<le> position \<and> position \<le> clients_per_rack ca)) (ValueError ''Client position exceeds allocated rack capacity'')) (\<lambda>_.
     rbind (rack_subnet ca rack) (\<lambda>subnet.
     rbind (mk_network (network_address subnet + (position - 1) * 4) 30) (\<lambda>network.
     Inr (network, network_address network + 1, network_address network + 2))))"

definition access :: "client_addressing \<Rightarrow> int \<Rightarrow> int \<Rightarrow> (string \<times> string \<times> string) res" where
  "access ca rack position = rbind (access_addrs ca rack position)
     (\<lambda>(network, gateway, client). Inr (show_network network, show_ip gateway, show_ip client))"

subsection \<open>The dotted form\<close>

lemma split_on_append:
  assumes "c \<notin> set a"
  shows "split_on c (a @ c # b) = a # split_on c b"
  using assms by (induction a) auto

lemma split_on_single: "c \<notin> set a \<Longrightarrow> split_on c a = [a]"
  by (induction a) auto

lemma show_nat_octet:
  assumes "n \<le> 255"
  shows "length (show_nat n) \<le> 3 \<and> (length (show_nat n) = 1 \<or> hd (show_nat n) \<noteq> CHR ''0'')"
proof -
  have one: "digit_char d \<noteq> CHR ''0''" if "0 < d" "d < 10" for d
    using that by (auto simp: digit_char_def less_Suc_eq numeral_eq_Suc)
  consider "n < 10" | "10 \<le> n" "n < 100" | "100 \<le> n" by linarith
  then show ?thesis
  proof cases
    case 1
    then show ?thesis by (simp add: show_nat.simps)
  next
    case 2
    then have "show_nat n = [digit_char (n div 10), digit_char (n mod 10)]"
      by (simp add: show_nat.simps [of n] show_nat.simps [of "n div 10"])
    then show ?thesis using 2 by (simp add: one)
  next
    case 3
    have "\<not> n div 10 < 10" "n div 10 div 10 < 10" using 3 assms by linarith+
    then have "show_nat n = [digit_char (n div 10 div 10), digit_char (n div 10 mod 10), digit_char (n mod 10)]"
      using 3 by (simp add: show_nat.simps [of n] show_nat.simps [of "n div 10"] show_nat.simps [of "n div 10 div 10"])
    moreover have "0 < n div 10 div 10" "n div 10 div 10 < 10" using 3 assms by linarith+
    ultimately show ?thesis by (simp add: one)
  qed
qed

lemma parse_octet_show: "0 \<le> i \<Longrightarrow> i \<le> 255 \<Longrightarrow> parse_octet (show_int i) = Inr i"
  using show_nat_octet [of "nat i"]
  by (auto simp: parse_octet_def show_int_nonneg list_all_iff dest: show_nat_digits)

definition valid_addr :: "int \<Rightarrow> bool" where
  "valid_addr a \<longleftrightarrow> 0 \<le> a \<and> a < 2 ^ 32"

lemma octets:
  assumes "valid_addr a"
  shows "a = a div 2 ^ 24 * 2 ^ 24 + a div 2 ^ 16 mod 256 * 2 ^ 16 + a div 2 ^ 8 mod 256 * 2 ^ 8 + a mod 256"
    and "0 \<le> a div 2 ^ 24" "a div 2 ^ 24 \<le> 255"
proof -
  have d: "a div 2 ^ 16 = a div 2 ^ 8 div 2 ^ 8" "a div 2 ^ 24 = a div 2 ^ 16 div 2 ^ 8"
    by (simp_all flip: zdiv_zmult2_eq)
  have "b = b div 256 * 256 + b mod 256" for b :: int by simp
  from this [of a] this [of "a div 256"] this [of "a div 256 div 256"]
  have "a = a div 256 div 256 div 256 * 16777216 + a div 256 div 256 mod 256 * 65536 + a div 256 mod 256 * 256 + a mod 256"
    by linarith
  then show "a = a div 2 ^ 24 * 2 ^ 24 + a div 2 ^ 16 mod 256 * 2 ^ 16 + a div 2 ^ 8 mod 256 * 2 ^ 8 + a mod 256"
    unfolding d(2) d(1) by (simp only: power_numeral Num.pow.simps Num.sqr.simps) simp
  show "0 \<le> a div 2 ^ 24" "a div 2 ^ 24 \<le> 255" using assms by (auto simp: valid_addr_def)
qed

lemma octet_mod: "0 \<le> b mod 256 \<and> b mod 256 \<le> 255" for b :: int
  by (simp add: pos_mod_bound [THEN zless_imp_add1_zle, of 256 b, simplified])

lemma parse_show_ip:
  assumes "valid_addr a"
  shows "parse_ip (show_ip a) = Inr a"
proof -
  note o = octets [OF assms]
  have "split_on CHR ''.'' (show_ip a) =
      [show_int (a div 2 ^ 24), show_int (a div 2 ^ 16 mod 256), show_int (a div 2 ^ 8 mod 256), show_int (a mod 256)]"
    by (simp add: show_ip_def split_on_append split_on_single)
  moreover have "parse_octet (show_int (a div 2 ^ 24)) = Inr (a div 2 ^ 24)"
    using o(2,3) by (rule parse_octet_show)
  moreover have "parse_octet (show_int (b mod 256)) = Inr (b mod 256)" for b
    using octet_mod [of b] by (intro parse_octet_show) auto
  ultimately show ?thesis
    unfolding parse_ip_def using o(1) by (simp only: list.case rbind_Inr)
qed

lemma show_ip_inj: "valid_addr a \<Longrightarrow> valid_addr b \<Longrightarrow> (show_ip a = show_ip b) = (a = b)"
  by (metis Inr_inject parse_show_ip)

lemma ipv4_of_int_eq [simp]: "(ipv4_of_int a = Inr b) = (valid_addr a \<and> b = a)"
  by (auto simp: ipv4_of_int_def rbind_eq_Inr valid_addr_def)

lemma ip_of_int_valid [simp]: "valid_addr a \<Longrightarrow> ip_of_int a = Inr (IPv4 a)"
  by (simp add: ip_of_int_def valid_addr_def)

lemma ip_of_int_IPv4: "(ip_of_int a = Inr (IPv4 b)) = (valid_addr a \<and> b = a)"
  by (auto simp: ip_of_int_def valid_addr_def)

lemma ip_of_int_value: "ip_of_int a = Inr x \<Longrightarrow> ip_value x = a"
  by (auto simp: ip_of_int_def split: if_splits)

lemma ip_of_int_ok: "is_ok (ip_of_int a) = (0 \<le> a \<and> a < 2 ^ 128)"
  by (auto simp: ip_of_int_def)

lemma parse_octet_range: "parse_octet s = Inr i \<Longrightarrow> 0 \<le> i \<and> i \<le> 255"
  by (auto simp: parse_octet_def split: if_splits)

lemma parse_ip_valid:
  assumes "parse_ip s = Inr a"
  shows "valid_addr a"
proof -
  obtain b c d e where "a = b * 2 ^ 24 + c * 2 ^ 16 + d * 2 ^ 8 + e"
    and "0 \<le> b \<and> b \<le> 255" "0 \<le> c \<and> c \<le> 255" "0 \<le> d \<and> d \<le> 255" "0 \<le> e \<and> e \<le> 255"
    using assms by (auto simp: parse_ip_def rbind_eq_Inr split: list.splits dest!: parse_octet_range)
  then show ?thesis by (simp add: valid_addr_def)
qed

subsection \<open>An allocator of addresses\<close>

text \<open>What the fabric builders rely on: an allocator hands out valid addresses, one per key, so the
  dotted forms it writes into a manifest are distinct for distinct keys.\<close>

locale addr_alloc =
  fixes alloc :: "'k \<Rightarrow> int res"
  assumes alloc_valid: "alloc k = Inr a \<Longrightarrow> valid_addr a"
    and alloc_inj: "alloc k = Inr a \<Longrightarrow> alloc k' = Inr a \<Longrightarrow> k = k'"
begin

lemma alloc_text_inj:
  assumes "rbind (alloc k) (\<lambda>a. Inr (show_ip a)) = Inr s" and "rbind (alloc k') (\<lambda>a. Inr (show_ip a)) = Inr s"
  shows "k = k'"
proof -
  obtain a b where "alloc k = Inr a" "alloc k' = Inr b" "show_ip a = show_ip b"
    using assms by (auto simp: rbind_eq_Inr)
  then show ?thesis using alloc_valid alloc_inj by (metis show_ip_inj)
qed

lemma alloc_texts_distinct:
  assumes "distinct ks" and "\<And>k. k \<in> set ks \<Longrightarrow> rbind (alloc k) (\<lambda>a. Inr (show_ip a)) = Inr (f k)"
  shows "distinct (map f ks)"
  using assms alloc_text_inj by (auto simp: distinct_map inj_on_def)

end

subsection \<open>Management addresses\<close>

lemma host_addr_eq:
  "(host_addr ma off = Inr a) = (0 < off \<and> a = network_address (ma_network ma) + off \<and> valid_addr a
     \<and> in_network a (ma_network ma) \<and> \<not> is_reserved a (ma_network ma))"
  by (auto simp: host_addr_def rbind_eq_Inr not_le ip_of_int_def valid_addr_def)

interpretation mgmt: addr_alloc "host_addr ma" for ma
  by unfold_locales (auto simp: host_addr_eq)

lemma host_ip_alloc: "host_ip ma off = rbind (host_addr ma off) (\<lambda>a. Inr (show_ip a))"
  by (simp add: host_ip_def)

lemma create_addressing_eq:
  "(create_addressing subnet offs = Inr ma) =
     (\<exists>n. parse_network subnet = Inr n \<and> ma = \<lparr>ma_network = n, allocated_offsets = offs\<rparr>
        \<and> (\<forall>off \<in> set offs. is_ok (host_ip ma off)))"
proof -
  have "is_ok (rmapM (host_ip ma) offs) = (\<exists>ys. rmapM (host_ip ma) offs = Inr ys)" for ma
    by (simp add: is_ok_iff)
  then show ?thesis
    by (auto simp: create_addressing_def rbind_eq_Inr Let_def rmapM_is_ok)
qed

lemma rmapM_set: "rmapM f xs = Inr ys \<Longrightarrow> (y \<in> set ys) = (\<exists>x \<in> set xs. f x = Inr y)"
  by (induction xs arbitrary: ys) (auto simp: rbind_eq_Inr)

lemma allocated_ips_mem:
  assumes "allocated_ips ma = Inr ips"
  shows "(IPv4 a \<in> set ips) = (\<exists>off \<in> set (allocated_offsets ma). valid_addr a \<and> a = network_address (ma_network ma) + off)"
  using rmapM_set [OF assms [unfolded allocated_ips_def], of "IPv4 a"] by (auto simp: ip_of_int_IPv4)

lemma validate_collector_eq:
  "(validate_collector ma ip = Inr s) = (\<exists>a. parse_ip ip = Inr a \<and> s = show_ip a \<and> in_network a (ma_network ma)
     \<and> \<not> is_reserved a (ma_network ma) \<and> (\<exists>ips. allocated_ips ma = Inr ips \<and> IPv4 a \<notin> set ips))"
  by (auto simp: validate_collector_def rbind_eq_Inr)

lemma default_collector_validated:
  assumes "default_collector ma top_off p = Inr s"
  shows "\<exists>ip. validate_collector ma ip = Inr s"
  using assms by (auto simp: default_collector_def Let_def rbind_eq_Inr split: if_splits)

lemma validated_collector_safe:
  assumes "validate_collector ma ip = Inr s"
  shows "\<exists>a. parse_ip s = Inr a \<and> in_network a (ma_network ma) \<and> \<not> is_reserved a (ma_network ma)
    \<and> (\<forall>off \<in> set (allocated_offsets ma). host_ip ma off \<noteq> Inr s)"
proof -
  obtain a ips where v: "valid_addr a" "s = show_ip a" "in_network a (ma_network ma)" "\<not> is_reserved a (ma_network ma)"
      "allocated_ips ma = Inr ips" "IPv4 a \<notin> set ips"
    using assms by (auto simp: validate_collector_eq dest: parse_ip_valid)
  have "host_ip ma off \<noteq> Inr s" if "off \<in> set (allocated_offsets ma)" for off
  proof
    assume "host_ip ma off = Inr s"
    then obtain b where b: "host_addr ma off = Inr b" "show_ip b = show_ip a"
      using v(2) by (auto simp: host_ip_def rbind_eq_Inr)
    then have "b = a" using v(1) show_ip_inj mgmt.alloc_valid by blast
    then show False using b(1) v(1,6) that by (auto simp: host_addr_eq allocated_ips_mem [OF v(5)])
  qed
  then show ?thesis using v parse_show_ip by blast
qed

text \<open>The collector is found whenever the subnet has a free address after the last device.\<close>

definition network_wf :: "ipv4_network \<Rightarrow> bool" where
  "network_wf n \<longleftrightarrow> 0 \<le> network_address n \<and> prefixlen n \<le> 32 \<and> network_address n mod num_addresses n = 0
     \<and> broadcast_address n < 2 ^ 32"

definition collector_room :: "management_addressing \<Rightarrow> int \<Rightarrow> bool" where
  "collector_room ma top_off \<longleftrightarrow> network_wf (ma_network ma) \<and> top_off + 2 < num_addresses (ma_network ma)
     \<and> 0 \<le> top_off \<and> list_all (\<lambda>off. 0 < off \<and> off \<le> top_off) (allocated_offsets ma)"

lemma free_offset_validates:
  assumes "collector_room ma top_off" and "top_off < off" and "off + 1 < num_addresses (ma_network ma)"
  shows "validate_collector ma (show_ip (network_address (ma_network ma) + off)) = Inr (show_ip (network_address (ma_network ma) + off))"
    and "valid_addr (network_address (ma_network ma) + off)" and "in_network (network_address (ma_network ma) + off) (ma_network ma)"
    and "\<not> is_reserved (network_address (ma_network ma) + off) (ma_network ma)"
proof -
  let ?n = "ma_network ma" and ?a = "network_address (ma_network ma) + off"
  show v: "valid_addr ?a" "in_network ?a ?n" "\<not> is_reserved ?a ?n"
    using assms by (auto simp: collector_room_def network_wf_def valid_addr_def in_network_def is_reserved_def broadcast_address_def)
  have "is_ok (allocated_ips ma)"
    using assms unfolding allocated_ips_def rmapM_is_ok ip_of_int_ok
    by (fastforce simp: collector_room_def network_wf_def broadcast_address_def list_all_iff)
  then obtain ips where ips: "allocated_ips ma = Inr ips" by (auto simp: is_ok_iff)
  have "IPv4 ?a \<notin> set ips"
    using assms(1,2) by (auto simp: allocated_ips_mem [OF ips] collector_room_def list_all_iff)
  then show "validate_collector ma (show_ip ?a) = Inr (show_ip ?a)"
    using v ips by (simp add: validate_collector_eq parse_show_ip)
qed

lemma preferred_in_network:
  assumes "network_wf n" and "ip_of_int (network_address n + 200) = Inr x"
  shows "(ip_in_network x n \<and> \<not> ip_is_reserved x n) = (201 < num_addresses n)"
  using assms by (cases x) (auto simp: ip_of_int_def network_wf_def in_network_def is_reserved_def broadcast_address_def
    split: if_splits)

lemma default_collector_value:
  assumes room: "collector_room ma top_off"
  shows "default_collector ma top_off p = Inr (show_ip (network_address (ma_network ma)
    + (if p \<and> top_off < 200 \<and> 201 < num_addresses (ma_network ma) then 200 else top_off + 1)))"
proof -
  let ?n = "ma_network ma"
  have after: "top_off < top_off + 1" "top_off + 1 + 1 < num_addresses ?n" using room by (simp_all add: collector_room_def)
  note fb = free_offset_validates [OF room after]
  have wf: "network_wf ?n" using room by (simp add: collector_room_def)
  moreover have "0 < num_addresses ?n" by (simp add: num_addresses_def)
  ultimately have "is_ok (ip_of_int (network_address ?n + 200))"
    by (simp add: ip_of_int_ok network_wf_def broadcast_address_def)
  then obtain x where x: "ip_of_int (network_address ?n + 200) = Inr x" by (auto simp: is_ok_iff)
  note pref = preferred_in_network [OF wf x] ip_of_int_value [OF x]
  show ?thesis
  proof (cases "p \<and> top_off < 200 \<and> 201 < num_addresses ?n")
    case True
    then show ?thesis
      using pref x free_offset_validates(1) [OF room, of 200] by (simp add: default_collector_def Let_def)
  next
    case False
    then have skip: "\<not> (p \<and> top_off < 200 \<and> ip_in_network x ?n \<and> \<not> ip_is_reserved x ?n)" using pref by blast
    show ?thesis
      using fb x skip False by (auto simp: default_collector_def Let_def add.assoc)
  qed
qed

text \<open>C10: a default collector address is usable: it is a host address of the management subnet that no
  device has. When the subnet has a free address after the last device, the collector is found: it is offset
  200 of the network when that is preferred, free and inside, and otherwise the address after the last device,
  also where the integer of offset 200 is no IPv4 address at all.\<close>

theorem default_collector_safe:
  "(default_collector ma top_off p = Inr s \<longrightarrow> (\<exists>a. parse_ip s = Inr a \<and> in_network a (ma_network ma)
      \<and> \<not> is_reserved a (ma_network ma) \<and> (\<forall>off \<in> set (allocated_offsets ma). host_ip ma off \<noteq> Inr s)))
   \<and> (collector_room ma top_off \<longrightarrow> default_collector ma top_off p = Inr (show_ip (network_address (ma_network ma)
      + (if p \<and> top_off < 200 \<and> 201 < num_addresses (ma_network ma) then 200 else top_off + 1))))"
proof (intro conjI impI)
  assume "default_collector ma top_off p = Inr s"
  then obtain ip where "validate_collector ma ip = Inr s" using default_collector_validated by blast
  then show "\<exists>a. parse_ip s = Inr a \<and> in_network a (ma_network ma) \<and> \<not> is_reserved a (ma_network ma)
      \<and> (\<forall>off \<in> set (allocated_offsets ma). host_ip ma off \<noteq> Inr s)"
    by (rule validated_collector_safe)
qed (rule default_collector_value)

subsection \<open>Client access links\<close>

definition client_addressing_wf :: "client_addressing \<Rightarrow> bool" where
  "client_addressing_wf ca \<longleftrightarrow> 1 \<le> rack_count ca \<and> rack_count ca \<le> 255 \<and> 1 \<le> clients_per_rack ca \<and> clients_per_rack ca \<le> 64"

lemma mk_client_addressing_eq:
  "(mk_client_addressing r c = Inr ca) = (ca = \<lparr>rack_count = r, clients_per_rack = c\<rparr> \<and> client_addressing_wf ca)"
  by (auto simp: mk_client_addressing_def rbind_eq_Inr client_addressing_wf_def)

lemma mk_network_eq: "(mk_network a len = Inr n) = (valid_addr a \<and> a mod 2 ^ (32 - len) = 0 \<and> n = \<lparr>network_address = a, prefixlen = len\<rparr>)"
  by (auto simp: mk_network_def rbind_eq_Inr)

definition access_base :: "int \<Rightarrow> int \<Rightarrow> int" where
  "access_base rack position = client_pool_base + rack * 256 + (position - 1) * 4"

lemma rack_subnet_ok:
  assumes "client_addressing_wf ca" and "1 \<le> rack" and "rack \<le> rack_count ca"
  shows "rack_subnet ca rack = Inr \<lparr>network_address = client_pool_base + rack * 256, prefixlen = 24\<rparr>"
proof -
  have "(client_pool_base + rack * 256) mod 2 ^ 8 = 0" by (simp add: client_pool_base_def)
  moreover have "valid_addr (client_pool_base + rack * 256)"
    using assms by (simp add: client_pool_base_def valid_addr_def client_addressing_wf_def)
  ultimately show ?thesis
    using assms by (simp add: rack_subnet_def mk_network_eq)
qed

lemma access_addrs_eq:
  assumes "client_addressing_wf ca"
  shows "(access_addrs ca rack position = Inr (n, g, c)) =
    (1 \<le> position \<and> position \<le> clients_per_rack ca \<and> 1 \<le> rack \<and> rack \<le> rack_count ca
     \<and> n = \<lparr>network_address = access_base rack position, prefixlen = 30\<rparr>
     \<and> g = access_base rack position + 1 \<and> c = access_base rack position + 2)"
    (is "?l = ?r")
proof (cases "1 \<le> position \<and> position \<le> clients_per_rack ca \<and> 1 \<le> rack \<and> rack \<le> rack_count ca")
  case True
  have "valid_addr (access_base rack position)"
    using True assms by (simp add: access_base_def client_pool_base_def valid_addr_def client_addressing_wf_def)
  moreover have "access_base rack position mod 4 = 0"
    by (simp add: access_base_def client_pool_base_def)
  ultimately show ?thesis
    using True rack_subnet_ok [OF assms, of rack]
    by (auto simp: access_addrs_def rbind_eq_Inr mk_network_eq access_base_def)
next
  case False
  then show ?thesis by (auto simp: access_addrs_def rbind_eq_Inr rack_subnet_def)
qed

lemma access_ok:
  assumes "client_addressing_wf ca" and "1 \<le> position" and "position \<le> clients_per_rack ca"
    and "1 \<le> rack" and "rack \<le> rack_count ca"
  shows "access ca rack position = Inr (show_network \<lparr>network_address = access_base rack position, prefixlen = 30\<rparr>,
    show_ip (access_base rack position + 1), show_ip (access_base rack position + 2))"
  using assms by (simp add: access_def rbind_eq_Inr access_addrs_eq)

definition client_alloc :: "int \<Rightarrow> int \<Rightarrow> int \<times> int \<Rightarrow> int res" where
  "client_alloc racks clients k = rbind (mk_client_addressing racks clients) (\<lambda>ca.
     rbind (access_addrs ca (fst k) (snd k)) (\<lambda>(network, gateway, client). Inr client))"

lemma client_alloc_eq:
  "(client_alloc racks clients k = Inr a) = (client_addressing_wf \<lparr>rack_count = racks, clients_per_rack = clients\<rparr>
     \<and> 1 \<le> fst k \<and> fst k \<le> racks \<and> 1 \<le> snd k \<and> snd k \<le> clients \<and> a = access_base (fst k) (snd k) + 2)"
  by (auto simp: client_alloc_def rbind_eq_Inr mk_client_addressing_eq access_addrs_eq split: prod.splits)

lemma access_base_inj:
  assumes "1 \<le> p" "p \<le> 64" "1 \<le> p'" "p' \<le> 64" and "access_base r p = access_base r' p'"
  shows "r = r' \<and> p = p'"
proof -
  have "r * 64 + (p - 1) = r' * 64 + (p' - 1)" using assms(5) by (simp add: access_base_def)
  moreover from this have "r = r'" using assms(1-4) by (cases r r' rule: linorder_cases) linarith+
  ultimately show ?thesis by simp
qed

interpretation clients: addr_alloc "client_alloc racks clients_per_rack" for racks clients_per_rack
proof (unfold_locales, goal_cases)
  case (1 k a)
  then show ?case
    by (auto simp: client_alloc_eq valid_addr_def access_base_def client_pool_base_def client_addressing_wf_def)
next
  case (2 k a k')
  then have "fst k = fst k' \<and> snd k = snd k'"
    by (intro access_base_inj) (auto simp: client_alloc_eq client_addressing_wf_def)
  then show ?case by (simp add: prod_eq_iff)
qed

text \<open>C9: the /30 networks of two different access links share no address, and each lies in the /24 of
  its rack, away from the addresses of every other rack.\<close>

theorem access_links_disjoint:
  assumes "client_addressing_wf ca"
    and "access_addrs ca r p = Inr (n, g, c)" and "access_addrs ca r' p' = Inr (n', g', c')"
    and "(r, p) \<noteq> (r', p')" and "rack_subnet ca r = Inr rack"
  shows "\<not> (in_network x n \<and> in_network x n')
    \<and> (in_network x n \<longrightarrow> in_network x rack) \<and> in_network g n \<and> in_network c n"
proof -
  have b: "1 \<le> p" "p \<le> 64" "1 \<le> p'" "p' \<le> 64" "1 \<le> r" "r \<le> rack_count ca"
    and n: "n = \<lparr>network_address = access_base r p, prefixlen = 30\<rparr>" "n' = \<lparr>network_address = access_base r' p', prefixlen = 30\<rparr>"
      "g = access_base r p + 1" "c = access_base r p + 2"
    using assms(1-3) by (auto simp: access_addrs_eq client_addressing_wf_def)
  have rack: "rack = \<lparr>network_address = client_pool_base + r * 256, prefixlen = 24\<rparr>"
    using rack_subnet_ok [OF assms(1)] assms(5) b by auto
  note d = in_network_def broadcast_address_def num_addresses_def access_base_def
  have "r * 64 + p \<noteq> r' * 64 + p'" using access_base_inj [of p p' r r'] assms(4) b by (auto simp: access_base_def)
  then have "\<not> (in_network x n \<and> in_network x n')"
    by (cases "r * 64 + p" "r' * 64 + p'" rule: linorder_cases) (simp_all add: n d)
  moreover have "in_network x n \<longrightarrow> in_network x rack" using b by (auto simp: n rack d)
  ultimately show ?thesis by (simp add: n d)
qed

theorem access_links_disjoint_witness:
  "\<not> (in_network (client_pool_base + 257) \<lparr>network_address = client_pool_base + 256, prefixlen = 30\<rparr>
       \<and> in_network (client_pool_base + 257) \<lparr>network_address = client_pool_base + 260, prefixlen = 30\<rparr>)"
proof -
  let ?ca = "\<lparr>rack_count = 2, clients_per_rack = 2\<rparr>"
  have wf: "client_addressing_wf ?ca" by (simp add: client_addressing_wf_def)
  have 1: "access_addrs ?ca 1 1 = Inr (\<lparr>network_address = client_pool_base + 256, prefixlen = 30\<rparr>, client_pool_base + 257, client_pool_base + 258)"
    and 2: "access_addrs ?ca 1 2 = Inr (\<lparr>network_address = client_pool_base + 260, prefixlen = 30\<rparr>, client_pool_base + 261, client_pool_base + 262)"
    and 3: "rack_subnet ?ca 1 = Inr \<lparr>network_address = client_pool_base + 256, prefixlen = 24\<rparr>"
    by code_simp+
  show ?thesis using access_links_disjoint [OF wf 1 2 _ 3, of "client_pool_base + 257"] by simp
qed

definition example_mgmt :: management_addressing where
  "example_mgmt = \<lparr>ma_network = \<lparr>network_address = 172 * 2 ^ 24 + 20 * 2 ^ 16 + 20 * 256, prefixlen = 24\<rparr>, allocated_offsets = [11, 12]\<rparr>"

text \<open>A subnet at the top of the IPv4 space: offset 200 is an IPv6 integer and the code falls back.\<close>

definition top_mgmt :: management_addressing where
  "top_mgmt = \<lparr>ma_network = \<lparr>network_address = 2 ^ 32 - 32, prefixlen = 27\<rparr>, allocated_offsets = [11, 12]\<rparr>"

theorem default_collector_safe_witness:
  "(\<exists>a. parse_ip ''172.20.20.200'' = Inr a \<and> in_network a (ma_network example_mgmt))
   \<and> default_collector top_mgmt 12 True = Inr ''255.255.255.237''"
proof (rule conjI)
  have "default_collector example_mgmt 12 True = Inr ''172.20.20.200''" by code_simp
  with default_collector_safe show "\<exists>a. parse_ip ''172.20.20.200'' = Inr a \<and> in_network a (ma_network example_mgmt)"
    by blast
  have "collector_room top_mgmt 12" by code_simp
  with default_collector_safe have "default_collector top_mgmt 12 True = Inr (show_ip (network_address (ma_network top_mgmt)
      + (if True \<and> 12 < (200 :: int) \<and> 201 < num_addresses (ma_network top_mgmt) then 200 else 12 + 1)))" by blast
  moreover have "show_ip (network_address (ma_network top_mgmt)
      + (if True \<and> 12 < (200 :: int) \<and> 201 < num_addresses (ma_network top_mgmt) then 200 else 12 + 1)) = ''255.255.255.237''"
    by code_simp
  ultimately show "default_collector top_mgmt 12 True = Inr ''255.255.255.237''" by simp
qed

end
