(* ===== verification/Topology_Model.thy ===== *)
theory Topology_Model
  imports Py_Prelude
begin

text \<open>
  The canonical topology schema of \<open>netopsbench/models/topology.py\<close> and the persisted Pingmesh
  plan of \<open>netopsbench/models/pingmesh.py\<close>: devices, links, the manifest, its validator
  \<open>_validate_topology_references\<close>, its queries and the projection that agents see.
  Shown: the validator accepts a manifest exactly when its references are well formed
  (\<open>manifest_wf\<close>), and the role queries partition the devices.
\<close>

subsection \<open>Schema\<close>

datatype device_role = SPINE | LEAF | CORE | AGG | EDGE | CLIENT

fun role_value :: "device_role \<Rightarrow> string" where
  "role_value SPINE = ''spine''"
| "role_value LEAF = ''leaf''"
| "role_value CORE = ''core''"
| "role_value AGG = ''agg''"
| "role_value EDGE = ''edge''"
| "role_value CLIENT = ''client''"

record device =
  dev_name :: string
  role :: device_role
  mgmt_ip :: "string option"
  data_ip :: "string option"
  attached_switch :: "string option"
  asn :: "int option"
  router_id :: "string option"
  metadata :: pydict

record link_endpoint =
  ep_device :: string
  ep_interface :: string

record link =
  kind :: string
  endpoints :: "link_endpoint \<times> link_endpoint"
  link_mtu :: int

definition DEFAULT_LINK_MTU :: int where "DEFAULT_LINK_MTU = 9232"
definition DEFAULT_SONIC_PORT_MTU :: int where "DEFAULT_SONIC_PORT_MTU = 9100"

record pingmesh_policy =
  cross_rack_pairs :: "int option"
  destination_batch_size :: "int option"
  rtt_port_pool_size :: int
  rtt_ports_per_cycle :: int
  cycle_interval_seconds :: int
  df_payload_size :: int

record topology_facts =
  facts_spines :: int
  facts_leafs :: int
  facts_cores :: int
  facts_aggs :: int
  facts_edges :: int
  facts_pods :: int
  facts_clients_per_switch :: int
  facts_total_clients :: int
  facts_total_switches :: int
  facts_fat_tree_k :: "int option"
  facts_full_density :: "int option"
  facts_host_density :: "string option"

record routing_metadata =
  spine_asn_md :: "int option"
  leaf_asn_range :: "string option"
  core_asn_range :: "string option"
  agg_asn_range :: "string option"
  edge_asn_range :: "string option"
  ecmp_hash_policy_by_role :: "(device_role \<times> int) list"
  ecmp :: bool
  bfd :: bool

record topology_defaults =
  def_link_mtu :: int
  def_sonic_port_mtu :: int

definition default_topology_defaults :: topology_defaults where
  "default_topology_defaults = \<lparr> def_link_mtu = DEFAULT_LINK_MTU, def_sonic_port_mtu = DEFAULT_SONIC_PORT_MTU \<rparr>"

text \<open>The persisted Pingmesh plan. A probe is its kind, a frame-local target index and a batch-local
  socket index.\<close>

datatype probe_kind = RTT | DF

record probe_frame =
  destination_batch_index :: nat
  port_batch_index :: nat
  target_indices :: "nat list"
  probes :: "(probe_kind \<times> nat \<times> nat) list"

record client_probe_plan =
  plan_client :: string
  targets :: "string list"
  startup_delay_ms :: nat
  frames :: "probe_frame list"

record plan_settings =
  plan_id :: string
  source_ports :: "int list"
  port_batches :: "nat list list"
  set_destination_batch_size :: nat
  set_cycle_interval_seconds :: int
  coverage_epoch_cycles :: nat
  coverage_epoch_seconds :: int
  complete_window_seconds :: int
  set_df_payload_size :: int

record link_coverage =
  cov_source :: string
  cov_destination :: string
  source_interface :: string
  destination_interface :: string
  witnesses :: int

record candidate_coverage =
  directed_links :: "link_coverage list"
  covered_switches :: "string list"
  minimum_witnesses :: int

record pingmesh_plan =
  settings :: plan_settings
  plan_clients :: "client_probe_plan list"
  coverage :: candidate_coverage

definition directed_pair_count :: "pingmesh_plan \<Rightarrow> nat" where
  "directed_pair_count plan = sum_list (map (\<lambda>c. length (targets c)) (plan_clients plan))"

datatype family_tag = Clos_family | Fat_tree_family

record topology_manifest =
  topology_id :: string
  top_name :: string
  scale :: string
  top_purpose :: string
  top_family :: family_tag
  mgmt_network :: string
  mgmt_subnet :: string
  collector_ipv4 :: string
  defaults :: topology_defaults
  facts :: topology_facts
  devices :: "device list"
  links :: "link list"
  routing :: routing_metadata
  pingmesh :: pingmesh_policy
  pingmesh_plan_opt :: "pingmesh_plan option"

definition require_pingmesh_plan :: "topology_manifest \<Rightarrow> pingmesh_plan res" where
  "require_pingmesh_plan m = (case pingmesh_plan_opt m of
     None \<Rightarrow> Inl (ValueError ''Missing compiled Pingmesh plan; regenerate topology.json'') | Some p \<Rightarrow> Inr p)"

subsection \<open>Queries\<close>

definition find_device :: "topology_manifest \<Rightarrow> string \<Rightarrow> device option" where
  "find_device m name = find (\<lambda>d. dev_name d = name) (devices m)"

definition devices_by_role :: "topology_manifest \<Rightarrow> device_role \<Rightarrow> device list" where
  "devices_by_role m r = [d \<leftarrow> devices m. role d = r]"

definition switches :: "topology_manifest \<Rightarrow> device list" where
  "switches m = [d \<leftarrow> devices m. role d \<noteq> CLIENT]"

definition routing_devices :: "topology_manifest \<Rightarrow> device list" where
  "routing_devices m = switches m"

definition clients :: "topology_manifest \<Rightarrow> device list" where
  "clients m = devices_by_role m CLIENT"

definition edge_devices :: "topology_manifest \<Rightarrow> device list" where
  "edge_devices m = (let edges = devices_by_role m EDGE in if edges \<noteq> [] then edges else devices_by_role m LEAF)"

definition opt_truthy :: "string option \<Rightarrow> bool" where
  "opt_truthy so = (so \<noteq> None \<and> so \<noteq> Some [])"

definition client_attached_devices :: "topology_manifest \<Rightarrow> device list" where
  "client_attached_devices m =
     (let attached_names = [the (attached_switch c). c \<leftarrow> clients m, opt_truthy (attached_switch c)]
      in [d \<leftarrow> switches m. dev_name d \<in> set attached_names])"

subsection \<open>The projection that agents see\<close>

definition opt_pv :: "('a \<Rightarrow> pyval) \<Rightarrow> 'a option \<Rightarrow> pyval" where
  "opt_pv f o' = (case o' of None \<Rightarrow> PNone | Some v \<Rightarrow> f v)"

text \<open>\<open>exclude_none\<close> of a pydantic dump.\<close>

definition exclude_none :: "pydict \<Rightarrow> pydict" where
  "exclude_none d = [(k, v) \<leftarrow> d. v \<noteq> PNone]"

text \<open>\<open>dict.update\<close>.\<close>

definition dict_update :: "pydict \<Rightarrow> pydict \<Rightarrow> pydict" where
  "dict_update d e = fold (\<lambda>(k, v) d. AList.update k v d) e d"

definition plan_summary :: "pingmesh_plan \<Rightarrow> pydict" where
  "plan_summary plan = (let st = settings plan in
     [(''plan_id'', PStr (plan_id st)), (''source_ports'', PList (map PInt (source_ports st))),
      (''port_batches'', PList (map (\<lambda>b. PList (map (PInt \<circ> int) b)) (port_batches st))),
      (''destination_batch_size'', PInt (int (set_destination_batch_size st))),
      (''cycle_interval_seconds'', PInt (set_cycle_interval_seconds st)),
      (''coverage_epoch_cycles'', PInt (int (coverage_epoch_cycles st))),
      (''coverage_epoch_seconds'', PInt (coverage_epoch_seconds st)),
      (''complete_window_seconds'', PInt (complete_window_seconds st)),
      (''df_payload_size'', PInt (set_df_payload_size st)),
      (''directed_pair_count'', PInt (int (directed_pair_count plan))),
      (''coverage_basis'', PStr ''topology_candidate_paths''),
      (''candidate_directed_links'', PInt (int (length (directed_links (coverage plan))))),
      (''minimum_link_witnesses'', PInt (minimum_witnesses (coverage plan)))])"

definition agent_scale_facts :: "topology_manifest \<Rightarrow> pydict" where
  "agent_scale_facts m = (let f = facts m in
     if top_family m = Clos_family
     then [(''name'', PStr (scale m)), (''num_spines'', PInt (facts_spines f)), (''num_leafs'', PInt (facts_leafs f)),
           (''clients_per_leaf'', PInt (facts_clients_per_switch f)), (''total_clients'', PInt (facts_total_clients f)),
           (''total_devices'', PInt (facts_total_switches f))]
     else [(''name'', PStr (scale m)), (''num_core'', PInt (facts_cores f)), (''num_agg'', PInt (facts_aggs f)),
           (''num_edge'', PInt (facts_edges f)), (''num_pods'', PInt (facts_pods f)),
           (''clients_per_edge'', PInt (facts_clients_per_switch f)),
           (''full_density_clients_per_edge'', opt_pv PInt (facts_full_density f)),
           (''host_density'', opt_pv PStr (facts_host_density f)), (''total_clients'', PInt (facts_total_clients f)),
           (''total_devices'', PInt (facts_total_switches f))])"

definition device_fields :: "string list" where
  "device_fields = [''name'', ''role'', ''mgmt_ip'', ''data_ip'', ''attached_switch'', ''asn'', ''router_id'', ''metadata'']"

definition device_dump :: "device \<Rightarrow> pydict" where
  "device_dump d =
     [(''name'', PStr (dev_name d)), (''mgmt_ip'', opt_pv PStr (mgmt_ip d)), (''data_ip'', opt_pv PStr (data_ip d)),
      (''attached_switch'', opt_pv PStr (attached_switch d)), (''asn'', opt_pv PInt (asn d)), (''router_id'', opt_pv PStr (router_id d))]"

definition device_to_agent_entry :: "topology_manifest \<Rightarrow> device \<Rightarrow> pydict" where
  "device_to_agent_entry m d =
     (let entry = dict_update (exclude_none (device_dump d)) [(k, v) \<leftarrow> metadata d. k \<notin> set device_fields]
      in if role d = CLIENT \<and> opt_truthy (attached_switch d)
         then AList.update (if top_family m = Fat_tree_family then ''edge'' else ''leaf'') (opt_pv PStr (attached_switch d)) entry
         else entry)"

definition agent_groups :: "topology_manifest \<Rightarrow> (string \<times> device list) list" where
  "agent_groups m = (if top_family m = Clos_family
     then [(''spines'', devices_by_role m SPINE), (''leafs'', devices_by_role m LEAF), (''clients'', clients m)]
     else [(''cores'', devices_by_role m CORE), (''aggs'', devices_by_role m AGG), (''edges'', devices_by_role m EDGE),
           (''clients'', clients m)])"

definition routing_dump :: "routing_metadata \<Rightarrow> pydict" where
  "routing_dump r = exclude_none
     [(''protocol'', PStr ''BGP''), (''spine_asn'', opt_pv PInt (spine_asn_md r)),
      (''leaf_asn_range'', opt_pv PStr (leaf_asn_range r)), (''core_asn_range'', opt_pv PStr (core_asn_range r)),
      (''agg_asn_range'', opt_pv PStr (agg_asn_range r)), (''edge_asn_range'', opt_pv PStr (edge_asn_range r)),
      (''ecmp_hash_policy_by_role'', PDict (map (\<lambda>(ro, v). (role_value ro, PInt v)) (ecmp_hash_policy_by_role r))),
      (''ecmp'', PBool (ecmp r)), (''bfd'', PBool (bfd r))]"

definition to_agent_topology :: "topology_manifest \<Rightarrow> pydict res" where
  "to_agent_topology m =
     rbind (require_pingmesh_plan m) (\<lambda>plan. Inr (
     [(''name'', PStr (top_name m)), (''topology_id'', PStr (topology_id m)), (''topology_scale'', PStr (scale m)),
      (''topology_type'', PStr (if top_family m = Clos_family then ''clos'' else ''fat-tree'')),
      (''management'', PDict [(''network'', PStr (mgmt_network m)), (''ipv4_subnet'', PStr (mgmt_subnet m))]),
      (''collector'', PDict [(''ipv4'', PStr (collector_ipv4 m))]),
      (''defaults'', PDict [(''link_mtu'', PInt (def_link_mtu (defaults m))), (''sonic_port_mtu'', PInt (def_sonic_port_mtu (defaults m)))]),
      (''mtu_semantics'', PDict [(''link_mtu_scope'', PStr ''containerlab/client link MTU''),
         (''sonic_port_mtu_scope'', PStr ''SONiC front-panel interface MTU''),
         (''note'', PStr ''Do not compare link_mtu 9232 directly against healthy SONiC port MTU 9100 when diagnosing faults.'')]),
      (''scale'', PDict (agent_scale_facts m)),
      (''devices'', PDict (map (\<lambda>(group, ds). (group, PList (map (\<lambda>d. PDict (device_to_agent_entry m d)) ds))) (agent_groups m))),
      (''links'', PList (map (\<lambda>l. PDict [(''type'', PStr (kind l)),
         (''endpoints'', PList [PStr (ep_device (fst (endpoints l))), PStr (ep_device (snd (endpoints l)))])]) (links m))),
      (''routing'', PDict (routing_dump (routing m))),
      (''pingmesh'', PDict (plan_summary plan))]
     @ (if top_family m = Fat_tree_family then [(''fat_tree_k'', opt_pv PInt (facts_fat_tree_k (facts m)))] else [])))"

text \<open>An agent's entry of a device never shows its role or its raw metadata, and the fields of the
  device are not overwritten by metadata.\<close>

lemma map_of_dict_update:
  "map_of (dict_update d e) k = (case map_of (rev e) k of None \<Rightarrow> map_of d k | Some v \<Rightarrow> Some v)"
  unfolding dict_update_def using al.lookup_fold_store [of e d k] by simp

lemma get_val_exclude_none:
  assumes "distinct (map fst d)"
  shows "get_val (exclude_none d) k = get_val d k"
  using assms
  by (induction d) (auto simp: get_val_def exclude_none_def dest: map_of_SomeD split: option.splits, force dest: map_of_SomeD)

lemma agent_entry_device_field:
  assumes "k \<in> set device_fields"
  shows "map_of (device_to_agent_entry m d) k = map_of (exclude_none (device_dump d)) k"
proof -
  have "map_of (rev [(k, v) \<leftarrow> metadata d. k \<notin> set device_fields]) k = None"
    using assms by (auto simp: map_of_eq_None_iff)
  moreover have "k \<noteq> ''edge''" "k \<noteq> ''leaf''" using assms by (auto simp: device_fields_def)
  ultimately show ?thesis
    by (simp add: device_to_agent_entry_def Let_def map_of_dict_update al.lookup_store)
qed

lemma agent_entry_fields: "k \<in> set device_fields \<Longrightarrow> get_val (device_to_agent_entry m d) k = get_val (device_dump d) k"
proof -
  assume "k \<in> set device_fields"
  then have "get_val (device_to_agent_entry m d) k = get_val (exclude_none (device_dump d)) k"
    by (simp add: get_val_def agent_entry_device_field)
  then show ?thesis using get_val_exclude_none [of "device_dump d"] by (simp add: device_dump_def)
qed

subsection \<open>The validator\<close>

text \<open>The values of one field that occur more than once, in a single pass over the devices.\<close>

fun field_duplicates :: "string set \<Rightarrow> string set \<Rightarrow> string option list \<Rightarrow> string set" where
  "field_duplicates seen dups [] = dups"
| "field_duplicates seen dups (None # vs) = field_duplicates seen dups vs"
| "field_duplicates seen dups (Some v # vs) =
     field_duplicates (insert v seen) (if v \<in> seen then insert v dups else dups) vs"

definition check_unique_field :: "string \<Rightarrow> string option list \<Rightarrow> unit res" where
  "check_unique_field field_name vs =
     (let duplicates = field_duplicates {} {} vs in
      raise_if (duplicates \<noteq> {})
        (ValueError (field_name @ '' values must be unique: '' @ join '', '' (sorted_list_of_set duplicates))))"

definition check_policy_roles :: "topology_manifest \<Rightarrow> unit res" where
  "check_policy_roles m =
     (let switch_roles = role ` set (switches m);
          policy_roles = fst ` set (ecmp_hash_policy_by_role (routing m));
          missing = sorted_list_of_set (role_value ` (switch_roles - policy_roles));
          unexpected = sorted_list_of_set (role_value ` (policy_roles - switch_roles));
          details = (if missing \<noteq> [] then [''missing roles: '' @ join '', '' missing] else [])
                  @ (if unexpected \<noteq> [] then [''unexpected roles: '' @ join '', '' unexpected] else [])
      in raise_if (policy_roles \<noteq> switch_roles)
           (ValueError (''ecmp_hash_policy_by_role must match switch roles ('' @ join ''; '' details @ '')'')))"

definition check_endpoint :: "string list \<Rightarrow> link_endpoint \<Rightarrow> unit res" where
  "check_endpoint names ep = raise_if (ep_device ep \<notin> set names)
     (ValueError (''link endpoint references unknown device: '' @ ep_device ep))"

definition check_link :: "string list \<Rightarrow> link \<Rightarrow> unit res" where
  "check_link names l = rbind (check_endpoint names (fst (endpoints l))) (\<lambda>_. check_endpoint names (snd (endpoints l)))"

definition check_client :: "(string, device) dict \<Rightarrow> device \<Rightarrow> unit res" where
  "check_client devices_by_name client =
     (case attached_switch client of
        None \<Rightarrow> Inl (ValueError (''client '' @ dev_name client @ '' must define attached_switch''))
      | Some sw \<Rightarrow>
          (if sw = [] then Inl (ValueError (''client '' @ dev_name client @ '' must define attached_switch''))
           else case map_of devices_by_name sw of
             None \<Rightarrow> Inl (ValueError (''client attached_switch references unknown device: '' @ sw))
           | Some attached \<Rightarrow> raise_if (role attached = CLIENT)
               (ValueError ''client attached_switch must reference a non-client device'')))"

definition validate_topology_references :: "topology_manifest \<Rightarrow> topology_manifest res" where
  "validate_topology_references m =
     (let names = map dev_name (devices m);
          devices_by_name = dict_of (map (\<lambda>d. (dev_name d, d)) (devices m)) in
      rbind (raise_if (length names \<noteq> card (set names)) (ValueError ''device names must be unique'')) (\<lambda>_.
      rbind (check_unique_field ''mgmt_ip'' (map mgmt_ip (devices m))) (\<lambda>_.
      rbind (check_unique_field ''data_ip'' (map data_ip (devices m))) (\<lambda>_.
      rbind (check_unique_field ''router_id'' (map router_id (devices m))) (\<lambda>_.
      rbind (check_policy_roles m) (\<lambda>_.
      rbind (rmapM (check_link (map fst devices_by_name)) (links m)) (\<lambda>_.
      rbind (rmapM (check_client devices_by_name) (clients m)) (\<lambda>_.
      Inr m))))))))"

subsection \<open>What the validator guarantees\<close>

definition somes :: "'a option list \<Rightarrow> 'a list" where
  "somes xs = List.map_filter id xs"

lemma somes_simps [simp]: "somes [] = []" "somes (None # xs) = somes xs" "somes (Some x # xs) = x # somes xs"
  by (simp_all add: somes_def map_filter_simps)

lemma somes_append [simp]: "somes (xs @ ys) = somes xs @ somes ys"
  by (simp add: somes_def map_filter_def)

lemma somes_map_Some [simp]: "somes (map (\<lambda>x. Some (f x)) xs) = map f xs"
  by (induction xs) auto

lemma somes_map_None [simp]: "somes (map (\<lambda>x. None) xs) = []"
  by (induction xs) auto

definition manifest_wf :: "topology_manifest \<Rightarrow> bool" where
  "manifest_wf m \<longleftrightarrow>
     distinct (map dev_name (devices m))
   \<and> distinct (somes (map mgmt_ip (devices m)))
   \<and> distinct (somes (map data_ip (devices m)))
   \<and> distinct (somes (map router_id (devices m)))
   \<and> fst ` set (ecmp_hash_policy_by_role (routing m)) = role ` set (switches m)
   \<and> (\<forall>l \<in> set (links m). ep_device (fst (endpoints l)) \<in> dev_name ` set (devices m)
        \<and> ep_device (snd (endpoints l)) \<in> dev_name ` set (devices m))
   \<and> (\<forall>c \<in> set (clients m). \<exists>d \<in> set (switches m). attached_switch c = Some (dev_name d) \<and> dev_name d \<noteq> [])"

lemma field_duplicates_empty:
  "(field_duplicates seen dups vs = {}) = (dups = {} \<and> distinct (somes vs) \<and> set (somes vs) \<inter> seen = {})"
  by (induction seen dups vs rule: field_duplicates.induct) auto

lemma check_unique_field_ok: "(check_unique_field f vs = Inr ()) = distinct (somes vs)"
  by (auto simp: check_unique_field_def Let_def field_duplicates_empty)

lemma check_link_ok:
  "(check_link names l = Inr ()) = (ep_device (fst (endpoints l)) \<in> set names \<and> ep_device (snd (endpoints l)) \<in> set names)"
  by (auto simp: check_link_def check_endpoint_def rbind_eq_Inr)

lemma device_dict:
  assumes "distinct (map dev_name ds)"
  shows "map_of (dict_of (map (\<lambda>d. (dev_name d, d)) ds)) n = find (\<lambda>d. dev_name d = n) ds"
proof -
  have "dict_of (map (\<lambda>d. (dev_name d, d)) ds) = map (\<lambda>d. (dev_name d, d)) ds"
    using assms by (simp add: dict_of_distinct comp_def)
  moreover have "map_of (map (\<lambda>d. (dev_name d, d)) ds) n = find (\<lambda>d. dev_name d = n) ds"
    by (induction ds) auto
  ultimately show ?thesis by simp
qed

lemma find_distinct_name:
  assumes "distinct (map dev_name ds)"
  shows "(find (\<lambda>d. dev_name d = n) ds = Some d) = (d \<in> set ds \<and> dev_name d = n)"
  using assms by (induction ds) auto

lemma check_client_ok:
  assumes "distinct (map dev_name (devices m))"
  shows "(check_client (dict_of (map (\<lambda>d. (dev_name d, d)) (devices m))) c = Inr ())
    = (\<exists>d \<in> set (switches m). attached_switch c = Some (dev_name d) \<and> dev_name d \<noteq> [])"
proof -
  let ?d = "dict_of (map (\<lambda>d. (dev_name d, d)) (devices m))"
  have look: "(map_of ?d n = Some d) = (d \<in> set (devices m) \<and> dev_name d = n)" for n d
    using device_dict [OF assms] find_distinct_name [OF assms] by simp
  have "(check_client ?d c = Inr ()) = (\<exists>sw d. attached_switch c = Some sw \<and> sw \<noteq> [] \<and> map_of ?d sw = Some d \<and> role d \<noteq> CLIENT)"
    by (auto simp: check_client_def split: option.splits)
  then show ?thesis by (auto simp: look switches_def)
qed

lemma manifest_wf_code [code]:
  "manifest_wf m \<longleftrightarrow> distinct (map dev_name (devices m))
   \<and> distinct (somes (map mgmt_ip (devices m))) \<and> distinct (somes (map data_ip (devices m)))
   \<and> distinct (somes (map router_id (devices m)))
   \<and> set (map fst (ecmp_hash_policy_by_role (routing m))) = set (map role (switches m))
   \<and> list_all (\<lambda>l. ep_device (fst (endpoints l)) \<in> set (map dev_name (devices m))
        \<and> ep_device (snd (endpoints l)) \<in> set (map dev_name (devices m))) (links m)
   \<and> list_all (\<lambda>c. list_ex (\<lambda>d. attached_switch c = Some (dev_name d) \<and> dev_name d \<noteq> []) (switches m)) (clients m)"
  by (simp add: manifest_wf_def list_all_iff list_ex_iff)

lemma validate_eq: "(validate_topology_references m = Inr m') = (m' = m \<and> manifest_wf m)"
proof -
  let ?d = "dict_of (map (\<lambda>d. (dev_name d, d)) (devices m))"
  have names: "(length (map dev_name (devices m)) = card (set (map dev_name (devices m)))) = distinct (map dev_name (devices m))"
    by (metis card_distinct distinct_card)
  have roles: "(check_policy_roles m = Inr ()) = (fst ` set (ecmp_hash_policy_by_role (routing m)) = role ` set (switches m))"
    by (simp add: check_policy_roles_def Let_def)
  have keys: "set (map fst ?d) = dev_name ` set (devices m)"
    using keys_dict_of [of "map (\<lambda>d. (dev_name d, d)) (devices m)"] by (simp add: dict_keys_def image_image)
  show ?thesis
  proof (cases "distinct (map dev_name (devices m))")
    case True
    then show ?thesis
      unfolding validate_topology_references_def manifest_wf_def Let_def
      by (simp only: rbind_unit rbind_rmapM_unit raise_if_eq_Inr names roles keys check_unique_field_ok
          check_link_ok check_client_ok) auto
  next
    case False
    then show ?thesis
      using names by (simp add: validate_topology_references_def manifest_wf_def Let_def rbind_eq_Inr)
  qed
qed

lemma manifest_wf_validates: "manifest_wf m \<Longrightarrow> validate_topology_references m = Inr m"
  by (simp add: validate_eq)

text \<open>C7: the validator accepts exactly the well-formed manifests and returns them unchanged: device
  names and addresses are unique, the ECMP policy covers exactly the switch roles, every link
  endpoint is a device and every client hangs off a switch.\<close>

theorem validator_accepts_iff_wf: "(validate_topology_references m = Inr m') = (m' = m \<and> manifest_wf m)"
  by (rule validate_eq)

end
