(* ===== verification/Fabric_Plan.thy ===== *)
theory Fabric_Plan
  imports Scale_Profiles Addressing Topology_Model
begin

text \<open>
  The family-neutral plan of \<open>platform/topology/plan.py\<close>, the configurations of
  \<open>platform/topology/config.py\<close> and \<open>generator.py\<close>, and the remaining helpers of \<open>planning.py\<close>.
  \<open>fabric_plan_post_init\<close> is \<open>FabricPlan.__post_init__\<close>, which both builders run last.
  The default client image is read from the environment; it is an argument where it is used.
  Shown: the check accepts exactly the plans whose device plans follow the manifest, whose data
  interfaces are used once and whose switches have as many ports as links and a BGP identity; the
  configuration of a scale agrees with the facts of its profile.
\<close>

subsection \<open>Plans\<close>

record bgp_neighbor_plan =
  peer_ip :: string
  remote_as :: int

record render_settings =
  syslog_collector :: string

record device_plan =
  plan_device :: device
  required_ports :: int
  configdb_interface_cidrs :: "(string, string list) dict"
  bgp_asn :: "int option"
  bgp_router_id :: "string option"
  bgp_neighbors :: "bgp_neighbor_plan list"
  bgp_networks :: "string list"
  client_cmds :: "string list"

definition plan_name :: "device_plan \<Rightarrow> string" where
  "plan_name p = dev_name (plan_device p)"

definition is_client :: "device_plan \<Rightarrow> bool" where
  "is_client p = (role (plan_device p) = CLIENT)"

record fabric_plan =
  manifest :: topology_manifest
  device_plans :: "device_plan list"
  nos_kind :: string
  nos_image :: string
  client_image :: string
  render :: render_settings
  yaml_header :: string

type_synonym endpoint_key = "string \<times> string"

definition endpoint_keys :: "link list \<Rightarrow> endpoint_key list" where
  "endpoint_keys ls = concat (map (\<lambda>l. [(ep_device (fst (endpoints l)), ep_interface (fst (endpoints l))),
                                        (ep_device (snd (endpoints l)), ep_interface (snd (endpoints l)))]) ls)"

text \<open>The loop over the endpoints: the used interfaces and the degree of every device.\<close>

fun use_endpoints ::
  "endpoint_key set \<Rightarrow> (string, int) dict \<Rightarrow> endpoint_key list \<Rightarrow> (string, int) dict res" where
  "use_endpoints used degrees [] = Inr degrees"
| "use_endpoints used degrees ((d, i) # eps) =
     (if (d, i) \<in> used then Inl (ValueError (''Topology reuses data interface '' @ d @ '':'' @ i))
      else use_endpoints (insert (d, i) used) (AList.update d (dict_get degrees d 0 + 1) degrees) eps)"

definition check_device_plan :: "(string, int) dict \<Rightarrow> device_plan \<Rightarrow> unit res" where
  "check_device_plan degrees p =
     (if is_client p then Inr ()
      else rbind (raise_if (required_ports p \<le> 0) (ValueError (''switch '' @ plan_name p @ '' must define required_ports''))) (\<lambda>_.
           rbind (raise_if (dict_get degrees (plan_name p) 0 \<noteq> required_ports p)
             (ValueError (''switch '' @ plan_name p @ '' port capacity does not match its data links''))) (\<lambda>_.
           raise_if (bgp_asn p = None \<or> bgp_router_id p = None)
             (ValueError (''switch '' @ plan_name p @ '' must define BGP identity'')))))"

definition fabric_plan_post_init :: "fabric_plan \<Rightarrow> fabric_plan res" where
  "fabric_plan_post_init f =
     rbind (raise_if (map dev_name (devices (manifest f)) \<noteq> map plan_name (device_plans f))
        (ValueError ''FabricPlan device plans must match canonical manifest device order'')) (\<lambda>_.
     rbind (use_endpoints {} [] (endpoint_keys (links (manifest f)))) (\<lambda>degrees.
     rbind (rmapM (check_device_plan degrees) (device_plans f)) (\<lambda>_. Inr f)))"

subsection \<open>What the plan check guarantees\<close>

definition link_degree :: "link list \<Rightarrow> string \<Rightarrow> nat" where
  "link_degree ls d = length [k \<leftarrow> endpoint_keys ls. fst k = d]"

definition fabric_wf :: "fabric_plan \<Rightarrow> bool" where
  "fabric_wf f \<longleftrightarrow> map dev_name (devices (manifest f)) = map plan_name (device_plans f)
   \<and> distinct (endpoint_keys (links (manifest f)))
   \<and> (\<forall>p \<in> set (device_plans f). is_client p \<or>
        (0 < required_ports p \<and> int (link_degree (links (manifest f)) (plan_name p)) = required_ports p
         \<and> bgp_asn p \<noteq> None \<and> bgp_router_id p \<noteq> None))"

lemma use_endpoints_ok:
  "(use_endpoints used degrees eps = Inr out) \<Longrightarrow>
   distinct eps \<and> set eps \<inter> used = {} \<and> dict_get out d 0 = dict_get degrees d 0 + int (length [k \<leftarrow> eps. fst k = d])"
proof (induction used degrees eps rule: use_endpoints.induct)
  case (2 used degrees d' i eps)
  then have "(d', i) \<notin> used" by (simp split: if_splits)
  with 2 show ?case by (auto simp: dict_get_def al.lookup_store)
qed simp

lemma use_endpoints_accepts:
  "distinct eps \<Longrightarrow> set eps \<inter> used = {} \<Longrightarrow> \<exists>out. use_endpoints used degrees eps = Inr out"
  by (induction used degrees eps rule: use_endpoints.induct) auto

lemma check_device_plan_ok:
  "(check_device_plan degrees p = Inr ()) = (is_client p \<or>
     (0 < required_ports p \<and> dict_get degrees (plan_name p) 0 = required_ports p \<and> bgp_asn p \<noteq> None \<and> bgp_router_id p \<noteq> None))"
  by (auto simp: check_device_plan_def rbind_eq_Inr)

text \<open>The check, as the builders use it.\<close>

lemma fabric_post_init_eq: "(fabric_plan_post_init f = Inr f') = (f' = f \<and> fabric_wf f)"
proof -
  let ?eps = "endpoint_keys (links (manifest f))"
  have deg: "dict_get out d 0 = int (link_degree (links (manifest f)) d)" if "use_endpoints {} [] ?eps = Inr out" for out d
    using use_endpoints_ok [OF that, of d] by (simp add: link_degree_def dict_get_def)
  have acc: "(\<exists>out. use_endpoints {} [] ?eps = Inr out) = distinct ?eps"
    using use_endpoints_ok [of "{}" "[]" ?eps] use_endpoints_accepts [of ?eps "{}" "[]"] by blast
  show ?thesis
  proof (cases "use_endpoints {} [] ?eps")
    case (Inl e)
    then show ?thesis using acc by (auto simp: fabric_plan_post_init_def fabric_wf_def rbind_eq_Inr)
  next
    case (Inr out)
    then have "distinct ?eps" using acc by blast
    then show ?thesis
      unfolding fabric_plan_post_init_def fabric_wf_def Inr rbind_Inr
      by (simp only: rbind_unit raise_if_eq_Inr rbind_rmapM_unit check_device_plan_ok deg [OF Inr]) auto
  qed
qed

lemma fabric_wf_accepts: "fabric_wf f \<Longrightarrow> fabric_plan_post_init f = Inr f"
  by (simp add: fabric_post_init_eq)

text \<open>C8: the plan check accepts exactly the plans whose device plans follow the manifest's order, whose
  data interfaces are each used by one link end, and whose switches have a BGP identity and require a
  positive number of ports, exactly as many as their data links; it returns the plan unchanged.\<close>

theorem fabric_plan_accepts_iff: "(fabric_plan_post_init f = Inr f') = (f' = f \<and> fabric_wf f)"
  by (rule fabric_post_init_eq)

subsection \<open>Counting link ends\<close>

text \<open>The two ends of a link as interface keys; the builders emit one link per index.\<close>

definition end1 :: "link \<Rightarrow> endpoint_key" where
  "end1 l = (ep_device (fst (endpoints l)), ep_interface (fst (endpoints l)))"

definition end2 :: "link \<Rightarrow> endpoint_key" where
  "end2 l = (ep_device (snd (endpoints l)), ep_interface (snd (endpoints l)))"

lemma endpoint_keys_append [simp]: "endpoint_keys (xs @ ys) = endpoint_keys xs @ endpoint_keys ys"
  by (simp add: endpoint_keys_def)

lemma set_endpoint_keys: "set (endpoint_keys ls) = end1 ` set ls \<union> end2 ` set ls"
  by (auto simp: endpoint_keys_def end1_def end2_def)

lemma distinct_endpoint_keys:
  assumes "distinct xs" and "inj_on (\<lambda>x. end1 (f x)) (set xs)" and "inj_on (\<lambda>x. end2 (f x)) (set xs)"
    and "\<And>x y. x \<in> set xs \<Longrightarrow> y \<in> set xs \<Longrightarrow> end1 (f x) \<noteq> end2 (f y)"
  shows "distinct (endpoint_keys (map f xs))"
proof -
  have "endpoint_keys (map f xs) = concat (map (\<lambda>x. [end1 (f x), end2 (f x)]) xs)"
    by (simp add: endpoint_keys_def end1_def end2_def comp_def)
  moreover have "distinct (concat (map (\<lambda>x. [end1 (f x), end2 (f x)]) xs))"
  proof (rule distinct_concat_map [OF assms(1)])
    fix x y assume "x \<in> set xs" "y \<in> set xs" "x \<noteq> y"
    then show "set [end1 (f x), end2 (f x)] \<inter> set [end1 (f y), end2 (f y)] = {}"
      using assms(2-4) by (auto dest: inj_onD)
  qed (use assms(4) in auto)
  ultimately show ?thesis by simp
qed

lemma link_degree_card:
  assumes "distinct (endpoint_keys ls)"
  shows "link_degree ls d = card {k \<in> set (endpoint_keys ls). fst k = d}"
  using distinct_length_filter [OF assms, of "\<lambda>k. fst k = d"] by (simp add: link_degree_def Int_def conj_commute)

lemma rmapM_pure: "(\<And>x. x \<in> set xs \<Longrightarrow> f x = Inr (g x)) \<Longrightarrow> rmapM f xs = Inr (map g xs)"
  by (induction xs) auto

text \<open>The text of a management address.\<close>

definition host_text :: "management_addressing \<Rightarrow> int \<Rightarrow> string" where
  "host_text ma off = show_ip (network_address (ma_network ma) + off)"

lemma host_ip_allocated:
  assumes "create_addressing subnet offs = Inr ma" and "off \<in> set offs"
  shows "host_ip ma off = Inr (host_text ma off)"
proof -
  have "is_ok (host_ip ma off)" using assms by (auto simp: create_addressing_eq)
  then obtain s where "host_ip ma off = Inr s" by (auto simp: is_ok_iff)
  then show ?thesis by (auto simp: host_ip_def rbind_eq_Inr host_addr_eq host_text_def)
qed

lemma host_texts_distinct:
  assumes "create_addressing subnet offs = Inr ma" and "distinct ks" and "set ks \<subseteq> set offs"
  shows "distinct (map (host_text ma) ks)"
  using assms(2) by (rule mgmt.alloc_texts_distinct [where ma = ma])
    (use assms host_ip_allocated in \<open>auto simp: host_ip_alloc [symmetric]\<close>)

subsection \<open>Shell words\<close>

definition shell_safe :: "char \<Rightarrow> bool" where
  "shell_safe c = (is_digit c \<or> (CHR ''a'' \<le> c \<and> c \<le> CHR ''z'') \<or> (CHR ''A'' \<le> c \<and> c \<le> CHR ''Z'')
     \<or> c \<in> set ''_@%+=:,./-'')"

definition shlex_quote :: "string \<Rightarrow> string" where
  "shlex_quote s = (let q = char_of (39 :: nat); dq = char_of (34 :: nat) in
     if s = [] then [q, q]
     else if list_all shell_safe s then s
     else [q] @ py_replace [q] [q, dq, q, dq, q] s @ [q])"

definition shlex_join :: "string list \<Rightarrow> string" where
  "shlex_join ws = join '' '' (map shlex_quote ws)"

definition client_commands :: "string \<Rightarrow> string \<Rightarrow> string list" where
  "client_commands client_ip gateway =
     (let commands =
        [''sysctl -w net.ipv4.ip_forward=0'',
         ''ip link set dev eth1 mtu 9232'',
         ''ip addr add '' @ shlex_quote (client_ip @ ''/30'') @ '' dev eth1'',
         ''ip route add 192.168.0.0/16 via '' @ shlex_quote gateway,
         ''ethtool -K eth1 rx off tx off tso off gso off gro off sg off tx-udp-segmentation off'']
      in [shlex_join [''sh'', ''-ec'', join '' && '' commands]])"

definition build_render_settings :: "management_addressing \<Rightarrow> string \<Rightarrow> render_settings res" where
  "build_render_settings addressing collector_ip =
     rbind (validate_collector addressing collector_ip) (\<lambda>c. Inr \<lparr> syslog_collector = c \<rparr>)"

subsection \<open>Configurations\<close>

definition get_scale_profile :: "string \<Rightarrow> scale_registry option \<Rightarrow> scale_profile res" where
  "get_scale_profile name registry = registry_get (case registry of None \<Rightarrow> builtin_profiles | Some r \<Rightarrow> r) name"

definition DEFAULT_DF_PAYLOAD :: int where
  "DEFAULT_DF_PAYLOAD = DEFAULT_SONIC_PORT_MTU - 28"

definition pingmesh_policy_for_profile :: "scale_profile \<Rightarrow> pingmesh_policy" where
  "pingmesh_policy_for_profile p = (let q = pingmesh_prof p in
     \<lparr> cross_rack_pairs = prof_cross_rack_pairs q, destination_batch_size = prof_destination_batch_size q,
       rtt_port_pool_size = prof_rtt_port_pool_size q, rtt_ports_per_cycle = prof_rtt_ports_per_cycle q,
       cycle_interval_seconds = prof_cycle_interval_seconds q, df_payload_size = DEFAULT_DF_PAYLOAD \<rparr>)"

definition pingmesh_policy_for_scale :: "string \<Rightarrow> scale_registry option \<Rightarrow> pingmesh_policy res" where
  "pingmesh_policy_for_scale scl registry =
     rbind (get_scale_profile scl registry) (\<lambda>p. Inr (pingmesh_policy_for_profile p))"

definition DEFAULT_SONIC_VS_IMAGE :: string where
  "DEFAULT_SONIC_VS_IMAGE = ''yyyyyt123/netopsbench-sonic-vs-202505-telemetry'' @
     ''@sha256:0e039d2fea3f85788f15db8ebad27cf5bd5b2cdaf17e8c31eab852021e23ea73''"

record topology_config =
  cfg_name :: string
  cfg_spines :: int
  cfg_leafs :: int
  cfg_clients_per_leaf :: int
  cfg_nos_kind :: string
  cfg_nos_image :: string
  cfg_client_image :: string
  cfg_mgmt_subnet :: string
  cfg_mgmt_network :: "string option"
  cfg_collector_ip :: "string option"
  cfg_spine_asn :: int
  cfg_leaf_asn_start :: int
  cfg_purpose :: string
  cfg_scale_name :: "string option"
  cfg_policy :: "pingmesh_policy option"

record fat_tree_config =
  ft_k :: int
  ft_name :: string
  ft_nos_kind :: string
  ft_nos_image :: string
  ft_client_image :: string
  ft_mgmt_subnet :: string
  ft_mgmt_network :: "string option"
  ft_collector_ip :: "string option"
  ft_asn_base :: int
  ft_clients_per_edge :: "int option"
  ft_purpose :: string
  ft_scale_name :: "string option"
  ft_policy :: "pingmesh_policy option"

definition half :: "fat_tree_config \<Rightarrow> int" where
  "half c = ft_k c div 2"

definition ft_post_init :: "fat_tree_config \<Rightarrow> fat_tree_config res" where
  "ft_post_init c =
     rbind (raise_if (ft_k c < 2 \<or> ft_k c mod 2 \<noteq> 0)
        (ValueError (''fat-tree k must be a positive even integer, got '' @ show_int (ft_k c)))) (\<lambda>_.
     (let per_edge = (case ft_clients_per_edge c of None \<Rightarrow> half c | Some n \<Rightarrow> n) in
      rbind (raise_if (\<not> (1 \<le> per_edge \<and> per_edge \<le> half c))
        (ValueError (''clients_per_edge must be between 1 and k/2 ('' @ show_int (half c) @ ''), got '' @ show_int per_edge))) (\<lambda>_.
      Inr (c\<lparr>ft_clients_per_edge := Some per_edge\<rparr>))))"

definition num_core :: "fat_tree_config \<Rightarrow> int" where "num_core c = half c * half c"
definition num_pods :: "fat_tree_config \<Rightarrow> int" where "num_pods c = ft_k c"
definition num_total_agg :: "fat_tree_config \<Rightarrow> int" where "num_total_agg c = ft_k c * half c"
definition num_total_edge :: "fat_tree_config \<Rightarrow> int" where "num_total_edge c = ft_k c * half c"
definition num_total_clients :: "fat_tree_config \<Rightarrow> int" where
  "num_total_clients c = num_total_edge c * or0 (ft_clients_per_edge c)"
definition host_density :: "fat_tree_config \<Rightarrow> string" where
  "host_density c = (if ft_clients_per_edge c = Some (half c) then ''standard'' else ''sparse'')"

definition purpose_value :: "purpose \<Rightarrow> string" where
  "purpose_value p = (case p of Benchmark \<Rightarrow> ''benchmark'' | Validation \<Rightarrow> ''validation'')"

definition topology_mgmt_subnet :: "scale_profile \<Rightarrow> string" where
  "topology_mgmt_subnet p = ''172.20.20.0/'' @ show_int (prefix (management_prof p))"

definition clos_config_from_profile :: "string \<Rightarrow> scale_profile \<Rightarrow> topology_config" where
  "clos_config_from_profile img p =
     \<lparr> cfg_name = ''dcn'', cfg_spines = or0 (num_spines p), cfg_leafs = or0 (num_leafs p),
       cfg_clients_per_leaf = clients_per_attached_switch p, cfg_nos_kind = ''sonic-vs'', cfg_nos_image = DEFAULT_SONIC_VS_IMAGE,
       cfg_client_image = img, cfg_mgmt_subnet = topology_mgmt_subnet p, cfg_mgmt_network = None, cfg_collector_ip = None,
       cfg_spine_asn = 65001, cfg_leaf_asn_start = 65011, cfg_purpose = purpose_value (profile_purpose p),
       cfg_scale_name = Some (profile_name p), cfg_policy = Some (pingmesh_policy_for_profile p) \<rparr>"

definition fat_tree_config_from_profile :: "string \<Rightarrow> scale_profile \<Rightarrow> fat_tree_config res" where
  "fat_tree_config_from_profile img p = ft_post_init
     \<lparr> ft_k = or0 (fat_tree_k p), ft_name = ''dcn'', ft_nos_kind = ''sonic-vs'', ft_nos_image = DEFAULT_SONIC_VS_IMAGE,
       ft_client_image = img, ft_mgmt_subnet = topology_mgmt_subnet p, ft_mgmt_network = None, ft_collector_ip = None,
       ft_asn_base = 65001, ft_clients_per_edge = Some (clients_per_attached_switch p),
       ft_purpose = purpose_value (profile_purpose p), ft_scale_name = Some (profile_name p),
       ft_policy = Some (pingmesh_policy_for_profile p) \<rparr>"

datatype any_config = ClosConfig topology_config | FatTreeConfig fat_tree_config

definition config_for_scale :: "string \<Rightarrow> string \<Rightarrow> scale_registry option \<Rightarrow> any_config res" where
  "config_for_scale img scl registry =
     rbind (get_scale_profile scl registry) (\<lambda>p.
     if family p = FClos then Inr (ClosConfig (clos_config_from_profile img p))
     else rbind (fat_tree_config_from_profile img p) (\<lambda>c. Inr (FatTreeConfig c)))"

text \<open>\<open>generator.py\<close>: \<open>x or default\<close> on optional strings, where the empty string counts as missing.\<close>

definition str_or :: "string option \<Rightarrow> string \<Rightarrow> string" where
  "str_or o' dflt = (case o' of None \<Rightarrow> dflt | Some s \<Rightarrow> if s = [] then dflt else s)"

definition str_or_opt :: "string option \<Rightarrow> string option \<Rightarrow> string option" where
  "str_or_opt o' dflt = (if opt_truthy o' then o' else dflt)"

definition clos_config ::
  "string \<Rightarrow> string \<Rightarrow> string option \<Rightarrow> string option \<Rightarrow> string option \<Rightarrow> string option \<Rightarrow> scale_registry option \<Rightarrow> topology_config res" where
  "clos_config img scl name mgmt_sub mgmt_net collector_ip registry =
     rbind (config_for_scale img scl registry) (\<lambda>cfg. case cfg of
       FatTreeConfig _ \<Rightarrow> Inl (ValueError (''Scale '' @ py_repr scl @ '' is not a CLOS topology''))
     | ClosConfig c \<Rightarrow> Inr (c\<lparr> cfg_name := str_or name (cfg_name c), cfg_mgmt_subnet := str_or mgmt_sub (cfg_mgmt_subnet c),
         cfg_mgmt_network := str_or_opt mgmt_net (cfg_mgmt_network c), cfg_collector_ip := str_or_opt collector_ip (cfg_collector_ip c),
         cfg_scale_name := Some scl \<rparr>))"

definition fat_tree_config_for ::
  "string \<Rightarrow> string \<Rightarrow> string option \<Rightarrow> string option \<Rightarrow> string option \<Rightarrow> string option \<Rightarrow> scale_registry option \<Rightarrow> fat_tree_config res" where
  "fat_tree_config_for img scl name mgmt_sub mgmt_net collector_ip registry =
     rbind (config_for_scale img scl registry) (\<lambda>cfg. case cfg of
       ClosConfig _ \<Rightarrow> Inl (ValueError (''Scale '' @ py_repr scl @ '' is not a fat-tree topology''))
     | FatTreeConfig c \<Rightarrow> Inr (c\<lparr> ft_name := str_or name (ft_name c), ft_mgmt_subnet := str_or mgmt_sub (ft_mgmt_subnet c),
         ft_mgmt_network := str_or_opt mgmt_net (ft_mgmt_network c), ft_collector_ip := str_or_opt collector_ip (ft_collector_ip c),
         ft_scale_name := Some scl \<rparr>))"

subsection \<open>Configurations agree with their profiles\<close>

lemma ft_post_init_ok:
  "(ft_post_init c = Inr c') \<Longrightarrow> 2 \<le> ft_k c \<and> even (ft_k c) \<and> ft_k c' = ft_k c \<and> ft_clients_per_edge c' = Some (or0 (ft_clients_per_edge c'))
     \<and> 1 \<le> or0 (ft_clients_per_edge c') \<and> or0 (ft_clients_per_edge c') \<le> half c'"
  by (auto simp: ft_post_init_def rbind_eq_Inr Let_def half_def or0_def even_iff_mod_2_eq_zero split: option.splits)

lemma valid_fat_tree_profile:
  "validate_fat_tree t = Inr () \<Longrightarrow> 2 \<le> prof_k t \<and> even (prof_k t) \<and> 1 \<le> prof_clients_per_edge t \<and> prof_clients_per_edge t \<le> prof_k t div 2"
  by (auto simp: validate_fat_tree_def rbind_eq_Inr gt0_def even_iff_mod_2_eq_zero)

text \<open>A validated profile always yields a configuration, of the family the profile declares, whose
  switch and client counts are the derived facts of the profile.\<close>

lemma config_matches_profile:
  assumes "get_scale_profile scl reg = Inr p" and "validate_scale_profile p = Inr ()"
  shows "case config_for_scale img scl reg of
       Inl e \<Rightarrow> False
     | Inr (ClosConfig c) \<Rightarrow> family p = FClos \<and> cfg_spines c + cfg_leafs c = total_switches p
         \<and> cfg_leafs c * cfg_clients_per_leaf c = total_clients p
     | Inr (FatTreeConfig c) \<Rightarrow> family p = FFatTree \<and> num_core c + num_total_agg c + num_total_edge c = total_switches p
         \<and> num_total_clients c = total_clients p"
proof (cases "topology p")
  case (ClosTopologyProfile t)
  then show ?thesis
    using assms(1) by (simp add: config_for_scale_def family_def clos_config_from_profile_def total_switches_def
        total_clients_def num_spines_def num_leafs_def or0_def Let_def)
next
  case (FatTreeTopologyProfile t)
  have v: "2 \<le> prof_k t \<and> even (prof_k t) \<and> 1 \<le> prof_clients_per_edge t \<and> prof_clients_per_edge t \<le> prof_k t div 2"
    using assms(2) FatTreeTopologyProfile
    by (intro valid_fat_tree_profile) (simp add: validate_scale_profile_def validate_topology_profile_def rbind_eq_Inr)
  then have "\<exists>c. config_for_scale img scl reg = Inr (FatTreeConfig c) \<and> ft_k c = prof_k t \<and> ft_clients_per_edge c = Some (prof_clients_per_edge t)"
    using assms(1) FatTreeTopologyProfile
    by (simp add: config_for_scale_def family_def fat_tree_config_from_profile_def ft_post_init_def half_def fat_tree_k_def
        or0_def clients_per_attached_switch_def Let_def even_iff_mod_2_eq_zero raise_if_def)
  then show ?thesis
    using FatTreeTopologyProfile
    by (auto simp: family_def total_switches_def total_clients_def num_core_def num_total_agg_def num_total_edge_def
        num_total_clients_def half_def num_cores_def num_aggs_def num_edges_def or0_def clients_per_attached_switch_def
        power2_eq_square Let_def)
qed

end
