(* ===== verification/Graph_BFS.thy ===== *)
theory Graph_BFS
  imports Py_Prelude
begin

text \<open>
  The two graph searches of the Pingmesh planner (\<open>_candidate_coverage\<close> in
  \<open>platform/pingmesh/planner.py\<close>), the first of which \<open>CandidatePaths.distance\<close> in
  \<open>platform/scenario/candidates.py\<close> repeats: a breadth-first search that fills a dictionary of
  distances, and a backward search with a stack over the shortest-path predecessors.
  A graph is the dictionary of adjacency lists; \<open>nbrs\<close> is \<open>graph[node]\<close>. Both loops terminate
  because a node enters the queue or the stack only when it is first seen.
  Shown: the distances are exactly the shortest-path lengths, with a key for every reachable
  node and no other; the backward search visits exactly the nodes on a shortest path.
\<close>

type_synonym 'a graph = "('a, 'a list) dict"

definition nbrs :: "'a graph \<Rightarrow> 'a \<Rightarrow> 'a list" where
  "nbrs g v = (case map_of g v of None \<Rightarrow> [] | Some ns \<Rightarrow> ns)"

definition graph_nodes :: "'a graph \<Rightarrow> 'a set" where
  "graph_nodes g = (\<Union>(v, ns) \<in> set g. set ns)"

lemma finite_graph_nodes [simp]: "finite (graph_nodes g)"
  by (auto simp: graph_nodes_def)

lemma nbrs_graph_nodes: "set (nbrs g v) \<subseteq> graph_nodes g"
  by (cases "map_of g v") (auto simp: nbrs_def graph_nodes_def dest!: map_of_SomeD)

subsection \<open>Breadth-first distances\<close>

text \<open>The inner loop over \<open>graph[node]\<close>: unseen neighbours get distance \<open>d\<close> and are queued.\<close>

fun expand :: "int \<Rightarrow> 'a list \<Rightarrow> ('a, int) dict \<Rightarrow> ('a, int) dict \<times> 'a list" where
  "expand d [] dmap = (dmap, [])"
| "expand d (n # ns) dmap =
     (if n \<in> fst ` set dmap then expand d ns dmap
      else let (dmap', new) = expand d ns (AList.update n d dmap) in (dmap', n # new))"

lemma keys_update: "fst ` set (AList.update k v al) = insert k (fst ` set al)"
  by (simp add: AList.dom_update)

lemma expand_new: "set (snd (expand d ns dmap)) = set ns - fst ` set dmap"
  by (induction d ns dmap rule: expand.induct) (simp_all add: keys_update case_prod_beta Let_def insert_absorb, blast?)

lemma expand_keys: "fst ` set (fst (expand d ns dmap)) = fst ` set dmap \<union> set ns"
  by (induction d ns dmap rule: expand.induct) (simp_all add: keys_update case_prod_beta Let_def insert_absorb, blast?)

lemma expand_distinct: "distinct (snd (expand d ns dmap))"
proof (induction d ns dmap rule: expand.induct)
  case (2 d n ns dmap)
  then show ?case using expand_new [of d ns "AList.update n d dmap"]
    by (auto simp: keys_update Let_def split: prod.splits)
qed simp

lemma expand_lookup:
  "map_of (fst (expand d ns dmap)) v = (if v \<in> set (snd (expand d ns dmap)) then Some d else map_of dmap v)"
proof (induction d ns dmap rule: expand.induct)
  case (2 d n ns dmap)
  then show ?case using expand_new [of d ns "AList.update n d dmap"]
    by (auto simp: AList.update_conv' Let_def split: prod.splits)
qed simp

lemma expand_spec:
  assumes "expand d ns dmap = (dmap', new)"
  shows "set new = set ns - fst ` set dmap" and "fst ` set dmap' = fst ` set dmap \<union> set new"
    and "map_of dmap' v = (if v \<in> set new then Some d else map_of dmap v)" and "distinct new"
  using expand_new [of d ns dmap] expand_keys [of d ns dmap] expand_lookup [of d ns dmap v]
    expand_distinct [of d ns dmap] assms by auto

function bfs :: "'a graph \<Rightarrow> ('a, int) dict \<Rightarrow> 'a list \<Rightarrow> ('a, int) dict" where
  "bfs g dmap [] = dmap"
| "bfs g dmap (node # queue) =
     (let (dmap', new) = expand (dict_get dmap node 0 + 1) (nbrs g node) dmap in bfs g dmap' (queue @ new))"
  by pat_completeness auto
termination
proof (relation "measure (\<lambda>(g, dmap, queue). 2 * card (graph_nodes g - fst ` set dmap) + length queue)",
    goal_cases)
  case (2 g dmap node queue p dmap' new)
  then have e: "expand (dict_get dmap node 0 + 1) (nbrs g node) dmap = (dmap', new)" by simp
  have "set new \<subseteq> graph_nodes g - fst ` set dmap"
    using expand_spec(1) [OF e] nbrs_graph_nodes [of g node] by auto
  moreover have "graph_nodes g - fst ` set dmap' = (graph_nodes g - fst ` set dmap) - set new"
    using expand_spec(2) [OF e] by auto
  ultimately have "card (graph_nodes g - fst ` set dmap') + length new = card (graph_nodes g - fst ` set dmap)"
    using distinct_card [OF expand_spec(4) [OF e]]
    by (metis List.finite_set add_diff_inverse_nat card_Diff_subset card_mono finite_Diff finite_graph_nodes
        linorder_not_less add.commute)
  then show ?case by simp
qed simp

definition distances :: "'a graph \<Rightarrow> 'a \<Rightarrow> ('a, int) dict" where
  "distances g source = bfs g [(source, 0)] [source]"

subsection \<open>Shortest paths\<close>

fun walk_in :: "'a graph \<Rightarrow> 'a \<Rightarrow> nat \<Rightarrow> 'a set" where
  "walk_in g s 0 = {s}"
| "walk_in g s (Suc n) = (\<Union>v \<in> walk_in g s n. set (nbrs g v))"

definition shortest :: "'a graph \<Rightarrow> 'a \<Rightarrow> 'a \<Rightarrow> nat \<Rightarrow> bool" where
  "shortest g s v d \<longleftrightarrow> v \<in> walk_in g s d \<and> (\<forall>k < d. v \<notin> walk_in g s k)"

lemma shortest_unique: "shortest g s v d \<Longrightarrow> shortest g s v d' \<Longrightarrow> d = d'"
  unfolding shortest_def by (metis linorder_neqE_nat)

lemma walk_shortest: "v \<in> walk_in g s n \<Longrightarrow> \<exists>d \<le> n. shortest g s v d"
  using LeastI [of "\<lambda>k. v \<in> walk_in g s k" n] Least_le [of "\<lambda>k. v \<in> walk_in g s k" n]
    not_less_Least [of _ "\<lambda>k. v \<in> walk_in g s k"] unfolding shortest_def by blast

definition bfs_inv :: "'a graph \<Rightarrow> 'a \<Rightarrow> ('a, int) dict \<Rightarrow> 'a list \<Rightarrow> bool" where
  "bfs_inv g s dmap queue \<longleftrightarrow>
     (\<forall>v d. map_of dmap v = Some d \<longrightarrow> 0 \<le> d \<and> shortest g s v (nat d))
   \<and> map_of dmap s \<noteq> None
   \<and> (\<forall>v \<in> set queue. map_of dmap v \<noteq> None)
   \<and> sorted (map (\<lambda>v. dict_get dmap v 0) queue)
   \<and> (\<forall>v \<in> set queue. dict_get dmap v 0 \<le> dict_get dmap (hd queue) 0 + 1)
   \<and> (\<forall>u. map_of dmap u \<noteq> None \<and> u \<notin> set queue \<longrightarrow> (\<forall>v \<in> set (nbrs g u). map_of dmap v \<noteq> None))"

lemma bfs_inv_start: "bfs_inv g s [(s, 0)] [s]"
  by (simp add: bfs_inv_def shortest_def)

lemma bfs_inv_explored:
  assumes "bfs_inv g s dmap queue" and "map_of dmap u \<noteq> None" and "u \<notin> set queue" and "v \<in> set (nbrs g u)"
  shows "map_of dmap v \<noteq> None"
proof -
  have "\<forall>u. map_of dmap u \<noteq> None \<and> u \<notin> set queue \<longrightarrow> (\<forall>v \<in> set (nbrs g u). map_of dmap v \<noteq> None)"
    using assms(1) unfolding bfs_inv_def by (elim conjE)
  then show ?thesis using assms(2-4) by blast
qed

text \<open>Every node closer than the head of the queue has been seen and explored.\<close>

lemma bfs_inv_closer:
  assumes "bfs_inv g s dmap (node # queue)" and "int k \<le> dict_get dmap node 0"
  shows "v \<in> walk_in g s k \<Longrightarrow> map_of dmap v \<noteq> None"
  using assms(2)
proof (induction k arbitrary: v)
  case 0
  then show ?case using assms(1) by (simp add: bfs_inv_def)
next
  case (Suc k)
  then obtain w where w: "w \<in> walk_in g s k" "v \<in> set (nbrs g w)" by auto
  obtain d where d: "map_of dmap w = Some d" using Suc.IH [OF w(1)] Suc.prems by auto
  have "shortest g s w (nat d)" "0 \<le> d" using assms(1) d by (auto simp: bfs_inv_def)
  then have "nat d \<le> k" using w(1) by (metis linorder_not_less shortest_def)
  then have "dict_get dmap w 0 < dict_get dmap node 0" using Suc.prems d by (simp add: dict_get_def)
  moreover have "dict_get dmap node 0 \<le> dict_get dmap u 0" if "u \<in> set (node # queue)" for u
    using assms(1) that by (auto simp: bfs_inv_def)
  ultimately have "w \<notin> set (node # queue)" by force
  then show ?case using bfs_inv_explored [OF assms(1) _ _ w(2)] d by blast
qed

lemma bfs_inv_new_shortest:
  assumes inv: "bfs_inv g s dmap (node # queue)" and v: "v \<in> set (nbrs g node)" "map_of dmap v = None"
  shows "shortest g s v (nat (dict_get dmap node 0 + 1))"
proof -
  let ?m = "dict_get dmap node 0"
  have node: "0 \<le> ?m" "shortest g s node (nat ?m)"
    using inv by (auto simp: bfs_inv_def dict_get_def split: option.splits)
  then have "v \<in> walk_in g s (nat (?m + 1))"
    using v(1) by (auto simp: shortest_def nat_add_distrib)
  moreover have "v \<notin> walk_in g s k" if "k < nat (?m + 1)" for k
    using bfs_inv_closer [OF inv, of k v] that v(2) node(1) by (auto simp: zless_nat_eq_int_zless)
  ultimately show ?thesis by (simp add: shortest_def)
qed

lemma bfs_inv_step:
  assumes inv: "bfs_inv g s dmap (node # queue)"
    and e: "expand (dict_get dmap node 0 + 1) (nbrs g node) dmap = (dmap', new)"
  shows "bfs_inv g s dmap' (queue @ new)"
proof -
  let ?m = "dict_get dmap node 0"
  note look = expand_spec(3) [OF e] and news = expand_spec(1) [OF e]
  have new_none: "map_of dmap v = None" if "v \<in> set new" for v
    using news that by (simp add: map_of_eq_None_iff)
  have old: "dict_get dmap' v 0 = dict_get dmap v 0" if "map_of dmap v \<noteq> None" for v
    using look [of v] new_none that by (auto simp: dict_get_def)
  have fresh: "dict_get dmap' v 0 = ?m + 1" if "v \<in> set new" for v
    using look [of v] that by (simp add: dict_get_def)
  have q: "map_of dmap v \<noteq> None" "?m \<le> dict_get dmap v 0" "dict_get dmap v 0 \<le> ?m + 1" if "v \<in> set queue" for v
    using inv that by (auto simp: bfs_inv_def)
  have "0 \<le> ?m" using inv by (auto simp: bfs_inv_def dict_get_def split: option.splits)
  then have 1: "\<forall>v d. map_of dmap' v = Some d \<longrightarrow> 0 \<le> d \<and> shortest g s v (nat d)"
    using inv look news bfs_inv_new_shortest [OF inv] new_none by (auto simp: bfs_inv_def)
  have sq: "sorted (map (\<lambda>v. dict_get dmap v 0) queue)" using inv by (simp add: bfs_inv_def)
  have mq: "map (\<lambda>v. dict_get dmap' v 0) queue = map (\<lambda>v. dict_get dmap v 0) queue"
    using q(1) old by simp
  have mn: "map (\<lambda>v. dict_get dmap' v 0) new = map (\<lambda>v. ?m + 1) new" using fresh by simp
  have 2: "sorted (map (\<lambda>v. dict_get dmap' v 0) (queue @ new))"
    using sq q(3) by (auto simp: mq mn sorted_append map_replicate_const)
  have hi: "dict_get dmap' v 0 \<le> ?m + 1 \<and> ?m \<le> dict_get dmap' v 0" if "v \<in> set (queue @ new)" for v
    using that q old fresh by auto
  have 3: "\<forall>v \<in> set (queue @ new). dict_get dmap' v 0 \<le> dict_get dmap' (hd (queue @ new)) 0 + 1"
  proof
    fix v assume v: "v \<in> set (queue @ new)"
    then have "hd (queue @ new) \<in> set (queue @ new)" by (intro hd_in_set) auto
    then show "dict_get dmap' v 0 \<le> dict_get dmap' (hd (queue @ new)) 0 + 1" using hi [of v] hi [of "hd (queue @ new)"] v by linarith
  qed
  have 4: "\<forall>u. map_of dmap' u \<noteq> None \<and> u \<notin> set (queue @ new) \<longrightarrow> (\<forall>v \<in> set (nbrs g u). map_of dmap' v \<noteq> None)"
  proof (intro allI impI ballI)
    fix u v assume u: "map_of dmap' u \<noteq> None \<and> u \<notin> set (queue @ new)" and v: "v \<in> set (nbrs g u)"
    then have du: "map_of dmap u \<noteq> None" using look [of u] by auto
    show "map_of dmap' v \<noteq> None"
    proof (cases "u = node")
      case True
      then show ?thesis using v news look [of v] by (cases "v \<in> set new") (simp_all add: map_of_eq_None_iff)
    next
      case False
      then have "u \<notin> set (node # queue)" using u by simp
      then have "map_of dmap v \<noteq> None" using bfs_inv_explored [OF inv du _ v] by blast
      then show ?thesis using look [of v] by auto
    qed
  qed
  have 5: "\<forall>v \<in> set (queue @ new). map_of dmap' v \<noteq> None" using q(1) look by auto
  have "map_of dmap s \<noteq> None" using inv by (simp add: bfs_inv_def)
  then have 6: "map_of dmap' s \<noteq> None" using look [of s] by simp
  show ?thesis
    unfolding bfs_inv_def by (intro conjI 1 2 3 4 5 6)
qed

lemma bfs_inv_end: "bfs_inv g s dmap queue \<Longrightarrow> bfs_inv g s (bfs g dmap queue) []"
proof (induction g dmap queue rule: bfs.induct)
  case (2 g dmap node queue)
  obtain dmap' new where e: "expand (dict_get dmap node 0 + 1) (nbrs g node) dmap = (dmap', new)" by fastforce
  have "bfs_inv g s dmap' (queue @ new)" using bfs_inv_step [OF 2(2) e] .
  then show ?case using 2(1) e by simp
qed simp

lemma bfs_closed:
  assumes "bfs_inv g s dmap []" and "v \<in> walk_in g s n"
  shows "map_of dmap v \<noteq> None"
  using assms(2)
proof (induction n arbitrary: v)
  case 0
  then show ?case using assms(1) by (simp add: bfs_inv_def)
next
  case (Suc n)
  have "\<forall>u. map_of dmap u \<noteq> None \<longrightarrow> (\<forall>v \<in> set (nbrs g u). map_of dmap v \<noteq> None)"
    using assms(1) by (simp add: bfs_inv_def)
  then show ?case using Suc by auto blast
qed

text \<open>The value of a key is the length of a shortest path to it.\<close>

lemma distances_shortest: "(map_of (distances g s) v = Some d) = (0 \<le> d \<and> shortest g s v (nat d))"
proof -
  have inv: "bfs_inv g s (distances g s) []"
    unfolding distances_def by (rule bfs_inv_end [OF bfs_inv_start])
  show ?thesis
  proof
    show "map_of (distances g s) v = Some d \<Longrightarrow> 0 \<le> d \<and> shortest g s v (nat d)"
      using inv by (simp add: bfs_inv_def)
  next
    assume d: "0 \<le> d \<and> shortest g s v (nat d)"
    then have "map_of (distances g s) v \<noteq> None"
      using bfs_closed [OF inv] by (auto simp: shortest_def)
    then obtain e where e: "map_of (distances g s) v = Some e" by blast
    then have "0 \<le> e" "shortest g s v (nat e)" using inv by (simp_all add: bfs_inv_def)
    then have "nat e = nat d" using d shortest_unique [of g s v "nat e" "nat d"] by simp
    then show "map_of (distances g s) v = Some d" using e d \<open>0 \<le> e\<close> by (simp add: eq_nat_nat_iff)
  qed
qed

text \<open>C6: the breadth-first search of the planner computes shortest-path lengths: the value of a key is the
  length of a shortest path to it, and a node has no entry exactly when no walk leads to it.\<close>

theorem distances_correct:
  "(map_of (distances g s) v = Some d) = (0 \<le> d \<and> shortest g s v (nat d))
   \<and> (map_of (distances g s) v = None) = (\<forall>n. v \<notin> walk_in g s n)"
proof -
  have "(map_of (distances g s) v = None) = (\<forall>n. \<not> shortest g s v n)"
    using distances_shortest [of g s v] by (metis nat_int of_nat_0_le_iff option.exhaust option.distinct(1))
  also have "\<dots> = (\<forall>n. v \<notin> walk_in g s n)" using walk_shortest [of v g s] unfolding shortest_def by blast
  finally show ?thesis by (intro conjI distances_shortest)
qed

subsection \<open>Backward search over shortest-path predecessors\<close>

text \<open>A \<open>Counter\<close> is a dictionary of integers whose missing keys read as zero.\<close>

definition counter_add :: "'k \<Rightarrow> int \<Rightarrow> ('k, int) dict \<Rightarrow> ('k, int) dict" where
  "counter_add k c w = AList.update k (dict_get w k 0 + c) w"

lemma counter_add_get [simp]:
  "dict_get (counter_add k c w) k' 0 = dict_get w k' 0 + (if k' = k then c else 0)"
  by (simp add: counter_add_def dict_get_def AList.update_conv')

definition is_pred :: "('a, int) dict \<Rightarrow> 'a \<Rightarrow> 'a \<Rightarrow> bool" where
  "is_pred dmap p n \<longleftrightarrow> map_of dmap p = Some (dict_get dmap n 0 - 1)"

text \<open>One turn of \<open>for predecessor in graph[node]\<close>; the top of the stack is the head of the list.\<close>

type_synonym 'a dag_state = "'a list \<times> 'a set \<times> ('a \<times> 'a, int) dict"

fun pred_step :: "('a, int) dict \<Rightarrow> int \<Rightarrow> 'a \<Rightarrow> 'a \<Rightarrow> 'a dag_state \<Rightarrow> 'a dag_state" where
  "pred_step dmap count node p (pending, visited, w) =
     (if is_pred dmap p node
      then (if p \<in> visited then (pending, visited, counter_add (p, node) count w)
            else (p # pending, insert p visited, counter_add (p, node) count w))
      else (pending, visited, w))"

lemma pred_fold_measure:
  assumes "finite S" and "set ps \<subseteq> S"
    and "fold (pred_step dmap count node) ps (pending, visited, w) = (pending', visited', w')"
  shows "length pending' + card (S - visited') = length pending + card (S - visited)"
  using assms(2,3)
proof (induction ps arbitrary: pending visited w)
  case (Cons p ps)
  have "Suc (card (S - insert p visited)) = card (S - visited)" if "p \<notin> visited"
    using that Cons.prems(1) assms(1) card_Suc_Diff1 [of "S - visited" p] Diff_insert [of S p visited] by simp
  then show ?case using Cons by (auto split: if_splits)
qed simp

function dag_back :: "'a graph \<Rightarrow> ('a, int) dict \<Rightarrow> int \<Rightarrow> 'a dag_state \<Rightarrow> 'a dag_state" where
  "dag_back g dmap count ([], visited, w) = ([], visited, w)"
| "dag_back g dmap count (node # pending, visited, w) =
     dag_back g dmap count (fold (pred_step dmap count node) (nbrs g node) (pending, visited, w))"
  by pat_completeness auto
termination
proof (relation "measure (\<lambda>(g, dmap, count, pending, visited, w). length pending + card (graph_nodes g - visited))",
    goal_cases)
  case (2 g dmap count node pending visited w)
  obtain a b c where "fold (pred_step dmap count node) (nbrs g node) (pending, visited, w) = (a, b, c)"
    by (cases rule: prod_cases3)
  then show ?case
    using pred_fold_measure [of "graph_nodes g" "nbrs g node" dmap count node pending visited w a b c]
      nbrs_graph_nodes [of g node] by simp
qed simp

definition back_witnesses ::
  "'a graph \<Rightarrow> ('a, int) dict \<Rightarrow> int \<Rightarrow> 'a \<Rightarrow> ('a \<times> 'a, int) dict \<Rightarrow> ('a \<times> 'a, int) dict" where
  "back_witnesses g dmap count destination w =
     snd (snd (dag_back g dmap count ([destination], {destination}, w)))"

text \<open>The nodes a shortest path towards \<open>t\<close> can pass: \<open>t\<close> and, backwards, their predecessors.\<close>

inductive_set ancestors :: "'a graph \<Rightarrow> ('a, int) dict \<Rightarrow> 'a \<Rightarrow> 'a set"
  for g :: "'a graph" and dmap :: "('a, int) dict" and t :: 'a where
  anc_refl: "t \<in> ancestors g dmap t"
| anc_step: "n \<in> ancestors g dmap t \<Longrightarrow> p \<in> set (nbrs g n) \<Longrightarrow> is_pred dmap p n \<Longrightarrow> p \<in> ancestors g dmap t"

definition preds :: "'a graph \<Rightarrow> ('a, int) dict \<Rightarrow> 'a \<Rightarrow> 'a set" where
  "preds g dmap n = {p \<in> set (nbrs g n). is_pred dmap p n}"

definition edge_gain :: "'a graph \<Rightarrow> ('a, int) dict \<Rightarrow> int \<Rightarrow> 'a set \<Rightarrow> 'a \<times> 'a \<Rightarrow> int" where
  "edge_gain g dmap count processed k =
     (if snd k \<in> processed \<and> is_pred dmap (fst k) (snd k) then count * int (count_list (nbrs g (snd k)) (fst k)) else 0)"

definition back_inv ::
  "'a graph \<Rightarrow> ('a, int) dict \<Rightarrow> int \<Rightarrow> 'a \<Rightarrow> ('a \<times> 'a, int) dict \<Rightarrow> 'a dag_state \<Rightarrow> bool" where
  "back_inv g dmap count t w0 st \<longleftrightarrow> (case st of (pending, visited, w) \<Rightarrow>
     distinct pending \<and> set pending \<subseteq> visited \<and> t \<in> visited \<and> visited \<subseteq> ancestors g dmap t
   \<and> (\<forall>n \<in> visited - set pending. preds g dmap n \<subseteq> visited)
   \<and> (\<forall>k. dict_get w k 0 = dict_get w0 k 0 + edge_gain g dmap count (visited - set pending) k))"

lemma pred_fold_spec:
  assumes "fold (pred_step dmap count node) ps (pending, visited, w) = (pending', visited', w')"
    and "distinct pending" and "set pending \<subseteq> visited"
  shows "distinct pending' \<and> set pending' = set pending \<union> ({p \<in> set ps. is_pred dmap p node} - visited)
    \<and> visited' = visited \<union> {p \<in> set ps. is_pred dmap p node}
    \<and> dict_get w' k 0 = dict_get w k 0
        + (if snd k = node \<and> is_pred dmap (fst k) node then count * int (count_list ps (fst k)) else 0)"
  using assms
proof (induction ps arbitrary: pending visited w)
  case (Cons p ps)
  show ?case
  proof (cases "is_pred dmap p node")
    case False
    then have "fold (pred_step dmap count node) ps (pending, visited, w) = (pending', visited', w')"
      using Cons.prems(1) by simp
    then show ?thesis using Cons.IH Cons.prems(2,3) False by auto
  next
    case True
    let ?q = "if p \<in> visited then pending else p # pending"
    have "fold (pred_step dmap count node) ps (?q, insert p visited, counter_add (p, node) count w) = (pending', visited', w')"
      using Cons.prems(1) True by (auto simp: insert_absorb)
    moreover have "distinct ?q" "set ?q \<subseteq> insert p visited" using Cons.prems(2,3) by auto
    ultimately show ?thesis
      using Cons.IH [of ?q "insert p visited" "counter_add (p, node) count w"] True Cons.prems(3)
      by (cases k) (auto simp: algebra_simps)
  qed
qed simp

lemma back_inv_step:
  assumes inv: "back_inv g dmap count t w0 (node # pending, visited, w)"
  shows "back_inv g dmap count t w0 (fold (pred_step dmap count node) (nbrs g node) (pending, visited, w))"
proof -
  obtain pending' visited' w' where
    f: "fold (pred_step dmap count node) (nbrs g node) (pending, visited, w) = (pending', visited', w')"
    by (cases rule: prod_cases3)
  have d: "distinct pending" "set pending \<subseteq> visited" "node \<notin> set pending" "node \<in> visited"
    using inv by (auto simp: back_inv_def)
  note sp = pred_fold_spec [OF f d(1,2)]
  have fin: "visited' - set pending' = insert node (visited - set (node # pending))"
    using sp d by auto
  have anc: "visited' \<subseteq> ancestors g dmap t"
    using sp d(4) inv by (auto simp: back_inv_def intro: anc_step)
  have closed: "\<forall>n \<in> visited' - set pending'. preds g dmap n \<subseteq> visited'"
    unfolding fin using sp inv by (auto simp: back_inv_def preds_def)
  have gain: "dict_get w' k 0 = dict_get w0 k 0 + edge_gain g dmap count (visited' - set pending') k" for k
    unfolding fin using sp [of k] inv by (cases k) (auto simp: back_inv_def edge_gain_def)
  show ?thesis
    unfolding f using anc closed gain sp inv d by (auto simp: back_inv_def)
qed

lemma back_inv_end: "back_inv g dmap count t w0 st \<Longrightarrow> back_inv g dmap count t w0 (dag_back g dmap count st)"
proof (induction g dmap count st rule: dag_back.induct)
  case (2 g dmap count node pending visited w)
  then show ?case using back_inv_step by fastforce
qed simp

lemma back_pending: "fst (dag_back g dmap count st) = []"
  by (induction g dmap count st rule: dag_back.induct) auto

lemma ancestors_least:
  assumes "t \<in> V" and "\<forall>n \<in> V. preds g dmap n \<subseteq> V"
  shows "ancestors g dmap t \<subseteq> V"
proof
  fix v assume "v \<in> ancestors g dmap t"
  then show "v \<in> V" using assms by induction (auto simp: preds_def)
qed

text \<open>The stack search of the planner adds \<open>count\<close> witnesses to the directed edge \<open>(p, n)\<close>, once for
  each parallel link, exactly when \<open>n\<close> lies on a shortest path to the destination and \<open>p\<close>
  precedes it on one; every other counter is unchanged.\<close>

lemma back_witnesses_spec:
  "dict_get (back_witnesses g dmap count t w) (p, n) 0 = dict_get w (p, n) 0
     + (if n \<in> ancestors g dmap t \<and> is_pred dmap p n then count * int (count_list (nbrs g n) p) else 0)"
proof -
  obtain visited w' where b: "dag_back g dmap count ([t], {t}, w) = ([], visited, w')"
    using back_pending [of g dmap count "([t], {t}, w)"] by (cases "dag_back g dmap count ([t], {t}, w)") auto
  have "back_inv g dmap count t w ([t], {t}, w)"
    by (auto simp: back_inv_def edge_gain_def intro: anc_refl)
  then have inv: "back_inv g dmap count t w ([], visited, w')" using back_inv_end b by metis
  then have "visited = ancestors g dmap t"
    using ancestors_least [of t visited g dmap] by (auto simp: back_inv_def)
  then show ?thesis using inv b by (simp add: back_inv_def back_witnesses_def edge_gain_def)
qed

end
