(* ===== verification/Pingmesh_Planner.thy ===== *)
theory Pingmesh_Planner
  imports Topology_Model Graph_BFS
begin

text \<open>
  \<open>platform/pingmesh/planner.py\<close>: peer selection, probe schedules and candidate coverage.
  \<open>compile_pingmesh_plan\<close> is the source function with its early errors; the rack dictionary, the peer
  sets (kept as lists without duplicates), the pair counter and the frames are built by the same
  loops. SHA-256 and the JSON dump of a pydantic model are library code: \<open>sha256\<close>, \<open>sha256_hex\<close> and
  \<open>dump\<close> are arguments. Sizes that pydantic bounds from below (\<open>policy_ok\<close>) are read as naturals.
  Shown, for a validated manifest: probing is symmetric and never to oneself, one epoch sends exactly
  one RTT probe for every target and source port, the frame sizes respect the policy, and an accepted
  plan has every directed switch link on a shortest path between two racks that probe each other.
\<close>

subsection \<open>Racks and peers\<close>

type_synonym rack_dict = "(string, string list) dict"
type_synonym pair_counts = "(string \<times> string, int) dict"

definition rack_key :: "device \<Rightarrow> string" where
  "rack_key client = (case attached_switch client of None \<Rightarrow> ''None'' | Some s \<Rightarrow> s)"

definition racks_of :: "topology_manifest \<Rightarrow> rack_dict" where
  "racks_of m = fold (\<lambda>client. dict_append (rack_key client) (dev_name client)) (clients m) []"

definition add_peer :: "string \<Rightarrow> string \<Rightarrow> rack_dict \<Rightarrow> rack_dict" where
  "add_peer source destination peers =
     (let old = dict_get peers source [] in
      AList.update source (if destination \<in> set old then old else old @ [destination]) peers)"

definition permutations2 :: "'a list \<Rightarrow> ('a \<times> 'a) list" where
  "permutations2 xs = [(xs ! i, xs ! j). i \<leftarrow> [0..<length xs], j \<leftarrow> [0..<length xs], i \<noteq> j]"

fun combinations2 :: "'a list \<Rightarrow> ('a \<times> 'a) list" where
  "combinations2 [] = []"
| "combinations2 (x # xs) = map (Pair x) xs @ combinations2 xs"

definition same_rack_peers :: "rack_dict \<Rightarrow> rack_dict \<Rightarrow> rack_dict" where
  "same_rack_peers racks peers =
     fold (\<lambda>names. fold (\<lambda>(source, destination). add_peer source destination) (permutations2 names))
       (dict_values racks) peers"

definition opt_or :: "int option \<Rightarrow> int \<Rightarrow> int" where
  "opt_or o' dflt = (case o' of None \<Rightarrow> dflt | Some v \<Rightarrow> if v = 0 then dflt else v)"

definition replica_peers :: "nat \<Rightarrow> string list \<Rightarrow> string list \<Rightarrow> nat \<Rightarrow> rack_dict \<Rightarrow> rack_dict" where
  "replica_peers ij a b replica peers =
     (let source = a ! ((ij + replica) mod length a); destination = b ! ((ij + replica) mod length b)
      in add_peer destination source (add_peer source destination peers))"

definition cross_rack_step ::
  "pingmesh_policy \<Rightarrow> rack_dict \<times> pair_counts \<Rightarrow> (nat \<times> string \<times> string list) \<times> (nat \<times> string \<times> string list)
     \<Rightarrow> (rack_dict \<times> pair_counts) res" where
  "cross_rack_step policy st lr = (case (st, lr) of ((peers, counts), ((i, left, a), (j, right, b))) \<Rightarrow>
     (let widest = max (length a) (length b); count = opt_or (cross_rack_pairs policy) (int widest) in
      rbind (raise_if (count > int widest) (ValueError ''cross_rack_pairs exceeds the rack matching capacity'')) (\<lambda>_.
      Inr (fold (replica_peers (i + j) a b) [0..<nat count] peers,
           AList.update (right, left) count (AList.update (left, right) count counts)))))"

definition select_peers :: "topology_manifest \<Rightarrow> (rack_dict \<times> pair_counts) res" where
  "select_peers m =
     (let racks = racks_of m; names = map dev_name (clients m) in
      rbind (rfoldM (cross_rack_step (pingmesh m))
               (same_rack_peers racks (dict_of (map (\<lambda>n. (n, [])) names)), [])
               (combinations2 (enumerate 0 racks))) (\<lambda>(peers, counts).
      rbind (raise_if (\<exists>targets \<in> set (dict_values peers). targets = [])
               (ValueError ''Pingmesh plan leaves a client without probes'')) (\<lambda>_.
      Inr (peers, counts))))"

subsection \<open>Schedules\<close>

text \<open>\<open>range(k * step, min((k + 1) * step, n))\<close>, and \<open>(n + step - 1) // step\<close> of them.\<close>

definition chunk :: "nat \<Rightarrow> nat \<Rightarrow> nat \<Rightarrow> nat list" where
  "chunk n step k = [k * step..<min ((k + 1) * step) n]"

definition chunk_count :: "nat \<Rightarrow> nat \<Rightarrow> nat" where
  "chunk_count n step = (n + step - 1) div step"

definition frame_probes :: "nat \<Rightarrow> nat \<Rightarrow> (probe_kind \<times> nat \<times> nat) list" where
  "frame_probes n_active n_sockets =
     concat (map (\<lambda>t. map (\<lambda>s. (RTT, t, s)) [0..<n_sockets] @ [(DF, t, t mod n_sockets)]) [0..<n_active])"

definition make_frame :: "nat \<Rightarrow> nat \<Rightarrow> nat \<times> nat list \<Rightarrow> nat \<Rightarrow> probe_frame" where
  "make_frame batch_size n_targets pb destination_batch =
     (let active = chunk n_targets batch_size destination_batch in
      \<lparr> destination_batch_index = destination_batch, port_batch_index = fst pb,
        target_indices = active, probes = frame_probes (length active) (length (snd pb)) \<rparr>)"

definition make_frames :: "nat \<Rightarrow> nat \<Rightarrow> nat list list \<Rightarrow> nat \<Rightarrow> probe_frame list" where
  "make_frames batch_size n_targets batches destination_batches =
     concat (map (\<lambda>pb. map (make_frame batch_size n_targets pb) [0..<destination_batches]) (enumerate 0 batches))"

definition int_from_bytes :: "nat list \<Rightarrow> nat" where
  "int_from_bytes bs = foldl (\<lambda>a b. 256 * a + b) 0 bs"

definition client_plan ::
  "(string \<Rightarrow> nat list) \<Rightarrow> string list \<Rightarrow> rack_dict \<Rightarrow> nat \<Rightarrow> nat list list \<Rightarrow> nat \<Rightarrow> int \<Rightarrow> string \<Rightarrow> client_probe_plan" where
  "client_plan sha256 names peers batch_size batches destination_batches interval name =
     (let order = dict_of (map (\<lambda>(i, n). (n, i)) (enumerate 0 names));
          tgts = sort_key (\<lambda>n. dict_get order n 0) (dict_get peers name []) in
      \<lparr> plan_client = name, targets = tgts,
        startup_delay_ms = int_from_bytes (take 8 (sha256 name)) mod nat (interval * 1000),
        frames = make_frames batch_size (length tgts) batches destination_batches \<rparr>)"

subsection \<open>Candidate coverage\<close>

definition add_switch_link :: "string set \<Rightarrow> link \<Rightarrow> string graph \<Rightarrow> string graph" where
  "add_switch_link sw l g =
     (let a = ep_device (fst (endpoints l)); b = ep_device (snd (endpoints l)) in
      if a \<in> sw \<and> b \<in> sw
      then (let g' = AList.update a (nbrs g a @ [b]) g in AList.update b (nbrs g' b @ [a]) g')
      else g)"

definition switch_graph :: "topology_manifest \<Rightarrow> string graph" where
  "switch_graph m =
     fold (add_switch_link (set (map dev_name (switches m)))) (links m)
       (dict_of (map (\<lambda>d. (dev_name d, [])) (switches m)))"

definition cover_destination ::
  "string graph \<Rightarrow> pair_counts \<Rightarrow> string \<Rightarrow> (string, int) dict \<Rightarrow> pair_counts \<Rightarrow> string \<Rightarrow> pair_counts res" where
  "cover_destination g counts source dmap w destination =
     (let count = dict_get counts (source, destination) 0 in
      if count = 0 then Inr w
      else rbind (raise_if (map_of dmap destination = None)
             (ValueError (''Disconnected racks: '' @ source @ '', '' @ destination))) (\<lambda>_.
           Inr (back_witnesses g dmap count destination w)))"

definition cover_source :: "string graph \<Rightarrow> pair_counts \<Rightarrow> string list \<Rightarrow> pair_counts \<Rightarrow> string \<Rightarrow> pair_counts res" where
  "cover_source g counts rack_names w source =
     rbind (raise_if (map_of g source = None) (KeyError source)) (\<lambda>_.
     rfoldM (cover_destination g counts source (distances g source)) w rack_names)"

definition access_witnesses :: "rack_dict \<Rightarrow> device \<Rightarrow> pair_counts \<Rightarrow> pair_counts" where
  "access_witnesses peers client w =
     (case attached_switch client of None \<Rightarrow> w
      | Some sw \<Rightarrow> (let degree = int (length (dict_get peers (dev_name client) [])) in
          AList.update (sw, dev_name client) degree (AList.update (dev_name client, sw) degree w)))"

definition link_cover :: "pair_counts \<Rightarrow> link_endpoint \<Rightarrow> link_endpoint \<Rightarrow> link_coverage" where
  "link_cover w a b = \<lparr> cov_source = ep_device a, cov_destination = ep_device b,
     source_interface = ep_interface a, destination_interface = ep_interface b,
     witnesses = dict_get w (ep_device a, ep_device b) 0 \<rparr>"

definition candidate_coverage_of ::
  "topology_manifest \<Rightarrow> rack_dict \<Rightarrow> rack_dict \<Rightarrow> pair_counts \<Rightarrow> candidate_coverage res" where
  "candidate_coverage_of m racks peers counts =
     rbind (rfoldM (cover_source (switch_graph m) counts (dict_keys racks)) [] (dict_keys racks)) (\<lambda>w0.
     (let w = fold (access_witnesses peers) (clients m) w0;
          cov = concat (map (\<lambda>l. [link_cover w (fst (endpoints l)) (snd (endpoints l)),
                                  link_cover w (snd (endpoints l)) (fst (endpoints l))]) (links m));
          covered = (\<Union>c \<in> set [c \<leftarrow> cov. witnesses c \<noteq> 0]. {cov_source c, cov_destination c}) in
      Inr \<lparr> directed_links = cov, covered_switches = [dev_name d. d \<leftarrow> switches m, dev_name d \<in> covered],
            minimum_witnesses = (if cov = [] then 0 else Min (set (map witnesses cov))) \<rparr>))"

subsection \<open>The compiler\<close>

definition plan_fingerprint ::
  "(topology_manifest \<Rightarrow> pingmesh_plan \<Rightarrow> string) \<Rightarrow> (string \<Rightarrow> string) \<Rightarrow> topology_manifest \<Rightarrow> pingmesh_plan \<Rightarrow> string" where
  "plan_fingerprint dump sha256_hex m plan =
     sha256_hex (dump (m\<lparr>pingmesh_plan_opt := None\<rparr>) (plan\<lparr>settings := (settings plan)\<lparr>plan_id := []\<rparr>\<rparr>))"

definition compile_settings :: "pingmesh_policy \<Rightarrow> nat \<Rightarrow> nat \<Rightarrow> plan_settings" where
  "compile_settings policy batch_size destination_batches =
     (let pool = nat (rtt_port_pool_size policy); per_cycle = nat (rtt_ports_per_cycle policy);
          batches = map (chunk pool per_cycle) [0..<chunk_count pool per_cycle];
          epoch = destination_batches * length batches; interval = cycle_interval_seconds policy in
      \<lparr> plan_id = [], source_ports = map (\<lambda>i. 33000 + int i) [0..<pool], port_batches = batches,
        set_destination_batch_size = batch_size, set_cycle_interval_seconds = interval,
        coverage_epoch_cycles = epoch, coverage_epoch_seconds = int epoch * interval,
        complete_window_seconds = int epoch * interval + max 5 (2 * interval),
        set_df_payload_size = df_payload_size policy \<rparr>)"

definition batch_size_of :: "pingmesh_policy \<Rightarrow> rack_dict \<Rightarrow> nat" where
  "batch_size_of policy peers =
     nat (opt_or (destination_batch_size policy) (int (Max (set (map length (dict_values peers))))))"

definition destination_batches_of :: "nat \<Rightarrow> rack_dict \<Rightarrow> nat" where
  "destination_batches_of batch_size peers =
     Max (set (map (\<lambda>ts. chunk_count (length ts) batch_size) (dict_values peers)))"

definition check_ports :: "pingmesh_policy \<Rightarrow> unit res" where
  "check_ports policy =
     rbind (raise_if (rtt_ports_per_cycle policy > rtt_port_pool_size policy)
              (ValueError ''rtt_ports_per_cycle exceeds the source-port pool'')) (\<lambda>_.
     raise_if (33000 + rtt_port_pool_size policy - 1 > 65535 \<or> 33434 < 33000 + rtt_port_pool_size policy)
              (ValueError ''Pingmesh source-port pool overflows or overlaps the responder''))"

definition check_coverage :: "topology_manifest \<Rightarrow> candidate_coverage \<Rightarrow> unit res" where
  "check_coverage m cov =
     rbind (raise_if (set (covered_switches cov) \<noteq> set (map dev_name (switches m)))
              (ValueError ''Pingmesh plan leaves switches without candidate coverage'')) (\<lambda>_.
     raise_if (minimum_witnesses cov < (if scale m = ''xlarge'' \<or> scale m = ''fat-tree-k18'' then 2 else 1))
              (ValueError ''Pingmesh plan has insufficient candidate link coverage''))"

definition compile_pingmesh_plan ::
  "(string \<Rightarrow> nat list) \<Rightarrow> (topology_manifest \<Rightarrow> pingmesh_plan \<Rightarrow> string) \<Rightarrow> topology_manifest \<Rightarrow> pingmesh_plan res" where
  "compile_pingmesh_plan sha256 fingerprint m =
     (let policy = pingmesh m; names = map dev_name (clients m) in
      rbind (raise_if (length (clients m) < 2) (ValueError ''Pingmesh requires at least two clients'')) (\<lambda>_.
      rbind (select_peers m) (\<lambda>(peers, counts).
      rbind (check_ports policy) (\<lambda>_.
      (let batch_size = batch_size_of policy peers;
           destination_batches = destination_batches_of batch_size peers;
           st = compile_settings policy batch_size destination_batches;
           plans = map (client_plan sha256 names peers batch_size (port_batches st) destination_batches
                          (cycle_interval_seconds policy)) names in
       rbind (candidate_coverage_of m (racks_of m) peers counts) (\<lambda>cov.
       rbind (check_coverage m cov) (\<lambda>_.
       (let plan = \<lparr> settings = st, plan_clients = plans, coverage = cov \<rparr> in
        Inr (plan\<lparr>settings := st\<lparr>plan_id := fingerprint m plan\<rparr>\<rparr>)))))))))"

subsection \<open>The peer relation\<close>

definition edges :: "rack_dict \<Rightarrow> (string \<times> string) set" where
  "edges peers = {(a, b). b \<in> set (dict_get peers a [])}"

definition peers_ok :: "rack_dict \<Rightarrow> bool" where
  "peers_ok peers \<longleftrightarrow> (\<forall>a. distinct (dict_get peers a []))"

lemma edges_add_peer [simp]: "edges (add_peer s d peers) = insert (s, d) (edges peers)"
  by (auto simp: edges_def add_peer_def dict_get_def Let_def AList.update_conv' split: if_splits)

lemma peers_ok_add_peer: "peers_ok peers \<Longrightarrow> peers_ok (add_peer s d peers)"
  by (simp add: peers_ok_def add_peer_def dict_get_def Let_def AList.update_conv')

lemma keys_add_peer: "fst ` set (add_peer s d peers) = insert s (fst ` set peers)"
  by (simp add: add_peer_def Let_def keys_update)

lemma fold_add_peer:
  "edges (fold (\<lambda>(s, d). add_peer s d) ps peers) = edges peers \<union> set ps"
  "peers_ok peers \<Longrightarrow> peers_ok (fold (\<lambda>(s, d). add_peer s d) ps peers)"
  "fst ` set (fold (\<lambda>(s, d). add_peer s d) ps peers) = fst ` set peers \<union> fst ` set ps"
  by (induction ps arbitrary: peers) (auto simp: peers_ok_add_peer keys_add_peer split: prod.splits)

lemma fold_replica_peers:
  "fold (replica_peers ij a b) rs peers
   = fold (\<lambda>(s, d). add_peer s d)
       (concat (map (\<lambda>r. [(a ! ((ij + r) mod length a), b ! ((ij + r) mod length b)),
                         (b ! ((ij + r) mod length b), a ! ((ij + r) mod length a))]) rs)) peers"
  by (induction rs arbitrary: peers) (auto simp: replica_peers_def Let_def)

lemma fold_same_rack:
  "same_rack_peers racks peers
   = fold (\<lambda>(s, d). add_peer s d) (concat (map permutations2 (dict_values racks))) peers"
proof -
  have "fold (\<lambda>names. fold (\<lambda>(s, d). add_peer s d) (permutations2 names)) xs peers
      = fold (\<lambda>(s, d). add_peer s d) (concat (map permutations2 xs)) peers" for xs peers
    by (induction xs arbitrary: peers) auto
  then show ?thesis by (simp add: same_rack_peers_def)
qed

lemma set_permutations2:
  "distinct xs \<Longrightarrow> set (permutations2 xs) = {(a, b). a \<in> set xs \<and> b \<in> set xs \<and> a \<noteq> b}"
  by (force simp: permutations2_def in_set_conv_nth nth_eq_iff_index_eq)

lemma racks_of_group_by: "racks_of m = map (\<lambda>(k, cs). (k, map dev_name cs)) (group_by rack_key (clients m))"
proof -
  have upd: "AList.update k (f v) (map (\<lambda>(k, v). (k, f v)) d) = map (\<lambda>(k, v). (k, f v)) (AList.update k v d)"
    for k :: string and v :: "device list" and d and f :: "device list \<Rightarrow> string list"
    by (induction d) auto
  have "dict_append k (dev_name c) (map (\<lambda>(k, cs). (k, map dev_name cs)) d)
      = map (\<lambda>(k, cs). (k, map dev_name cs)) (dict_append k c d)" for k c and d :: "(string, device list) dict"
    by (auto simp: dict_append_def map_of_map upd [symmetric] split: option.split)
  then have "fold (\<lambda>c. dict_append (rack_key c) (dev_name c)) cs (map (\<lambda>(k, cs). (k, map dev_name cs)) d)
      = map (\<lambda>(k, cs). (k, map dev_name cs)) (fold (\<lambda>c. dict_append (rack_key c) c) cs d)" for cs d
    by (induction cs arbitrary: d) auto
  from this [of "clients m" "[]"] show ?thesis by (simp add: racks_of_def group_by_def)
qed

lemma racks_of_entry:
  "(k, names) \<in> set (racks_of m) \<Longrightarrow> names = map dev_name [c \<leftarrow> clients m. rack_key c = k] \<and> names \<noteq> []"
proof -
  assume "(k, names) \<in> set (racks_of m)"
  then obtain cs where cs: "(k, cs) \<in> set (group_by rack_key (clients m))" "names = map dev_name cs"
    by (auto simp: racks_of_group_by)
  then show ?thesis using group_by_entry [OF cs(1)] cs(2) by simp
qed

lemma keys_racks_of: "dict_keys (racks_of m) = dict_keys (group_by rack_key (clients m))"
  by (auto simp: racks_of_group_by dict_keys_def)

lemma wf_racks_of: "distinct (map fst (racks_of m))"
  using wf_group_by [of rack_key "clients m"] keys_racks_of [of m] by (simp add: wf_dict_def dict_keys_def)

lemma combinations2_mem:
  "(x, y) \<in> set (combinations2 xs) \<Longrightarrow> x \<in> set xs \<and> y \<in> set xs"
  "(x, y) \<in> set (combinations2 xs) \<Longrightarrow> distinct (map f xs) \<Longrightarrow> f x \<noteq> f y"
  by (induction xs) auto

definition policy_ok :: "pingmesh_policy \<Rightarrow> bool" where
  "policy_ok p \<longleftrightarrow> (\<forall>c. cross_rack_pairs p = Some c \<longrightarrow> 1 \<le> c) \<and> (\<forall>c. destination_batch_size p = Some c \<longrightarrow> 1 \<le> c)
     \<and> 1 \<le> rtt_port_pool_size p \<and> 1 \<le> rtt_ports_per_cycle p \<and> 1 \<le> cycle_interval_seconds p \<and> 1 \<le> df_payload_size p"

lemma opt_or_pos: "1 \<le> d \<Longrightarrow> (\<And>c. o' = Some c \<Longrightarrow> 1 \<le> c) \<Longrightarrow> 1 \<le> opt_or o' d"
  by (auto simp: opt_or_def split: option.split)

definition client_names :: "topology_manifest \<Rightarrow> string list" where
  "client_names m = map dev_name (clients m)"

lemma client_names_distinct: "manifest_wf m \<Longrightarrow> distinct (client_names m)"
  by (simp add: manifest_wf_def client_names_def clients_def devices_by_role_def distinct_map_filter)

definition same_rack :: "topology_manifest \<Rightarrow> string \<Rightarrow> string \<Rightarrow> bool" where
  "same_rack m a b \<longleftrightarrow> (\<exists>(k, names) \<in> set (racks_of m). a \<in> set names \<and> b \<in> set names)"

lemma rack_names_distinct:
  assumes "manifest_wf m" and "(k, names) \<in> set (racks_of m)"
  shows "distinct names" and "set names \<subseteq> set (client_names m)"
proof -
  have "names = map dev_name [c \<leftarrow> clients m. rack_key c = k]" using racks_of_entry [OF assms(2)] by simp
  then show "distinct names" "set names \<subseteq> set (client_names m)"
    using client_names_distinct [OF assms(1)] by (auto simp: client_names_def distinct_map_filter)
qed

lemma racks_disjoint:
  assumes "manifest_wf m" and "(k, a) \<in> set (racks_of m)" and "(k', b) \<in> set (racks_of m)" and "k \<noteq> k'"
  shows "set a \<inter> set b = {}"
proof -
  have "inj_on dev_name (set (clients m))"
    using client_names_distinct [OF assms(1)] by (simp add: client_names_def distinct_map)
  then show ?thesis
    using racks_of_entry [OF assms(2)] racks_of_entry [OF assms(3)] assms(4) by (auto dest: inj_onD)
qed

text \<open>What holds of the peers and the pair counts at every turn of the cross-rack loop.\<close>

definition peers_inv :: "topology_manifest \<Rightarrow> rack_dict \<times> pair_counts \<Rightarrow> bool" where
  "peers_inv m st \<longleftrightarrow> (case st of (peers, counts) \<Rightarrow>
     peers_ok peers \<and> sym (edges peers) \<and> irrefl (edges peers)
   \<and> edges peers \<subseteq> set (client_names m) \<times> set (client_names m)
   \<and> fst ` set peers = set (client_names m)
   \<and> (\<forall>l r. 0 \<le> dict_get counts (l, r) 0)
   \<and> (\<forall>l r. 0 < dict_get counts (l, r) 0 \<longrightarrow>
        (\<exists>a b. (l, a) \<in> set (racks_of m) \<and> (r, b) \<in> set (racks_of m) \<and> (\<exists>x \<in> set a. \<exists>y \<in> set b. (x, y) \<in> edges peers))))"

lemma peers_inv_start:
  assumes "manifest_wf m"
  shows "peers_inv m (same_rack_peers (racks_of m) (dict_of (map (\<lambda>n. (n, [])) (client_names m))), [])"
proof -
  let ?p0 = "dict_of (map (\<lambda>n. (n, [])) (client_names m)) :: rack_dict"
  let ?ps = "concat (map permutations2 (dict_values (racks_of m)))"
  have p0: "?p0 = map (\<lambda>n. (n, [])) (client_names m)"
    using client_names_distinct [OF assms] by (simp add: dict_of_distinct comp_def)
  have none: "dict_get ?p0 a [] = []" for a
    unfolding p0 by (auto simp: dict_get_def dest!: map_of_SomeD split: option.split)
  have ps: "set ?ps = (\<Union>(k, names) \<in> set (racks_of m). {(a, b). a \<in> set names \<and> b \<in> set names \<and> a \<noteq> b})"
    using rack_names_distinct(1) [OF assms] by (force simp: dict_values_def set_permutations2)
  have sub: "set ?ps \<subseteq> set (client_names m) \<times> set (client_names m)"
    unfolding ps using rack_names_distinct(2) [OF assms] by blast
  have e: "edges (fold (\<lambda>(s, d). add_peer s d) ?ps ?p0) = set ?ps"
    unfolding fold_add_peer(1) by (simp add: edges_def none)
  have "sym (set ?ps)" "irrefl (set ?ps)" unfolding ps by (auto simp: sym_def irrefl_def)
  moreover have "peers_ok ?p0" by (simp add: peers_ok_def none)
  moreover have "fst ` set ?p0 \<union> fst ` set ?ps = set (client_names m)" using sub by (auto simp: p0 image_image)
  ultimately show ?thesis
    using sub by (simp add: peers_inv_def fold_same_rack e fold_add_peer(2,3) dict_get_def)
qed

lemma counts_update2:
  "dict_get (AList.update k2 (c :: int) (AList.update k1 c counts)) k 0
     = (if k = k1 \<or> k = k2 then c else dict_get counts k 0)"
  unfolding dict_get_def al.lookup_store by simp

lemma peers_inv_step:
  assumes wf: "manifest_wf m" and pol: "policy_ok (pingmesh m)" and inv: "peers_inv m st"
    and mem: "lr \<in> set (combinations2 (enumerate 0 (racks_of m)))"
    and step: "cross_rack_step (pingmesh m) st lr = Inr st'"
  shows "peers_inv m st'"
proof -
  obtain i left a j right b where lr: "lr = ((i, left, a), (j, right, b))" by (metis prod_cases3 surj_pair)
  obtain peers counts where st: "st = (peers, counts)" by fastforce
  have racks: "(left, a) \<in> set (racks_of m)" "(right, b) \<in> set (racks_of m)"
    using combinations2_mem(1) [OF mem [unfolded lr]] by (auto simp: in_set_enumerate_eq dest: nth_mem)
  have "distinct (map (\<lambda>x. fst (snd x)) (enumerate 0 (racks_of m)))"
    using wf_racks_of [of m] map_map [of fst snd "enumerate 0 (racks_of m)"] by (simp add: comp_def)
  then have "left \<noteq> right" using combinations2_mem(2) [OF mem [unfolded lr]] by fastforce
  then have disj: "set a \<inter> set b = {}" using racks_disjoint [OF wf racks] by simp
  have ne: "a \<noteq> []" "b \<noteq> []" using racks_of_entry [OF racks(1)] racks_of_entry [OF racks(2)] by auto
  define count where "count = opt_or (cross_rack_pairs (pingmesh m)) (int (max (length a) (length b)))"
  define ps where "ps = concat (map (\<lambda>r. [(a ! ((i + j + r) mod length a), b ! ((i + j + r) mod length b)),
                         (b ! ((i + j + r) mod length b), a ! ((i + j + r) mod length a))]) [0..<nat count])"
  have "1 \<le> max (length a) (length b)" using ne by (cases a; simp add: le_max_iff_disj)
  then have pos: "1 \<le> count" unfolding count_def using pol by (intro opt_or_pos) (auto simp: policy_ok_def)
  have st': "st' = (fold (\<lambda>(s, d). add_peer s d) ps peers,
      AList.update (right, left) count (AList.update (left, right) count counts))"
    using step by (auto simp: cross_rack_step_def lr st Let_def rbind_eq_Inr count_def ps_def fold_replica_peers)
  have sub: "set ps \<subseteq> (set a \<times> set b) \<union> (set b \<times> set a)"
    using ne by (auto simp: ps_def)
  have symps: "sym (set ps)" by (auto simp: ps_def sym_def)
  have irr: "irrefl (set ps)" using sub disj by (auto simp: irrefl_def)
  have names: "set ps \<subseteq> set (client_names m) \<times> set (client_names m)"
    using sub rack_names_distinct(2) [OF wf racks(1)] rack_names_distinct(2) [OF wf racks(2)] by blast
  let ?x = "a ! ((i + j) mod length a)" and ?y = "b ! ((i + j) mod length b)"
  have "0 < nat count" using pos by simp
  then have xy: "(?x, ?y) \<in> set ps" "(?y, ?x) \<in> set ps" unfolding ps_def by (auto intro!: bexI [of _ 0])
  have xa: "?x \<in> set a" "?y \<in> set b" using ne by simp_all
  have e: "edges (fst st') = edges peers \<union> set ps" by (simp add: st' fold_add_peer(1))
  have wit: "\<exists>u v. (l, u) \<in> set (racks_of m) \<and> (r, v) \<in> set (racks_of m) \<and> (\<exists>x \<in> set u. \<exists>y \<in> set v. (x, y) \<in> edges (fst st'))"
    if "0 < dict_get (snd st') (l, r) 0" for l r
  proof (cases "(l, r) = (left, right) \<or> (l, r) = (right, left)")
    case True
    then show ?thesis unfolding e using racks xy xa by blast
  next
    case False
    then have "0 < dict_get counts (l, r) 0" using that by (auto simp: st' counts_update2 split: if_splits)
    then show ?thesis unfolding e using inv by (fastforce simp: peers_inv_def st)
  qed
  have nonneg: "0 \<le> dict_get (snd st') (l, r) 0" for l r
    using inv pos by (simp add: st' counts_update2 peers_inv_def st)
  have keys: "fst ` set (fst st') = set (client_names m)"
    using inv names by (auto simp: st' fold_add_peer(3) peers_inv_def st)
  show ?thesis
    using inv wit nonneg keys names symps irr e
    by (auto simp: peers_inv_def st st' fold_add_peer(2) sym_Un irrefl_def)
qed

lemma select_peers_inv:
  assumes "manifest_wf m" and "policy_ok (pingmesh m)" and "select_peers m = Inr (peers, counts)"
  shows "peers_inv m (peers, counts)" and "n \<in> set (client_names m) \<Longrightarrow> dict_get peers n [] \<noteq> []"
proof -
  let ?st0 = "(same_rack_peers (racks_of m) (dict_of (map (\<lambda>n. (n, [])) (client_names m))), [])"
  have f: "rfoldM (cross_rack_step (pingmesh m)) ?st0 (combinations2 (enumerate 0 (racks_of m))) = Inr (peers, counts)"
    and ne: "[] \<notin> set (dict_values peers)"
    using assms(3) by (auto simp: select_peers_def Let_def rbind_eq_Inr client_names_def)
  show inv: "peers_inv m (peers, counts)"
    by (rule rfoldM_invariant [where P = "peers_inv m", OF f peers_inv_start [OF assms(1)]])
      (rule peers_inv_step [OF assms(1,2)])
  assume "n \<in> set (client_names m)"
  then have "map_of peers n \<noteq> None" using inv by (simp add: peers_inv_def map_of_eq_None_iff)
  then show "dict_get peers n [] \<noteq> []"
    using ne by (force simp: dict_get_def dict_values_def dest: map_of_SomeD split: option.splits)
qed

subsection \<open>A small fabric\<close>

text \<open>Two leaves under one spine, with three clients: the concrete manifest of the examples.\<close>

definition small_device :: "string \<Rightarrow> device_role \<Rightarrow> string option \<Rightarrow> device" where
  "small_device n r sw = \<lparr> dev_name = n, role = r, mgmt_ip = None, data_ip = None, attached_switch = sw, asn = None,
     router_id = None, metadata = [] \<rparr>"

definition small_link :: "string \<Rightarrow> string \<Rightarrow> string \<Rightarrow> string \<Rightarrow> link" where
  "small_link a i b j = \<lparr> kind = ''data'', endpoints = (\<lparr> ep_device = a, ep_interface = i \<rparr>, \<lparr> ep_device = b, ep_interface = j \<rparr>),
     link_mtu = DEFAULT_LINK_MTU \<rparr>"

definition small_policy :: pingmesh_policy where
  "small_policy = \<lparr> cross_rack_pairs = Some 1, destination_batch_size = Some 1, rtt_port_pool_size = 3,
     rtt_ports_per_cycle = 2, cycle_interval_seconds = 1, df_payload_size = 9072 \<rparr>"

definition small_manifest :: topology_manifest where
  "small_manifest = \<lparr> topology_id = ''dcn-test'', top_name = ''dcn'', scale = ''test'', top_purpose = ''benchmark'', top_family = Clos_family,
     mgmt_network = ''mgmt'', mgmt_subnet = ''172.20.20.0/24'', collector_ipv4 = ''172.20.20.200'', defaults = default_topology_defaults,
     facts = \<lparr> facts_spines = 1, facts_leafs = 2, facts_cores = 0, facts_aggs = 0, facts_edges = 0, facts_pods = 0,
       facts_clients_per_switch = 2, facts_total_clients = 3, facts_total_switches = 3, facts_fat_tree_k = None,
       facts_full_density = None, facts_host_density = None \<rparr>,
     devices = [small_device ''s1'' SPINE None, small_device ''l1'' LEAF None, small_device ''l2'' LEAF None,
       small_device ''c1'' CLIENT (Some ''l1''), small_device ''c2'' CLIENT (Some ''l1''), small_device ''c3'' CLIENT (Some ''l2'')],
     links = [small_link ''l1'' ''eth1'' ''s1'' ''eth1'', small_link ''l2'' ''eth1'' ''s1'' ''eth2'',
       small_link ''c1'' ''eth1'' ''l1'' ''eth2'', small_link ''c2'' ''eth1'' ''l1'' ''eth3'', small_link ''c3'' ''eth1'' ''l2'' ''eth2''],
     routing = \<lparr> spine_asn_md = None, leaf_asn_range = None, core_asn_range = None, agg_asn_range = None, edge_asn_range = None,
       ecmp_hash_policy_by_role = [(SPINE, 1), (LEAF, 1)], ecmp = True, bfd = False \<rparr>,
     pingmesh = small_policy, pingmesh_plan_opt = None \<rparr>"

lemma small_policy_ok: "policy_ok (pingmesh small_manifest)"
  by (simp add: policy_ok_def small_manifest_def small_policy_def)

subsection \<open>What an accepted plan contains\<close>

lemma compile_cases:
  assumes "compile_pingmesh_plan sha256 fp m = Inr plan"
  obtains peers counts cov bs nb where
    "select_peers m = Inr (peers, counts)" and "check_ports (pingmesh m) = Inr ()"
    and "bs = batch_size_of (pingmesh m) peers" and "nb = destination_batches_of bs peers"
    and "candidate_coverage_of m (racks_of m) peers counts = Inr cov" and "check_coverage m cov = Inr ()"
    and "\<exists>i. settings plan = (compile_settings (pingmesh m) bs nb)\<lparr>plan_id := i\<rparr>"
    and "plan_clients plan = map (client_plan sha256 (client_names m) peers bs
           (port_batches (settings plan)) nb (cycle_interval_seconds (pingmesh m))) (client_names m)"
    and "coverage plan = cov"
proof -
  from assms obtain peers counts where sel: "select_peers m = Inr (peers, counts)"
    by (auto simp: compile_pingmesh_plan_def Let_def rbind_eq_Inr)
  define bs where "bs = batch_size_of (pingmesh m) peers"
  define nb where "nb = destination_batches_of bs peers"
  define st where "st = compile_settings (pingmesh m) bs nb"
  define plans where "plans = map (client_plan sha256 (client_names m) peers bs (port_batches st) nb
      (cycle_interval_seconds (pingmesh m))) (client_names m)"
  from assms sel obtain cov where cov: "check_ports (pingmesh m) = Inr ()"
      "candidate_coverage_of m (racks_of m) peers counts = Inr cov" "check_coverage m cov = Inr ()"
    and plan: "plan = (let p = \<lparr> settings = st, plan_clients = plans, coverage = cov \<rparr> in
      p\<lparr>settings := st\<lparr>plan_id := fp m p\<rparr>\<rparr>)"
    unfolding st_def plans_def nb_def bs_def client_names_def
    by (auto simp: compile_pingmesh_plan_def Let_def rbind_eq_Inr)
  show thesis
    by (rule that [OF sel cov(1) bs_def nb_def cov(2,3)])
      (auto simp: plan Let_def st_def [symmetric] plans_def)
qed

lemma plan_targets:
  assumes "manifest_wf m" and "policy_ok (pingmesh m)" and "compile_pingmesh_plan sha256 fp m = Inr plan"
  shows "map plan_client (plan_clients plan) = client_names m"
    and "c \<in> set (plan_clients plan) \<Longrightarrow> targets c \<noteq> [] \<and> distinct (targets c)
           \<and> plan_client c \<notin> set (targets c) \<and> set (targets c) \<subseteq> set (client_names m)"
    and "c \<in> set (plan_clients plan) \<Longrightarrow> c' \<in> set (plan_clients plan) \<Longrightarrow>
           (plan_client c' \<in> set (targets c)) = (plan_client c \<in> set (targets c'))"
proof -
  obtain peers counts bs nb where sel: "select_peers m = Inr (peers, counts)"
    and pl: "plan_clients plan = map (client_plan sha256 (client_names m) peers bs
           (port_batches (settings plan)) nb (cycle_interval_seconds (pingmesh m))) (client_names m)"
    using compile_cases [OF assms(3)] by metis
  note inv = select_peers_inv [OF assms(1,2) sel]
  have c: "set (targets c) = set (dict_get peers (plan_client c) [])" "distinct (targets c)"
    "plan_client c \<in> set (client_names m)" if "c \<in> set (plan_clients plan)" for c
    using that inv(1) by (auto simp: pl client_plan_def Let_def peers_inv_def peers_ok_def)
  have e: "(b \<in> set (dict_get peers a [])) = ((a, b) \<in> edges peers)" for a b by (simp add: edges_def)
  show "map plan_client (plan_clients plan) = client_names m"
    by (simp add: pl client_plan_def Let_def comp_def)
  show "targets c \<noteq> [] \<and> distinct (targets c) \<and> plan_client c \<notin> set (targets c) \<and> set (targets c) \<subseteq> set (client_names m)"
    if cm: "c \<in> set (plan_clients plan)"
  proof -
    have "set (targets c) \<noteq> {}" using inv(2) c(1,3) [OF cm] by simp
    then show ?thesis
      using c [OF cm] inv(1) by (auto simp: peers_inv_def e irrefl_def)
  qed
  show "(plan_client c' \<in> set (targets c)) = (plan_client c \<in> set (targets c'))"
    if "c \<in> set (plan_clients plan)" "c' \<in> set (plan_clients plan)"
    using c(1) [OF that(1)] c(1) [OF that(2)] inv(1) by (auto simp: peers_inv_def e dest: symD)
qed

text \<open>C5: in an accepted plan every client of the manifest, in order, has at least one target, probes
  other clients only, never twice, and two clients probe each other or not at all.\<close>

theorem probing_symmetric:
  assumes "manifest_wf m" and "policy_ok (pingmesh m)" and "compile_pingmesh_plan sha256 fp m = Inr plan"
  shows "map plan_client (plan_clients plan) = client_names m
    \<and> list_all (\<lambda>c. targets c \<noteq> [] \<and> distinct (targets c) \<and> plan_client c \<notin> set (targets c)
          \<and> set (targets c) \<subseteq> set (client_names m)
          \<and> list_all (\<lambda>c'. (plan_client c' \<in> set (targets c)) = (plan_client c \<in> set (targets c'))) (plan_clients plan))
        (plan_clients plan)"
  using plan_targets [OF assms] by (simp add: list_all_iff)

subsection \<open>Schedules cover every flow once\<close>

lemma set_chunk: "0 < step \<Longrightarrow> (i \<in> set (chunk n step k)) = (i < n \<and> i div step = k)"
  unfolding chunk_def
  by (auto simp: mult.commute dividend_less_times_div intro: div_nat_eqI)

lemma distinct_chunk [simp]: "distinct (chunk n step k)"
  by (simp add: chunk_def)

lemma chunk_count_bound: "0 < step \<Longrightarrow> i < n \<Longrightarrow> i div step < chunk_count n step"
proof -
  assume "0 < step" "i < n"
  then have "i + step \<le> n + step - 1" by linarith
  then have "(i + step) div step \<le> chunk_count n step" unfolding chunk_count_def by (rule div_le_mono)
  then show ?thesis using \<open>0 < step\<close> by simp
qed

text \<open>The flows one frame probes for round-trip time: target name and source port.\<close>

definition rtt_flows :: "plan_settings \<Rightarrow> client_probe_plan \<Rightarrow> probe_frame \<Rightarrow> (string \<times> int) list" where
  "rtt_flows st c f = concat (map (\<lambda>(k, t, s).
     if k = RTT then [(targets c ! (target_indices f ! t),
                       source_ports st ! ((port_batches st ! port_batch_index f) ! s))] else []) (probes f))"

lemma frame_probes_rtt:
  "concat (map (\<lambda>(k, t, s). if k = RTT then [f t s] else []) (frame_probes na ns))
     = concat (map (\<lambda>t. map (f t) [0..<ns]) [0..<na])"
proof -
  have "concat (map (\<lambda>(k, t, s). if k = RTT then [f t s] else []) (map (\<lambda>s. (RTT, t, s)) xs)) = map (f t) xs" for t xs
    by (induction xs) auto
  then have "concat (map (\<lambda>(k, t, s). if k = RTT then [f t s] else [])
        (concat (map (\<lambda>t. map (\<lambda>s. (RTT, t, s)) [0..<ns] @ [(DF, t, t mod ns)]) ts)))
      = concat (map (\<lambda>t. map (f t) [0..<ns]) ts)" for ts
    by (induction ts) auto
  then show ?thesis by (simp add: frame_probes_def)
qed

lemma concat_nth_product:
  "concat (map (\<lambda>t. map (\<lambda>s. g (xs ! t, ys ! s)) [0..<length ys]) [0..<length xs]) = map g (List.product xs ys)"
proof -
  have y: "map (\<lambda>s. g (x, ys ! s)) [0..<length ys] = map (\<lambda>y. g (x, y)) ys" for x
    using map_nth [of ys] map_map [of "\<lambda>y. g (x, y)" "nth ys" "[0..<length ys]"] by (simp add: comp_def)
  have "concat (map (\<lambda>t. map (\<lambda>s. g (xs ! t, ys ! s)) [0..<length ys]) [0..<length xs])
      = concat (map (\<lambda>x. map (\<lambda>y. g (x, y)) ys) (map (nth xs) [0..<length xs]))"
    by (simp add: y comp_def)
  also have "\<dots> = map g (List.product xs ys)" unfolding map_nth by (induction xs) auto
  finally show ?thesis .
qed

definition flow_at :: "plan_settings \<Rightarrow> client_probe_plan \<Rightarrow> nat \<times> nat \<Rightarrow> string \<times> int" where
  "flow_at st c ip = (targets c ! fst ip, source_ports st ! snd ip)"

lemma rtt_flows_frame:
  assumes "port_batches st ! pb = sockets"
  shows "rtt_flows st c (make_frame bs n (pb, sockets) d) = map (flow_at st c) (List.product (chunk n bs d) sockets)"
  using assms
  by (simp add: rtt_flows_def make_frame_def Let_def frame_probes_rtt flow_at_def
      concat_nth_product [where g = "flow_at st c", unfolded flow_at_def, simplified])

definition index_flows :: "nat \<Rightarrow> nat \<Rightarrow> nat \<Rightarrow> nat \<Rightarrow> nat \<Rightarrow> nat \<Rightarrow> (nat \<times> nat) list" where
  "index_flows n bs nb pool per npb =
     concat (map (\<lambda>pb. concat (map (\<lambda>d. List.product (chunk n bs d) (chunk pool per pb)) [0..<nb])) [0..<npb])"

lemma distinct_index_flows:
  assumes "0 < bs" and "0 < per"
  shows "distinct (index_flows n bs nb pool per npb)"
  unfolding index_flows_def
  by (intro distinct_concat_map) (use assms in \<open>auto simp: set_chunk distinct_product\<close>)

lemma set_index_flows:
  assumes "0 < bs" and "0 < per" and "chunk_count n bs \<le> nb"
  shows "set (index_flows n bs nb pool per (chunk_count pool per)) = {..<n} \<times> {..<pool}"
  using assms chunk_count_bound [OF assms(1), of _ n] chunk_count_bound [OF assms(2), of _ pool]
  by (force simp: index_flows_def set_chunk)

lemma concat_map_concat: "concat (map f (concat xss)) = concat (map (\<lambda>xs. concat (map f xs)) xss)"
  by (induction xss) auto

lemma frames_flows:
  assumes "port_batches st = map (chunk pool per) [0..<npb]"
  shows "concat (map (rtt_flows st c) (make_frames bs n (port_batches st) nb))
       = map (flow_at st c) (index_flows n bs nb pool per npb)"
proof -
  have "concat (map (rtt_flows st c) (map (make_frame bs n (pb, chunk pool per pb)) [0..<nb]))
      = map (flow_at st c) (concat (map (\<lambda>d. List.product (chunk n bs d) (chunk pool per pb)) [0..<nb]))"
    if "pb < npb" for pb
    using that rtt_flows_frame [of st pb "chunk pool per pb" c bs n] assms by (simp add: map_concat comp_def)
  then have "map (\<lambda>pb. concat (map (rtt_flows st c) (map (make_frame bs n (pb, chunk pool per pb)) [0..<nb]))) [0..<npb]
      = map (\<lambda>pb. map (flow_at st c) (concat (map (\<lambda>d. List.product (chunk n bs d) (chunk pool per pb)) [0..<nb]))) [0..<npb]"
    by (intro map_cong) auto
  then show ?thesis
    unfolding make_frames_def assms enumerate_map_upt index_flows_def concat_map_concat map_map comp_def
    by (simp add: map_concat comp_def del: map_eq_conv)
qed

text \<open>The length of an epoch is enough for every client.\<close>

lemma batches_enough:
  assumes "manifest_wf m" and "policy_ok (pingmesh m)" and "select_peers m = Inr (peers, counts)"
    and "n \<in> set (client_names m)"
  shows "0 < batch_size_of (pingmesh m) peers"
    and "chunk_count (length (dict_get peers n [])) bs \<le> destination_batches_of bs peers"
proof -
  note inv = select_peers_inv [OF assms(1-3)]
  have "map_of peers n \<noteq> None" using inv(1) assms(4) by (simp add: peers_inv_def map_of_eq_None_iff)
  then have mem: "dict_get peers n [] \<in> set (dict_values peers)"
    by (force simp: dict_get_def dict_values_def dest: map_of_SomeD)
  then show "chunk_count (length (dict_get peers n [])) bs \<le> destination_batches_of bs peers"
    unfolding destination_batches_of_def by (intro Max_ge) auto
  have "length (dict_get peers n []) \<le> Max (set (map length (dict_values peers)))"
    using mem by (intro Max_ge) auto
  then have "1 \<le> int (Max (set (map length (dict_values peers))))"
    using inv(2) [OF assms(4)] by (cases "dict_get peers n []") auto
  then have "1 \<le> opt_or (destination_batch_size (pingmesh m)) (int (Max (set (map length (dict_values peers)))))"
    using assms(2) by (intro opt_or_pos) (auto simp: policy_ok_def)
  then show "0 < batch_size_of (pingmesh m) peers" by (simp add: batch_size_of_def)
qed

text \<open>C4: during one epoch each client sends exactly one round-trip probe to every one of its targets
  from every source port, and the schedule has exactly the announced number of cycles.\<close>

theorem epoch_probes_each_flow_once:
  assumes wf: "manifest_wf m" and pol: "policy_ok (pingmesh m)"
    and ok: "compile_pingmesh_plan sha256 fp m = Inr plan" and c: "c \<in> set (plan_clients plan)"
  shows "distinct (concat (map (rtt_flows (settings plan) c) (frames c)))
       \<and> set (concat (map (rtt_flows (settings plan) c) (frames c))) = set (targets c) \<times> set (source_ports (settings plan))
       \<and> length (frames c) = coverage_epoch_cycles (settings plan)"
proof -
  obtain peers counts bs nb i where sel: "select_peers m = Inr (peers, counts)"
    and bs: "bs = batch_size_of (pingmesh m) peers" and nb: "nb = destination_batches_of bs peers"
    and st: "settings plan = (compile_settings (pingmesh m) bs nb)\<lparr>plan_id := i\<rparr>"
    and pl: "plan_clients plan = map (client_plan sha256 (client_names m) peers bs
           (port_batches (settings plan)) nb (cycle_interval_seconds (pingmesh m))) (client_names m)"
    using compile_cases [OF ok] by metis
  define pool per where "pool = nat (rtt_port_pool_size (pingmesh m))" and "per = nat (rtt_ports_per_cycle (pingmesh m))"
  obtain name where n: "name \<in> set (client_names m)" and cn: "c = client_plan sha256 (client_names m) peers bs
      (port_batches (settings plan)) nb (cycle_interval_seconds (pingmesh m)) name" using c pl by auto
  note enough = batches_enough [OF wf pol sel n]
  have pos: "0 < bs" "0 < per" using enough(1) pol by (simp_all add: bs per_def policy_ok_def)
  have batches: "port_batches (settings plan) = map (chunk pool per) [0..<chunk_count pool per]"
    and ports: "source_ports (settings plan) = map (\<lambda>i. 33000 + int i) [0..<pool]"
    by (simp_all add: st compile_settings_def Let_def pool_def per_def)
  have len: "length (targets c) = length (dict_get peers name [])" by (simp add: cn client_plan_def Let_def)
  have fr: "frames c = make_frames bs (length (targets c)) (port_batches (settings plan)) nb"
    by (simp add: cn client_plan_def Let_def)
  note flows = frames_flows [OF batches, of c bs "length (targets c)" nb, folded fr]
  have ix: "set (index_flows (length (targets c)) bs nb pool per (chunk_count pool per)) = {..<length (targets c)} \<times> {..<pool}"
    using set_index_flows [OF pos] enough(2) [of bs] by (simp add: len nb)
  have dt: "distinct (targets c)" using plan_targets(2) [OF wf pol ok c] by simp
  have "inj_on (flow_at (settings plan) c) ({..<length (targets c)} \<times> {..<pool})"
    by (auto simp: inj_on_def flow_at_def ports nth_eq_iff_index_eq [OF dt])
  moreover have "flow_at (settings plan) c ` ({..<length (targets c)} \<times> {..<pool}) = set (targets c) \<times> set (source_ports (settings plan))"
    by (force simp: flow_at_def ports set_conv_nth image_iff)
  moreover have "length (frames c) = coverage_epoch_cycles (settings plan)"
    unfolding fr by (simp add: make_frames_def length_concat comp_def st compile_settings_def Let_def sum_list_triv)
  ultimately show ?thesis
    unfolding flows using distinct_index_flows [OF pos] ix by (simp add: distinct_map)
qed

subsection \<open>Accepted plans cover every directed link\<close>

lemma walk_in_cons: "n \<in> set (nbrs g p) \<Longrightarrow> t \<in> walk_in g n j \<Longrightarrow> t \<in> walk_in g p (Suc j)"
proof (induction j arbitrary: t)
  case (Suc j)
  from Suc.prems(2) obtain v where v: "v \<in> walk_in g n j" "t \<in> set (nbrs g v)" by auto
  show ?case unfolding walk_in.simps(2) [of g p "Suc j"] using Suc.IH [OF Suc.prems(1) v(1)] v(2) by blast
qed simp

definition on_shortest_path :: "'a graph \<Rightarrow> 'a \<Rightarrow> 'a \<Rightarrow> 'a \<Rightarrow> 'a \<Rightarrow> bool" where
  "on_shortest_path g s t a b \<longleftrightarrow>
     (\<exists>i j. shortest g s a i \<and> b \<in> set (nbrs g a) \<and> t \<in> walk_in g b j \<and> shortest g s t (i + 1 + j))"

definition sym_graph :: "'a graph \<Rightarrow> bool" where
  "sym_graph g \<longleftrightarrow> (\<forall>a b. b \<in> set (nbrs g a) \<longrightarrow> a \<in> set (nbrs g b))"

lemma ancestor_walk:
  assumes "n \<in> ancestors g (distances g s) t" and "sym_graph g" and "map_of (distances g s) t = Some dt"
  shows "\<exists>j. map_of (distances g s) n = Some (dt - int j) \<and> t \<in> walk_in g n j"
  using assms(1)
proof induction
  case anc_refl
  show ?case using assms(3) by (intro exI [of _ 0]) simp
next
  case (anc_step n p)
  then obtain j where j: "map_of (distances g s) n = Some (dt - int j)" "t \<in> walk_in g n j" by blast
  have "n \<in> set (nbrs g p)" using assms(2) anc_step.hyps(2) by (simp add: sym_graph_def)
  then have "t \<in> walk_in g p (Suc j)" using walk_in_cons j(2) by fastforce
  moreover have "map_of (distances g s) p = Some (dt - int (Suc j))"
    using anc_step.hyps(3) j(1) by (simp add: is_pred_def dict_get_def)
  ultimately show ?case by blast
qed

lemma witness_on_shortest_path:
  assumes "n \<in> ancestors g (distances g s) t" and "is_pred (distances g s) p n" and "p \<in> set (nbrs g n)"
    and "sym_graph g" and "map_of (distances g s) t = Some dt"
  shows "on_shortest_path g s t p n"
proof -
  obtain j where j: "map_of (distances g s) n = Some (dt - int j)" "t \<in> walk_in g n j"
    using ancestor_walk [OF assms(1,4,5)] by blast
  then have "map_of (distances g s) p = Some (dt - int j - 1)" using assms(2) by (simp add: is_pred_def dict_get_def)
  then have p: "0 \<le> dt - int j - 1" "shortest g s p (nat (dt - int j - 1))" by (simp_all add: distances_shortest)
  have "shortest g s t (nat dt)" using assms(5) by (simp add: distances_shortest)
  moreover have "nat dt = nat (dt - int j - 1) + 1 + j" using p(1) by linarith
  ultimately show ?thesis
    unfolding on_shortest_path_def using p(2) j(2) assms(3,4) by (auto simp: sym_graph_def)
qed

lemma nbrs_update: "nbrs (AList.update k v g) x = (if x = k then v else nbrs g x)"
  by (simp add: nbrs_def al.lookup_store)

lemma switch_graph_sym: "sym_graph (switch_graph m)"
proof -
  have "sym_graph g \<Longrightarrow> sym_graph (add_switch_link sw l g)" for sw l g
    by (auto simp: add_switch_link_def sym_graph_def Let_def nbrs_update)
  then have fold: "sym_graph g \<Longrightarrow> sym_graph (fold (add_switch_link sw) ls g)" for sw ls g
    by (induction ls arbitrary: g) auto
  have "nbrs (dict_of (map (\<lambda>d. (dev_name d, [])) ds)) a = ([] :: string list)" for ds :: "device list" and a
    by (auto simp: nbrs_def map_of_dict_of dest!: map_of_SomeD split: option.split)
  then have "sym_graph (dict_of (map (\<lambda>d. (dev_name d, [])) ds))" for ds :: "device list" by (simp add: sym_graph_def)
  from fold [OF this] show ?thesis by (simp add: switch_graph_def)
qed

text \<open>Every positive switch counter is justified by a pair of racks that probe each other.\<close>

definition justified :: "string graph \<Rightarrow> pair_counts \<Rightarrow> pair_counts \<Rightarrow> bool" where
  "justified g counts w \<longleftrightarrow> (\<forall>p n. 0 \<le> dict_get w (p, n) 0 \<and> (0 < dict_get w (p, n) 0 \<longrightarrow>
     (\<exists>s t. 0 < dict_get counts (s, t) 0 \<and> on_shortest_path g s t p n)))"

lemma justified_destination:
  assumes "sym_graph g" and "\<And>l r. 0 \<le> dict_get counts (l, r) 0" and "justified g counts w"
    and "cover_destination g counts s (distances g s) w t = Inr w'"
  shows "justified g counts w'"
proof (cases "dict_get counts (s, t) 0 = 0")
  case True
  then show ?thesis using assms(3,4) by (simp add: cover_destination_def Let_def)
next
  case False
  let ?c = "dict_get counts (s, t) 0" and ?d = "distances g s"
  have c: "0 < ?c" using False assms(2) [of s t] by simp
  obtain dt where dt: "map_of ?d t = Some dt" and w': "w' = back_witnesses g ?d ?c t w"
    using assms(4) False by (auto simp: cover_destination_def Let_def rbind_eq_Inr)
  show ?thesis unfolding justified_def
  proof (intro allI conjI impI)
    fix p n
    let ?gain = "if n \<in> ancestors g ?d t \<and> is_pred ?d p n then ?c * int (count_list (nbrs g n) p) else 0"
    have eq: "dict_get w' (p, n) 0 = dict_get w (p, n) 0 + ?gain" by (simp add: w' back_witnesses_spec)
    show "0 \<le> dict_get w' (p, n) 0" using assms(3) c unfolding eq by (simp add: justified_def)
    assume pos: "0 < dict_get w' (p, n) 0"
    show "\<exists>s t. 0 < dict_get counts (s, t) 0 \<and> on_shortest_path g s t p n"
    proof (cases "0 < dict_get w (p, n) 0")
      case True
      then show ?thesis using assms(3) by (simp add: justified_def)
    next
      case False
      then have "0 < ?gain" using pos eq by simp
      then have "n \<in> ancestors g ?d t" "is_pred ?d p n" "count_list (nbrs g n) p \<noteq> 0"
        by (auto split: if_splits intro: ccontr)
      then show ?thesis
        using witness_on_shortest_path [of n g s t p dt] assms(1) dt c by (auto simp: count_list_0_iff)
    qed
  qed
qed

lemma justified_all:
  assumes "sym_graph g" and "\<And>l r. 0 \<le> dict_get counts (l, r) 0"
    and "rfoldM (cover_source g counts names) [] names' = Inr w"
  shows "justified g counts w"
proof (rule rfoldM_invariant [where P = "justified g counts", OF assms(3)])
  show "justified g counts []" by (simp add: justified_def dict_get_def)
next
  fix s x s'
  assume just: "justified g counts s" and "cover_source g counts names s x = Inr s'"
  then have "rfoldM (cover_destination g counts x (distances g x)) s names = Inr s'"
    by (auto simp: cover_source_def rbind_eq_Inr)
  then show "justified g counts s'"
    using just by (rule rfoldM_invariant [where P = "justified g counts"]) (rule justified_destination [OF assms(1,2)])
qed

lemma access_witnesses_other:
  assumes "p \<notin> dev_name ` set cs" and "n \<notin> dev_name ` set cs"
  shows "dict_get (fold (access_witnesses peers) cs w) (p, n) 0 = dict_get w (p, n) 0"
  using assms
proof (induction cs arbitrary: w)
  case (Cons c cs)
  then have "dict_get (access_witnesses peers c w) (p, n) 0 = dict_get w (p, n) 0"
    by (auto simp: access_witnesses_def Let_def counts_update2 split: option.split)
  then show ?case using Cons by simp
qed simp

lemma coverage_witnesses:
  assumes "candidate_coverage_of m racks peers counts = Inr cov" and "check_coverage m cov = Inr ()" and "l \<in> set (links m)"
  obtains w where "rfoldM (cover_source (switch_graph m) counts (dict_keys racks)) [] (dict_keys racks) = Inr w"
    and "0 < dict_get (fold (access_witnesses peers) (clients m) w) (ep_device (fst (endpoints l)), ep_device (snd (endpoints l))) 0"
    and "0 < dict_get (fold (access_witnesses peers) (clients m) w) (ep_device (snd (endpoints l)), ep_device (fst (endpoints l))) 0"
proof -
  obtain w where w: "rfoldM (cover_source (switch_graph m) counts (dict_keys racks)) [] (dict_keys racks) = Inr w"
    using assms(1) by (auto simp: candidate_coverage_of_def rbind_eq_Inr)
  let ?W = "fold (access_witnesses peers) (clients m) w"
  define lcs where "lcs = concat (map (\<lambda>l. [link_cover ?W (fst (endpoints l)) (snd (endpoints l)),
                                  link_cover ?W (snd (endpoints l)) (fst (endpoints l))]) (links m))"
  have mem: "link_cover ?W (fst (endpoints l)) (snd (endpoints l)) \<in> set lcs"
    "link_cover ?W (snd (endpoints l)) (fst (endpoints l)) \<in> set lcs" using assms(3) by (auto simp: lcs_def)
  have "minimum_witnesses cov = (if lcs = [] then 0 else Min (set (map witnesses lcs)))"
    using assms(1) w by (auto simp: candidate_coverage_of_def rbind_eq_Inr Let_def lcs_def)
  then have "minimum_witnesses cov = Min (set (map witnesses lcs))" using mem(1) by auto
  moreover have "1 \<le> minimum_witnesses cov"
    using assms(2) by (auto simp: check_coverage_def rbind_eq_Inr split: if_splits)
  ultimately have "1 \<le> witnesses c" if "c \<in> set lcs" for c
    using that by (auto intro: order_trans [of _ "Min (witnesses ` set lcs)"])
  from this [OF mem(1)] this [OF mem(2)] w show thesis
    by (intro that [OF w]) (simp_all add: link_cover_def)
qed

text \<open>C3: in an accepted plan every link between two switches lies, in either direction, on a shortest
  path between the switches of two clients that probe each other.\<close>

theorem accepted_links_on_shortest_paths:
  assumes wf: "manifest_wf m" and pol: "policy_ok (pingmesh m)" and ok: "compile_pingmesh_plan sha256 fp m = Inr plan"
    and l: "l \<in> set (links m)" and ab: "{a, b} = {ep_device (fst (endpoints l)), ep_device (snd (endpoints l))}"
    and sw: "{a, b} \<subseteq> dev_name ` set (switches m)"
  shows "\<exists>x \<in> set (plan_clients plan). \<exists>y \<in> set (targets x). \<exists>cx \<in> set (clients m). \<exists>cy \<in> set (clients m).
     dev_name cx = plan_client x \<and> dev_name cy = y \<and> on_shortest_path (switch_graph m) (rack_key cx) (rack_key cy) a b"
proof -
  obtain peers counts cov bs nb where sel: "select_peers m = Inr (peers, counts)"
    and cov: "candidate_coverage_of m (racks_of m) peers counts = Inr cov" "check_coverage m cov = Inr ()"
    and pl: "plan_clients plan = map (client_plan sha256 (client_names m) peers bs
           (port_batches (settings plan)) nb (cycle_interval_seconds (pingmesh m))) (client_names m)"
    using compile_cases [OF ok] by metis
  note inv = select_peers_inv(1) [OF wf pol sel]
  obtain w where w: "rfoldM (cover_source (switch_graph m) counts (dict_keys (racks_of m))) [] (dict_keys (racks_of m)) = Inr w"
    and "0 < dict_get (fold (access_witnesses peers) (clients m) w) (ep_device (fst (endpoints l)), ep_device (snd (endpoints l))) 0"
    and "0 < dict_get (fold (access_witnesses peers) (clients m) w) (ep_device (snd (endpoints l)), ep_device (fst (endpoints l))) 0"
    using coverage_witnesses [OF cov l] .
  then have "0 < dict_get (fold (access_witnesses peers) (clients m) w) (a, b) 0"
    using ab by (auto simp: doubleton_eq_iff)
  moreover have "a \<notin> dev_name ` set (clients m)" "b \<notin> dev_name ` set (clients m)"
    using sw wf by (auto simp: manifest_wf_def switches_def clients_def devices_by_role_def distinct_map dest: inj_onD)
  ultimately have "0 < dict_get w (a, b) 0" by (simp add: access_witnesses_other)
  moreover have "justified (switch_graph m) counts w"
    using inv by (intro justified_all [OF switch_graph_sym _ w]) (simp add: peers_inv_def)
  ultimately obtain s t where st: "0 < dict_get counts (s, t) 0" "on_shortest_path (switch_graph m) s t a b"
    unfolding justified_def by blast
  obtain u v x y where uv: "(s, u) \<in> set (racks_of m)" "(t, v) \<in> set (racks_of m)" "x \<in> set u" "y \<in> set v"
    "(x, y) \<in> edges peers" using inv st(1) unfolding peers_inv_def by blast
  obtain cx where cx: "cx \<in> set (clients m)" "rack_key cx = s" "dev_name cx = x"
    using racks_of_entry [OF uv(1)] uv(3) by auto
  obtain cy where cy: "cy \<in> set (clients m)" "rack_key cy = t" "dev_name cy = y"
    using racks_of_entry [OF uv(2)] uv(4) by auto
  let ?p = "client_plan sha256 (client_names m) peers bs (port_batches (settings plan)) nb
      (cycle_interval_seconds (pingmesh m)) x"
  have "?p \<in> set (plan_clients plan)" using pl cx by (auto simp: client_names_def)
  moreover have "y \<in> set (targets ?p)" "plan_client ?p = x"
    using uv(5) by (simp_all add: client_plan_def Let_def edges_def)
  ultimately show ?thesis using cx cy st(2) by metis
qed

subsection \<open>The small fabric, compiled\<close>

abbreviation small_g :: "string graph" where
  "small_g \<equiv> [(''s1'', [''l1'', ''l2'']), (''l1'', [''s1'']), (''l2'', [''s1''])]"

abbreviation small_counts :: pair_counts where
  "small_counts \<equiv> [((''l1'', ''l2''), 1), ((''l2'', ''l1''), 1)]"

abbreviation small_w :: pair_counts where
  "small_w \<equiv> [((''s1'', ''l2''), 1), ((''l1'', ''s1''), 1), ((''s1'', ''l1''), 1), ((''l2'', ''s1''), 1)]"

lemma small_racks: "racks_of small_manifest = [(''l1'', [''c1'', ''c2'']), (''l2'', [''c3''])]"
  by code_simp

lemma small_graph: "switch_graph small_manifest = small_g"
  by code_simp

lemma small_peers:
  "select_peers small_manifest =
     Inr ([(''c1'', [''c2'']), (''c2'', [''c1'', ''c3'']), (''c3'', [''c2''])], small_counts)"
  unfolding select_peers_def small_racks by code_simp

lemma small_distances:
  "distances small_g ''l1'' = [(''l1'', 0), (''s1'', 1), (''l2'', 2)]"
  "distances small_g ''l2'' = [(''l2'', 0), (''s1'', 1), (''l1'', 2)]"
  by code_simp+

lemma small_back:
  "back_witnesses small_g [(''l1'', 0), (''s1'', 1), (''l2'', 2)] 1 ''l2'' [] = [((''s1'', ''l2''), 1), ((''l1'', ''s1''), 1)]"
  "back_witnesses small_g [(''l2'', 0), (''s1'', 1), (''l1'', 2)] 1 ''l1'' [((''s1'', ''l2''), 1), ((''l1'', ''s1''), 1)] = small_w"
  by code_simp+

lemma small_cover: "rfoldM (cover_source small_g small_counts [''l1'', ''l2'']) [] [''l1'', ''l2''] = Inr small_w"
  by (simp add: cover_source_def cover_destination_def small_distances small_back dict_get_def)

lemma small_coverage:
  "rbind (candidate_coverage_of small_manifest (racks_of small_manifest)
      [(''c1'', [''c2'']), (''c2'', [''c1'', ''c3'']), (''c3'', [''c2''])] small_counts)
    (\<lambda>cov. check_coverage small_manifest cov) = Inr ()"
  unfolding candidate_coverage_of_def small_graph small_racks dict_keys_def list.map fst_conv small_cover rbind_Inr
  by code_simp

lemma small_valid: "manifest_wf small_manifest"
  by code_simp

lemma small_compiles: "is_ok (compile_pingmesh_plan sha256 fp small_manifest)"
proof -
  obtain cov where "candidate_coverage_of small_manifest (racks_of small_manifest)
      [(''c1'', [''c2'']), (''c2'', [''c1'', ''c3'']), (''c3'', [''c2''])] small_counts = Inr cov"
    and "check_coverage small_manifest cov = Inr ()"
    using small_coverage by (auto simp: rbind_eq_Inr)
  moreover have "check_ports (pingmesh small_manifest) = Inr ()" "length (clients small_manifest) = 3" by code_simp+
  ultimately show ?thesis
    by (simp add: compile_pingmesh_plan_def small_peers Let_def)
qed

definition small_sha :: "string \<Rightarrow> nat list" where
  "small_sha s = map of_char s"

definition small_plan :: pingmesh_plan where
  "small_plan = projr (compile_pingmesh_plan small_sha (\<lambda>_ _. ''id'') small_manifest)"

lemma small_plan_eq: "compile_pingmesh_plan small_sha (\<lambda>_ _. ''id'') small_manifest = Inr small_plan"
  using small_compiles [of small_sha "\<lambda>_ _. ''id''"]
  by (cases "compile_pingmesh_plan small_sha (\<lambda>_ _. ''id'') small_manifest") (simp_all add: small_plan_def is_ok_def)

lemma small_names: "client_names small_manifest = [''c1'', ''c2'', ''c3'']"
  by code_simp

lemma small_first_client: "hd (plan_clients small_plan) \<in> set (plan_clients small_plan)"
proof -
  have "map plan_client (plan_clients small_plan) \<noteq> []"
    using plan_targets(1) [OF small_valid small_policy_ok small_plan_eq] by (simp add: small_names)
  then show ?thesis by (intro hd_in_set) auto
qed

theorem probing_symmetric_witness: "map plan_client (plan_clients small_plan) = [''c1'', ''c2'', ''c3'']"
  using probing_symmetric [OF small_valid small_policy_ok small_plan_eq] by (simp add: small_names)

theorem epoch_probes_each_flow_once_witness:
  "distinct (concat (map (rtt_flows (settings small_plan) (hd (plan_clients small_plan))) (frames (hd (plan_clients small_plan)))))"
  using epoch_probes_each_flow_once [OF small_valid small_policy_ok small_plan_eq small_first_client] by blast

theorem accepted_links_on_shortest_paths_witness:
  "\<exists>x \<in> set (plan_clients small_plan). \<exists>y \<in> set (targets x). \<exists>cx \<in> set (clients small_manifest). \<exists>cy \<in> set (clients small_manifest).
     dev_name cx = plan_client x \<and> dev_name cy = y
     \<and> on_shortest_path (switch_graph small_manifest) (rack_key cx) (rack_key cy) ''s1'' ''l1''"
proof (rule accepted_links_on_shortest_paths [OF small_valid small_policy_ok small_plan_eq])
  show "small_link ''l1'' ''eth1'' ''s1'' ''eth1'' \<in> set (links small_manifest)" by (simp add: small_manifest_def)
  show "{''s1'', ''l1''} = {ep_device (fst (endpoints (small_link ''l1'' ''eth1'' ''s1'' ''eth1''))),
      ep_device (snd (endpoints (small_link ''l1'' ''eth1'' ''s1'' ''eth1'')))}"
    by (auto simp: small_link_def)
  show "{''s1'', ''l1''} \<subseteq> dev_name ` set (switches small_manifest)"
    by (simp add: switches_def small_manifest_def small_device_def)
qed

end
