(* ===== verification/Clos_Builder.thy ===== *)
theory Clos_Builder
  imports Fabric_Plan Pingmesh_Planner
begin

text \<open>
  \<open>platform/topology/clos_builder.py\<close>: the plan of a two-tier CLOS fabric from its configuration.
  The device plans are computed in the order of the source (spines, then each leaf followed by its
  clients) and the devices of the manifest are their \<open>plan_device\<close>s, as the source appends both
  together. \<open>build_clos_plan\<close> is the whole function: every error it can raise is a branch.
  Shown: once the configuration, the management addresses and the policy are accepted, the builder
  cannot fail its own validators - the manifest it builds is well formed and every switch has exactly
  the ports its links need - so only the Pingmesh compiler can still reject the fabric.
\<close>

subsection \<open>Names\<close>

definition spine_name :: "int \<Rightarrow> string" where "spine_name i = ''spine'' @ show_int i"
definition leaf_name :: "int \<Rightarrow> string" where "leaf_name i = ''leaf'' @ show_int i"
definition client_name :: "int \<Rightarrow> string" where "client_name i = ''client'' @ show_int i"
definition eth :: "int \<Rightarrow> string" where "eth i = ''eth'' @ show_int i"

lemma names_inj [simp]:
  "(spine_name i = spine_name j) = (i = j)" "(leaf_name i = leaf_name j) = (i = j)"
  "(client_name i = client_name j) = (i = j)" "(eth i = eth j) = (i = j)"
  "spine_name i \<noteq> leaf_name j" "leaf_name j \<noteq> spine_name i" "spine_name i \<noteq> client_name j"
  "client_name j \<noteq> spine_name i" "leaf_name i \<noteq> client_name j" "client_name j \<noteq> leaf_name i"
  "leaf_name i \<noteq> []"
  by (simp_all add: spine_name_def leaf_name_def client_name_def eth_def)

text \<open>\<open>str.upper\<close> on ASCII letters.\<close>

definition py_upper :: "string \<Rightarrow> string" where
  "py_upper s = map (\<lambda>c. if CHR ''a'' \<le> c \<and> c \<le> CHR ''z'' then char_of ((of_char c :: nat) - 32) else c) s"

subsection \<open>The builder\<close>

definition clos_validate_config :: "topology_config \<Rightarrow> unit res" where
  "clos_validate_config cfg =
     rbind (raise_if (\<not> (1 \<le> cfg_spines cfg \<and> cfg_spines cfg \<le> 255))
        (ValueError (''num_spines must fit in one IPv4 octet (1-255), got '' @ show_int (cfg_spines cfg)))) (\<lambda>_.
     rbind (mk_client_addressing (cfg_leafs cfg) (cfg_clients_per_leaf cfg)) (\<lambda>_.
     (let leaf_end = cfg_leaf_asn_start cfg + cfg_leafs cfg - 1 in
      rbind (raise_if (\<not> (64512 \<le> cfg_spine_asn cfg \<and> cfg_spine_asn cfg \<le> 65534
                 \<and> 64512 \<le> cfg_leaf_asn_start cfg \<and> cfg_leaf_asn_start cfg \<le> leaf_end \<and> leaf_end \<le> 65534))
         (ValueError ''CLOS ASNs exceed the private 16-bit pool'')) (\<lambda>_.
      raise_if (cfg_leaf_asn_start cfg \<le> cfg_spine_asn cfg \<and> cfg_spine_asn cfg \<le> leaf_end)
         (ValueError ''CLOS spine and leaf ASN allocations overlap'')))))"

definition spine_mgmt_offset :: int where "spine_mgmt_offset = 10"

definition leaf_mgmt_offset :: "topology_config \<Rightarrow> int" where
  "leaf_mgmt_offset cfg = spine_mgmt_offset + cfg_spines cfg"

definition client_mgmt_offset :: "topology_config \<Rightarrow> int" where
  "client_mgmt_offset cfg = leaf_mgmt_offset cfg + cfg_leafs cfg"

definition clos_total_clients :: "topology_config \<Rightarrow> int" where
  "clos_total_clients cfg = cfg_leafs cfg * cfg_clients_per_leaf cfg"

definition clos_offsets :: "topology_config \<Rightarrow> int list" where
  "clos_offsets cfg = map (\<lambda>i. spine_mgmt_offset + i) [1..cfg_spines cfg]
     @ map (\<lambda>i. leaf_mgmt_offset cfg + i) [1..cfg_leafs cfg]
     @ map (\<lambda>i. client_mgmt_offset cfg + i) [1..clos_total_clients cfg]"

definition fabric_ip :: "int \<Rightarrow> int \<Rightarrow> string \<Rightarrow> string" where
  "fabric_ip spine_idx leaf_idx tail = ''10.'' @ show_int spine_idx @ ''.'' @ show_int leaf_idx @ tail"

definition mk_spine :: "topology_config \<Rightarrow> int \<Rightarrow> string \<Rightarrow> device_plan" where
  "mk_spine cfg i ip = (let rid = ''10.0.0.'' @ show_int i in
     \<lparr> plan_device = \<lparr> dev_name = spine_name i, role = SPINE, mgmt_ip = Some ip, data_ip = None, attached_switch = None,
         asn = Some (cfg_spine_asn cfg), router_id = Some rid, metadata = [] \<rparr>,
       required_ports = cfg_leafs cfg,
       configdb_interface_cidrs = dict_of (map (\<lambda>l. (sonic_port_name l, [fabric_ip i l ''.1/30''])) [1..cfg_leafs cfg]),
       bgp_asn = Some (cfg_spine_asn cfg), bgp_router_id = Some rid,
       bgp_neighbors = map (\<lambda>l. \<lparr> peer_ip = fabric_ip i l ''.2'', remote_as = cfg_leaf_asn_start cfg + l - 1 \<rparr>) [1..cfg_leafs cfg],
       bgp_networks = [], client_cmds = [] \<rparr>)"

definition spine_plan :: "topology_config \<Rightarrow> management_addressing \<Rightarrow> int \<Rightarrow> device_plan res" where
  "spine_plan cfg ma i = rbind (host_ip ma (spine_mgmt_offset + i)) (\<lambda>ip. Inr (mk_spine cfg i ip))"

definition mk_leaf :: "topology_config \<Rightarrow> int \<Rightarrow> string \<Rightarrow> string \<Rightarrow> (string \<times> string \<times> string) list \<Rightarrow> device_plan" where
  "mk_leaf cfg l ip subnet acc =
     (let rid = ''10.0.1.'' @ show_int l; leaf_asn = cfg_leaf_asn_start cfg + l - 1;
          uplinks = dict_of (map (\<lambda>s. (sonic_port_name s, [fabric_ip s l ''.2/30''])) [1..cfg_spines cfg]);
          interfaces = fold (\<lambda>(p, (_, gateway, _)) d. AList.update (sonic_port_name (cfg_spines cfg + p)) [gateway @ ''/30''] d)
                         (zip [1..cfg_clients_per_leaf cfg] acc) uplinks in
     \<lparr> plan_device = \<lparr> dev_name = leaf_name l, role = LEAF, mgmt_ip = Some ip, data_ip = None, attached_switch = None,
         asn = Some leaf_asn, router_id = Some rid, metadata = [(''client_subnet'', PStr subnet)] \<rparr>,
       required_ports = cfg_spines cfg + cfg_clients_per_leaf cfg,
       configdb_interface_cidrs = interfaces, bgp_asn = Some leaf_asn, bgp_router_id = Some rid,
       bgp_neighbors = map (\<lambda>s. \<lparr> peer_ip = fabric_ip s l ''.1'', remote_as = cfg_spine_asn cfg \<rparr>) [1..cfg_spines cfg],
       bgp_networks = map fst acc, client_cmds = [] \<rparr>)"

definition leaf_plan :: "topology_config \<Rightarrow> management_addressing \<Rightarrow> client_addressing \<Rightarrow> int \<Rightarrow> device_plan res" where
  "leaf_plan cfg ma ca l =
     rbind (host_ip ma (leaf_mgmt_offset cfg + l)) (\<lambda>ip.
     rbind (rack_subnet ca l) (\<lambda>subnet.
     rbind (rmapM (access ca l) [1..cfg_clients_per_leaf cfg]) (\<lambda>acc.
     Inr (mk_leaf cfg l ip (show_network subnet) acc))))"

definition client_index :: "topology_config \<Rightarrow> int \<Rightarrow> int \<Rightarrow> int" where
  "client_index cfg l p = (l - 1) * cfg_clients_per_leaf cfg + p"

definition mk_client :: "topology_config \<Rightarrow> int \<Rightarrow> int \<Rightarrow> string \<Rightarrow> string \<Rightarrow> string \<Rightarrow> device_plan" where
  "mk_client cfg l p ip gateway client_ip =
     \<lparr> plan_device = \<lparr> dev_name = client_name (client_index cfg l p), role = CLIENT, mgmt_ip = Some ip,
         data_ip = Some client_ip, attached_switch = Some (leaf_name l), asn = None, router_id = None,
         metadata = [(''rack'', PStr (''rack'' @ show_int l))] \<rparr>,
       required_ports = 0, configdb_interface_cidrs = [], bgp_asn = None, bgp_router_id = None, bgp_neighbors = [],
       bgp_networks = [], client_cmds = client_commands client_ip gateway \<rparr>"

definition clos_client_plan ::
  "topology_config \<Rightarrow> management_addressing \<Rightarrow> client_addressing \<Rightarrow> int \<Rightarrow> int \<Rightarrow> device_plan res" where
  "clos_client_plan cfg ma ca l p =
     rbind (access ca l p) (\<lambda>(_, gateway, client_ip).
     rbind (host_ip ma (client_mgmt_offset cfg + client_index cfg l p)) (\<lambda>ip.
     Inr (mk_client cfg l p ip gateway client_ip)))"

definition leaf_block :: "topology_config \<Rightarrow> management_addressing \<Rightarrow> client_addressing \<Rightarrow> int \<Rightarrow> device_plan list res" where
  "leaf_block cfg ma ca l =
     rbind (leaf_plan cfg ma ca l) (\<lambda>leaf.
     rbind (rmapM (clos_client_plan cfg ma ca l) [1..cfg_clients_per_leaf cfg]) (\<lambda>cs. Inr (leaf # cs)))"

definition clos_device_plans :: "topology_config \<Rightarrow> management_addressing \<Rightarrow> client_addressing \<Rightarrow> device_plan list res" where
  "clos_device_plans cfg ma ca =
     rbind (rmapM (spine_plan cfg ma) [1..cfg_spines cfg]) (\<lambda>spines.
     rbind (rmapM (leaf_block cfg ma ca) [1..cfg_leafs cfg]) (\<lambda>blocks. Inr (spines @ concat blocks)))"

definition mk_link :: "string \<Rightarrow> string \<Rightarrow> string \<Rightarrow> string \<Rightarrow> string \<Rightarrow> link" where
  "mk_link knd a i b j = \<lparr> kind = knd, endpoints = (\<lparr> ep_device = a, ep_interface = i \<rparr>, \<lparr> ep_device = b, ep_interface = j \<rparr>),
     link_mtu = DEFAULT_LINK_MTU \<rparr>"

definition spine_leaf_link :: "int \<Rightarrow> int \<Rightarrow> link" where
  "spine_leaf_link s l = mk_link ''spine-leaf'' (spine_name s) (eth l) (leaf_name l) (eth s)"

definition leaf_client_link :: "topology_config \<Rightarrow> int \<Rightarrow> int \<Rightarrow> link" where
  "leaf_client_link cfg l p =
     mk_link ''leaf-client'' (leaf_name l) (eth (cfg_spines cfg + p)) (client_name (client_index cfg l p)) ''eth1''"

definition clos_links :: "topology_config \<Rightarrow> link list" where
  "clos_links cfg = [spine_leaf_link s l. s \<leftarrow> [1..cfg_spines cfg], l \<leftarrow> [1..cfg_leafs cfg]]
     @ [leaf_client_link cfg l p. l \<leftarrow> [1..cfg_leafs cfg], p \<leftarrow> [1..cfg_clients_per_leaf cfg]]"

definition clos_manifest ::
  "topology_config \<Rightarrow> management_addressing \<Rightarrow> render_settings \<Rightarrow> pingmesh_policy \<Rightarrow> device_plan list \<Rightarrow> topology_manifest" where
  "clos_manifest cfg ma rs policy plans =
     \<lparr> topology_id = cfg_name cfg, top_name = cfg_name cfg, scale = str_or (cfg_scale_name cfg) ''custom'',
       top_purpose = cfg_purpose cfg, top_family = Clos_family,
       mgmt_network = str_or (cfg_mgmt_network cfg) (''clab-mgmt-'' @ cfg_name cfg),
       mgmt_subnet = show_network (ma_network ma), collector_ipv4 = syslog_collector rs, defaults = default_topology_defaults,
       facts = \<lparr> facts_spines = cfg_spines cfg, facts_leafs = cfg_leafs cfg, facts_cores = 0, facts_aggs = 0, facts_edges = 0,
         facts_pods = 0, facts_clients_per_switch = cfg_clients_per_leaf cfg, facts_total_clients = clos_total_clients cfg,
         facts_total_switches = cfg_spines cfg + cfg_leafs cfg, facts_fat_tree_k = None, facts_full_density = None,
         facts_host_density = None \<rparr>,
       devices = map plan_device plans, links = clos_links cfg,
       routing = \<lparr> spine_asn_md = Some (cfg_spine_asn cfg),
         leaf_asn_range = Some (show_int (cfg_leaf_asn_start cfg) @ ''-'' @ show_int (cfg_leaf_asn_start cfg + cfg_leafs cfg - 1)),
         core_asn_range = None, agg_asn_range = None, edge_asn_range = None,
         ecmp_hash_policy_by_role = [(SPINE, 1), (LEAF, 1)], ecmp = True, bfd = False \<rparr>,
       pingmesh = policy, pingmesh_plan_opt = None \<rparr>"

definition nl :: string where "nl = [char_of (10 :: nat)]"

definition clos_header :: "topology_config \<Rightarrow> string" where
  "clos_header cfg = ''# '' @ py_upper (cfg_name cfg) @ '' Topology Configuration'' @ nl
     @ ''# Generated by NetOpsBench Topology Generator'' @ nl
     @ ''# Scale: '' @ show_int (cfg_spines cfg) @ '' spines, '' @ show_int (cfg_leafs cfg) @ '' leafs, ''
     @ show_int (cfg_clients_per_leaf cfg) @ '' clients/leaf'' @ nl
     @ ''#'' @ nl @ ''# Features:'' @ nl @ ''# - BGP with ECMP'' @ nl @ ''# - Observability: Syslog and gNMI'' @ nl @ nl"

definition clos_fabric ::
  "topology_config \<Rightarrow> render_settings \<Rightarrow> topology_manifest \<Rightarrow> device_plan list \<Rightarrow> pingmesh_plan \<Rightarrow> fabric_plan" where
  "clos_fabric cfg rs m plans pp =
     \<lparr> manifest = m\<lparr>pingmesh_plan_opt := Some pp\<rparr>, device_plans = plans, nos_kind = cfg_nos_kind cfg,
       nos_image = cfg_nos_image cfg, client_image = cfg_client_image cfg, render = rs, yaml_header = clos_header cfg \<rparr>"

definition clos_addressing :: "topology_config \<Rightarrow> (management_addressing \<times> render_settings) res" where
  "clos_addressing cfg =
     rbind (create_addressing (cfg_mgmt_subnet cfg) (clos_offsets cfg)) (\<lambda>ma.
     rbind (if opt_truthy (cfg_collector_ip cfg) then Inr (the (cfg_collector_ip cfg))
            else default_collector ma (client_mgmt_offset cfg + clos_total_clients cfg) True) (\<lambda>collector_ip.
     rbind (validate_collector ma collector_ip) (\<lambda>_.
     rbind (build_render_settings ma collector_ip) (\<lambda>rs. Inr (ma, rs)))))"

definition clos_policy :: "topology_config \<Rightarrow> pingmesh_policy res" where
  "clos_policy cfg = (case cfg_policy cfg of Some p \<Rightarrow> Inr p
     | None \<Rightarrow> pingmesh_policy_for_scale (str_or (cfg_scale_name cfg) ''custom'') None)"

definition build_clos_plan ::
  "(string \<Rightarrow> nat list) \<Rightarrow> (topology_manifest \<Rightarrow> pingmesh_plan \<Rightarrow> string) \<Rightarrow> topology_config \<Rightarrow> fabric_plan res" where
  "build_clos_plan sha256 fp cfg =
     rbind (clos_validate_config cfg) (\<lambda>_.
     rbind (mk_client_addressing (cfg_leafs cfg) (cfg_clients_per_leaf cfg)) (\<lambda>ca.
     rbind (clos_addressing cfg) (\<lambda>(ma, rs).
     rbind (clos_device_plans cfg ma ca) (\<lambda>plans.
     rbind (clos_policy cfg) (\<lambda>policy.
     rbind (validate_topology_references (clos_manifest cfg ma rs policy plans)) (\<lambda>m.
     rbind (compile_pingmesh_plan sha256 fp m) (\<lambda>pp.
     fabric_plan_post_init (clos_fabric cfg rs m plans pp))))))))"

subsection \<open>The builder in closed form\<close>

definition clos_access :: "int \<Rightarrow> int \<Rightarrow> string \<times> string \<times> string" where
  "clos_access l p = (show_network \<lparr>network_address = access_base l p, prefixlen = 30\<rparr>,
     show_ip (access_base l p + 1), show_ip (access_base l p + 2))"

definition clos_leaf_of :: "topology_config \<Rightarrow> management_addressing \<Rightarrow> int \<Rightarrow> device_plan" where
  "clos_leaf_of cfg ma l = mk_leaf cfg l (host_text ma (leaf_mgmt_offset cfg + l))
     (show_network \<lparr>network_address = client_pool_base + l * 256, prefixlen = 24\<rparr>)
     (map (clos_access l) [1..cfg_clients_per_leaf cfg])"

definition clos_client_of :: "topology_config \<Rightarrow> management_addressing \<Rightarrow> int \<Rightarrow> int \<Rightarrow> device_plan" where
  "clos_client_of cfg ma l p = mk_client cfg l p (host_text ma (client_mgmt_offset cfg + client_index cfg l p))
     (show_ip (access_base l p + 1)) (show_ip (access_base l p + 2))"

definition clos_plans :: "topology_config \<Rightarrow> management_addressing \<Rightarrow> device_plan list" where
  "clos_plans cfg ma = map (\<lambda>i. mk_spine cfg i (host_text ma (spine_mgmt_offset + i))) [1..cfg_spines cfg]
     @ concat (map (\<lambda>l. clos_leaf_of cfg ma l # map (clos_client_of cfg ma l) [1..cfg_clients_per_leaf cfg]) [1..cfg_leafs cfg])"

definition clos_sizes_ok :: "topology_config \<Rightarrow> bool" where
  "clos_sizes_ok cfg \<longleftrightarrow> 1 \<le> cfg_spines cfg \<and> cfg_spines cfg \<le> 255 \<and> 1 \<le> cfg_leafs cfg \<and> cfg_leafs cfg \<le> 255
     \<and> 1 \<le> cfg_clients_per_leaf cfg \<and> cfg_clients_per_leaf cfg \<le> 64"

lemma clos_validate_sizes: "clos_validate_config cfg = Inr () \<Longrightarrow> clos_sizes_ok cfg"
  by (auto simp: clos_validate_config_def rbind_eq_Inr Let_def mk_client_addressing_eq client_addressing_wf_def clos_sizes_ok_def)

lemma client_index_bound:
  assumes "1 \<le> l" "l \<le> cfg_leafs cfg" "1 \<le> p" "p \<le> cfg_clients_per_leaf cfg"
  shows "1 \<le> client_index cfg l p" "client_index cfg l p \<le> clos_total_clients cfg"
  using grid_bound [OF assms] by (simp_all add: client_index_def clos_total_clients_def)

lemma client_index_inj:
  "1 \<le> p \<Longrightarrow> p \<le> cfg_clients_per_leaf cfg \<Longrightarrow> 1 \<le> p' \<Longrightarrow> p' \<le> cfg_clients_per_leaf cfg \<Longrightarrow>
   (client_index cfg l p = client_index cfg l' p') = (l = l' \<and> p = p')"
  unfolding client_index_def by (auto dest: grid_inj)

lemma clos_offsets_mem:
  "1 \<le> i \<Longrightarrow> i \<le> cfg_spines cfg \<Longrightarrow> spine_mgmt_offset + i \<in> set (clos_offsets cfg)"
  "1 \<le> l \<Longrightarrow> l \<le> cfg_leafs cfg \<Longrightarrow> leaf_mgmt_offset cfg + l \<in> set (clos_offsets cfg)"
  "1 \<le> l \<Longrightarrow> l \<le> cfg_leafs cfg \<Longrightarrow> 1 \<le> p \<Longrightarrow> p \<le> cfg_clients_per_leaf cfg \<Longrightarrow>
     client_mgmt_offset cfg + client_index cfg l p \<in> set (clos_offsets cfg)"
  using client_index_bound [of l cfg p] by (simp_all add: clos_offsets_def)

lemma clos_device_plans_eq:
  assumes sz: "clos_sizes_ok cfg" and ma: "create_addressing (cfg_mgmt_subnet cfg) (clos_offsets cfg) = Inr ma"
    and ca: "mk_client_addressing (cfg_leafs cfg) (cfg_clients_per_leaf cfg) = Inr ca"
  shows "clos_device_plans cfg ma ca = Inr (clos_plans cfg ma)"
proof -
  have ca': "ca = \<lparr>rack_count = cfg_leafs cfg, clients_per_rack = cfg_clients_per_leaf cfg\<rparr>" "client_addressing_wf ca"
    using ca by (auto simp: mk_client_addressing_eq)
  note hosts = host_ip_allocated [OF ma]
  have acc: "access ca l p = Inr (clos_access l p)" if "l \<in> {1..cfg_leafs cfg}" "p \<in> {1..cfg_clients_per_leaf cfg}" for l p
    using access_ok [OF ca'(2), of p l] that by (simp add: clos_access_def ca'(1))
  have spines: "rmapM (spine_plan cfg ma) [1..cfg_spines cfg]
      = Inr (map (\<lambda>i. mk_spine cfg i (host_text ma (spine_mgmt_offset + i))) [1..cfg_spines cfg])"
    by (rule rmapM_pure) (simp add: spine_plan_def hosts clos_offsets_mem)
  have leaf: "leaf_plan cfg ma ca l = Inr (clos_leaf_of cfg ma l)" if "l \<in> {1..cfg_leafs cfg}" for l
  proof -
    have "rmapM (access ca l) [1..cfg_clients_per_leaf cfg] = Inr (map (clos_access l) [1..cfg_clients_per_leaf cfg])"
      by (rule rmapM_pure) (use that acc in simp)
    moreover have "rack_subnet ca l = Inr \<lparr>network_address = client_pool_base + l * 256, prefixlen = 24\<rparr>"
      using rack_subnet_ok [OF ca'(2), of l] that by (simp add: ca'(1))
    ultimately show ?thesis using that by (simp add: leaf_plan_def clos_leaf_of_def hosts clos_offsets_mem)
  qed
  have client: "clos_client_plan cfg ma ca l p = Inr (clos_client_of cfg ma l p)"
    if "l \<in> {1..cfg_leafs cfg}" "p \<in> {1..cfg_clients_per_leaf cfg}" for l p
    using acc [OF that] that
    by (simp add: clos_client_plan_def clos_client_of_def clos_access_def hosts clos_offsets_mem)
  have block: "leaf_block cfg ma ca l = Inr (clos_leaf_of cfg ma l # map (clos_client_of cfg ma l) [1..cfg_clients_per_leaf cfg])"
    if "l \<in> {1..cfg_leafs cfg}" for l
    using leaf [OF that] rmapM_pure [of "[1..cfg_clients_per_leaf cfg]" "clos_client_plan cfg ma ca l" "clos_client_of cfg ma l"] client that
    by (simp add: leaf_block_def)
  have "rmapM (leaf_block cfg ma ca) [1..cfg_leafs cfg]
      = Inr (map (\<lambda>l. clos_leaf_of cfg ma l # map (clos_client_of cfg ma l) [1..cfg_clients_per_leaf cfg]) [1..cfg_leafs cfg])"
    by (rule rmapM_pure) (simp add: block)
  then show ?thesis by (simp add: clos_device_plans_def spines clos_plans_def)
qed

subsection \<open>The manifest is well formed\<close>

lemma somes_concat: "somes (concat xss) = concat (map somes xss)"
  by (induction xss) auto

lemma concat_singletons [simp]: "concat (map (\<lambda>x. [f x]) xs) = map f xs"
  by (induction xs) auto

lemma mk_spine_device [simp]:
  "dev_name (plan_device (mk_spine cfg i ip)) = spine_name i" "role (plan_device (mk_spine cfg i ip)) = SPINE"
  "mgmt_ip (plan_device (mk_spine cfg i ip)) = Some ip" "data_ip (plan_device (mk_spine cfg i ip)) = None"
  "router_id (plan_device (mk_spine cfg i ip)) = Some (''10.0.0.'' @ show_int i)"
  "required_ports (mk_spine cfg i ip) = cfg_leafs cfg" "bgp_asn (mk_spine cfg i ip) = Some (cfg_spine_asn cfg)"
  "bgp_router_id (mk_spine cfg i ip) = Some (''10.0.0.'' @ show_int i)"
  by (simp_all add: mk_spine_def Let_def)

lemma clos_leaf_device [simp]:
  "dev_name (plan_device (clos_leaf_of cfg ma l)) = leaf_name l" "role (plan_device (clos_leaf_of cfg ma l)) = LEAF"
  "mgmt_ip (plan_device (clos_leaf_of cfg ma l)) = Some (host_text ma (leaf_mgmt_offset cfg + l))"
  "data_ip (plan_device (clos_leaf_of cfg ma l)) = None"
  "router_id (plan_device (clos_leaf_of cfg ma l)) = Some (''10.0.1.'' @ show_int l)"
  "required_ports (clos_leaf_of cfg ma l) = cfg_spines cfg + cfg_clients_per_leaf cfg"
  "bgp_asn (clos_leaf_of cfg ma l) = Some (cfg_leaf_asn_start cfg + l - 1)"
  "bgp_router_id (clos_leaf_of cfg ma l) = Some (''10.0.1.'' @ show_int l)"
  by (simp_all add: clos_leaf_of_def mk_leaf_def Let_def)

lemma clos_client_device [simp]:
  "dev_name (plan_device (clos_client_of cfg ma l p)) = client_name (client_index cfg l p)"
  "role (plan_device (clos_client_of cfg ma l p)) = CLIENT"
  "mgmt_ip (plan_device (clos_client_of cfg ma l p)) = Some (host_text ma (client_mgmt_offset cfg + client_index cfg l p))"
  "data_ip (plan_device (clos_client_of cfg ma l p)) = Some (show_ip (access_base l p + 2))"
  "attached_switch (plan_device (clos_client_of cfg ma l p)) = Some (leaf_name l)"
  "router_id (plan_device (clos_client_of cfg ma l p)) = None"
  by (simp_all add: clos_client_of_def mk_client_def)

lemma clos_names_distinct: "distinct (map dev_name (map plan_device (clos_plans cfg ma)))"
proof -
  have "map dev_name (map plan_device (clos_plans cfg ma)) = map spine_name [1..cfg_spines cfg]
     @ concat (map (\<lambda>l. leaf_name l # map (\<lambda>p. client_name (client_index cfg l p)) [1..cfg_clients_per_leaf cfg]) [1..cfg_leafs cfg])"
    by (simp add: clos_plans_def map_concat comp_def)
  moreover have "distinct (concat (map (\<lambda>l. leaf_name l # map (\<lambda>p. client_name (client_index cfg l p)) [1..cfg_clients_per_leaf cfg])
      [1..cfg_leafs cfg]))"
    by (rule distinct_concat_map) (auto simp: distinct_map inj_on_def client_index_inj)
  ultimately show ?thesis by (auto simp: distinct_map inj_on_def)
qed

lemma clos_mgmt_distinct:
  assumes "create_addressing (cfg_mgmt_subnet cfg) (clos_offsets cfg) = Inr ma" and "clos_sizes_ok cfg"
  shows "distinct (somes (map mgmt_ip (map plan_device (clos_plans cfg ma))))"
proof -
  define offs where "offs = map (\<lambda>i. spine_mgmt_offset + i) [1..cfg_spines cfg]
     @ concat (map (\<lambda>l. (leaf_mgmt_offset cfg + l) # map (\<lambda>p. client_mgmt_offset cfg + client_index cfg l p) [1..cfg_clients_per_leaf cfg])
         [1..cfg_leafs cfg])"
  have eq: "somes (map mgmt_ip (map plan_device (clos_plans cfg ma))) = map (host_text ma) offs"
    by (simp add: offs_def clos_plans_def map_concat comp_def somes_concat)
  have ci: "1 \<le> client_index cfg l p" if "l \<in> {1..cfg_leafs cfg}" "p \<in> {1..cfg_clients_per_leaf cfg}" for l p
    using client_index_bound(1) [of l cfg p] that by simp
  have "distinct (concat (map (\<lambda>l. (leaf_mgmt_offset cfg + l) # map (\<lambda>p. client_mgmt_offset cfg + client_index cfg l p) [1..cfg_clients_per_leaf cfg])
         [1..cfg_leafs cfg]))"
    by (rule distinct_concat_map) (use ci in \<open>force simp: distinct_map inj_on_def client_index_inj client_mgmt_offset_def\<close>)+
  then have "distinct offs"
    using ci assms(2)
    by (force simp: offs_def distinct_map inj_on_def client_mgmt_offset_def leaf_mgmt_offset_def clos_sizes_ok_def)
  moreover have "set offs \<subseteq> set (clos_offsets cfg)"
    by (auto simp: offs_def clos_offsets_mem(2,3)) (auto simp: clos_offsets_def)
  ultimately show ?thesis unfolding eq by (rule host_texts_distinct [OF assms(1)])
qed

lemma clos_data_distinct:
  assumes "clos_sizes_ok cfg"
  shows "distinct (somes (map data_ip (map plan_device (clos_plans cfg ma))))"
proof -
  have eq: "somes (map data_ip (map plan_device (clos_plans cfg ma)))
      = map (\<lambda>k. show_ip (access_base (fst k) (snd k) + 2)) (List.product [1..cfg_leafs cfg] [1..cfg_clients_per_leaf cfg])"
    by (simp add: clos_plans_def map_concat comp_def somes_concat concat_map_product case_prod_beta)
  have "distinct (map (\<lambda>k. show_ip (access_base (fst k) (snd k) + 2)) (List.product [1..cfg_leafs cfg] [1..cfg_clients_per_leaf cfg]))"
  proof (rule clients.alloc_texts_distinct [where racks = "cfg_leafs cfg" and clients_per_rack = "cfg_clients_per_leaf cfg"])
    fix k assume "k \<in> set (List.product [1..cfg_leafs cfg] [1..cfg_clients_per_leaf cfg])"
    then have "client_alloc (cfg_leafs cfg) (cfg_clients_per_leaf cfg) k = Inr (access_base (fst k) (snd k) + 2)"
      using assms by (auto simp: client_alloc_eq clos_sizes_ok_def client_addressing_wf_def)
    then show "rbind (client_alloc (cfg_leafs cfg) (cfg_clients_per_leaf cfg) k) (\<lambda>a. Inr (show_ip a))
        = Inr (show_ip (access_base (fst k) (snd k) + 2))" by simp
  qed (simp add: distinct_product)
  then show ?thesis by (simp only: eq)
qed

lemma clos_router_ids_distinct: "distinct (somes (map router_id (map plan_device (clos_plans cfg ma))))"
proof -
  have "somes (map router_id (map plan_device (clos_plans cfg ma)))
      = map (\<lambda>i. ''10.0.0.'' @ show_int i) [1..cfg_spines cfg] @ map (\<lambda>i. ''10.0.1.'' @ show_int i) [1..cfg_leafs cfg]"
    by (simp add: clos_plans_def map_concat comp_def somes_concat)
  then show ?thesis by (auto simp: distinct_map inj_on_def)
qed

lemma set_clos_plans:
  "set (clos_plans cfg ma) = (\<lambda>i. mk_spine cfg i (host_text ma (spine_mgmt_offset + i))) ` {1..cfg_spines cfg}
     \<union> clos_leaf_of cfg ma ` {1..cfg_leafs cfg}
     \<union> (\<lambda>(l, p). clos_client_of cfg ma l p) ` ({1..cfg_leafs cfg} \<times> {1..cfg_clients_per_leaf cfg})"
  by (auto simp: clos_plans_def)

lemma set_clos_links:
  "set (clos_links cfg) = (\<lambda>(s, l). spine_leaf_link s l) ` ({1..cfg_spines cfg} \<times> {1..cfg_leafs cfg})
     \<union> (\<lambda>(l, p). leaf_client_link cfg l p) ` ({1..cfg_leafs cfg} \<times> {1..cfg_clients_per_leaf cfg})"
  by (auto simp: clos_links_def)

lemma clos_manifest_wf:
  assumes sz: "clos_sizes_ok cfg" and ma: "create_addressing (cfg_mgmt_subnet cfg) (clos_offsets cfg) = Inr ma"
  shows "manifest_wf (clos_manifest cfg ma rs policy (clos_plans cfg ma))"
proof -
  let ?m = "clos_manifest cfg ma rs policy (clos_plans cfg ma)"
  have dev: "devices ?m = map plan_device (clos_plans cfg ma)" and lks: "links ?m = clos_links cfg"
    and pol: "ecmp_hash_policy_by_role (routing ?m) = [(SPINE, 1), (LEAF, 1)]" by (simp_all add: clos_manifest_def)
  have sw: "set (switches ?m) = plan_device ` ((\<lambda>i. mk_spine cfg i (host_text ma (spine_mgmt_offset + i))) ` {1..cfg_spines cfg}
      \<union> clos_leaf_of cfg ma ` {1..cfg_leafs cfg})"
    by (auto simp: switches_def dev set_clos_plans)
  have roles: "role ` set (switches ?m) = {SPINE, LEAF}"
    using sz by (auto simp: sw image_Un image_image clos_sizes_ok_def)
  have names: "dev_name ` set (devices ?m) = spine_name ` {1..cfg_spines cfg} \<union> leaf_name ` {1..cfg_leafs cfg}
      \<union> (\<lambda>(l, p). client_name (client_index cfg l p)) ` ({1..cfg_leafs cfg} \<times> {1..cfg_clients_per_leaf cfg})"
    by (simp add: dev set_clos_plans image_Un image_image case_prod_beta)
  have ends: "ep_device (fst (endpoints k)) \<in> dev_name ` set (devices ?m) \<and> ep_device (snd (endpoints k)) \<in> dev_name ` set (devices ?m)"
    if "k \<in> set (links ?m)" for k
    using that unfolding names lks set_clos_links
    by (auto simp: spine_leaf_link_def leaf_client_link_def mk_link_def intro: rev_image_eqI)
  have cl: "\<exists>d \<in> set (switches ?m). attached_switch c = Some (dev_name d) \<and> dev_name d \<noteq> []" if "c \<in> set (clients ?m)" for c
    using that by (auto simp: sw clients_def devices_by_role_def dev set_clos_plans bex_Un)
  show ?thesis
    unfolding manifest_wf_def dev
    using clos_names_distinct clos_mgmt_distinct [OF ma sz] clos_data_distinct [OF sz] clos_router_ids_distinct ends cl roles
    by (simp add: pol dev del: map_map)
qed

subsection \<open>Every switch has the ports its links need\<close>

lemma ends_simps [simp]:
  "end1 (spine_leaf_link s l) = (spine_name s, eth l)" "end2 (spine_leaf_link s l) = (leaf_name l, eth s)"
  "end1 (leaf_client_link cfg l p) = (leaf_name l, eth (cfg_spines cfg + p))"
  "end2 (leaf_client_link cfg l p) = (client_name (client_index cfg l p), ''eth1'')"
  by (simp_all add: end1_def end2_def spine_leaf_link_def leaf_client_link_def mk_link_def)

lemma clos_links_product:
  "clos_links cfg = map (\<lambda>(s, l). spine_leaf_link s l) (List.product [1..cfg_spines cfg] [1..cfg_leafs cfg])
     @ map (\<lambda>(l, p). leaf_client_link cfg l p) (List.product [1..cfg_leafs cfg] [1..cfg_clients_per_leaf cfg])"
  by (simp add: clos_links_def concat_map_product)

lemma clos_ends_distinct: "distinct (endpoint_keys (clos_links cfg))"
proof -
  have 1: "distinct (endpoint_keys (map (\<lambda>(s, l). spine_leaf_link s l) (List.product [1..cfg_spines cfg] [1..cfg_leafs cfg])))"
    by (rule distinct_endpoint_keys) (auto simp: distinct_product inj_on_def)
  have 2: "distinct (endpoint_keys (map (\<lambda>(l, p). leaf_client_link cfg l p) (List.product [1..cfg_leafs cfg] [1..cfg_clients_per_leaf cfg])))"
    by (rule distinct_endpoint_keys) (auto simp: distinct_product inj_on_def client_index_inj)
  show ?thesis using 1 2 by (auto simp: clos_links_product set_endpoint_keys)
qed

lemma set_clos_ends:
  "set (endpoint_keys (clos_links cfg)) =
     {(spine_name s, eth l) |s l. s \<in> {1..cfg_spines cfg} \<and> l \<in> {1..cfg_leafs cfg}}
   \<union> {(leaf_name l, eth s) |s l. s \<in> {1..cfg_spines cfg} \<and> l \<in> {1..cfg_leafs cfg}}
   \<union> {(leaf_name l, eth (cfg_spines cfg + p)) |l p. l \<in> {1..cfg_leafs cfg} \<and> p \<in> {1..cfg_clients_per_leaf cfg}}
   \<union> {(client_name (client_index cfg l p), ''eth1'') |l p. l \<in> {1..cfg_leafs cfg} \<and> p \<in> {1..cfg_clients_per_leaf cfg}}"
proof -
  have img: "(\<lambda>x. f (fst x) (snd x)) ` (A \<times> B) = {f x y |x y. x \<in> A \<and> y \<in> B}" for f :: "int \<Rightarrow> int \<Rightarrow> endpoint_key" and A B
    by force
  show ?thesis
    unfolding set_endpoint_keys set_clos_links image_Un image_image case_prod_beta ends_simps
      img [of "\<lambda>s l. (spine_name s, eth l)"] img [of "\<lambda>s l. (leaf_name l, eth s)"]
      img [of "\<lambda>l p. (leaf_name l, eth (cfg_spines cfg + p))"] img [of "\<lambda>l p. (client_name (client_index cfg l p), ''eth1'')"]
    by (simp only: Un_ac)
qed

lemma spine_degree:
  assumes "s \<in> {1..cfg_spines cfg}"
  shows "link_degree (clos_links cfg) (spine_name s) = nat (cfg_leafs cfg)"
proof -
  have "{k \<in> set (endpoint_keys (clos_links cfg)). fst k = spine_name s} = (\<lambda>l. (spine_name s, eth l)) ` {1..cfg_leafs cfg}"
    using assms by (auto simp: set_clos_ends)
  then show ?thesis
    using link_degree_card [OF clos_ends_distinct] by (simp add: card_image inj_on_def)
qed

lemma leaf_degree:
  assumes "l \<in> {1..cfg_leafs cfg}"
  shows "link_degree (clos_links cfg) (leaf_name l) = nat (cfg_spines cfg) + nat (cfg_clients_per_leaf cfg)"
proof -
  have "{k \<in> set (endpoint_keys (clos_links cfg)). fst k = leaf_name l}
      = (\<lambda>s. (leaf_name l, eth s)) ` {1..cfg_spines cfg} \<union> (\<lambda>p. (leaf_name l, eth (cfg_spines cfg + p))) ` {1..cfg_clients_per_leaf cfg}"
    using assms by (auto simp: set_clos_ends)
  moreover have "card ((\<lambda>s. (leaf_name l, eth s)) ` {1..cfg_spines cfg} \<union> (\<lambda>p. (leaf_name l, eth (cfg_spines cfg + p))) ` {1..cfg_clients_per_leaf cfg})
      = nat (cfg_spines cfg) + nat (cfg_clients_per_leaf cfg)"
    by (subst card_Un_disjoint) (auto simp: card_image inj_on_def)
  ultimately show ?thesis using link_degree_card [OF clos_ends_distinct] by simp
qed

lemma clos_fabric_wf:
  assumes sz: "clos_sizes_ok cfg"
  shows "fabric_wf (clos_fabric cfg rs (clos_manifest cfg ma rs policy (clos_plans cfg ma)) (clos_plans cfg ma) pp)"
proof -
  have "is_client p \<or> 0 < required_ports p \<and> int (link_degree (clos_links cfg) (plan_name p)) = required_ports p
      \<and> bgp_asn p \<noteq> None \<and> bgp_router_id p \<noteq> None" if "p \<in> set (clos_plans cfg ma)" for p
    using that sz unfolding set_clos_plans clos_sizes_ok_def
    by (auto simp: is_client_def plan_name_def spine_degree leaf_degree)
  then show ?thesis
    using clos_ends_distinct by (simp add: fabric_wf_def clos_fabric_def clos_manifest_def plan_name_def)
qed

lemma length_filter_role: "length [d \<leftarrow> ds. P (role d)] = length (filter P (map role ds))"
  by (induction ds) auto

lemma clos_role_counts:
  assumes "map role (devices m) = replicate (nat (cfg_spines cfg)) SPINE
      @ concat (map (\<lambda>l. LEAF # replicate (nat (cfg_clients_per_leaf cfg)) CLIENT) [1..cfg_leafs cfg])"
    and "clos_sizes_ok cfg"
  shows "int (length (switches m)) = cfg_spines cfg + cfg_leafs cfg"
    and "int (length (clients m)) = cfg_leafs cfg * cfg_clients_per_leaf cfg"
proof -
  have "length (filter P (concat (map (\<lambda>l. LEAF # replicate n CLIENT) xs)))
      = length xs * ((if P LEAF then 1 else 0) + (if P CLIENT then n else 0))" for P n and xs :: "int list"
    by (induction xs) auto
  then show "int (length (switches m)) = cfg_spines cfg + cfg_leafs cfg"
    "int (length (clients m)) = cfg_leafs cfg * cfg_clients_per_leaf cfg"
    using assms(2) length_filter_role [of "\<lambda>r. r \<noteq> CLIENT" "devices m"] length_filter_role [of "\<lambda>r. r = CLIENT" "devices m"]
    by (simp_all add: switches_def clients_def devices_by_role_def assms(1) clos_sizes_ok_def)
qed

text \<open>C1: once the configuration, the management addressing and the probing policy are accepted, building a
  CLOS fabric can only fail in the Pingmesh compiler: the manifest is well formed, the finished plan
  passes the port and identity check, and the fabric has the configured numbers of switches and
  clients.\<close>

theorem clos_builder_correct:
  assumes "clos_validate_config cfg = Inr ()" and "clos_addressing cfg = Inr (ma, rs)" and "clos_policy cfg = Inr policy"
  shows "let m = clos_manifest cfg ma rs policy (clos_plans cfg ma) in
     build_clos_plan sha256 fp cfg = rbind (compile_pingmesh_plan sha256 fp m) (\<lambda>pp. Inr (clos_fabric cfg rs m (clos_plans cfg ma) pp))
   \<and> manifest_wf m \<and> int (length (switches m)) = cfg_spines cfg + cfg_leafs cfg
   \<and> int (length (clients m)) = cfg_leafs cfg * cfg_clients_per_leaf cfg"
proof -
  have sz: "clos_sizes_ok cfg" by (rule clos_validate_sizes [OF assms(1)])
  obtain ca where ca: "mk_client_addressing (cfg_leafs cfg) (cfg_clients_per_leaf cfg) = Inr ca"
    using assms(1) by (auto simp: clos_validate_config_def rbind_eq_Inr)
  have ma: "create_addressing (cfg_mgmt_subnet cfg) (clos_offsets cfg) = Inr ma"
    using assms(2) by (auto simp: clos_addressing_def rbind_eq_Inr)
  let ?m = "clos_manifest cfg ma rs policy (clos_plans cfg ma)"
  have wf: "manifest_wf ?m" by (rule clos_manifest_wf [OF sz ma])
  then have val: "validate_topology_references ?m = Inr ?m" by (simp add: manifest_wf_validates)
  have post: "fabric_plan_post_init (clos_fabric cfg rs ?m (clos_plans cfg ma) pp) = Inr (clos_fabric cfg rs ?m (clos_plans cfg ma) pp)" for pp
    using clos_fabric_wf [OF sz] by (simp add: fabric_wf_accepts)
  have "build_clos_plan sha256 fp cfg = rbind (compile_pingmesh_plan sha256 fp ?m) (\<lambda>pp. Inr (clos_fabric cfg rs ?m (clos_plans cfg ma) pp))"
    by (simp add: build_clos_plan_def assms ca clos_device_plans_eq [OF sz ma ca] val post)
  moreover have "map role (devices ?m) = replicate (nat (cfg_spines cfg)) SPINE
      @ concat (map (\<lambda>l. LEAF # replicate (nat (cfg_clients_per_leaf cfg)) CLIENT) [1..cfg_leafs cfg])"
    by (simp add: clos_manifest_def clos_plans_def map_concat comp_def map_replicate_const)
  ultimately show ?thesis using wf sz clos_role_counts [of ?m cfg] by (simp add: Let_def)
qed

definition clos_example :: topology_config where
  "clos_example = clos_config_from_profile ''client'' (hd builtin_profiles)"

lemma clos_example_ok:
  "clos_validate_config clos_example = Inr ()" "is_ok (clos_addressing clos_example)" "is_ok (clos_policy clos_example)"
  by code_simp+

theorem clos_builder_correct_witness:
  "\<exists>ma rs policy. manifest_wf (clos_manifest clos_example ma rs policy (clos_plans clos_example ma))
     \<and> length (switches (clos_manifest clos_example ma rs policy (clos_plans clos_example ma))) = 4"
proof -
  obtain ma rs policy where "clos_addressing clos_example = Inr (ma, rs)" "clos_policy clos_example = Inr policy"
    using clos_example_ok(2,3) by (auto simp: is_ok_iff)
  moreover have "cfg_spines clos_example + cfg_leafs clos_example = 4" by code_simp
  ultimately show ?thesis
    using clos_builder_correct [OF clos_example_ok(1), of ma rs policy small_sha "\<lambda>_ _. ''id''"]
    by (intro exI [of _ ma] exI [of _ rs] exI [of _ policy]) (simp add: Let_def)
qed

end
