(* ===== verification/Fat_Tree_Builder.thy ===== *)
theory Fat_Tree_Builder
  imports Clos_Builder
begin

text \<open>
  \<open>platform/topology/fat_tree_builder.py\<close>: the plan of a k-ary fat tree. The triple loop over pods,
  aggregation switches and their peers gives the two link lists; the neighbour dictionaries are
  filled by the same appends, the /30 networks are handed out in the order of the sorted links, and
  the ports are positions in the sorted neighbour lists, as in the source.
  Shown, as for the CLOS builder: after the early checks only the Pingmesh compiler can reject the
  fabric; the manifest is well formed and each switch has exactly the ports its links need.
\<close>

definition core_name :: "int \<Rightarrow> string" where "core_name i = ''core'' @ show_int i"
definition agg_name :: "int \<Rightarrow> string" where "agg_name i = ''agg'' @ show_int i"
definition edge_name :: "int \<Rightarrow> string" where "edge_name i = ''edge'' @ show_int i"

lemma ft_names_inj [simp]:
  "(core_name i = core_name j) = (i = j)" "(agg_name i = agg_name j) = (i = j)" "(edge_name i = edge_name j) = (i = j)"
  "core_name i \<noteq> agg_name j" "agg_name j \<noteq> core_name i" "core_name i \<noteq> edge_name j" "edge_name j \<noteq> core_name i"
  "agg_name i \<noteq> edge_name j" "edge_name j \<noteq> agg_name i" "core_name i \<noteq> client_name j" "client_name j \<noteq> core_name i"
  "agg_name i \<noteq> client_name j" "client_name j \<noteq> agg_name i" "edge_name i \<noteq> client_name j" "client_name j \<noteq> edge_name i"
  "edge_name i \<noteq> []"
  by (simp_all add: core_name_def agg_name_def edge_name_def client_name_def)

subsection \<open>Links and neighbours\<close>

definition per_edge :: "fat_tree_config \<Rightarrow> int" where
  "per_edge cfg = or0 (ft_clients_per_edge cfg)"

definition ft_validate_config :: "fat_tree_config \<Rightarrow> unit res" where
  "ft_validate_config cfg =
     rbind (mk_client_addressing (num_total_edge cfg) (per_edge cfg)) (\<lambda>_.
     rbind (raise_if (max (num_core cfg) (max (num_total_agg cfg) (num_total_edge cfg)) > 255)
        (ValueError ''Router ID pool exceeds one IPv4 octet'')) (\<lambda>_.
     rbind (raise_if (\<not> 64512 \<le> ft_asn_base cfg \<or> ft_asn_base cfg + num_core cfg + num_total_agg cfg + num_total_edge cfg - 1 > 65534)
        (ValueError ''Fat-tree ASNs exceed the private 16-bit pool'')) (\<lambda>_.
     raise_if (ft_k cfg * half cfg * half cfg > 16384) (ValueError ''Fat-tree fabric /30 address pool exhausted''))))"

definition core_agg_links :: "fat_tree_config \<Rightarrow> (int \<times> int) list" where
  "core_agg_links cfg = concat (map (\<lambda>pod. concat (map (\<lambda>la.
     map (\<lambda>co. ((la - 1) * half cfg + co, (pod - 1) * half cfg + la)) [1..half cfg]) [1..half cfg])) [1..ft_k cfg])"

definition agg_edge_links :: "fat_tree_config \<Rightarrow> (int \<times> int) list" where
  "agg_edge_links cfg = concat (map (\<lambda>pod. concat (map (\<lambda>la.
     map (\<lambda>le. ((pod - 1) * half cfg + la, (pod - 1) * half cfg + le)) [1..half cfg]) [1..half cfg])) [1..ft_k cfg])"

text \<open>\<open>neighbors.setdefault(a, []).append(b)\<close> for every link, in loop order, then sorted.\<close>

definition neighbor_dict :: "(int \<times> int) list \<Rightarrow> (int, int list) dict" where
  "neighbor_dict ls = fold (\<lambda>(a, b). dict_append a b) ls []"

definition swap_links :: "(int \<times> int) list \<Rightarrow> (int \<times> int) list" where
  "swap_links ls = map (\<lambda>(a, b). (b, a)) ls"

definition sorted_neighbors :: "(int \<times> int) list \<Rightarrow> int \<Rightarrow> int list" where
  "sorted_neighbors ls a = sort (dict_get (neighbor_dict ls) a [])"

definition core_peers :: "fat_tree_config \<Rightarrow> int \<Rightarrow> int list" where
  "core_peers cfg = sorted_neighbors (core_agg_links cfg)"

definition agg_core_peers :: "fat_tree_config \<Rightarrow> int \<Rightarrow> int list" where
  "agg_core_peers cfg = sorted_neighbors (swap_links (core_agg_links cfg))"

definition agg_edge_peers :: "fat_tree_config \<Rightarrow> int \<Rightarrow> int list" where
  "agg_edge_peers cfg = sorted_neighbors (agg_edge_links cfg)"

definition edge_agg_peers :: "fat_tree_config \<Rightarrow> int \<Rightarrow> int list" where
  "edge_agg_peers cfg = sorted_neighbors (swap_links (agg_edge_links cfg))"

text \<open>The pods: \<open>agg_pod\<close> and \<open>edge_pod\<close> map a global index to the pod of the loop that creates it.\<close>

definition pod_dict :: "fat_tree_config \<Rightarrow> (int, int) dict" where
  "pod_dict cfg = dict_of (concat (map (\<lambda>pod. map (\<lambda>i. ((pod - 1) * half cfg + i, pod)) [1..half cfg]) [1..ft_k cfg]))"

text \<open>The i-th /30 of a pool and the texts of its two hosts, for the links in sorted order.\<close>

definition pool_core_agg :: int where "pool_core_agg = 10 * 2 ^ 24 + 1 * 2 ^ 16"
definition pool_agg_edge :: int where "pool_agg_edge = 10 * 2 ^ 24 + 2 * 2 ^ 16"

definition link_ips :: "int \<Rightarrow> (int \<times> int) list \<Rightarrow> (int \<times> int, string \<times> string) dict" where
  "link_ips pool ls = dict_of (map (\<lambda>(i, l). (l, (show_ip (pool + 4 * int i + 1), show_ip (pool + 4 * int i + 2)))) (enumerate 0 (sort ls)))"

definition core_agg_ips :: "fat_tree_config \<Rightarrow> int \<times> int \<Rightarrow> string \<times> string" where
  "core_agg_ips cfg l = dict_get (link_ips pool_core_agg (core_agg_links cfg)) l ([], [])"

definition agg_edge_ips :: "fat_tree_config \<Rightarrow> int \<times> int \<Rightarrow> string \<times> string" where
  "agg_edge_ips cfg l = dict_get (link_ips pool_agg_edge (agg_edge_links cfg)) l ([], [])"

text \<open>\<open>sorted(neighbors).index(x) + 1\<close>.\<close>

definition port_of :: "int list \<Rightarrow> int \<Rightarrow> int" where
  "port_of xs x = int (length (takeWhile (\<lambda>y. y \<noteq> x) xs)) + 1"

definition numbered :: "'a list \<Rightarrow> (int \<times> 'a) list" where
  "numbered xs = map (\<lambda>(i, x). (int i + 1, x)) (enumerate 0 xs)"

subsection \<open>Devices\<close>

definition core_asn_start :: "fat_tree_config \<Rightarrow> int" where "core_asn_start cfg = ft_asn_base cfg"
definition agg_asn_start :: "fat_tree_config \<Rightarrow> int" where "agg_asn_start cfg = core_asn_start cfg + num_core cfg"
definition edge_asn_start :: "fat_tree_config \<Rightarrow> int" where "edge_asn_start cfg = agg_asn_start cfg + num_total_agg cfg"

definition core_mgmt_offset :: int where "core_mgmt_offset = 10"
definition agg_mgmt_offset :: "fat_tree_config \<Rightarrow> int" where "agg_mgmt_offset cfg = core_mgmt_offset + num_core cfg"
definition edge_mgmt_offset :: "fat_tree_config \<Rightarrow> int" where "edge_mgmt_offset cfg = agg_mgmt_offset cfg + num_total_agg cfg"
definition ft_client_mgmt_offset :: "fat_tree_config \<Rightarrow> int" where
  "ft_client_mgmt_offset cfg = edge_mgmt_offset cfg + num_total_edge cfg"

definition ft_offsets :: "fat_tree_config \<Rightarrow> int list" where
  "ft_offsets cfg = map (\<lambda>i. core_mgmt_offset + i) [1..num_core cfg] @ map (\<lambda>i. agg_mgmt_offset cfg + i) [1..num_total_agg cfg]
     @ map (\<lambda>i. edge_mgmt_offset cfg + i) [1..num_total_edge cfg] @ map (\<lambda>i. ft_client_mgmt_offset cfg + i) [1..num_total_clients cfg]"

definition mk_switch ::
  "string \<Rightarrow> device_role \<Rightarrow> string \<Rightarrow> int \<Rightarrow> string \<Rightarrow> pydict \<Rightarrow> int \<Rightarrow> (string, string list) dict \<Rightarrow> bgp_neighbor_plan list \<Rightarrow> string list \<Rightarrow> device_plan" where
  "mk_switch name ro ip as rid md ports interfaces neighbors networks =
     \<lparr> plan_device = \<lparr> dev_name = name, role = ro, mgmt_ip = Some ip, data_ip = None, attached_switch = None,
         asn = Some as, router_id = Some rid, metadata = md \<rparr>,
       required_ports = ports, configdb_interface_cidrs = interfaces, bgp_asn = Some as, bgp_router_id = Some rid,
       bgp_neighbors = neighbors, bgp_networks = networks, client_cmds = [] \<rparr>"

definition mk_core :: "fat_tree_config \<Rightarrow> int \<Rightarrow> string \<Rightarrow> device_plan" where
  "mk_core cfg c ip = mk_switch (core_name c) CORE ip (core_asn_start cfg + c - 1) (''10.0.1.'' @ show_int c) [] (ft_k cfg)
     (dict_of (map (\<lambda>(port, a). (sonic_port_name port, [fst (core_agg_ips cfg (c, a)) @ ''/30''])) (numbered (core_peers cfg c))))
     (map (\<lambda>a. \<lparr> peer_ip = snd (core_agg_ips cfg (c, a)), remote_as = agg_asn_start cfg + a - 1 \<rparr>) (core_peers cfg c)) []"

definition mk_agg :: "fat_tree_config \<Rightarrow> int \<Rightarrow> string \<Rightarrow> device_plan" where
  "mk_agg cfg a ip = mk_switch (agg_name a) AGG ip (agg_asn_start cfg + a - 1) (''10.0.2.'' @ show_int a)
     [(''pod'', PInt (dict_get (pod_dict cfg) a 0))] (ft_k cfg)
     (fold (\<lambda>(k, v) d. AList.update k v d)
        (map (\<lambda>(port, e). (sonic_port_name (half cfg + port), [fst (agg_edge_ips cfg (a, e)) @ ''/30''])) (numbered (agg_edge_peers cfg a)))
        (dict_of (map (\<lambda>(port, c). (sonic_port_name port, [snd (core_agg_ips cfg (c, a)) @ ''/30''])) (numbered (agg_core_peers cfg a)))))
     (map (\<lambda>c. \<lparr> peer_ip = fst (core_agg_ips cfg (c, a)), remote_as = core_asn_start cfg + c - 1 \<rparr>) (agg_core_peers cfg a)
      @ map (\<lambda>e. \<lparr> peer_ip = snd (agg_edge_ips cfg (a, e)), remote_as = edge_asn_start cfg + e - 1 \<rparr>) (agg_edge_peers cfg a)) []"

definition mk_edge :: "fat_tree_config \<Rightarrow> int \<Rightarrow> string \<Rightarrow> string \<Rightarrow> (string \<times> string \<times> string) list \<Rightarrow> device_plan" where
  "mk_edge cfg e ip subnet acc = mk_switch (edge_name e) EDGE ip (edge_asn_start cfg + e - 1) (''10.0.3.'' @ show_int e)
     [(''pod'', PInt (dict_get (pod_dict cfg) e 0)), (''client_subnet'', PStr subnet)] (half cfg + per_edge cfg)
     (fold (\<lambda>(p, (_, gateway, _)) d. AList.update (sonic_port_name (half cfg + p)) [gateway @ ''/30''] d) (zip [1..per_edge cfg] acc)
        (dict_of (map (\<lambda>(port, a). (sonic_port_name port, [snd (agg_edge_ips cfg (a, e)) @ ''/30''])) (numbered (edge_agg_peers cfg e)))))
     (map (\<lambda>a. \<lparr> peer_ip = fst (agg_edge_ips cfg (a, e)), remote_as = agg_asn_start cfg + a - 1 \<rparr>) (edge_agg_peers cfg e))
     (map fst acc)"

definition core_plan :: "fat_tree_config \<Rightarrow> management_addressing \<Rightarrow> int \<Rightarrow> device_plan res" where
  "core_plan cfg ma c = rbind (host_ip ma (core_mgmt_offset + c)) (\<lambda>ip. Inr (mk_core cfg c ip))"

definition agg_plan :: "fat_tree_config \<Rightarrow> management_addressing \<Rightarrow> int \<Rightarrow> device_plan res" where
  "agg_plan cfg ma a = rbind (host_ip ma (agg_mgmt_offset cfg + a)) (\<lambda>ip. Inr (mk_agg cfg a ip))"

definition edge_plan :: "fat_tree_config \<Rightarrow> management_addressing \<Rightarrow> client_addressing \<Rightarrow> int \<Rightarrow> device_plan res" where
  "edge_plan cfg ma ca e =
     rbind (host_ip ma (edge_mgmt_offset cfg + e)) (\<lambda>ip.
     rbind (rack_subnet ca e) (\<lambda>subnet.
     rbind (rmapM (access ca e) [1..per_edge cfg]) (\<lambda>acc. Inr (mk_edge cfg e ip (show_network subnet) acc))))"

definition ft_client_index :: "fat_tree_config \<Rightarrow> int \<Rightarrow> int \<Rightarrow> int" where
  "ft_client_index cfg e p = (e - 1) * per_edge cfg + p"

definition mk_ft_client :: "fat_tree_config \<Rightarrow> int \<Rightarrow> int \<Rightarrow> string \<Rightarrow> string \<Rightarrow> string \<Rightarrow> device_plan" where
  "mk_ft_client cfg e p ip gateway client_ip =
     \<lparr> plan_device = \<lparr> dev_name = client_name (ft_client_index cfg e p), role = CLIENT, mgmt_ip = Some ip,
         data_ip = Some client_ip, attached_switch = Some (edge_name e), asn = None, router_id = None,
         metadata = [(''rack'', PStr (''pod'' @ show_int (dict_get (pod_dict cfg) e 0) @ ''-edge'' @ show_int e))] \<rparr>,
       required_ports = 0, configdb_interface_cidrs = [], bgp_asn = None, bgp_router_id = None, bgp_neighbors = [],
       bgp_networks = [], client_cmds = client_commands client_ip gateway \<rparr>"

definition ft_client_plan ::
  "fat_tree_config \<Rightarrow> management_addressing \<Rightarrow> client_addressing \<Rightarrow> int \<Rightarrow> int \<Rightarrow> device_plan res" where
  "ft_client_plan cfg ma ca e p =
     rbind (access ca e p) (\<lambda>(_, gateway, client_ip).
     rbind (host_ip ma (ft_client_mgmt_offset cfg + ft_client_index cfg e p)) (\<lambda>ip.
     Inr (mk_ft_client cfg e p ip gateway client_ip)))"

definition ft_device_plans :: "fat_tree_config \<Rightarrow> management_addressing \<Rightarrow> client_addressing \<Rightarrow> device_plan list res" where
  "ft_device_plans cfg ma ca =
     rbind (rmapM (core_plan cfg ma) [1..num_core cfg]) (\<lambda>cores.
     rbind (rmapM (agg_plan cfg ma) [1..num_total_agg cfg]) (\<lambda>aggs.
     rbind (rmapM (edge_plan cfg ma ca) [1..num_total_edge cfg]) (\<lambda>edges.
     rbind (rmapM (\<lambda>e. rmapM (ft_client_plan cfg ma ca e) [1..per_edge cfg]) [1..num_total_edge cfg]) (\<lambda>cs.
     Inr (cores @ aggs @ edges @ concat cs)))))"

definition core_agg_link :: "fat_tree_config \<Rightarrow> int \<times> int \<Rightarrow> link" where
  "core_agg_link cfg l = (case l of (c, a) \<Rightarrow>
     mk_link ''core-agg'' (core_name c) (eth (port_of (core_peers cfg c) a)) (agg_name a) (eth (port_of (agg_core_peers cfg a) c)))"

definition agg_edge_link :: "fat_tree_config \<Rightarrow> int \<times> int \<Rightarrow> link" where
  "agg_edge_link cfg l = (case l of (a, e) \<Rightarrow>
     mk_link ''agg-edge'' (agg_name a) (eth (half cfg + port_of (agg_edge_peers cfg a) e)) (edge_name e) (eth (port_of (edge_agg_peers cfg e) a)))"

definition edge_client_link :: "fat_tree_config \<Rightarrow> int \<Rightarrow> int \<Rightarrow> link" where
  "edge_client_link cfg e p =
     mk_link ''edge-client'' (edge_name e) (eth (half cfg + p)) (client_name (ft_client_index cfg e p)) ''eth1''"

definition ft_links :: "fat_tree_config \<Rightarrow> link list" where
  "ft_links cfg = map (core_agg_link cfg) (sort (core_agg_links cfg)) @ map (agg_edge_link cfg) (sort (agg_edge_links cfg))
     @ [edge_client_link cfg e p. e \<leftarrow> [1..num_total_edge cfg], p \<leftarrow> [1..per_edge cfg]]"

definition range_text :: "int \<Rightarrow> int \<Rightarrow> string" where
  "range_text start n = show_int start @ ''-'' @ show_int (start + n - 1)"

definition ft_scale :: "fat_tree_config \<Rightarrow> string" where
  "ft_scale cfg = str_or (ft_scale_name cfg) (''fat-tree-k'' @ show_int (ft_k cfg))"

definition ft_manifest ::
  "fat_tree_config \<Rightarrow> management_addressing \<Rightarrow> render_settings \<Rightarrow> pingmesh_policy \<Rightarrow> device_plan list \<Rightarrow> topology_manifest" where
  "ft_manifest cfg ma rs policy plans =
     \<lparr> topology_id = ft_name cfg, top_name = ft_name cfg, scale = ft_scale cfg,
       top_purpose = ft_purpose cfg, top_family = Fat_tree_family,
       mgmt_network = str_or (ft_mgmt_network cfg) (''clab-mgmt-'' @ ft_name cfg),
       mgmt_subnet = show_network (ma_network ma), collector_ipv4 = syslog_collector rs, defaults = default_topology_defaults,
       facts = \<lparr> facts_spines = 0, facts_leafs = 0, facts_cores = num_core cfg, facts_aggs = num_total_agg cfg,
         facts_edges = num_total_edge cfg, facts_pods = num_pods cfg, facts_clients_per_switch = per_edge cfg,
         facts_total_clients = num_total_clients cfg, facts_total_switches = num_core cfg + num_total_agg cfg + num_total_edge cfg,
         facts_fat_tree_k = Some (ft_k cfg), facts_full_density = Some (half cfg), facts_host_density = Some (host_density cfg) \<rparr>,
       devices = map plan_device plans, links = ft_links cfg,
       routing = \<lparr> spine_asn_md = None, leaf_asn_range = None,
         core_asn_range = Some (range_text (core_asn_start cfg) (num_core cfg)),
         agg_asn_range = Some (range_text (agg_asn_start cfg) (num_total_agg cfg)),
         edge_asn_range = Some (range_text (edge_asn_start cfg) (num_total_edge cfg)),
         ecmp_hash_policy_by_role = [(CORE, 1), (AGG, 0), (EDGE, 1)], ecmp = True, bfd = False \<rparr>,
       pingmesh = policy, pingmesh_plan_opt = None \<rparr>"

definition ft_header :: "fat_tree_config \<Rightarrow> string" where
  "ft_header cfg = ''# '' @ py_upper (ft_name cfg) @ '' Fat-tree Topology Configuration'' @ nl
     @ ''# Generated by NetOpsBench Topology Generator'' @ nl
     @ ''# Scale: k='' @ show_int (ft_k cfg) @ '', '' @ show_int (num_core cfg) @ '' core, '' @ show_int (num_total_agg cfg) @ '' agg, ''
     @ show_int (num_total_edge cfg) @ '' edge, '' @ show_int (per_edge cfg) @ '' clients/edge'' @ nl
     @ ''#'' @ nl @ ''# Features:'' @ nl @ ''# - BGP with ECMP'' @ nl @ ''# - Preseeded SONiC startup artifacts'' @ nl @ nl"

definition ft_fabric ::
  "fat_tree_config \<Rightarrow> render_settings \<Rightarrow> topology_manifest \<Rightarrow> device_plan list \<Rightarrow> pingmesh_plan \<Rightarrow> fabric_plan" where
  "ft_fabric cfg rs m plans pp =
     \<lparr> manifest = m\<lparr>pingmesh_plan_opt := Some pp\<rparr>, device_plans = plans, nos_kind = ft_nos_kind cfg,
       nos_image = ft_nos_image cfg, client_image = ft_client_image cfg, render = rs, yaml_header = ft_header cfg \<rparr>"

definition ft_addressing :: "fat_tree_config \<Rightarrow> (management_addressing \<times> render_settings) res" where
  "ft_addressing cfg =
     rbind (create_addressing (ft_mgmt_subnet cfg) (ft_offsets cfg)) (\<lambda>ma.
     rbind (if opt_truthy (ft_collector_ip cfg) then Inr (the (ft_collector_ip cfg))
            else default_collector ma (ft_client_mgmt_offset cfg + num_total_clients cfg) False) (\<lambda>collector_ip.
     rbind (validate_collector ma collector_ip) (\<lambda>_.
     rbind (build_render_settings ma collector_ip) (\<lambda>rs. Inr (ma, rs)))))"

definition ft_policy_of :: "fat_tree_config \<Rightarrow> pingmesh_policy res" where
  "ft_policy_of cfg = (case ft_policy cfg of Some p \<Rightarrow> Inr p | None \<Rightarrow> pingmesh_policy_for_scale (ft_scale cfg) None)"

definition build_fat_tree_plan ::
  "(string \<Rightarrow> nat list) \<Rightarrow> (topology_manifest \<Rightarrow> pingmesh_plan \<Rightarrow> string) \<Rightarrow> fat_tree_config \<Rightarrow> fabric_plan res" where
  "build_fat_tree_plan sha256 fp cfg =
     rbind (ft_validate_config cfg) (\<lambda>_.
     rbind (mk_client_addressing (num_total_edge cfg) (per_edge cfg)) (\<lambda>ca.
     rbind (ft_addressing cfg) (\<lambda>(ma, rs).
     rbind (ft_device_plans cfg ma ca) (\<lambda>plans.
     rbind (ft_policy_of cfg) (\<lambda>policy.
     rbind (validate_topology_references (ft_manifest cfg ma rs policy plans)) (\<lambda>m.
     rbind (compile_pingmesh_plan sha256 fp m) (\<lambda>pp.
     fabric_plan_post_init (ft_fabric cfg rs m plans pp))))))))"

subsection \<open>Neighbours and ports\<close>

lemma neighbor_dict_get: "dict_get (neighbor_dict ls) a [] = map snd [l \<leftarrow> ls. fst l = a]"
proof -
  have "dict_get (fold (\<lambda>(a, b). dict_append a b) ls d) a [] = dict_get d a [] @ map snd [l \<leftarrow> ls. fst l = a]" for d
    by (induction ls arbitrary: d) (auto simp: dict_get_def map_of_dict_append split: option.splits)
  then show ?thesis by (simp add: neighbor_dict_def) (simp add: dict_get_def)
qed

lemma set_sorted_neighbors: "set (sorted_neighbors ls a) = {b. (a, b) \<in> set ls}"
  by (force simp: sorted_neighbors_def neighbor_dict_get)

lemma distinct_sorted_neighbors: "distinct ls \<Longrightarrow> distinct (sorted_neighbors ls a)"
  by (auto simp: sorted_neighbors_def neighbor_dict_get distinct_map inj_on_def)

lemma set_swap_links [simp]: "((a, b) \<in> set (swap_links ls)) = ((b, a) \<in> set ls)"
  by (force simp: swap_links_def)

lemma distinct_swap_links [simp]: "distinct (swap_links ls) = distinct ls"
  by (auto simp: swap_links_def distinct_map inj_on_def)

lemma takeWhile_short: "x \<in> set xs \<Longrightarrow> length (takeWhile (\<lambda>y. y \<noteq> x) xs) < length xs"
  by (induction xs) auto

lemma port_of_nth: "x \<in> set xs \<Longrightarrow> nat (port_of xs x) - 1 < length xs \<and> xs ! (nat (port_of xs x) - 1) = x"
  using takeWhile_short [of x xs] nth_length_takeWhile [of "\<lambda>y. y \<noteq> x" xs]
  by (auto simp: port_of_def nat_add_distrib)

lemma port_of_bounds: "x \<in> set xs \<Longrightarrow> 1 \<le> port_of xs x \<and> port_of xs x \<le> int (length xs)"
  using takeWhile_short [of x xs] by (auto simp: port_of_def)

lemma port_of_inj: "x \<in> set xs \<Longrightarrow> y \<in> set xs \<Longrightarrow> (port_of xs x = port_of xs y) = (x = y)"
  using port_of_nth by metis

subsection \<open>The shape of the tree\<close>

definition ft_shape :: "fat_tree_config \<Rightarrow> bool" where
  "ft_shape cfg \<longleftrightarrow> 1 \<le> half cfg \<and> ft_k cfg = 2 * half cfg \<and> 1 \<le> per_edge cfg \<and> per_edge cfg \<le> half cfg"

lemma ft_post_init_shape: "ft_post_init cfg = Inr cfg \<Longrightarrow> ft_shape cfg"
  using ft_post_init_ok [of cfg cfg] by (auto simp: ft_shape_def half_def per_edge_def)

lemma core_agg_links_map:
  "core_agg_links cfg = map (\<lambda>(pod, la, co). ((la - 1) * half cfg + co, (pod - 1) * half cfg + la))
     (List.product [1..ft_k cfg] (List.product [1..half cfg] [1..half cfg]))"
  by (simp add: core_agg_links_def concat_map_product case_prod_beta)

lemma agg_edge_links_map:
  "agg_edge_links cfg = map (\<lambda>(pod, la, le). ((pod - 1) * half cfg + la, (pod - 1) * half cfg + le))
     (List.product [1..ft_k cfg] (List.product [1..half cfg] [1..half cfg]))"
  by (simp add: agg_edge_links_def concat_map_product case_prod_beta)

lemma mem_core_agg_links:
  "(x \<in> set (core_agg_links cfg)) = (\<exists>pod la co. pod \<in> {1..ft_k cfg} \<and> la \<in> {1..half cfg} \<and> co \<in> {1..half cfg}
     \<and> x = (grid (half cfg) la co, grid (half cfg) pod la))"
  unfolding grid_def
  by (simp only: core_agg_links_map set_map set_product set_upto image_iff Bex_def split_paired_Ex mem_Sigma_iff prod.case) blast

lemma mem_agg_edge_links:
  "(x \<in> set (agg_edge_links cfg)) = (\<exists>pod la le. pod \<in> {1..ft_k cfg} \<and> la \<in> {1..half cfg} \<and> le \<in> {1..half cfg}
     \<and> x = (grid (half cfg) pod la, grid (half cfg) pod le))"
  unfolding grid_def
  by (simp only: agg_edge_links_map set_map set_product set_upto image_iff Bex_def split_paired_Ex mem_Sigma_iff prod.case) blast

lemma distinct_core_agg_links: "distinct (core_agg_links cfg)"
proof -
  have "pod = pod' \<and> la = la' \<and> co = co'"
    if "la \<in> {1..half cfg}" "co \<in> {1..half cfg}" "la' \<in> {1..half cfg}" "co' \<in> {1..half cfg}"
      "(la - 1) * half cfg + co = (la' - 1) * half cfg + co'" "(pod - 1) * half cfg + la = (pod' - 1) * half cfg + la'"
    for pod la co pod' la' co'
    using grid_inj [of co "half cfg" co' la la'] grid_inj [of la "half cfg" la' pod pod'] that by simp
  then show ?thesis
    unfolding core_agg_links_map distinct_map
    by (simp only: distinct_product distinct_upto simp_thms inj_on_def set_product set_upto split_paired_Ball_Sigma Ball_def
        split_paired_All mem_Sigma_iff prod.case prod.inject) blast
qed

lemma distinct_agg_edge_links: "distinct (agg_edge_links cfg)"
proof -
  have "pod = pod' \<and> la = la' \<and> le = le'"
    if "la \<in> {1..half cfg}" "le \<in> {1..half cfg}" "la' \<in> {1..half cfg}" "le' \<in> {1..half cfg}"
      "(pod - 1) * half cfg + la = (pod' - 1) * half cfg + la'" "(pod - 1) * half cfg + le = (pod' - 1) * half cfg + le'"
    for pod la le pod' la' le'
    using grid_inj [of le "half cfg" le' pod pod'] grid_inj [of la "half cfg" la' pod pod'] that by simp
  then show ?thesis
    unfolding agg_edge_links_map distinct_map
    by (simp only: distinct_product distinct_upto simp_thms inj_on_def set_product set_upto split_paired_Ball_Sigma Ball_def
        split_paired_All mem_Sigma_iff prod.case prod.inject) blast
qed

lemma distinct_peers [simp]:
  "distinct (core_peers cfg c)" "distinct (agg_core_peers cfg a)" "distinct (agg_edge_peers cfg a)" "distinct (edge_agg_peers cfg e)"
  by (simp_all add: core_peers_def agg_core_peers_def agg_edge_peers_def edge_agg_peers_def
      distinct_sorted_neighbors distinct_core_agg_links distinct_agg_edge_links)

lemma set_peers:
  "set (core_peers cfg c) = {a. (c, a) \<in> set (core_agg_links cfg)}"
  "set (agg_core_peers cfg a) = {c. (c, a) \<in> set (core_agg_links cfg)}"
  "set (agg_edge_peers cfg a) = {e. (a, e) \<in> set (agg_edge_links cfg)}"
  "set (edge_agg_peers cfg e) = {a. (a, e) \<in> set (agg_edge_links cfg)}"
  by (simp_all add: core_peers_def agg_core_peers_def agg_edge_peers_def edge_agg_peers_def set_sorted_neighbors)

text \<open>A core switch reaches one aggregation switch in every pod, an aggregation switch half as many
  cores and as many edges, and an edge switch every aggregation switch of its pod.\<close>

lemma length_core_peers:
  assumes "ft_shape cfg" and "c \<in> {1..num_core cfg}"
  shows "int (length (core_peers cfg c)) = ft_k cfg"
proof -
  obtain la co where c: "la \<in> {1..half cfg}" "co \<in> {1..half cfg}" "c = grid (half cfg) la co"
    using assms grid_cases [of c "half cfg" "half cfg"] by (auto simp: num_core_def ft_shape_def)
  have "set (core_peers cfg c) = (\<lambda>pod. grid (half cfg) pod la) ` {1..ft_k cfg}"
    unfolding set_peers mem_core_agg_links prod.inject c(3) using c(1,2)
    by (auto simp: grid_eq simp del: atLeastAtMost_iff)
  then have "card (set (core_peers cfg c)) = nat (ft_k cfg)"
    using assms(1) card_grid_row [of "half cfg" la "ft_k cfg"] by (simp add: ft_shape_def)
  then show ?thesis using assms(1) by (simp add: distinct_card ft_shape_def)
qed

lemma length_agg_core_peers:
  assumes "ft_shape cfg" and "a \<in> {1..num_total_agg cfg}"
  shows "int (length (agg_core_peers cfg a)) = half cfg"
proof -
  obtain pod la where a: "pod \<in> {1..ft_k cfg}" "la \<in> {1..half cfg}" "a = grid (half cfg) pod la"
    using assms grid_cases [of a "ft_k cfg" "half cfg"] by (auto simp: num_total_agg_def ft_shape_def)
  have "set (agg_core_peers cfg a) = grid (half cfg) la ` {1..half cfg}"
    unfolding set_peers mem_core_agg_links prod.inject a(3) using a(1,2)
    by (auto simp: grid_eq simp del: atLeastAtMost_iff)
  then have "card (set (agg_core_peers cfg a)) = nat (half cfg)" by (simp only: card_grid_col)
  then show ?thesis using assms(1) by (simp add: distinct_card ft_shape_def)
qed

lemma length_agg_edge_peers:
  assumes "ft_shape cfg" and "a \<in> {1..num_total_agg cfg}"
  shows "int (length (agg_edge_peers cfg a)) = half cfg"
proof -
  obtain pod la where a: "pod \<in> {1..ft_k cfg}" "la \<in> {1..half cfg}" "a = grid (half cfg) pod la"
    using assms grid_cases [of a "ft_k cfg" "half cfg"] by (auto simp: num_total_agg_def ft_shape_def)
  have "set (agg_edge_peers cfg a) = grid (half cfg) pod ` {1..half cfg}"
    unfolding set_peers mem_agg_edge_links prod.inject a(3) using a(1,2)
    by (auto simp: grid_eq simp del: atLeastAtMost_iff)
  then have "card (set (agg_edge_peers cfg a)) = nat (half cfg)" by (simp only: card_grid_col)
  then show ?thesis using assms(1) by (simp add: distinct_card ft_shape_def)
qed

lemma length_edge_agg_peers:
  assumes "ft_shape cfg" and "e \<in> {1..num_total_edge cfg}"
  shows "int (length (edge_agg_peers cfg e)) = half cfg"
proof -
  obtain pod le where e: "pod \<in> {1..ft_k cfg}" "le \<in> {1..half cfg}" "e = grid (half cfg) pod le"
    using assms grid_cases [of e "ft_k cfg" "half cfg"] by (auto simp: num_total_edge_def ft_shape_def)
  have "set (edge_agg_peers cfg e) = grid (half cfg) pod ` {1..half cfg}"
    unfolding set_peers mem_agg_edge_links prod.inject e(3) using e(1,2)
    by (auto simp: grid_eq simp del: atLeastAtMost_iff)
  then have "card (set (edge_agg_peers cfg e)) = nat (half cfg)" by (simp only: card_grid_col)
  then show ?thesis using assms(1) by (simp add: distinct_card ft_shape_def)
qed

lemma core_agg_range: "(c, a) \<in> set (core_agg_links cfg) \<Longrightarrow> c \<in> {1..num_core cfg} \<and> a \<in> {1..num_total_agg cfg}"
  unfolding mem_core_agg_links num_core_def num_total_agg_def prod.inject using grid_range by blast

lemma agg_edge_range: "(a, e) \<in> set (agg_edge_links cfg) \<Longrightarrow> a \<in> {1..num_total_agg cfg} \<and> e \<in> {1..num_total_edge cfg}"
  unfolding mem_agg_edge_links num_total_edge_def num_total_agg_def prod.inject using grid_range by blast

subsection \<open>Link ends\<close>

lemma ft_ends [simp]:
  "end1 (core_agg_link cfg (c, a)) = (core_name c, eth (port_of (core_peers cfg c) a))"
  "end2 (core_agg_link cfg (c, a)) = (agg_name a, eth (port_of (agg_core_peers cfg a) c))"
  "end1 (agg_edge_link cfg (a, e)) = (agg_name a, eth (half cfg + port_of (agg_edge_peers cfg a) e))"
  "end2 (agg_edge_link cfg (a, e)) = (edge_name e, eth (port_of (edge_agg_peers cfg e) a))"
  "end1 (edge_client_link cfg e p) = (edge_name e, eth (half cfg + p))"
  "end2 (edge_client_link cfg e p) = (client_name (ft_client_index cfg e p), ''eth1'')"
  by (simp_all add: end1_def end2_def core_agg_link_def agg_edge_link_def edge_client_link_def mk_link_def)

lemma ft_ports:
  assumes "ft_shape cfg"
  shows "(c, a) \<in> set (core_agg_links cfg) \<Longrightarrow> port_of (agg_core_peers cfg a) c \<le> half cfg"
    and "(a, e) \<in> set (agg_edge_links cfg) \<Longrightarrow> 1 \<le> port_of (agg_edge_peers cfg a) e"
    and "(a, e) \<in> set (agg_edge_links cfg) \<Longrightarrow> port_of (edge_agg_peers cfg e) a \<le> half cfg"
proof -
  assume l: "(c, a) \<in> set (core_agg_links cfg)"
  have "c \<in> set (agg_core_peers cfg a)" using l by (simp add: set_peers)
  then show "port_of (agg_core_peers cfg a) c \<le> half cfg"
    using port_of_bounds length_agg_core_peers [OF assms] core_agg_range [OF l] by fastforce
next
  assume "(a, e) \<in> set (agg_edge_links cfg)"
  then show "1 \<le> port_of (agg_edge_peers cfg a) e" using port_of_bounds by (simp add: set_peers)
next
  assume l: "(a, e) \<in> set (agg_edge_links cfg)"
  have "a \<in> set (edge_agg_peers cfg e)" using l by (simp add: set_peers)
  then show "port_of (edge_agg_peers cfg e) a \<le> half cfg"
    using port_of_bounds length_edge_agg_peers [OF assms] agg_edge_range [OF l] by fastforce
qed

lemma ft_client_index_inj:
  "1 \<le> p \<Longrightarrow> p \<le> per_edge cfg \<Longrightarrow> 1 \<le> p' \<Longrightarrow> p' \<le> per_edge cfg \<Longrightarrow>
   (ft_client_index cfg e p = ft_client_index cfg e' p') = (e = e' \<and> p = p')"
  unfolding ft_client_index_def by (auto dest: grid_inj)

lemma ft_ends_distinct:
  assumes "ft_shape cfg"
  shows "distinct (endpoint_keys (ft_links cfg))"
proof -
  have 1: "distinct (endpoint_keys (map (core_agg_link cfg) (sort (core_agg_links cfg))))"
    by (rule distinct_endpoint_keys) (auto simp: distinct_core_agg_links inj_on_def port_of_inj set_peers)
  have 2: "distinct (endpoint_keys (map (agg_edge_link cfg) (sort (agg_edge_links cfg))))"
    by (rule distinct_endpoint_keys) (auto simp: distinct_agg_edge_links inj_on_def port_of_inj set_peers)
  have 3: "distinct (endpoint_keys (map (\<lambda>(e, p). edge_client_link cfg e p) (List.product [1..num_total_edge cfg] [1..per_edge cfg])))"
    by (rule distinct_endpoint_keys) (auto simp: distinct_product inj_on_def ft_client_index_inj)
  show ?thesis
    using 1 2 3 ft_ports [OF assms]
    by (fastforce simp: ft_links_def concat_map_product set_endpoint_keys)
qed

lemma set_ft_ends:
  "set (endpoint_keys (ft_links cfg)) =
     {(core_name c, eth (port_of (core_peers cfg c) a)) |c a. (c, a) \<in> set (core_agg_links cfg)}
   \<union> {(agg_name a, eth (port_of (agg_core_peers cfg a) c)) |c a. (c, a) \<in> set (core_agg_links cfg)}
   \<union> {(agg_name a, eth (half cfg + port_of (agg_edge_peers cfg a) e)) |a e. (a, e) \<in> set (agg_edge_links cfg)}
   \<union> {(edge_name e, eth (port_of (edge_agg_peers cfg e) a)) |a e. (a, e) \<in> set (agg_edge_links cfg)}
   \<union> {(edge_name e, eth (half cfg + p)) |e p. e \<in> {1..num_total_edge cfg} \<and> p \<in> {1..per_edge cfg}}
   \<union> {(client_name (ft_client_index cfg e p), ''eth1'') |e p. e \<in> {1..num_total_edge cfg} \<and> p \<in> {1..per_edge cfg}}"
proof -
  have img: "(\<lambda>x. end1 (f x)) ` L = {end1 (f (x, y)) |x y. (x, y) \<in> L}" "(\<lambda>x. end2 (f x)) ` L = {end2 (f (x, y)) |x y. (x, y) \<in> L}"
    for f :: "int \<times> int \<Rightarrow> link" and L by force+
  have img2: "(\<lambda>x. f (fst x) (snd x)) ` (A \<times> B) = {f x y |x y. x \<in> A \<and> y \<in> B}" for f :: "int \<Rightarrow> int \<Rightarrow> endpoint_key" and A B
    by force
  have "set (ft_links cfg) = core_agg_link cfg ` set (core_agg_links cfg) \<union> agg_edge_link cfg ` set (agg_edge_links cfg)
      \<union> (\<lambda>k. edge_client_link cfg (fst k) (snd k)) ` ({1..num_total_edge cfg} \<times> {1..per_edge cfg})"
    by (simp add: ft_links_def concat_map_product case_prod_beta Un_assoc)
  then show ?thesis
    unfolding set_endpoint_keys
    by (simp only: image_Un image_image img ft_ends fst_conv snd_conv mem_Sigma_iff Un_ac
        img2 [of "\<lambda>e p. (edge_name e, eth (half cfg + p))"] img2 [of "\<lambda>e p. (client_name (ft_client_index cfg e p), ''eth1'')"])
qed

lemma core_degree:
  assumes "ft_shape cfg" and "c \<in> {1..num_core cfg}"
  shows "int (link_degree (ft_links cfg) (core_name c)) = ft_k cfg"
proof -
  have "{k \<in> set (endpoint_keys (ft_links cfg)). fst k = core_name c} = (\<lambda>a. (core_name c, eth (port_of (core_peers cfg c) a))) ` set (core_peers cfg c)"
    by (auto simp: set_ft_ends set_peers)
  moreover have "card ((\<lambda>a. (core_name c, eth (port_of (core_peers cfg c) a))) ` set (core_peers cfg c)) = length (core_peers cfg c)"
    by (subst card_image) (auto simp: inj_on_def port_of_inj distinct_card)
  ultimately show ?thesis
    using link_degree_card [OF ft_ends_distinct [OF assms(1)]] length_core_peers [OF assms] by simp
qed

lemma agg_degree:
  assumes "ft_shape cfg" and "a \<in> {1..num_total_agg cfg}"
  shows "int (link_degree (ft_links cfg) (agg_name a)) = ft_k cfg"
proof -
  let ?A = "(\<lambda>c. (agg_name a, eth (port_of (agg_core_peers cfg a) c))) ` set (agg_core_peers cfg a)"
  let ?B = "(\<lambda>e. (agg_name a, eth (half cfg + port_of (agg_edge_peers cfg a) e))) ` set (agg_edge_peers cfg a)"
  have "{k \<in> set (endpoint_keys (ft_links cfg)). fst k = agg_name a} = ?A \<union> ?B"
    by (auto simp: set_ft_ends set_peers)
  moreover have "?A \<inter> ?B = {}" using ft_ports(1,2) [OF assms(1)] by (fastforce simp: set_peers)
  moreover have "card ?A = length (agg_core_peers cfg a)" "card ?B = length (agg_edge_peers cfg a)"
    by (subst card_image; auto simp: inj_on_def port_of_inj distinct_card)+
  ultimately show ?thesis
    using link_degree_card [OF ft_ends_distinct [OF assms(1)]] length_agg_core_peers [OF assms] length_agg_edge_peers [OF assms] assms(1)
    by (simp add: card_Un_disjoint ft_shape_def)
qed

lemma edge_degree:
  assumes "ft_shape cfg" and "e \<in> {1..num_total_edge cfg}"
  shows "int (link_degree (ft_links cfg) (edge_name e)) = half cfg + per_edge cfg"
proof -
  let ?A = "(\<lambda>a. (edge_name e, eth (port_of (edge_agg_peers cfg e) a))) ` set (edge_agg_peers cfg e)"
  let ?B = "(\<lambda>p. (edge_name e, eth (half cfg + p))) ` {1..per_edge cfg}"
  have "{k \<in> set (endpoint_keys (ft_links cfg)). fst k = edge_name e} = ?A \<union> ?B"
    using assms(2) by (auto simp: set_ft_ends set_peers)
  moreover have "?A \<inter> ?B = {}" using ft_ports(3) [OF assms(1)] by (fastforce simp: set_peers)
  moreover have "card ?A = length (edge_agg_peers cfg e)" "card ?B = nat (per_edge cfg)"
    by (subst card_image; auto simp: inj_on_def port_of_inj distinct_card)+
  ultimately show ?thesis
    using link_degree_card [OF ft_ends_distinct [OF assms(1)]] length_edge_agg_peers [OF assms] assms(1)
    by (simp add: card_Un_disjoint ft_shape_def)
qed

subsection \<open>The builder in closed form\<close>

definition ft_core_of :: "fat_tree_config \<Rightarrow> management_addressing \<Rightarrow> int \<Rightarrow> device_plan" where
  "ft_core_of cfg ma c = mk_core cfg c (host_text ma (core_mgmt_offset + c))"

definition ft_agg_of :: "fat_tree_config \<Rightarrow> management_addressing \<Rightarrow> int \<Rightarrow> device_plan" where
  "ft_agg_of cfg ma a = mk_agg cfg a (host_text ma (agg_mgmt_offset cfg + a))"

definition ft_edge_of :: "fat_tree_config \<Rightarrow> management_addressing \<Rightarrow> int \<Rightarrow> device_plan" where
  "ft_edge_of cfg ma e = mk_edge cfg e (host_text ma (edge_mgmt_offset cfg + e))
     (show_network \<lparr>network_address = client_pool_base + e * 256, prefixlen = 24\<rparr>) (map (clos_access e) [1..per_edge cfg])"

definition ft_client_of :: "fat_tree_config \<Rightarrow> management_addressing \<Rightarrow> int \<Rightarrow> int \<Rightarrow> device_plan" where
  "ft_client_of cfg ma e p = mk_ft_client cfg e p (host_text ma (ft_client_mgmt_offset cfg + ft_client_index cfg e p))
     (show_ip (access_base e p + 1)) (show_ip (access_base e p + 2))"

definition ft_plans :: "fat_tree_config \<Rightarrow> management_addressing \<Rightarrow> device_plan list" where
  "ft_plans cfg ma = map (ft_core_of cfg ma) [1..num_core cfg] @ map (ft_agg_of cfg ma) [1..num_total_agg cfg]
     @ map (ft_edge_of cfg ma) [1..num_total_edge cfg]
     @ concat (map (\<lambda>e. map (ft_client_of cfg ma e) [1..per_edge cfg]) [1..num_total_edge cfg])"

lemma ft_client_index_range:
  "e \<in> {1..num_total_edge cfg} \<Longrightarrow> p \<in> {1..per_edge cfg} \<Longrightarrow> ft_client_index cfg e p \<in> {1..num_total_clients cfg}"
  using grid_range [of e "num_total_edge cfg" p "per_edge cfg"]
  by (simp add: ft_client_index_def grid_def num_total_clients_def per_edge_def)

lemma ft_offsets_mem:
  "c \<in> {1..num_core cfg} \<Longrightarrow> core_mgmt_offset + c \<in> set (ft_offsets cfg)"
  "a \<in> {1..num_total_agg cfg} \<Longrightarrow> agg_mgmt_offset cfg + a \<in> set (ft_offsets cfg)"
  "e \<in> {1..num_total_edge cfg} \<Longrightarrow> edge_mgmt_offset cfg + e \<in> set (ft_offsets cfg)"
  "e \<in> {1..num_total_edge cfg} \<Longrightarrow> p \<in> {1..per_edge cfg} \<Longrightarrow> ft_client_mgmt_offset cfg + ft_client_index cfg e p \<in> set (ft_offsets cfg)"
  using ft_client_index_range [of e cfg p] by (simp_all add: ft_offsets_def)

lemma ft_device_plans_eq:
  assumes ma: "create_addressing (ft_mgmt_subnet cfg) (ft_offsets cfg) = Inr ma"
    and ca: "mk_client_addressing (num_total_edge cfg) (per_edge cfg) = Inr ca"
  shows "ft_device_plans cfg ma ca = Inr (ft_plans cfg ma)"
proof -
  have ca': "ca = \<lparr>rack_count = num_total_edge cfg, clients_per_rack = per_edge cfg\<rparr>" "client_addressing_wf ca"
    using ca by (auto simp: mk_client_addressing_eq)
  note hosts = host_ip_allocated [OF ma]
  have acc: "access ca e p = Inr (clos_access e p)" if "e \<in> {1..num_total_edge cfg}" "p \<in> {1..per_edge cfg}" for e p
    using access_ok [OF ca'(2), of p e] that by (simp add: clos_access_def ca'(1))
  have cores: "rmapM (core_plan cfg ma) [1..num_core cfg] = Inr (map (ft_core_of cfg ma) [1..num_core cfg])"
    by (rule rmapM_pure) (simp add: core_plan_def ft_core_of_def hosts ft_offsets_mem)
  have aggs: "rmapM (agg_plan cfg ma) [1..num_total_agg cfg] = Inr (map (ft_agg_of cfg ma) [1..num_total_agg cfg])"
    by (rule rmapM_pure) (simp add: agg_plan_def ft_agg_of_def hosts ft_offsets_mem)
  have edge: "edge_plan cfg ma ca e = Inr (ft_edge_of cfg ma e)" if "e \<in> {1..num_total_edge cfg}" for e
  proof -
    have "rmapM (access ca e) [1..per_edge cfg] = Inr (map (clos_access e) [1..per_edge cfg])"
      by (rule rmapM_pure) (use that acc in simp)
    moreover have "rack_subnet ca e = Inr \<lparr>network_address = client_pool_base + e * 256, prefixlen = 24\<rparr>"
      using rack_subnet_ok [OF ca'(2), of e] that by (simp add: ca'(1))
    ultimately show ?thesis using that by (simp add: edge_plan_def ft_edge_of_def hosts ft_offsets_mem)
  qed
  then have edges: "rmapM (edge_plan cfg ma ca) [1..num_total_edge cfg] = Inr (map (ft_edge_of cfg ma) [1..num_total_edge cfg])"
    by (intro rmapM_pure) simp
  have client: "ft_client_plan cfg ma ca e p = Inr (ft_client_of cfg ma e p)"
    if "e \<in> {1..num_total_edge cfg}" "p \<in> {1..per_edge cfg}" for e p
    using acc [OF that] hosts [OF ft_offsets_mem(4) [OF that]]
    by (simp add: ft_client_plan_def ft_client_of_def clos_access_def)
  have "rmapM (\<lambda>e. rmapM (ft_client_plan cfg ma ca e) [1..per_edge cfg]) [1..num_total_edge cfg]
      = Inr (map (\<lambda>e. map (ft_client_of cfg ma e) [1..per_edge cfg]) [1..num_total_edge cfg])"
    by (intro rmapM_pure) (simp add: client)
  then show ?thesis by (simp add: ft_device_plans_def cores aggs edges ft_plans_def)
qed

subsection \<open>The manifest is well formed\<close>

lemma ft_core_device [simp]:
  "dev_name (plan_device (ft_core_of cfg ma c)) = core_name c" "role (plan_device (ft_core_of cfg ma c)) = CORE"
  "mgmt_ip (plan_device (ft_core_of cfg ma c)) = Some (host_text ma (core_mgmt_offset + c))"
  "data_ip (plan_device (ft_core_of cfg ma c)) = None"
  "router_id (plan_device (ft_core_of cfg ma c)) = Some (''10.0.1.'' @ show_int c)"
  "required_ports (ft_core_of cfg ma c) = ft_k cfg" "bgp_asn (ft_core_of cfg ma c) = Some (core_asn_start cfg + c - 1)"
  "bgp_router_id (ft_core_of cfg ma c) = Some (''10.0.1.'' @ show_int c)"
  by (simp_all add: ft_core_of_def mk_core_def mk_switch_def)

lemma ft_agg_device [simp]:
  "dev_name (plan_device (ft_agg_of cfg ma a)) = agg_name a" "role (plan_device (ft_agg_of cfg ma a)) = AGG"
  "mgmt_ip (plan_device (ft_agg_of cfg ma a)) = Some (host_text ma (agg_mgmt_offset cfg + a))"
  "data_ip (plan_device (ft_agg_of cfg ma a)) = None"
  "router_id (plan_device (ft_agg_of cfg ma a)) = Some (''10.0.2.'' @ show_int a)"
  "required_ports (ft_agg_of cfg ma a) = ft_k cfg" "bgp_asn (ft_agg_of cfg ma a) = Some (agg_asn_start cfg + a - 1)"
  "bgp_router_id (ft_agg_of cfg ma a) = Some (''10.0.2.'' @ show_int a)"
  by (simp_all add: ft_agg_of_def mk_agg_def mk_switch_def)

lemma ft_edge_device [simp]:
  "dev_name (plan_device (ft_edge_of cfg ma e)) = edge_name e" "role (plan_device (ft_edge_of cfg ma e)) = EDGE"
  "mgmt_ip (plan_device (ft_edge_of cfg ma e)) = Some (host_text ma (edge_mgmt_offset cfg + e))"
  "data_ip (plan_device (ft_edge_of cfg ma e)) = None"
  "router_id (plan_device (ft_edge_of cfg ma e)) = Some (''10.0.3.'' @ show_int e)"
  "required_ports (ft_edge_of cfg ma e) = half cfg + per_edge cfg" "bgp_asn (ft_edge_of cfg ma e) = Some (edge_asn_start cfg + e - 1)"
  "bgp_router_id (ft_edge_of cfg ma e) = Some (''10.0.3.'' @ show_int e)"
  by (simp_all add: ft_edge_of_def mk_edge_def mk_switch_def)

lemma ft_client_device [simp]:
  "dev_name (plan_device (ft_client_of cfg ma e p)) = client_name (ft_client_index cfg e p)"
  "role (plan_device (ft_client_of cfg ma e p)) = CLIENT"
  "mgmt_ip (plan_device (ft_client_of cfg ma e p)) = Some (host_text ma (ft_client_mgmt_offset cfg + ft_client_index cfg e p))"
  "data_ip (plan_device (ft_client_of cfg ma e p)) = Some (show_ip (access_base e p + 2))"
  "attached_switch (plan_device (ft_client_of cfg ma e p)) = Some (edge_name e)"
  "router_id (plan_device (ft_client_of cfg ma e p)) = None"
  by (simp_all add: ft_client_of_def mk_ft_client_def)

lemma ft_client_indices:
  "concat (map (\<lambda>e. map (\<lambda>p. f (ft_client_index cfg e p)) [1..per_edge cfg]) [1..num_total_edge cfg])
     = map f (concat (map (\<lambda>e. map (ft_client_index cfg e) [1..per_edge cfg]) [1..num_total_edge cfg]))"
  by (simp add: map_concat comp_def)

lemma distinct_client_indices: "distinct (concat (map (\<lambda>e. map (ft_client_index cfg e) [1..per_edge cfg]) [1..num_total_edge cfg]))"
  by (rule distinct_concat_map) (auto simp: distinct_map inj_on_def ft_client_index_inj)

lemma ft_names_distinct: "distinct (map dev_name (map plan_device (ft_plans cfg ma)))"
proof -
  have "map dev_name (map plan_device (ft_plans cfg ma)) = map core_name [1..num_core cfg] @ map agg_name [1..num_total_agg cfg]
     @ map edge_name [1..num_total_edge cfg]
     @ map client_name (concat (map (\<lambda>e. map (ft_client_index cfg e) [1..per_edge cfg]) [1..num_total_edge cfg]))"
    by (simp add: ft_plans_def map_concat comp_def)
  then show ?thesis
    using distinct_client_indices [of cfg] by (simp only: distinct_append distinct_map) (auto simp: inj_on_def)
qed

lemma ft_sizes_pos: "ft_shape cfg \<Longrightarrow> 1 \<le> num_core cfg \<and> 1 \<le> num_total_agg cfg \<and> 1 \<le> num_total_edge cfg"
  by (auto simp: ft_shape_def num_core_def num_total_agg_def num_total_edge_def intro!: mult_pos_pos simp: int_one_le_iff_zero_less)

lemma ft_mgmt_distinct:
  assumes sh: "ft_shape cfg" and ma: "create_addressing (ft_mgmt_subnet cfg) (ft_offsets cfg) = Inr ma"
  shows "distinct (somes (map mgmt_ip (map plan_device (ft_plans cfg ma))))"
proof -
  define js where "js = concat (map (\<lambda>e. map (ft_client_index cfg e) [1..per_edge cfg]) [1..num_total_edge cfg])"
  define offs where "offs = map (\<lambda>i. core_mgmt_offset + i) [1..num_core cfg] @ map (\<lambda>i. agg_mgmt_offset cfg + i) [1..num_total_agg cfg]
     @ map (\<lambda>i. edge_mgmt_offset cfg + i) [1..num_total_edge cfg] @ map (\<lambda>i. ft_client_mgmt_offset cfg + i) js"
  have eq: "somes (map mgmt_ip (map plan_device (ft_plans cfg ma))) = map (host_text ma) offs"
    by (simp add: offs_def js_def ft_plans_def map_concat comp_def somes_concat)
  have js: "distinct js" "\<And>j. j \<in> set js \<Longrightarrow> 1 \<le> j \<and> j \<le> num_total_clients cfg"
    using distinct_client_indices [of cfg] ft_client_index_range [of _ cfg] by (auto simp: js_def)
  have "distinct offs"
    using js ft_sizes_pos [OF sh]
    by (force simp: offs_def distinct_map inj_on_def agg_mgmt_offset_def edge_mgmt_offset_def ft_client_mgmt_offset_def)
  moreover have "set offs \<subseteq> set (ft_offsets cfg)" using js(2) by (auto simp: offs_def ft_offsets_def)
  ultimately show ?thesis unfolding eq by (rule host_texts_distinct [OF ma])
qed

lemma ft_data_distinct:
  assumes "client_addressing_wf \<lparr>rack_count = num_total_edge cfg, clients_per_rack = per_edge cfg\<rparr>"
  shows "distinct (somes (map data_ip (map plan_device (ft_plans cfg ma))))"
proof -
  let ?ks = "List.product [1..num_total_edge cfg] [1..per_edge cfg]"
  have eq: "somes (map data_ip (map plan_device (ft_plans cfg ma))) = map (\<lambda>k. show_ip (access_base (fst k) (snd k) + 2)) ?ks"
    by (simp add: ft_plans_def map_concat comp_def somes_concat concat_map_product case_prod_beta)
  have "distinct (map (\<lambda>k. show_ip (access_base (fst k) (snd k) + 2)) ?ks)"
  proof (rule clients.alloc_texts_distinct [where racks = "num_total_edge cfg" and clients_per_rack = "per_edge cfg"])
    fix k assume "k \<in> set ?ks"
    then have "client_alloc (num_total_edge cfg) (per_edge cfg) k = Inr (access_base (fst k) (snd k) + 2)"
      using assms by (auto simp: client_alloc_eq)
    then show "rbind (client_alloc (num_total_edge cfg) (per_edge cfg) k) (\<lambda>a. Inr (show_ip a))
        = Inr (show_ip (access_base (fst k) (snd k) + 2))" by simp
  qed (simp add: distinct_product)
  then show ?thesis by (simp only: eq)
qed

lemma somes_replicate_None: "somes (replicate n None) = []"
  by (induction n) auto

lemma ft_router_ids_distinct: "distinct (somes (map router_id (map plan_device (ft_plans cfg ma))))"
proof -
  have "somes (map router_id (map plan_device (ft_plans cfg ma))) = map (\<lambda>i. ''10.0.1.'' @ show_int i) [1..num_core cfg]
      @ map (\<lambda>i. ''10.0.2.'' @ show_int i) [1..num_total_agg cfg] @ map (\<lambda>i. ''10.0.3.'' @ show_int i) [1..num_total_edge cfg]"
    by (simp add: ft_plans_def map_concat comp_def somes_concat map_replicate_const somes_replicate_None)
  then show ?thesis by (auto simp: distinct_map inj_on_def)
qed

lemma set_ft_plans:
  "set (ft_plans cfg ma) = ft_core_of cfg ma ` {1..num_core cfg} \<union> ft_agg_of cfg ma ` {1..num_total_agg cfg}
     \<union> ft_edge_of cfg ma ` {1..num_total_edge cfg}
     \<union> {ft_client_of cfg ma e p |e p. e \<in> {1..num_total_edge cfg} \<and> p \<in> {1..per_edge cfg}}"
proof -
  have "set (concat (map (\<lambda>e. map (ft_client_of cfg ma e) [1..per_edge cfg]) [1..num_total_edge cfg]))
      = {ft_client_of cfg ma e p |e p. e \<in> {1..num_total_edge cfg} \<and> p \<in> {1..per_edge cfg}}"
    unfolding set_concat set_map image_image set_upto by blast
  then show ?thesis unfolding ft_plans_def set_append set_map set_upto by (simp only: Un_assoc)
qed

lemma ft_manifest_wf:
  assumes sh: "ft_shape cfg" and ma: "create_addressing (ft_mgmt_subnet cfg) (ft_offsets cfg) = Inr ma"
    and ca: "client_addressing_wf \<lparr>rack_count = num_total_edge cfg, clients_per_rack = per_edge cfg\<rparr>"
  shows "manifest_wf (ft_manifest cfg ma rs policy (ft_plans cfg ma))"
proof -
  let ?m = "ft_manifest cfg ma rs policy (ft_plans cfg ma)"
  have dev: "devices ?m = map plan_device (ft_plans cfg ma)" and lks: "links ?m = ft_links cfg"
    and pol: "ecmp_hash_policy_by_role (routing ?m) = [(CORE, 1), (AGG, 0), (EDGE, 1)]" by (simp_all add: ft_manifest_def)
  have sw: "set (switches ?m) = plan_device ` (ft_core_of cfg ma ` {1..num_core cfg} \<union> ft_agg_of cfg ma ` {1..num_total_agg cfg}
      \<union> ft_edge_of cfg ma ` {1..num_total_edge cfg})"
    by (auto simp: switches_def dev set_ft_plans)
  have roles: "role ` set (switches ?m) = {CORE, AGG, EDGE}"
    using ft_sizes_pos [OF sh] by (auto simp: sw image_Un image_image)
  have names: "dev_name ` set (devices ?m) = core_name ` {1..num_core cfg} \<union> agg_name ` {1..num_total_agg cfg}
      \<union> edge_name ` {1..num_total_edge cfg} \<union> {client_name (ft_client_index cfg e p) |e p. e \<in> {1..num_total_edge cfg} \<and> p \<in> {1..per_edge cfg}}"
  proof -
    have "(\<lambda>x. dev_name (plan_device x)) ` {ft_client_of cfg ma e p |e p. e \<in> {1..num_total_edge cfg} \<and> p \<in> {1..per_edge cfg}}
        = {client_name (ft_client_index cfg e p) |e p. e \<in> {1..num_total_edge cfg} \<and> p \<in> {1..per_edge cfg}}"
      unfolding image_Collect by (metis (no_types, opaque_lifting) ft_client_device(1))
    then show ?thesis unfolding dev set_map set_ft_plans image_Un image_image by simp
  qed
  have ends: "fst k \<in> dev_name ` set (devices ?m)" if "k \<in> set (endpoint_keys (ft_links cfg))" for k
    using that core_agg_range [of _ _ cfg] agg_edge_range [of _ _ cfg] unfolding names set_ft_ends
    by (elim UnE CollectE exE conjE) (simp_all, blast+)
  have links: "ep_device (fst (endpoints l)) \<in> dev_name ` set (devices ?m) \<and> ep_device (snd (endpoints l)) \<in> dev_name ` set (devices ?m)"
    if "l \<in> set (links ?m)" for l
    using that ends [of "end1 l"] ends [of "end2 l"] by (simp add: lks set_endpoint_keys) (simp add: end1_def end2_def)
  have cl: "\<exists>d \<in> set (switches ?m). attached_switch c = Some (dev_name d) \<and> dev_name d \<noteq> []" if "c \<in> set (clients ?m)" for c
    using that by (auto simp: sw clients_def devices_by_role_def dev set_ft_plans bex_Un)
  show ?thesis
    unfolding manifest_wf_def dev
    using ft_names_distinct ft_mgmt_distinct [OF sh ma] ft_data_distinct [OF ca] ft_router_ids_distinct links cl roles
    by (simp add: pol dev del: map_map)
qed

lemma ft_fabric_wf:
  assumes sh: "ft_shape cfg"
  shows "fabric_wf (ft_fabric cfg rs (ft_manifest cfg ma rs policy (ft_plans cfg ma)) (ft_plans cfg ma) pp)"
proof -
  have "is_client p \<or> 0 < required_ports p \<and> int (link_degree (ft_links cfg) (plan_name p)) = required_ports p
      \<and> bgp_asn p \<noteq> None \<and> bgp_router_id p \<noteq> None" if "p \<in> set (ft_plans cfg ma)" for p
    using that sh core_degree [OF sh] agg_degree [OF sh] edge_degree [OF sh] unfolding set_ft_plans
    by (auto simp: is_client_def plan_name_def ft_shape_def)
  then show ?thesis
    using ft_ends_distinct [OF sh] by (simp add: fabric_wf_def ft_fabric_def ft_manifest_def plan_name_def)
qed

text \<open>C2: a fat tree whose configuration, addressing and policy are accepted can only be rejected by the
  Pingmesh compiler: its manifest is well formed, and every core and aggregation switch has exactly
  \<open>k\<close> data links and every edge switch \<open>k/2\<close> uplinks and its clients.\<close>

theorem fat_tree_builder_correct:
  assumes "ft_post_init cfg = Inr cfg" and "ft_validate_config cfg = Inr ()" and "ft_addressing cfg = Inr (ma, rs)"
    and "ft_policy_of cfg = Inr policy"
  shows "let m = ft_manifest cfg ma rs policy (ft_plans cfg ma) in
     build_fat_tree_plan sha256 fp cfg = rbind (compile_pingmesh_plan sha256 fp m) (\<lambda>pp. Inr (ft_fabric cfg rs m (ft_plans cfg ma) pp))
   \<and> manifest_wf m
   \<and> list_all (\<lambda>i. int (link_degree (links m) (core_name i)) = ft_k cfg) [1..num_core cfg]
   \<and> list_all (\<lambda>i. int (link_degree (links m) (agg_name i)) = ft_k cfg) [1..num_total_agg cfg]
   \<and> list_all (\<lambda>i. int (link_degree (links m) (edge_name i)) = ft_k cfg div 2 + per_edge cfg) [1..num_total_edge cfg]"
proof -
  have sh: "ft_shape cfg" by (rule ft_post_init_shape [OF assms(1)])
  obtain ca where ca: "mk_client_addressing (num_total_edge cfg) (per_edge cfg) = Inr ca"
    using assms(2) by (auto simp: ft_validate_config_def rbind_eq_Inr)
  then have caw: "client_addressing_wf \<lparr>rack_count = num_total_edge cfg, clients_per_rack = per_edge cfg\<rparr>"
    by (auto simp: mk_client_addressing_eq)
  have ma: "create_addressing (ft_mgmt_subnet cfg) (ft_offsets cfg) = Inr ma"
    using assms(3) by (auto simp: ft_addressing_def rbind_eq_Inr)
  let ?m = "ft_manifest cfg ma rs policy (ft_plans cfg ma)"
  have wf: "manifest_wf ?m" by (rule ft_manifest_wf [OF sh ma caw])
  have post: "fabric_plan_post_init (ft_fabric cfg rs ?m (ft_plans cfg ma) pp) = Inr (ft_fabric cfg rs ?m (ft_plans cfg ma) pp)" for pp
    using ft_fabric_wf [OF sh] by (simp add: fabric_wf_accepts)
  have "build_fat_tree_plan sha256 fp cfg = rbind (compile_pingmesh_plan sha256 fp ?m) (\<lambda>pp. Inr (ft_fabric cfg rs ?m (ft_plans cfg ma) pp))"
    by (simp add: build_fat_tree_plan_def assms ca ft_device_plans_eq [OF ma ca] manifest_wf_validates [OF wf] post)
  moreover have "links ?m = ft_links cfg" by (simp add: ft_manifest_def)
  ultimately show ?thesis
    using wf core_degree [OF sh] agg_degree [OF sh] edge_degree [OF sh] by (simp add: Let_def list_all_iff half_def)
qed

definition ft_example :: fat_tree_config where
  "ft_example = \<lparr> ft_k = 2, ft_name = ''dcn'', ft_nos_kind = ''sonic-vs'', ft_nos_image = DEFAULT_SONIC_VS_IMAGE,
     ft_client_image = ''client'', ft_mgmt_subnet = ''172.20.20.0/24'', ft_mgmt_network = None, ft_collector_ip = None,
     ft_asn_base = 65001, ft_clients_per_edge = Some 1, ft_purpose = ''benchmark'', ft_scale_name = None,
     ft_policy = Some small_policy \<rparr>"

lemma ft_example_ok:
  "ft_post_init ft_example = Inr ft_example" "ft_validate_config ft_example = Inr ()" "is_ok (ft_addressing ft_example)"
  "ft_policy_of ft_example = Inr small_policy"
  by code_simp+

theorem fat_tree_builder_correct_witness:
  "\<exists>ma rs. manifest_wf (ft_manifest ft_example ma rs small_policy (ft_plans ft_example ma))"
proof -
  obtain ma rs where "ft_addressing ft_example = Inr (ma, rs)"
    using ft_example_ok(3) by (auto simp: is_ok_iff)
  then show ?thesis
    using fat_tree_builder_correct [OF ft_example_ok(1,2) _ ft_example_ok(4), of ma rs small_sha "\<lambda>_ _. ''id''"]
    by (intro exI [of _ ma] exI [of _ rs]) (simp add: Let_def)
qed

end
