(* ===== verification/Py_Values.thy ===== *)
theory Py_Values
  imports Addressing
begin

text \<open>
  Conversions of dynamically typed values that the fault catalogue, the incident payloads and the
  scorer share: \<open>int()\<close>, \<open>str()\<close> and \<open>repr()\<close> of a \<open>pyval\<close>, \<open>ipaddress.IPv4Address\<close> as a test, and
  \<open>dict.pop\<close>. The decimal text of a float is a parameter (\<open>frepr\<close>): only its use in messages matters.
  Shown: \<open>int()\<close> inverts \<open>str()\<close> on integers, and popping a key leaves the other bindings alone.
\<close>

subsection \<open>Integers from text\<close>

definition int_space :: "char \<Rightarrow> bool" where
  "int_space c = (let n = (of_char c :: nat) in (9 \<le> n \<and> n \<le> 13) \<or> n = 32 \<or> n = 133 \<or> n = 160)"

definition int_strip :: "string \<Rightarrow> string" where
  "int_strip s = rev (dropWhile int_space (rev (dropWhile int_space s)))"

definition parse_digits :: "string \<Rightarrow> nat option" where
  "parse_digits t = (let parts = split_on CHR ''_'' t in
     if list_all (\<lambda>p. p \<noteq> [] \<and> list_all is_digit p) parts then Some (nat_of_digits (concat parts)) else None)"

definition parse_int :: "string \<Rightarrow> int option" where
  "parse_int s = (case int_strip s of
       [] \<Rightarrow> None
     | c # t \<Rightarrow> if c = CHR ''-'' then map_option (\<lambda>n. - int n) (parse_digits t)
               else if c = CHR ''+'' then map_option int (parse_digits t)
               else map_option int (parse_digits (c # t)))"

definition trunc :: "rat \<Rightarrow> int" where
  "trunc r = (if r < 0 then - \<lfloor>- r\<rfloor> else \<lfloor>r\<rfloor>)"

definition int_of_val :: "pyval \<Rightarrow> int res" where
  "int_of_val v = (case v of
       PInt i \<Rightarrow> Inr i
     | PBool b \<Rightarrow> Inr (of_bool b)
     | PFloat r \<Rightarrow> Inr (trunc r)
     | PStr s \<Rightarrow> (case parse_int s of Some i \<Rightarrow> Inr i
                 | None \<Rightarrow> Inl (ValueError (''invalid literal for int() with base 10: '' @ py_repr s)))
     | _ \<Rightarrow> Inl (TypeError ''int() argument must be a string, a bytes-like object or a real number''))"

subsection \<open>Text of values\<close>

fun val_repr :: "(rat \<Rightarrow> string) \<Rightarrow> pyval \<Rightarrow> string" where
  "val_repr frepr PNone = ''None''"
| "val_repr frepr (PBool b) = (if b then ''True'' else ''False'')"
| "val_repr frepr (PInt i) = show_int i"
| "val_repr frepr (PFloat r) = frepr r"
| "val_repr frepr (PStr s) = py_repr s"
| "val_repr frepr (PList vs) = ''['' @ join '', '' (map (val_repr frepr) vs) @ '']''"
| "val_repr frepr (PDict d) = ''{'' @ join '', '' (map (\<lambda>(k, v). py_repr k @ '': '' @ val_repr frepr v) d) @ ''}''"

definition py_str :: "(rat \<Rightarrow> string) \<Rightarrow> pyval \<Rightarrow> string" where
  "py_str frepr v = (case v of PStr s \<Rightarrow> s | _ \<Rightarrow> val_repr frepr v)"

text \<open>\<open>str(v or "")\<close>.\<close>

definition str_or_empty :: "(rat \<Rightarrow> string) \<Rightarrow> pyval \<Rightarrow> string" where
  "str_or_empty frepr v = (if truthy v then py_str frepr v else [])"

text \<open>\<open>str\<close> of an exception: a \<open>KeyError\<close> shows its key as \<open>repr\<close>.\<close>

fun err_text :: "py_error \<Rightarrow> string" where
  "err_text (ValueError m) = m"
| "err_text (KeyError m) = py_repr m"
| "err_text (IndexError m) = m"
| "err_text (TypeError m) = m"
| "err_text (RuntimeError m) = m"
| "err_text (TimeoutError m) = m"
| "err_text (OperationCancelled m) = m"
| "err_text (AttributeError m) = m"
| "err_text Diverged = []"

text \<open>Whether \<open>ipaddress.IPv4Address(v)\<close> succeeds: a dotted text or an integer in range. The text of any
  other value has no four numeric octets.\<close>

definition ipv4_ok :: "pyval \<Rightarrow> bool" where
  "ipv4_ok v = (case v of PStr s \<Rightarrow> is_ok (parse_ip s) | PInt i \<Rightarrow> 0 \<le> i \<and> i < 2 ^ 32 | PBool b \<Rightarrow> True | _ \<Rightarrow> False)"

subsection \<open>Operations on values of any type\<close>

text \<open>\<open>v.get(k, dflt)\<close>: only a dict has that method.\<close>

definition as_dict :: "pyval \<Rightarrow> pydict res" where
  "as_dict v = (case v of PDict d \<Rightarrow> Inr d | _ \<Rightarrow> Inl (AttributeError ''get''))"

definition val_get :: "pyval \<Rightarrow> string \<Rightarrow> pyval \<Rightarrow> pyval res" where
  "val_get v k dflt = rbind (as_dict v) (\<lambda>d. Inr (dict_get d k dflt))"

text \<open>\<open>a or b\<close>.\<close>

definition val_or :: "pyval \<Rightarrow> pyval \<Rightarrow> pyval" where
  "val_or a b = (if truthy a then a else b)"

definition opt_val :: "string option \<Rightarrow> pyval" where
  "opt_val x = (case x of None \<Rightarrow> PNone | Some s \<Rightarrow> PStr s)"

text \<open>Iterating over a value: the characters of a text and the keys of a dict are texts.\<close>

definition iter_val :: "pyval \<Rightarrow> pyval list res" where
  "iter_val v = (case v of PList vs \<Rightarrow> Inr vs | PStr s \<Rightarrow> Inr (map (\<lambda>c. PStr [c]) s)
     | PDict d \<Rightarrow> Inr (map (PStr \<circ> fst) d) | _ \<Rightarrow> Inl (TypeError ''object is not iterable''))"

definition len_val :: "pyval \<Rightarrow> int res" where
  "len_val v = (case v of PList vs \<Rightarrow> Inr (int (length vs)) | PStr s \<Rightarrow> Inr (int (length s))
     | PDict d \<Rightarrow> Inr (int (length d)) | _ \<Rightarrow> Inl (TypeError ''object has no len()''))"

text \<open>A list or a dict cannot be a key of a dict.\<close>

definition hashable :: "pyval \<Rightarrow> bool" where
  "hashable v = (case v of PList _ \<Rightarrow> False | PDict _ \<Rightarrow> False | _ \<Rightarrow> True)"

definition dicts_of :: "pyval list \<Rightarrow> pydict list" where
  "dicts_of vs = concat (map (\<lambda>v. case v of PDict d \<Rightarrow> [d] | _ \<Rightarrow> []) vs)"

subsection \<open>Popping keys\<close>

definition dict_pop :: "'k \<Rightarrow> ('k, 'v) dict \<Rightarrow> 'v option \<times> ('k, 'v) dict" where
  "dict_pop k d = (map_of d k, AList.delete k d)"

lemma map_of_delete: "map_of (AList.delete k d) k' = (if k' = k then None else map_of d k')"
  by (simp add: AList.delete_conv)

lemma delete_absent: "k \<notin> fst ` set d \<Longrightarrow> AList.delete k d = d"
  by (induction d) (auto simp: AList.delete_eq)

lemma wf_dict_delete [simp]: "wf_dict d \<Longrightarrow> wf_dict (AList.delete k d)"
  by (simp add: wf_dict_def AList.distinct_delete)

subsection \<open>Reading back decimal text\<close>

lemma split_on_absent: "c \<notin> set s \<Longrightarrow> split_on c s = [s]"
  by (induction s) auto

lemma digit_not_space: "is_digit c \<Longrightarrow> \<not> int_space c"
  by (cases c) (auto simp: is_digit_def int_space_def less_eq_char_def)

lemma minus_not_space: "\<not> int_space CHR ''-''"
  by (simp add: int_space_def)

lemma int_strip_id: "(s \<noteq> [] \<Longrightarrow> \<not> int_space (hd s) \<and> \<not> int_space (last s)) \<Longrightarrow> int_strip s = s"
proof (cases "s = []")
  case False
  assume "s \<noteq> [] \<Longrightarrow> \<not> int_space (hd s) \<and> \<not> int_space (last s)"
  with False have "dropWhile int_space s = s" "dropWhile int_space (rev s) = rev s"
    by (simp_all add: dropWhile_eq_self_iff hd_rev)
  then show ?thesis by (simp add: int_strip_def)
qed (simp add: int_strip_def)

lemma parse_digits_show_nat: "parse_digits (show_nat n) = Some n"
proof -
  have "\<not> is_digit CHR ''_''" by (simp add: is_digit_def)
  then have "CHR ''_'' \<notin> set (show_nat n)" using show_nat_digits by metis
  then have "split_on CHR ''_'' (show_nat n) = [show_nat n]" by (rule split_on_absent)
  then show ?thesis by (simp add: parse_digits_def list_all_iff show_nat_digits)
qed

lemma parse_int_show_int: "parse_int (show_int i) = Some i"
proof -
  have nonspace: "\<not> int_space (hd (show_int i))" "\<not> int_space (last (show_int i))"
    using show_int_chars [of "hd (show_int i)" i] show_int_chars [of "last (show_int i)" i]
    using digit_not_space by (auto simp: minus_not_space)
  then have strip: "int_strip (show_int i) = show_int i" by (intro int_strip_id) simp
  show ?thesis
  proof (cases "i < 0")
    case True
    then show ?thesis using strip by (simp add: parse_int_def show_int_def parse_digits_show_nat)
  next
    case False
    then have s: "show_int i = show_nat (nat i)" by (simp add: show_int_def)
    obtain c t where ct: "show_nat (nat i) = c # t" by (cases "show_nat (nat i)") auto
    then have "is_digit c" using show_nat_digits [of c "nat i"] by simp
    then have "c \<noteq> CHR ''-''" "c \<noteq> CHR ''+''" by (auto simp: is_digit_def)
    moreover have "parse_digits (c # t) = Some (nat i)" using parse_digits_show_nat [of "nat i"] ct by simp
    ultimately show ?thesis using strip False ct by (simp add: parse_int_def s)
  qed
qed

subsection \<open>Stripped text\<close>

lemma dropWhile_snoc_id: "s \<noteq> [] \<Longrightarrow> \<not> P (last s) \<Longrightarrow> dropWhile P s \<noteq> [] \<and> last (dropWhile P s) = last s"
  by (induction s) (auto split: if_splits)

lemma py_strip_ends: "py_strip s = [] \<or> (\<not> is_space (hd (py_strip s)) \<and> \<not> is_space (last (py_strip s)))"
proof (cases "py_strip s = []")
  case False
  let ?t = "dropWhile is_space s"
  have t: "?t \<noteq> []" using False unfolding py_strip_def py_rstrip_def by fastforce
  then have hd_t: "\<not> is_space (hd ?t)" by (metis hd_dropWhile)
  have r: "dropWhile is_space (rev ?t) \<noteq> []" using False by (simp add: py_strip_def py_rstrip_def)
  then have "\<not> is_space (hd (dropWhile is_space (rev ?t)))" by (rule hd_dropWhile)
  moreover have "last (dropWhile is_space (rev ?t)) = hd ?t"
    using dropWhile_snoc_id [of "rev ?t" is_space] t hd_t by (simp add: last_rev)
  ultimately show ?thesis using r hd_t by (simp add: py_strip_def py_rstrip_def hd_rev last_rev)
qed simp

lemma py_strip_idem [simp]: "py_strip (py_strip s) = py_strip s"
  by (rule py_strip_id) (rule py_strip_ends)

subsection \<open>Comparing many strings\<close>

text \<open>Evaluating \<open>distinct\<close> on a long list of strings: strings are compared within runs of equal keys, and
  the keys of the runs among each other.\<close>

fun add_run :: "('a \<Rightarrow> 'k) \<Rightarrow> 'a \<Rightarrow> ('k \<times> 'a list) list \<Rightarrow> ('k \<times> 'a list) list" where
  "add_run key x [] = [(key x, [x])]"
| "add_run key x ((k, g) # rs) = (if key x = k then (k, x # g) # rs else (key x, [x]) # (k, g) # rs)"

definition runs :: "('a \<Rightarrow> 'k) \<Rightarrow> 'a list \<Rightarrow> ('k \<times> 'a list) list" where
  "runs key xs = foldr (add_run key) xs []"

definition runs_distinct :: "('k \<times> 'a list) list \<Rightarrow> bool" where
  "runs_distinct rs = (distinct (map fst rs) \<and> list_all (\<lambda>(k, g). distinct g) rs)"

lemma concat_add_run: "concat (map snd (add_run key x rs)) = x # concat (map snd rs)"
  by (cases "(key, x, rs)" rule: add_run.cases) auto

lemma keys_add_run:
  "list_all (\<lambda>(k, g). \<forall>y \<in> set g. key y = k) rs \<Longrightarrow> list_all (\<lambda>(k, g). \<forall>y \<in> set g. key y = k) (add_run key x rs)"
  by (cases "(key, x, rs)" rule: add_run.cases) auto

lemma runs_facts: "concat (map snd (runs key xs)) = xs" "list_all (\<lambda>(k, g). \<forall>y \<in> set g. key y = k) (runs key xs)"
  unfolding runs_def by (induction xs) (simp_all add: concat_add_run keys_add_run)

lemma distinct_by_runs:
  assumes "runs_distinct (runs key xs)"
  shows "distinct xs"
proof -
  let ?rs = "runs key xs"
  have "distinct (concat (map snd rs))"
    if "runs_distinct rs" "list_all (\<lambda>(k, g). \<forall>y \<in> set g. key y = k) rs" for rs
    using that by (induction rs) (auto simp: runs_distinct_def list_all_iff, force)
  from this [of ?rs] assms runs_facts [of key xs] show ?thesis by metis
qed

end
