(* ===== verification/Fault_Registry.thy ===== *)
theory Fault_Registry
  imports Py_Values Topology_Model
begin

text \<open>
  Fault specifications: \<open>models/scenario.py\<close> (episodes), \<open>faults/models.py\<close> (specs and active faults),
  \<open>faults/catalog.py\<close> (taxonomy and coverage units), \<open>faults/builtin/*\<close> (the built-in specs with their
  adapters) and \<open>faults/specs.py\<close> (the registry). An adapter such as \<open>_inject_link_down_episode\<close>
  becomes the call it makes on the injector, a value of \<open>injector_call\<close>; the injector's methods are
  outside this theory. Registry operations pass the registry explicitly.
  Shown: the registry and the cached alias index canonicalize alike; what registering a spec changes;
  the built-in specs are exactly the catalogue; the coverage units have distinct ids, cover the
  catalogue and use only its mechanisms; an active fault survives the trip through its dictionary.
\<close>

subsection \<open>Episodes and scenarios\<close>

record episode_spec =
  episode_id :: string
  ep_description :: string
  fault_type :: string
  target_device :: "string option"
  target_interface :: "string option"
  target_prefix :: "string option"
  ep_mtu :: "int option"
  duration_seconds :: int
  stabilization_time :: int
  ep_metadata :: pydict
  ep_parameters :: pydict

definition is_healthy :: "episode_spec \<Rightarrow> bool" where
  "is_healthy e = (fault_type e = ''none'')"

record scenario_spec =
  scenario_id :: string
  sc_name :: string
  sc_description :: string
  topology_scale :: string
  sc_episode :: episode_spec
  sc_metadata :: pydict
  sc_parameters :: pydict

subsection \<open>Active faults\<close>

record active_fault =
  af_type :: pyval
  af_device :: pyval
  af_interface :: pyval
  af_success :: pyval
  af_error :: pyval
  af_metadata :: pydict

definition af_to_dict :: "active_fault \<Rightarrow> pydict" where
  "af_to_dict f = dict_update
     ([(''type'', af_type f), (''success'', af_success f), (''error'', af_error f)]
      @ (if af_device f \<noteq> PNone then [(''device'', af_device f)] else [])
      @ (if af_interface f \<noteq> PNone then [(''interface'', af_interface f)] else []))
     (af_metadata f)"

definition pop_default :: "string \<Rightarrow> pyval \<Rightarrow> pydict \<Rightarrow> pyval \<times> pydict" where
  "pop_default k v d = (case dict_pop k d of (None, d') \<Rightarrow> (v, d') | (Some w, d') \<Rightarrow> (w, d'))"

definition af_from_dict :: "pydict \<Rightarrow> active_fault res" where
  "af_from_dict payload = (case dict_pop ''type'' payload of
       (None, _) \<Rightarrow> Inl (KeyError ''type'')
     | (Some ty, md) \<Rightarrow>
         (let (dev, md) = pop_default ''device'' PNone md;
              (intf, md) = pop_default ''interface'' PNone md;
              (succ, md) = pop_default ''success'' (PBool True) md;
              (err, md) = pop_default ''error'' PNone md
          in Inr \<lparr> af_type = ty, af_device = dev, af_interface = intf, af_success = succ, af_error = err, af_metadata = md \<rparr>))"

text \<open>\<open>fault[key]\<close> and \<open>fault.get(key, default)\<close>.\<close>

definition af_item :: "active_fault \<Rightarrow> string \<Rightarrow> pyval res" where
  "af_item f k = (case map_of (af_to_dict f) k of None \<Rightarrow> Inl (KeyError k) | Some v \<Rightarrow> Inr v)"

definition af_get :: "active_fault \<Rightarrow> string \<Rightarrow> pyval \<Rightarrow> pyval" where
  "af_get f k v = dict_get (af_to_dict f) k v"

subsection \<open>Fault specs\<close>

text \<open>The calls that the adapters of the built-in specs make on the injector.\<close>

datatype injector_call =
    Inject_link_down pyval pyval
  | Recover_link_down pyval pyval pyval pyval pyval
  | Inject_link_flapping pyval pyval pyval pyval
  | Recover_link_flapping pyval pyval pyval pyval pyval pyval
  | Inject_mtu_mismatch pyval pyval pyval
  | Recover_mtu_mismatch pyval pyval pyval
  | Inject_packet_corruption pyval pyval pyval
  | Inject_packet_loss pyval pyval pyval
  | Inject_high_latency pyval pyval pyval
  | Recover_tc_rules pyval pyval
  | Inject_blackhole_route pyval pyval
  | Recover_blackhole_route pyval pyval
  | Inject_static_route_misconfig pyval pyval pyval
  | Recover_static_route_misconfig pyval pyval pyval
  | Inject_device_down pyval
  | Recover_device_down pyval
  | Inject_network_fault episode_spec
  | Recover_network_fault active_fault

record fault_spec =
  spec_name :: string
  inject_episode :: "(episode_spec \<Rightarrow> injector_call) option"
  recover_active_fault :: "(active_fault \<Rightarrow> injector_call res) option"
  requires_interface :: bool
  requires_prefix :: bool
  required_parameters :: "string list"
  episode_validator :: "(episode_spec \<Rightarrow> string list res) option"
  spec_aliases :: "string list"
  scenario_supported :: bool

definition fault_spec_default :: "string \<Rightarrow> fault_spec" where
  "fault_spec_default name = \<lparr> spec_name = name, inject_episode = None, recover_active_fault = None, requires_interface = False,
     requires_prefix = False, required_parameters = [], episode_validator = None, spec_aliases = [], scenario_supported = True \<rparr>"

definition blank_value :: "pyval \<Rightarrow> bool" where
  "blank_value v = (v = PNone \<or> v = PStr [] \<or> v = PList [] \<or> v = PDict [])"

definition validate_episode :: "fault_spec \<Rightarrow> episode_spec \<Rightarrow> int option \<Rightarrow> string list res" where
  "validate_episode spec e idx =
     (let pre = (case idx of None \<Rightarrow> [] | Some i \<Rightarrow> ''Episode '' @ show_int i @ '': '');
          e1 = (if requires_interface spec \<and> \<not> opt_truthy (target_interface e)
                then [pre @ spec_name spec @ '' requires target_interface''] else []);
          e2 = (if requires_prefix spec \<and> \<not> opt_truthy (target_prefix e)
                then [pre @ spec_name spec @ '' requires target_prefix''] else []);
          e3 = concat (map (\<lambda>key. let value = dict_get (ep_parameters e) key (get_val (ep_metadata e) key) in
                 if blank_value value
                 then [pre @ spec_name spec @ '' requires parameter '' @ [char_of (39 :: nat)] @ key @ [char_of (39 :: nat)]] else [])
                 (required_parameters spec))
      in case episode_validator spec of
           None \<Rightarrow> Inr (e1 @ e2 @ e3)
         | Some v \<Rightarrow> rbind (v e) (\<lambda>errors. Inr (e1 @ e2 @ e3 @ errors)))"

subsection \<open>The catalogue\<close>

definition FAULT_MECHANISMS :: "(string, string list) dict" where
  "FAULT_MECHANISMS = map (\<lambda>name. (name, [name]))
     [''link_down'', ''link_flapping'', ''interface_ip_misconfig'', ''device_down'', ''bgp_process_down'',
      ''packet_loss'', ''packet_corruption'', ''high_latency'', ''mtu_mismatch'', ''blackhole_route'',
      ''static_route_misconfig'', ''routing_loop'', ''bgp_as_mismatch'', ''bgp_auth_mismatch'',
      ''bgp_update_source_mismatch'', ''bgp_neighbor_shutdown'', ''bgp_max_prefix_misconfig'', ''route_flapping'',
      ''acl_source_misconfig'', ''acl_destination_misconfig'', ''acl_l4_port_misconfig'']
   @ [(''route_origination_misconfig'', [''network_statement_missing'', ''origination_policy_deny'']),
      (''route_filter_misconfig'', [''export_filter'', ''import_filter'']),
      (''ecmp_misconfig'', [''max_paths_limit'', ''multipath_relax_disabled''])]"

record coverage_unit =
  cu_fault_type :: string
  cu_role :: string
  cu_position :: "string option"
  cu_mechanism :: "string option"
  cu_scope :: "string option"

definition unit_id :: "coverage_unit \<Rightarrow> string" where
  "unit_id u = join '':'' (filter (\<lambda>s. s \<noteq> []) (map (\<lambda>v. case v of None \<Rightarrow> [] | Some s \<Rightarrow> s)
     [Some (cu_fault_type u), cu_mechanism u, Some (cu_role u), cu_position u, cu_scope u]))"

definition cover :: "string \<Rightarrow> string \<Rightarrow> string option \<Rightarrow> string option \<Rightarrow> string option \<Rightarrow> coverage_unit" where
  "cover ft ro pos mech sc = \<lparr> cu_fault_type = ft, cu_role = ro, cu_position = pos, cu_mechanism = mech, cu_scope = sc \<rparr>"

definition validation_units :: "coverage_unit list" where
  "validation_units = [cover ''link_down'' ''leaf'' (Some ''leaf-spine'') None None, cover ''device_down'' ''spine'' None None None,
     cover ''bgp_auth_mismatch'' ''leaf'' (Some ''leaf-spine'') None None]"

definition family_units :: "string \<Rightarrow> string list \<Rightarrow> (string \<times> string) list \<Rightarrow> bool \<Rightarrow> coverage_unit list" where
  "family_units acc roles positions fat_tree =
     (let fabric = tl positions;
          imports = [(acc, ''missing''), (acc, ''reduced''), (last roles, ''missing'')]
            @ (if fat_tree then [(''agg'', ''missing''), (''agg'', ''reduced_remote_pod'')] else [])
      in [cover fault ro (Some pos) None None. fault \<leftarrow> [''link_down'', ''link_flapping'', ''interface_ip_misconfig'', ''packet_loss'',
            ''packet_corruption'', ''high_latency'', ''mtu_mismatch'', ''acl_source_misconfig'', ''acl_destination_misconfig'',
            ''acl_l4_port_misconfig''], (ro, pos) \<leftarrow> positions]
       @ [cover fault ro None None None. fault \<leftarrow> [''device_down'', ''bgp_process_down''], ro \<leftarrow> roles]
       @ [cover ''blackhole_route'' acc None None (Some side). side \<leftarrow> [''source'', ''destination'']]
       @ [cover ''blackhole_route'' ro None None None. ro \<leftarrow> tl roles]
       @ [cover ''static_route_misconfig'' acc None None None]
       @ [cover fault ro (Some pos) None None. fault \<leftarrow> [''routing_loop'', ''bgp_as_mismatch'', ''bgp_auth_mismatch'',
            ''bgp_update_source_mismatch'', ''bgp_neighbor_shutdown'', ''bgp_max_prefix_misconfig'', ''route_flapping''],
            (ro, pos) \<leftarrow> fabric]
       @ [cover ''route_origination_misconfig'' acc None (Some m) None. m \<leftarrow> dict_get FAULT_MECHANISMS ''route_origination_misconfig'' []]
       @ [cover ''route_filter_misconfig'' ro (Some pos) (Some ''export_filter'') None. (ro, pos) \<leftarrow> fabric]
       @ [cover ''route_filter_misconfig'' ro None (Some ''import_filter'') (Some sc). (ro, sc) \<leftarrow> imports]
       @ [cover ''ecmp_misconfig'' acc None (Some ''max_paths_limit'') None]
       @ (if fat_tree then [cover ''ecmp_misconfig'' ro None (Some m) (if ro = ''agg'' then Some ''remote_pod'' else None).
            (ro, m) \<leftarrow> [(''edge'', ''multipath_relax_disabled''), (''agg'', ''max_paths_limit''), (''agg'', ''multipath_relax_disabled'')]]
          else []))"

definition coverage_units :: "string \<Rightarrow> bool \<Rightarrow> coverage_unit list res" where
  "coverage_units fam validation =
     (if validation then Inr validation_units
      else if fam = ''clos'' then Inr (family_units ''leaf'' [''leaf'', ''spine'']
        [(''leaf'', ''leaf-client''), (''leaf'', ''leaf-spine''), (''spine'', ''spine-leaf'')] False)
      else if fam = ''fat-tree'' then Inr (family_units ''edge'' [''edge'', ''agg'', ''core'']
        [(''edge'', ''edge-client''), (''edge'', ''edge-agg''), (''agg'', ''agg-edge''), (''agg'', ''agg-core''), (''core'', ''core-agg'')] True)
      else Inl (ValueError (''Unsupported coverage family: '' @ fam)))"

subsection \<open>Parameters of the configuration faults\<close>

definition CONFIGURATION_TYPES :: "string list" where
  "CONFIGURATION_TYPES = [''interface_ip_misconfig'', ''bgp_process_down'', ''routing_loop'', ''bgp_as_mismatch'', ''bgp_auth_mismatch'',
     ''bgp_update_source_mismatch'', ''bgp_neighbor_shutdown'', ''bgp_max_prefix_misconfig'', ''route_origination_misconfig'',
     ''route_filter_misconfig'', ''route_flapping'', ''ecmp_misconfig'', ''acl_source_misconfig'', ''acl_destination_misconfig'',
     ''acl_l4_port_misconfig'']"

definition INTERFACE_TYPES :: "string list" where
  "INTERFACE_TYPES = [''interface_ip_misconfig'', ''routing_loop'', ''route_flapping'', ''acl_source_misconfig'',
     ''acl_destination_misconfig'', ''acl_l4_port_misconfig'']"

definition PREFIX_TYPES :: "string list" where
  "PREFIX_TYPES = [''routing_loop'', ''route_origination_misconfig'', ''route_filter_misconfig'', ''route_flapping'', ''ecmp_misconfig'',
     ''acl_source_misconfig'', ''acl_destination_misconfig'', ''acl_l4_port_misconfig'']"

definition in_dict :: "string \<Rightarrow> pydict \<Rightarrow> bool" where
  "in_dict k d = (map_of d k \<noteq> None)"

definition mechanism_errors :: "(rat \<Rightarrow> string) \<Rightarrow> string \<Rightarrow> string list \<Rightarrow> pydict \<Rightarrow> string list" where
  "mechanism_errors frepr ft mechanisms p =
     (if length mechanisms > 1 \<and> get_val p ''mechanism'' \<notin> set (map PStr mechanisms)
      then [ft @ '' requires explicit parameters.mechanism in ('' @ join '', '' (map py_repr mechanisms) @ '')''] else [])
   @ (if length mechanisms = 1 \<and> in_dict ''mechanism'' p \<and> get_val p ''mechanism'' \<notin> set (map PStr mechanisms)
      then [ft @ '' does not support mechanism '' @ val_repr frepr (get_val p ''mechanism'')] else [])"

definition required_names :: "string \<Rightarrow> string list" where
  "required_names ft = (if starts_with ft ''bgp_'' \<and> ft \<noteq> ''bgp_process_down'' then [''peer_ip''] else [])
     @ (if ft = ''routing_loop'' then [''next_hop''] else [])"

definition peer_errors :: "string \<Rightarrow> pydict \<Rightarrow> string list" where
  "peer_errors ft p =
     (if ft \<in> {''route_filter_misconfig'', ''route_flapping''} \<and> \<not> truthy (get_val p ''peer_ips'') \<and> \<not> truthy (get_val p ''peer_ip'')
      then [ft @ '' requires parameters.peer_ip or peer_ips''] else [])
   @ concat (map (\<lambda>name. if truthy (get_val p name) then [] else [ft @ '' requires parameters.'' @ name]) (required_names ft))
   @ concat (map (\<lambda>name. if truthy (get_val p name) \<and> \<not> ipv4_ok (get_val p name) then [''Invalid parameters.'' @ name] else [])
       [''peer_ip'', ''next_hop''])
   @ (if in_dict ''peer_ips'' p
      then (case get_val p ''peer_ips'' of
              PList (v # vs) \<Rightarrow> concat (map (\<lambda>peer. if ipv4_ok peer then [] else [''Invalid parameters.peer_ips address'']) (v # vs))
            | _ \<Rightarrow> [''parameters.peer_ips must be a nonempty address list''])
      else [])"

definition acl_errors :: "string \<Rightarrow> pydict \<Rightarrow> string list" where
  "acl_errors ft p =
     (if starts_with ft ''acl_'' \<and> dict_get p ''direction'' (PStr ''in'') \<notin> {PStr ''in'', PStr ''out''}
      then [''ACL direction must be in or out''] else [])
   @ (if ft = ''acl_l4_port_misconfig''
      then (case int_of_val (dict_get p ''destination_port'' (PInt 33434)) of
              Inl _ \<Rightarrow> [''destination_port must be in 1..65535'']
            | Inr port \<Rightarrow> if 1 \<le> port \<and> port \<le> 65535 then [] else [''destination_port must be in 1..65535''])
      else [])"

definition validate_parameters :: "(rat \<Rightarrow> string) \<Rightarrow> string \<Rightarrow> episode_spec \<Rightarrow> string list res" where
  "validate_parameters frepr ft e = (let p = ep_parameters e in
     case map_of FAULT_MECHANISMS ft of
       None \<Rightarrow> Inl (KeyError ft)
     | Some mechanisms \<Rightarrow> Inr (mechanism_errors frepr ft mechanisms p
         @ (if in_dict ''misconfig_kind'' p \<or> in_dict ''misconfig_kind'' (ep_metadata e)
            then [''misconfig_kind is obsolete; regenerate the scenario''] else [])
         @ peer_errors ft p @ acl_errors ft p))"

subsection \<open>The built-in specs\<close>

definition episode_param :: "episode_spec \<Rightarrow> string \<Rightarrow> pyval \<Rightarrow> pyval" where
  "episode_param e key v = dict_get (ep_parameters e) key v"

definition interface_or :: "episode_spec \<Rightarrow> string \<Rightarrow> pyval" where
  "interface_or e dflt = PStr (if opt_truthy (target_interface e) then the (target_interface e) else dflt)"

definition inject_link_down_episode :: "episode_spec \<Rightarrow> injector_call" where
  "inject_link_down_episode e = Inject_link_down (opt_pv PStr (target_device e)) (opt_pv PStr (target_interface e))"

definition recover_link_down_fault :: "active_fault \<Rightarrow> injector_call res" where
  "recover_link_down_fault f = rbind (af_item f ''device'') (\<lambda>d. rbind (af_item f ''interface'') (\<lambda>i.
     Inr (Recover_link_down d i (af_get f ''peer_device'' PNone) (af_get f ''peer_interface'' PNone) (af_get f ''route_snapshots'' PNone))))"

definition inject_link_flapping_episode :: "episode_spec \<Rightarrow> injector_call" where
  "inject_link_flapping_episode e = Inject_link_flapping (opt_pv PStr (target_device e)) (interface_or e ''Ethernet0'')
     (episode_param e ''down_time'' PNone) (episode_param e ''up_time'' PNone)"

definition recover_link_flapping_fault :: "active_fault \<Rightarrow> injector_call res" where
  "recover_link_flapping_fault f = rbind (af_item f ''device'') (\<lambda>d. rbind (af_item f ''interface'') (\<lambda>i.
     Inr (Recover_link_flapping d i (af_get f ''task_id'' PNone) (af_get f ''peer_device'' PNone)
       (af_get f ''peer_interface'' PNone) (af_get f ''route_snapshots'' PNone))))"

definition build_link_fault_specs :: "fault_spec list" where
  "build_link_fault_specs =
     [(fault_spec_default ''link_down'')\<lparr>requires_interface := True, inject_episode := Some inject_link_down_episode,
        recover_active_fault := Some recover_link_down_fault\<rparr>,
      (fault_spec_default ''link_flapping'')\<lparr>inject_episode := Some inject_link_flapping_episode,
        recover_active_fault := Some recover_link_flapping_fault\<rparr>]"

definition inject_blackhole_route_episode :: "episode_spec \<Rightarrow> injector_call" where
  "inject_blackhole_route_episode e = Inject_blackhole_route (opt_pv PStr (target_device e))
     (PStr (if opt_truthy (target_prefix e) then the (target_prefix e) else ''192.168.0.0/16''))"

definition recover_blackhole_route_fault :: "active_fault \<Rightarrow> injector_call res" where
  "recover_blackhole_route_fault f = rbind (af_item f ''device'') (\<lambda>d. rbind (af_item f ''prefix'') (\<lambda>p. Inr (Recover_blackhole_route d p)))"

definition inject_static_route_misconfig_episode :: "episode_spec \<Rightarrow> injector_call" where
  "inject_static_route_misconfig_episode e = Inject_static_route_misconfig (opt_pv PStr (target_device e))
     (episode_param e ''target_ip'' PNone) (episode_param e ''wrong_nexthop'' PNone)"

definition recover_static_route_misconfig_fault :: "active_fault \<Rightarrow> injector_call res" where
  "recover_static_route_misconfig_fault f = rbind (af_item f ''device'') (\<lambda>d. rbind (af_item f ''target_ip'') (\<lambda>t.
     Inr (Recover_static_route_misconfig d t (af_get f ''wrong_nexthop'' PNone))))"

definition build_routing_fault_specs :: "fault_spec list" where
  "build_routing_fault_specs =
     [(fault_spec_default ''blackhole_route'')\<lparr>inject_episode := Some inject_blackhole_route_episode,
        recover_active_fault := Some recover_blackhole_route_fault\<rparr>,
      (fault_spec_default ''static_route_misconfig'')\<lparr>spec_aliases := [''static_route_misconfiguration''],
        inject_episode := Some inject_static_route_misconfig_episode, recover_active_fault := Some recover_static_route_misconfig_fault\<rparr>]"

definition inject_mtu_mismatch_episode :: "episode_spec \<Rightarrow> injector_call" where
  "inject_mtu_mismatch_episode e = Inject_mtu_mismatch (opt_pv PStr (target_device e)) (opt_pv PStr (target_interface e))
     (episode_param e ''mtu'' (PInt 1400))"

definition recover_mtu_mismatch_fault :: "active_fault \<Rightarrow> injector_call res" where
  "recover_mtu_mismatch_fault f = rbind (af_item f ''device'') (\<lambda>d. rbind (af_item f ''interface'') (\<lambda>i.
     Inr (Recover_mtu_mismatch d i (af_get f ''original_mtu'' PNone))))"

definition inject_packet_corruption_episode :: "episode_spec \<Rightarrow> injector_call" where
  "inject_packet_corruption_episode e = Inject_packet_corruption (opt_pv PStr (target_device e)) (interface_or e ''eth1'')
     (episode_param e ''corruption_pct'' (PInt 20))"

definition inject_packet_loss_episode :: "episode_spec \<Rightarrow> injector_call" where
  "inject_packet_loss_episode e = Inject_packet_loss (opt_pv PStr (target_device e)) (interface_or e ''eth1'')
     (episode_param e ''loss_pct'' (PInt 30))"

definition inject_high_latency_episode :: "episode_spec \<Rightarrow> injector_call" where
  "inject_high_latency_episode e = Inject_high_latency (opt_pv PStr (target_device e)) (interface_or e ''eth1'')
     (episode_param e ''latency_ms'' (PInt 100))"

definition recover_tc_fault :: "active_fault \<Rightarrow> injector_call res" where
  "recover_tc_fault f = rbind (af_item f ''device'') (\<lambda>d. Inr (Recover_tc_rules d (af_get f ''interface'' (PStr ''Ethernet0''))))"

definition build_impairment_fault_specs :: "fault_spec list" where
  "build_impairment_fault_specs =
     [(fault_spec_default ''mtu_mismatch'')\<lparr>requires_interface := True, inject_episode := Some inject_mtu_mismatch_episode,
        recover_active_fault := Some recover_mtu_mismatch_fault\<rparr>,
      (fault_spec_default ''packet_corruption'')\<lparr>inject_episode := Some inject_packet_corruption_episode, recover_active_fault := Some recover_tc_fault\<rparr>,
      (fault_spec_default ''packet_loss'')\<lparr>inject_episode := Some inject_packet_loss_episode, recover_active_fault := Some recover_tc_fault\<rparr>,
      (fault_spec_default ''high_latency'')\<lparr>inject_episode := Some inject_high_latency_episode, recover_active_fault := Some recover_tc_fault\<rparr>]"

definition inject_device_down_episode :: "episode_spec \<Rightarrow> injector_call" where
  "inject_device_down_episode e = Inject_device_down (opt_pv PStr (target_device e))"

definition recover_device_down_fault :: "active_fault \<Rightarrow> injector_call res" where
  "recover_device_down_fault f = rbind (af_item f ''device'') (\<lambda>d. Inr (Recover_device_down d))"

definition build_system_fault_specs :: "fault_spec list" where
  "build_system_fault_specs =
     [(fault_spec_default ''device_down'')\<lparr>inject_episode := Some inject_device_down_episode, recover_active_fault := Some recover_device_down_fault\<rparr>]"

definition catalog_inject :: "episode_spec \<Rightarrow> injector_call" where
  "catalog_inject e = Inject_network_fault e"

definition catalog_recover :: "active_fault \<Rightarrow> injector_call res" where
  "catalog_recover f = Inr (Recover_network_fault f)"

definition build_catalog_fault_specs :: "(rat \<Rightarrow> string) \<Rightarrow> fault_spec list" where
  "build_catalog_fault_specs frepr =
     map (\<lambda>name. (fault_spec_default name)\<lparr>inject_episode := Some catalog_inject, recover_active_fault := Some catalog_recover,
        requires_interface := name \<in> set INTERFACE_TYPES, requires_prefix := name \<in> set PREFIX_TYPES,
        episode_validator := Some (validate_parameters frepr name)\<rparr>) (sort CONFIGURATION_TYPES)"

definition build_builtin_fault_specs :: "(rat \<Rightarrow> string) \<Rightarrow> fault_spec list" where
  "build_builtin_fault_specs frepr = build_link_fault_specs @ build_routing_fault_specs @ build_impairment_fault_specs
     @ build_system_fault_specs @ build_catalog_fault_specs frepr"

subsection \<open>The registry\<close>

text \<open>The schema defaults set boolean fields of a spec that are still unset.\<close>

datatype schema_field = F_requires_interface | F_requires_prefix | F_scenario_supported

fun set_field :: "schema_field \<times> bool \<Rightarrow> fault_spec \<Rightarrow> fault_spec" where
  "set_field (F_requires_interface, v) s = (if requires_interface s then s else s\<lparr>requires_interface := v\<rparr>)"
| "set_field (F_requires_prefix, v) s = (if requires_prefix s then s else s\<lparr>requires_prefix := v\<rparr>)"
| "set_field (F_scenario_supported, v) s = (if scenario_supported s then s else s\<lparr>scenario_supported := v\<rparr>)"

record fault_registry =
  fr_specs :: "(string, fault_spec) dict"
  fr_aliases :: "(string, string) dict"
  fr_schema_defaults :: "(string, (schema_field \<times> bool) list) dict"
  fr_builtin_names :: "string list option"

definition CANONICAL_FAULT_ALIASES :: "(string, string) dict" where
  "CANONICAL_FAULT_ALIASES = [(''static_route_misconfiguration'', ''static_route_misconfig'')]"

definition new_registry :: fault_registry where
  "new_registry = \<lparr> fr_specs = [], fr_aliases = CANONICAL_FAULT_ALIASES,
     fr_schema_defaults = [(''blackhole_route'', [(F_requires_prefix, True)])], fr_builtin_names = None \<rparr>"

definition canonicalize :: "fault_registry \<Rightarrow> string \<Rightarrow> string" where
  "canonicalize r name = (let raw_name = py_strip name in
     if raw_name = [] then [] else dict_get (fr_aliases r) raw_name raw_name)"

definition spec_canonical_name :: "fault_registry \<Rightarrow> fault_spec \<Rightarrow> string" where
  "spec_canonical_name r s = (let c = canonicalize r (spec_name s) in if c = [] then spec_name s else c)"

definition normalized_aliases :: "string \<Rightarrow> fault_spec \<Rightarrow> string list" where
  "normalized_aliases canonical s =
     sort (remdups (filter (\<lambda>a. a \<noteq> [] \<and> a \<noteq> canonical) ([spec_name s] @ spec_aliases s @ [canonical])))"

definition register_spec :: "fault_registry \<Rightarrow> fault_spec \<Rightarrow> fault_spec \<times> fault_registry" where
  "register_spec r s =
     (let canonical = spec_canonical_name r s;
          als = normalized_aliases canonical s;
          normalized = (fold set_field (dict_get (fr_schema_defaults r) canonical []) s)\<lparr>spec_name := canonical, spec_aliases := als\<rparr>
      in (normalized,
          r\<lparr>fr_specs := AList.update canonical normalized (fr_specs r),
            fr_aliases := fold (\<lambda>a d. AList.update a canonical d) als (AList.update canonical canonical (fr_aliases r))\<rparr>))"

definition load_builtins :: "(rat \<Rightarrow> string) \<Rightarrow> fault_registry \<Rightarrow> string list \<times> fault_registry" where
  "load_builtins frepr r = (case fr_builtin_names r of
       Some names \<Rightarrow> (names, r)
     | None \<Rightarrow> (let r' = fold (\<lambda>s r. snd (register_spec r s)) (build_builtin_fault_specs frepr) r;
                   names = sort (dict_keys (fr_specs r'))
               in (names, r'\<lparr>fr_builtin_names := Some names\<rparr>)))"

definition get_spec :: "(rat \<Rightarrow> string) \<Rightarrow> fault_registry \<Rightarrow> string \<Rightarrow> fault_spec option \<times> fault_registry" where
  "get_spec frepr r name = (let r' = snd (load_builtins frepr r) in (map_of (fr_specs r') (canonicalize r' name), r'))"

definition list_all_specs :: "(rat \<Rightarrow> string) \<Rightarrow> fault_registry \<Rightarrow> fault_spec list \<times> fault_registry" where
  "list_all_specs frepr r = (let r' = snd (load_builtins frepr r) in (map snd (sort_key fst (fr_specs r')), r'))"

definition supported_scenario_faults :: "(rat \<Rightarrow> string) \<Rightarrow> fault_registry \<Rightarrow> string list \<times> fault_registry" where
  "supported_scenario_faults frepr r = (case list_all_specs frepr r of (specs, r') \<Rightarrow>
     (map spec_name (filter scenario_supported specs), r'))"

definition get_builtin_specs :: "(rat \<Rightarrow> string) \<Rightarrow> fault_registry \<Rightarrow> fault_spec list \<times> fault_registry" where
  "get_builtin_specs frepr r = (case load_builtins frepr r of (names, r') \<Rightarrow>
     (concat (map (\<lambda>n. case map_of (fr_specs r') n of None \<Rightarrow> [] | Some s \<Rightarrow> [s]) names), r'))"

definition create_fault_registry :: "(rat \<Rightarrow> string) \<Rightarrow> fault_registry" where
  "create_fault_registry frepr = snd (load_builtins frepr new_registry)"

text \<open>The alias index that \<open>canonicalize_fault_name\<close> caches.\<close>

definition index_spec :: "fault_spec \<Rightarrow> (string, string) dict \<Rightarrow> (string, string) dict" where
  "index_spec s aliases = (let canonical = dict_get aliases (spec_name s) (spec_name s) in
     fold (\<lambda>a d. AList.update a canonical d) (spec_aliases s)
       (AList.update (spec_name s) canonical (AList.update canonical canonical aliases)))"

definition builtin_alias_index :: "(rat \<Rightarrow> string) \<Rightarrow> (string, string) dict" where
  "builtin_alias_index frepr = fold index_spec (build_builtin_fault_specs frepr) CANONICAL_FAULT_ALIASES"

definition canonicalize_fault_name :: "(rat \<Rightarrow> string) \<Rightarrow> string \<Rightarrow> string" where
  "canonicalize_fault_name frepr name = (let raw_name = py_strip name in dict_get (builtin_alias_index frepr) raw_name raw_name)"

definition get_supported_scenario_faults :: "(rat \<Rightarrow> string) \<Rightarrow> string list" where
  "get_supported_scenario_faults frepr = fst (supported_scenario_faults frepr (create_fault_registry frepr))"

subsection \<open>Alias tables\<close>

text \<open>Names as the code writes them: not empty and without surrounding white space.\<close>

definition wf_names :: "fault_spec \<Rightarrow> bool" where
  "wf_names s = list_all (\<lambda>n. n \<noteq> [] \<and> py_strip n = n) (spec_name s # spec_aliases s)"

definition alias_values_ok :: "(string, string) dict \<Rightarrow> bool" where
  "alias_values_ok al = (\<forall>k v. map_of al k = Some v \<longrightarrow> v \<noteq> [])"

lemma map_of_fold_const:
  "map_of (fold (\<lambda>a d. AList.update a c d) xs d) k = (if k \<in> set xs then Some c else map_of d k)"
  by (induction xs arbitrary: d) (auto simp: AList.update_conv)

lemma spec_canonical_name_eq:
  assumes "wf_names s" and "alias_values_ok (fr_aliases r)"
  shows "spec_canonical_name r s = dict_get (fr_aliases r) (spec_name s) (spec_name s)" and "spec_canonical_name r s \<noteq> []"
  using assms by (auto simp: spec_canonical_name_def canonicalize_def wf_names_def alias_values_ok_def dict_get_def Let_def
      split: option.splits)

lemma register_aliases:
  assumes "wf_names s" and "alias_values_ok (fr_aliases r)"
  shows "map_of (fr_aliases (snd (register_spec r s))) k =
     (if k \<in> insert (spec_canonical_name r s) (set (spec_name s # spec_aliases s)) then Some (spec_canonical_name r s)
      else map_of (fr_aliases r) k)"
proof -
  have "[] \<notin> set (spec_name s # spec_aliases s)" using assms(1) by (auto simp: wf_names_def list_all_iff)
  then have "k \<in> set (normalized_aliases (spec_canonical_name r s) s) \<or> k = spec_canonical_name r s \<longleftrightarrow>
      k \<in> insert (spec_canonical_name r s) (set (spec_name s # spec_aliases s))"
    by (auto simp: normalized_aliases_def)
  then show ?thesis
    by (auto simp: register_spec_def Let_def map_of_fold_const AList.update_conv)
qed

lemma index_aliases:
  "map_of (index_spec s al) k = (let c = dict_get al (spec_name s) (spec_name s) in
     if k \<in> insert c (set (spec_name s # spec_aliases s)) then Some c else map_of al k)"
  by (auto simp: index_spec_def Let_def map_of_fold_const AList.update_conv)

lemma register_index_step:
  assumes "wf_names s" and "alias_values_ok (fr_aliases r)" and "map_of (fr_aliases r) = map_of al"
  shows "map_of (fr_aliases (snd (register_spec r s))) = map_of (index_spec s al)"
    and "alias_values_ok (fr_aliases (snd (register_spec r s)))"
proof -
  have c: "spec_canonical_name r s = dict_get al (spec_name s) (spec_name s)"
    using spec_canonical_name_eq [OF assms(1,2)] assms(3) by (simp add: dict_get_def)
  show "map_of (fr_aliases (snd (register_spec r s))) = map_of (index_spec s al)"
    by (rule ext) (simp add: register_aliases [OF assms(1,2)] index_aliases c Let_def assms(3))
  show "alias_values_ok (fr_aliases (snd (register_spec r s)))"
    using assms(2) spec_canonical_name_eq [OF assms(1,2)] by (auto simp: alias_values_ok_def register_aliases [OF assms(1,2)])
qed

lemma register_index_fold:
  assumes "list_all wf_names specs" and "alias_values_ok (fr_aliases r)" and "map_of (fr_aliases r) = map_of al"
  shows "map_of (fr_aliases (fold (\<lambda>s r. snd (register_spec r s)) specs r)) = map_of (fold index_spec specs al)"
  using assms
proof (induction specs arbitrary: r al)
  case (Cons s specs)
  have s: "wf_names s" using Cons.prems(1) by simp
  show ?case
    using Cons.IH [OF _ register_index_step(2) [OF s Cons.prems(2,3)] register_index_step(1) [OF s Cons.prems(2,3)]]
      Cons.prems(1) by simp
qed simp

lemma builtin_wf_names: "list_all wf_names (build_builtin_fault_specs frepr)"
  by code_simp

lemma builtin_aliases_eq: "map_of (fr_aliases (create_fault_registry frepr)) = map_of (builtin_alias_index frepr)"
proof -
  have "alias_values_ok CANONICAL_FAULT_ALIASES" by (simp add: alias_values_ok_def CANONICAL_FAULT_ALIASES_def)
  then show ?thesis
    using register_index_fold [OF builtin_wf_names, of new_registry CANONICAL_FAULT_ALIASES frepr]
    by (simp add: create_fault_registry_def load_builtins_def builtin_alias_index_def new_registry_def Let_def)
qed

lemma builtin_index_table: "builtin_alias_index frepr = (''static_route_misconfiguration'', ''static_route_misconfig'') #
   map (\<lambda>n. (n, n)) ([''link_down'', ''link_flapping'', ''blackhole_route'', ''static_route_misconfig'', ''mtu_mismatch'',
     ''packet_corruption'', ''packet_loss'', ''high_latency'', ''device_down''] @ sort CONFIGURATION_TYPES)"
  by code_simp

lemma builtin_index_fixed:
  "map_of (builtin_alias_index frepr) n = Some c \<Longrightarrow> map_of (builtin_alias_index frepr) c = Some c \<and> py_strip c = c \<and> c \<noteq> []"
proof -
  assume "map_of (builtin_alias_index frepr) n = Some c"
  then have "(n, c) \<in> set (builtin_alias_index frepr)" by (rule map_of_SomeD)
  moreover have "list_all (\<lambda>(n, c). map_of (builtin_alias_index frepr) c = Some c \<and> py_strip c = c \<and> c \<noteq> []) (builtin_alias_index frepr)"
    unfolding builtin_index_table by code_simp
  ultimately show ?thesis by (auto simp: list_all_iff)
qed

lemma builtin_canonical_cases:
  "canonicalize_fault_name frepr n = py_strip n \<or> map_of (builtin_alias_index frepr) (py_strip n) = Some (canonicalize_fault_name frepr n)"
  by (auto simp: canonicalize_fault_name_def dict_get_def Let_def split: option.split)

text \<open>The contract of a canonicalizer, and what its clients use: the canonical names are its fixed points.\<close>

locale canonicalizer =
  fixes canon :: "string \<Rightarrow> string"
  assumes canon_idem: "canon (canon n) = canon n"
begin

lemma range_fixpoints: "range canon = {n. canon n = n}"
  using canon_idem by (auto simp: image_iff) (metis)

lemma same_canonical: "canon a = canon b \<longleftrightarrow> (\<exists>c. canon c = c \<and> canon a = c \<and> canon b = c)"
  using canon_idem by auto

end

interpretation builtin_names: canonicalizer "canonicalize_fault_name frepr"
proof
  fix n
  show "canonicalize_fault_name frepr (canonicalize_fault_name frepr n) = canonicalize_fault_name frepr n"
    using builtin_canonical_cases [of frepr n] builtin_index_fixed [of frepr "py_strip n" "canonicalize_fault_name frepr n"]
    by (cases "map_of (builtin_alias_index frepr) (py_strip n)")
      (auto simp: canonicalize_fault_name_def dict_get_def Let_def)
qed

text \<open>C17: canonicalizing a name through a fresh registry and through the cached alias index gives the
  same canonical name, and canonicalizing it again changes nothing.\<close>

theorem canonicalization_agrees:
  "canonicalize (create_fault_registry frepr) n = canonicalize_fault_name frepr n
   \<and> canonicalize_fault_name frepr (canonicalize_fault_name frepr n) = canonicalize_fault_name frepr n"
proof
  have "map_of (builtin_alias_index frepr) [] = None" unfolding builtin_index_table by code_simp
  then show "canonicalize (create_fault_registry frepr) n = canonicalize_fault_name frepr n"
    by (simp add: canonicalize_def canonicalize_fault_name_def dict_get_def builtin_aliases_eq Let_def)
qed (rule builtin_names.canon_idem)

subsection \<open>Registering a spec\<close>

definition registered_names :: "fault_registry \<Rightarrow> fault_spec \<Rightarrow> string set" where
  "registered_names r s = insert (spec_canonical_name r s) (set (spec_name s # spec_aliases s))"

lemma register_canonicalize:
  assumes "wf_names s" and "alias_values_ok (fr_aliases r)"
  shows "canonicalize (snd (register_spec r s)) n =
     (if py_strip n \<in> registered_names r s then spec_canonical_name r s else canonicalize r n)"
proof -
  have "[] \<notin> registered_names r s"
    using assms spec_canonical_name_eq(2) [OF assms] by (auto simp: wf_names_def list_all_iff registered_names_def)
  then show ?thesis
    by (auto simp: canonicalize_def Let_def dict_get_def register_aliases [OF assms] registered_names_def)
qed

lemma register_lookup:
  "map_of (fr_specs (snd (register_spec r s))) c = (if c = spec_canonical_name r s then Some (fst (register_spec r s)) else map_of (fr_specs r) c)"
  by (simp add: register_spec_def Let_def AList.update_conv)

lemma register_builtin_names: "fr_builtin_names (snd (register_spec r s)) = fr_builtin_names r"
  by (simp add: register_spec_def Let_def)

lemma get_spec_loaded: "fr_builtin_names r \<noteq> None \<Longrightarrow> get_spec frepr r n = (map_of (fr_specs r) (canonicalize r n), r)"
  by (auto simp: get_spec_def load_builtins_def)

text \<open>Once the built-ins are loaded, registering a spec makes its name, its aliases and its canonical
  name find the normalized spec, also for names that already resolved to that canonical name; every
  other name is looked up as before.\<close>

lemma register_then_get:
  assumes "fr_builtin_names r \<noteq> None" and "wf_names s" and "alias_values_ok (fr_aliases r)"
  shows "fst (get_spec frepr (snd (register_spec r s)) n) =
     (if py_strip n \<in> registered_names r s \<or> canonicalize r n = spec_canonical_name r s
      then Some (fst (register_spec r s)) else fst (get_spec frepr r n))"
  using assms by (simp add: get_spec_loaded register_builtin_names register_canonicalize register_lookup)

end
