(* ===== verification/Fault_Recovery.thy ===== *)
theory Fault_Recovery
  imports Fault_Registry
begin

text \<open>
  The state of a fault injector and its recovery loop: \<open>faults/services/tracking.py\<close>, the recovery part of
  \<open>faults/injector.py\<close> and \<open>faults/scenario_execution.py\<close>. A computation of the injector is a function of
  its state that returns a value or an exception with the new state (\<open>'s io\<close>); the state \<open>'w injector\<close> holds
  the registry, the tracked faults and the outside world \<open>'w\<close>. What a method of the injector does is a
  parameter (\<open>run_call\<close>): it may change everything, the tracked faults included.
  Shown: after \<open>recover_all\<close> exactly the faults whose recovery was not reported remain tracked, in order,
  whatever the handlers do; an injection reports failures of the handler as a result and unknown faults
  as an error; an active fault survives the trip through its dictionary.
\<close>

subsection \<open>Stateful computations\<close>

type_synonym ('s, 'a) io = "'s \<Rightarrow> 'a res \<times> 's"

definition ireturn :: "'a \<Rightarrow> ('s, 'a) io" where
  "ireturn x = (\<lambda>s. (Inr x, s))"

definition ithrow :: "py_error \<Rightarrow> ('s, 'a) io" where
  "ithrow e = (\<lambda>s. (Inl e, s))"

definition ibind :: "('s, 'a) io \<Rightarrow> ('a \<Rightarrow> ('s, 'b) io) \<Rightarrow> ('s, 'b) io" where
  "ibind m f = (\<lambda>s. case m s of (Inl e, s') \<Rightarrow> (Inl e, s') | (Inr x, s') \<Rightarrow> f x s')"

definition itry :: "('s, 'a) io \<Rightarrow> (py_error \<Rightarrow> ('s, 'a) io) \<Rightarrow> ('s, 'a) io" where
  "itry m h = (\<lambda>s. case m s of (Inl e, s') \<Rightarrow> h e s' | (Inr x, s') \<Rightarrow> (Inr x, s'))"

definition ilift :: "'a res \<Rightarrow> ('s, 'a) io" where
  "ilift r = (\<lambda>s. (r, s))"

definition iget :: "('s \<Rightarrow> 'a) \<Rightarrow> ('s, 'a) io" where
  "iget f = (\<lambda>s. (Inr (f s), s))"

definition imodify :: "('s \<Rightarrow> 's) \<Rightarrow> ('s, unit) io" where
  "imodify f = (\<lambda>s. (Inr (), f s))"

fun imapM :: "('a \<Rightarrow> ('s, 'b) io) \<Rightarrow> 'a list \<Rightarrow> ('s, 'b list) io" where
  "imapM f [] = ireturn []"
| "imapM f (x # xs) = ibind (f x) (\<lambda>y. ibind (imapM f xs) (\<lambda>ys. ireturn (y # ys)))"

lemma io_simps [simp]:
  "ireturn x s = (Inr x, s)" "ithrow e s = (Inl e, s)" "ilift r s = (r, s)" "iget g s = (Inr (g s), s)" "imodify h s = (Inr (), h s)"
  by (simp_all add: ireturn_def ithrow_def ilift_def iget_def imodify_def)

lemma ibind_eq_Inr: "(ibind m f s = (Inr y, s')) = (\<exists>x s1. m s = (Inr x, s1) \<and> f x s1 = (Inr y, s'))"
  by (auto simp: ibind_def split: prod.splits sum.splits)

lemma ibind_run: "m s = (Inr x, s1) \<Longrightarrow> ibind m f s = f x s1"
  by (simp add: ibind_def)

subsection \<open>The tracker\<close>

record 'w injector =
  inj_world :: 'w
  inj_registry :: fault_registry
  active_faults :: "active_fault list"
  background_controls :: "(string, bool) dict"

text \<open>A background control is kept under its id, with whether its stop event has been set. \<open>track\<close> receives a dictionary; \<open>from_dict\<close> fails on one without a type.\<close>

definition track :: "pydict \<Rightarrow> ('w injector, active_fault) io" where
  "track info = ibind (ilift (af_from_dict info)) (\<lambda>f.
     ibind (imodify (\<lambda>s. s\<lparr>active_faults := active_faults s @ [f]\<rparr>)) (\<lambda>_. ireturn f))"

definition track_residual :: "pydict \<Rightarrow> string \<Rightarrow> ('w injector, active_fault) io" where
  "track_residual info err = track (dict_update info
     [(''success'', PBool False), (''error'', PStr err), (''residual_mutation'', PBool True)])"

fun rfilter_out :: "('a \<Rightarrow> bool res) \<Rightarrow> 'a list \<Rightarrow> 'a list res" where
  "rfilter_out p [] = Inr []"
| "rfilter_out p (x # xs) = rbind (p x) (\<lambda>b. rbind (rfilter_out p xs) (\<lambda>ys. Inr (if b then ys else x # ys)))"

definition remove_faults :: "(active_fault \<Rightarrow> bool res) \<Rightarrow> ('w injector, unit) io" where
  "remove_faults p = ibind (iget active_faults) (\<lambda>fs. ibind (ilift (rfilter_out p fs)) (\<lambda>kept.
     imodify (\<lambda>s. s\<lparr>active_faults := kept\<rparr>)))"

subsection \<open>Injection and recovery\<close>

fun is_runtime_error :: "py_error \<Rightarrow> bool" where
  "is_runtime_error (RuntimeError m) = True"
| "is_runtime_error (OperationCancelled m) = True"
| "is_runtime_error _ = False"

definition lookup_spec :: "(rat \<Rightarrow> string) \<Rightarrow> string \<Rightarrow> ('w injector, fault_spec option) io" where
  "lookup_spec frepr name = (\<lambda>s. case get_spec frepr (inj_registry s) name of (spec, r) \<Rightarrow> (Inr spec, s\<lparr>inj_registry := r\<rparr>))"

definition recover_one ::
  "(rat \<Rightarrow> string) \<Rightarrow> (injector_call \<Rightarrow> ('w injector, pydict) io) \<Rightarrow> active_fault \<Rightarrow> ('w injector, pydict) io" where
  "recover_one frepr run_call f =
     ibind (ilift (af_item f ''type'')) (\<lambda>ty.
     ibind (lookup_spec frepr (str_or_empty frepr ty)) (\<lambda>spec.
     case Option.bind spec recover_active_fault of
       None \<Rightarrow> ireturn [(''type'', ty), (''recovered'', PBool False), (''error'', PStr ''Unknown fault type'')]
     | Some recover \<Rightarrow> ibind (ilift (recover f)) run_call))"

definition recovered_ok :: "pydict \<Rightarrow> bool" where
  "recovered_ok result = truthy (dict_get result ''recovered'' (PBool False))"

definition recover_step ::
  "(rat \<Rightarrow> string) \<Rightarrow> (injector_call \<Rightarrow> ('w injector, pydict) io) \<Rightarrow> active_fault \<Rightarrow> ('w injector, pydict \<times> active_fault list) io" where
  "recover_step frepr run_call f = itry
     (ibind (recover_one frepr run_call f) (\<lambda>result. ireturn (result, if recovered_ok result then [] else [f])))
     (\<lambda>e. ireturn ([(''type'', af_get f ''type'' PNone), (''recovered'', PBool False), (''error'', PStr (err_text e))], [f]))"

definition recover_all ::
  "(rat \<Rightarrow> string) \<Rightarrow> (injector_call \<Rightarrow> ('w injector, pydict) io) \<Rightarrow> ('w injector, pydict list) io" where
  "recover_all frepr run_call =
     ibind (iget active_faults) (\<lambda>faults.
     ibind (imapM (recover_step frepr run_call) faults) (\<lambda>outcomes.
     ibind (imodify (\<lambda>s. s\<lparr>active_faults := concat (map snd outcomes)\<rparr>)) (\<lambda>_.
     ireturn (map fst outcomes))))"

definition inject_fault ::
  "(rat \<Rightarrow> string) \<Rightarrow> (injector_call \<Rightarrow> ('w injector, pydict) io) \<Rightarrow> episode_spec \<Rightarrow> ('w injector, pydict) io" where
  "inject_fault frepr run_call e =
     (if fault_type e = ''none''
      then ireturn [(''success'', PBool True), (''fault_type'', PStr ''none''), (''message'', PStr ''Baseline episode'')]
      else ibind (lookup_spec frepr (fault_type e)) (\<lambda>spec.
        case Option.bind spec inject_episode of
          None \<Rightarrow> ithrow (ValueError (''Unsupported fault type: '' @ fault_type e))
        | Some inject \<Rightarrow> itry (run_call (inject e)) (\<lambda>err.
            if is_runtime_error err
            then ireturn [(''success'', PBool False), (''fault_type'', PStr (fault_type e)), (''error'', PStr (err_text err))]
            else ithrow err)))"

subsection \<open>Dictionaries of active faults\<close>

definition reserved_keys :: "string list" where
  "reserved_keys = [''type'', ''device'', ''interface'', ''success'', ''error'']"

lemma dict_update_disjoint:
  assumes "distinct (map fst e)" and "set (map fst e) \<inter> set (map fst d) = {}"
  shows "dict_update d e = d @ e"
  using assms unfolding dict_update_def
proof (induction e arbitrary: d)
  case (Cons kv e)
  obtain k v where kv: "kv = (k, v)" by fastforce
  have "AList.update k v d = d @ [(k, v)]" using Cons.prems by (intro alist_update_fresh) (auto simp: kv)
  then show ?case using Cons.IH [of "d @ [(k, v)]"] Cons.prems by (auto simp: kv)
qed simp

text \<open>A fault whose metadata holds no field of the record, as every fault built by \<open>from_dict\<close>.\<close>

definition af_wf :: "active_fault \<Rightarrow> bool" where
  "af_wf f = (wf_dict (af_metadata f) \<and> set (dict_keys (af_metadata f)) \<inter> set reserved_keys = {})"

lemma delete_append: "AList.delete k (d @ e) = AList.delete k d @ AList.delete k e"
  by (simp add: AList.delete_eq)

lemma af_roundtrip:
  assumes "af_wf f"
  shows "af_from_dict (af_to_dict f) = Inr f"
proof -
  let ?md = "af_metadata f"
  have keys: "k \<in> set reserved_keys \<Longrightarrow> k \<notin> fst ` set ?md" for k
    using assms by (auto simp: af_wf_def dict_keys_def)
  have abs: "map_of ?md k = None" "AList.delete k ?md = ?md" if "k \<in> set reserved_keys" for k
    using keys [OF that] by (auto simp: map_of_eq_None_iff delete_absent)
  note r = abs [of "''type''"] abs [of "''device''"] abs [of "''interface''"] abs [of "''success''"] abs [of "''error''"]
  have d: "af_to_dict f = ([(''type'', af_type f), (''success'', af_success f), (''error'', af_error f)]
      @ (if af_device f \<noteq> PNone then [(''device'', af_device f)] else [])
      @ (if af_interface f \<noteq> PNone then [(''interface'', af_interface f)] else [])) @ ?md"
    unfolding af_to_dict_def
    by (rule dict_update_disjoint) (use assms keys in \<open>auto simp: af_wf_def wf_dict_def reserved_keys_def\<close>)
  show ?thesis
    unfolding d af_from_dict_def dict_pop_def pop_default_def
    using r by (cases "af_device f = PNone"; cases "af_interface f = PNone")
      (simp_all add: reserved_keys_def delete_append AList.delete_eq)
qed

lemma map_of_reserved_delete: "map_of (AList.delete a d) k = (if k = a then None else map_of d k)"
  by (simp add: AList.delete_conv)

lemma pop_default_eq: "pop_default k v d = (dict_get d k v, AList.delete k d)"
  by (simp add: pop_default_def dict_pop_def dict_get_def split: option.split)

lemma from_dict_fields:
  "af_from_dict d = (case map_of d ''type'' of None \<Rightarrow> Inl (KeyError ''type'')
     | Some ty \<Rightarrow> Inr \<lparr> af_type = ty, af_device = dict_get d ''device'' PNone, af_interface = dict_get d ''interface'' PNone,
         af_success = dict_get d ''success'' (PBool True), af_error = dict_get d ''error'' PNone,
         af_metadata = fold AList.delete reserved_keys d \<rparr>)"
  by (simp add: af_from_dict_def dict_pop_def pop_default_eq dict_get_def map_of_reserved_delete reserved_keys_def split: option.split)

lemma map_of_fold_delete: "map_of (fold AList.delete ks d) k = (if k \<in> set ks then None else map_of d k)"
  by (induction ks arbitrary: d) (auto simp: map_of_reserved_delete)

lemma wf_fold_delete: "wf_dict d \<Longrightarrow> wf_dict (fold AList.delete ks d)"
  by (induction ks arbitrary: d) auto

lemma from_dict_wf:
  assumes "wf_dict d" and "af_from_dict d = Inr f"
  shows "af_wf f"
proof -
  have "af_metadata f = fold AList.delete reserved_keys d"
    using assms(2) by (auto simp: from_dict_fields split: option.splits)
  then show ?thesis using assms(1) wf_fold_delete by (auto simp: af_wf_def al.keys_lookup map_of_fold_delete)
qed

text \<open>The dictionary of a fault, key by key, against the one that the fault was built from.\<close>

lemma to_dict_lookup:
  assumes "wf_dict d" and "af_from_dict d = Inr f"
  shows "map_of (af_to_dict f) k =
    (case map_of d k of
       None \<Rightarrow> (if k = ''success'' then Some (PBool True) else if k = ''error'' then Some PNone else None)
     | Some v \<Rightarrow> (if v = PNone \<and> (k = ''device'' \<or> k = ''interface'') then None else Some v))"
proof -
  have "wf_dict (af_metadata f)" using from_dict_wf [OF assms] by (simp add: af_wf_def)
  then have md: "map_of (rev (af_metadata f)) = map_of (af_metadata f)"
    by (subst map_of_inject_set) (simp_all add: wf_dict_def rev_map [symmetric])
  have fields: "map_of d ''type'' = Some (af_type f)" "af_device f = dict_get d ''device'' PNone"
      "af_interface f = dict_get d ''interface'' PNone" "af_success f = dict_get d ''success'' (PBool True)"
      "af_error f = dict_get d ''error'' PNone"
    using assms(2) by (auto simp: from_dict_fields split: option.splits)
  show ?thesis
  proof (cases "k \<in> set reserved_keys")
    case True
    then have "map_of (af_metadata f) k = None"
      using from_dict_wf [OF assms] al.keys_lookup [of k "af_metadata f"] by (auto simp: af_wf_def)
    moreover from True have "k = ''type'' \<or> k = ''device'' \<or> k = ''interface'' \<or> k = ''success'' \<or> k = ''error''"
      by (simp add: reserved_keys_def)
    ultimately show ?thesis unfolding af_to_dict_def map_of_dict_update md using fields
      by (elim disjE) (auto simp: dict_get_def split: option.splits)
  next
    case False
    then have "map_of (af_metadata f) k = map_of d k"
      using assms(2) by (auto simp: from_dict_fields map_of_fold_delete split: option.splits)
    then show ?thesis using False
      by (auto simp: af_to_dict_def map_of_dict_update md reserved_keys_def split: option.splits)
  qed
qed

text \<open>C19: a fault built from a dictionary is rebuilt from its own dictionary. That dictionary has, under every
  key, what the original one has, also where the value is \<open>None\<close>, with two differences: a device or an
  interface that is \<open>None\<close> is left out, and a success flag or an error that is absent is filled in with
  \<open>True\<close> and \<open>None\<close>.\<close>

theorem active_fault_roundtrip:
  assumes "wf_dict d" and "af_from_dict d = Inr f"
  shows "af_from_dict (af_to_dict f) = Inr f
    \<and> (\<forall>k. map_of (af_to_dict f) k =
        (case map_of d k of
           None \<Rightarrow> (if k = ''success'' then Some (PBool True) else if k = ''error'' then Some PNone else None)
         | Some v \<Rightarrow> (if v = PNone \<and> (k = ''device'' \<or> k = ''interface'') then None else Some v)))"
  using af_roundtrip [OF from_dict_wf [OF assms]] to_dict_lookup [OF assms] by blast

theorem active_fault_roundtrip_witness:
  "\<exists>f. af_from_dict [(''type'', PStr ''link_down''), (''device'', PNone), (''error'', PNone), (''container'', PNone)] = Inr f
     \<and> af_from_dict (af_to_dict f) = Inr f \<and> map_of (af_to_dict f) ''container'' = Some PNone
     \<and> map_of (af_to_dict f) ''device'' = None"
proof -
  let ?d = "[(''type'', PStr ''link_down''), (''device'', PNone), (''error'', PNone), (''container'', PNone)]"
  obtain f where f: "af_from_dict ?d = Inr f" by (simp add: from_dict_fields)
  have "wf_dict ?d" by (simp add: wf_dict_def)
  from active_fault_roundtrip [OF this f] f show ?thesis by auto
qed

subsection \<open>What recovery leaves tracked\<close>

lemma recover_step_total: "\<exists>r s'. recover_step frepr run_call f s = (Inr (r, if recovered_ok r then [] else [f]), s')"
proof -
  obtain o1 s1 where o: "recover_one frepr run_call f s = (o1, s1)" by fastforce
  show ?thesis
  proof (cases o1)
    case (Inl e)
    let ?r = "[(''type'', af_get f ''type'' PNone), (''recovered'', PBool False), (''error'', PStr (err_text e))]"
    have "\<not> recovered_ok ?r" by (simp add: recovered_ok_def dict_get_def)
    then show ?thesis using o Inl by (intro exI [of _ ?r]) (simp add: recover_step_def itry_def ibind_def)
  qed (use o in \<open>simp add: recover_step_def itry_def ibind_def\<close>)
qed

lemma imapM_recover:
  "\<exists>rs s'. imapM (recover_step frepr run_call) fs s = (Inr rs, s') \<and> length rs = length fs
     \<and> concat (map snd rs) = map fst (filter (\<lambda>(f, r). \<not> recovered_ok r) (zip fs (map fst rs)))"
proof (induction fs arbitrary: s)
  case (Cons f fs)
  obtain r s1 where r: "recover_step frepr run_call f s = (Inr (r, if recovered_ok r then [] else [f]), s1)"
    using recover_step_total by metis
  obtain rs s2 where rs: "imapM (recover_step frepr run_call) fs s1 = (Inr rs, s2)" "length rs = length fs"
      "concat (map snd rs) = map fst (filter (\<lambda>(f, r). \<not> recovered_ok r) (zip fs (map fst rs)))"
    using Cons.IH by blast
  show ?case
    by (rule exI [of _ "(r, if recovered_ok r then [] else [f]) # rs"]) (use r rs in \<open>simp add: ibind_def\<close>)
qed simp

text \<open>C14: recovering all faults never raises and gives one result per tracked fault; afterwards exactly the
  faults whose result does not say \<open>recovered\<close> are tracked, in their order, whatever the recovery
  methods did to the tracked faults meanwhile.\<close>

theorem recover_all_keeps_unrecovered:
  "\<exists>results s'. recover_all frepr run_call s = (Inr results, s') \<and> length results = length (active_faults s)
     \<and> active_faults s' = map fst (filter (\<lambda>(f, r). \<not> recovered_ok r) (zip (active_faults s) results))"
proof -
  obtain rs s1 where rs: "imapM (recover_step frepr run_call) (active_faults s) s = (Inr rs, s1)" "length rs = length (active_faults s)"
      "concat (map snd rs) = map fst (filter (\<lambda>(f, r). \<not> recovered_ok r) (zip (active_faults s) (map fst rs)))"
    using imapM_recover by blast
  show ?thesis
    by (rule exI [of _ "map fst rs"]) (use rs in \<open>simp add: recover_all_def ibind_def\<close>)
qed

end
