(* ===== verification/Py_Float.thy ===== *)
theory Py_Float
  imports Py_Prelude "HOL-Library.Log_Nat"
begin

text \<open>
  Python's \<open>float\<close>: binary64 values as the rational numbers they denote. \<open>fl\<close> rounds a rational
  to 53 significant bits, ties to even, so \<open>fadd\<close>, \<open>fsub\<close>, \<open>fmul\<close>, \<open>fdiv\<close> are the
  correctly rounded operations, \<open>int_div a b\<close> is \<open>a / b\<close> on two \<open>int\<close>s, \<open>py_round x n\<close> is
  \<open>round(x, n)\<close> (the exact value rounded to \<open>n\<close> decimals, ties to even, then to the nearest
  double) and \<open>py_fsum\<close> is \<open>sum\<close> over floats, which compensates rounding errors since
  Python 3.12 (the interpreter version the project requires). The exponent range is not bounded:
  overflow to infinity, subnormal numbers and NaN are outside the model.
  The lemmas show that rounding is monotone, exact on short significands and keeps the unit
  interval, which is what the scores and rates of the benchmark rely on.
\<close>

subsection \<open>Rounding to the nearest integer\<close>

definition round_half_even :: "rat \<Rightarrow> int" where
  "round_half_even x = (let f = \<lfloor>x\<rfloor>; d = x - of_int f in
     if d < 1 / 2 then f else if 1 / 2 < d then f + 1 else if even f then f else f + 1)"

lemma round_half_even_cases: "round_half_even x = \<lfloor>x\<rfloor> \<or> round_half_even x = \<lfloor>x\<rfloor> + 1"
  by (auto simp: round_half_even_def Let_def)

lemma round_half_even_of_int [simp]: "round_half_even (of_int n) = n"
  by (simp add: round_half_even_def)

lemma round_half_even_0 [simp]: "round_half_even 0 = 0"
  by (simp add: round_half_even_def)

lemma round_half_even_error: "\<bar>of_int (round_half_even x) - x\<bar> \<le> 1 / 2"
  unfolding round_half_even_def Let_def using floor_correct [of x] by (auto simp: abs_le_iff)

lemma round_half_even_mono:
  assumes "x \<le> y"
  shows "round_half_even x \<le> round_half_even y"
proof (cases "\<lfloor>x\<rfloor> = \<lfloor>y\<rfloor>")
  case True
  with assms show ?thesis
    by (auto simp: round_half_even_def Let_def)
next
  case False
  with floor_mono [OF assms] have "\<lfloor>x\<rfloor> + 1 \<le> \<lfloor>y\<rfloor>" by simp
  then show ?thesis
    using round_half_even_cases [of x] round_half_even_cases [of y] by auto
qed

lemma round_half_even_ge: "of_int n \<le> x \<Longrightarrow> n \<le> round_half_even x"
  using round_half_even_mono [of "of_int n" x] by simp

lemma round_half_even_le: "x \<le> of_int n \<Longrightarrow> round_half_even x \<le> n"
  using round_half_even_mono [of x "of_int n"] by simp

subsection \<open>The binary exponent\<close>

definition bexp :: "rat \<Rightarrow> int" where
  "bexp x = (let (p, q) = quotient_of x;
                 e = int (floorlog 2 (nat p)) - int (floorlog 2 (nat q))
             in if 2 powi e \<le> x then e else e - 1)"

lemma powi2_add: "(2 :: rat) powi i * 2 powi j = 2 powi (i + j)"
  by (simp add: power_int_add)

lemma powi2_nat: "(2 :: rat) powi int n = of_int (2 ^ n)"
  by (simp add: power_int_def)

lemma floorlog_powi:
  assumes "0 < n"
  shows "(2 :: rat) powi (int (floorlog 2 n) - 1) \<le> of_nat n"
    and "of_nat n < (2 :: rat) powi int (floorlog 2 n)"
proof -
  from floorlog_bounds [of n 2] assms have b: "2 ^ (floorlog 2 n - 1) \<le> n" "n < 2 ^ floorlog 2 n"
    by auto
  have pos: "floorlog 2 n \<noteq> 0" using assms b(2) by (cases "floorlog 2 n") auto
  have "int (floorlog 2 n) - 1 = int (floorlog 2 n - 1)" using pos by simp
  moreover have "(2 :: rat) ^ (floorlog 2 n - 1) \<le> of_nat n"
    using of_nat_mono [OF b(1), where 'a = rat] by simp
  ultimately show "(2 :: rat) powi (int (floorlog 2 n) - 1) \<le> of_nat n"
    by (simp only: power_int_of_nat)
  have "of_nat n < (of_nat (2 ^ floorlog 2 n) :: rat)" using b(2) by (simp only: of_nat_less_iff)
  then show "of_nat n < (2 :: rat) powi int (floorlog 2 n)"
    by (simp only: power_int_of_nat of_nat_power of_nat_numeral)
qed

lemma bexp_bounds:
  assumes "0 < x"
  shows "2 powi bexp x \<le> x" and "x < 2 powi (bexp x + 1)"
proof -
  obtain p q where pq: "quotient_of x = (p, q)" by fastforce
  have q: "0 < q" using quotient_of_denom_pos [OF pq] .
  have x: "x = of_int p / of_int q" using quotient_of_div [OF pq] .
  have p: "0 < p" using assms x q by (simp add: zero_less_divide_iff)
  let ?a = "int (floorlog 2 (nat p))" and ?b = "int (floorlog 2 (nat q))"
  let ?e = "?a - ?b"
  have np: "(of_nat (nat p) :: rat) = of_int p" and nq: "(of_nat (nat q) :: rat) = of_int q"
    using p q by simp_all
  note P = floorlog_powi [of "nat p"] and Q = floorlog_powi [of "nat q"]
  have hi: "x < 2 powi (?e + 1)"
  proof -
    have "of_int p < (2 :: rat) powi ?a" using P(2) p np by simp
    also have "\<dots> = 2 powi (?e + 1) * 2 powi (?b - 1)" by (simp only: powi2_add) simp
    also have "\<dots> \<le> 2 powi (?e + 1) * of_int q" using Q(1) q nq by simp
    finally show ?thesis using q by (simp add: x divide_less_eq)
  qed
  have lo: "2 powi (?e - 1) \<le> x"
  proof -
    have "2 powi (?e - 1) * of_int q \<le> (2 :: rat) powi (?e - 1) * 2 powi ?b"
      using Q(2) q nq by (intro mult_left_mono) auto
    also have "\<dots> = 2 powi (?a - 1)" by (simp only: powi2_add) simp
    also have "\<dots> \<le> of_int p" using P(1) p np by simp
    finally show ?thesis using q by (simp add: x le_divide_eq)
  qed
  show "2 powi bexp x \<le> x" "x < 2 powi (bexp x + 1)"
    using hi lo by (auto simp: bexp_def pq Let_def)
qed

lemma powi2_mono: "i \<le> j \<Longrightarrow> (2 :: rat) powi i \<le> 2 powi j"
  by (rule power_int_increasing) auto

lemma powi2_less_iff: "((2 :: rat) powi i < 2 powi j) = (i < j)"
  by (meson not_le power_int_strict_increasing powi2_mono one_less_numeral_iff semiring_norm(76))

lemma bexp_unique:
  assumes "2 powi e \<le> x" and "x < 2 powi (e + 1)"
  shows "bexp x = e"
proof -
  have "(0 :: rat) < 2 powi e" by simp
  with assms(1) have x: "0 < x" by linarith
  have "2 powi e < (2 :: rat) powi (bexp x + 1)" "2 powi bexp x < (2 :: rat) powi (e + 1)"
    using assms bexp_bounds [OF x] by linarith+
  then show ?thesis by (simp add: powi2_less_iff)
qed

lemma bexp_mono:
  assumes "0 < x" and "x \<le> y"
  shows "bexp x \<le> bexp y"
proof -
  have "2 powi bexp x < (2 :: rat) powi (bexp y + 1)"
    using bexp_bounds(1) [OF assms(1)] bexp_bounds(2) [of y] assms by linarith
  then show ?thesis by (simp add: powi2_less_iff)
qed

subsection \<open>Rounding to 53 bits\<close>

definition fl :: "rat \<Rightarrow> rat" where
  "fl x = (if x = 0 then 0
           else let u = 2 powi (bexp \<bar>x\<bar> - 52) in of_int (round_half_even (x / u)) * u)"

lemma fl_zero [simp]: "fl 0 = 0"
  by (simp add: fl_def)

lemma fl_pos_bounds:
  assumes "0 < x"
  shows "2 powi bexp x \<le> fl x" and "fl x \<le> 2 powi (bexp x + 1)"
proof -
  let ?u = "(2 :: rat) powi (bexp x - 52)"
  have u: "0 < ?u" by simp
  have "of_int (2 ^ 52) * ?u = 2 powi bexp x" "of_int (2 ^ 53) * ?u = 2 powi (bexp x + 1)"
    by (simp_all only: powi2_nat [symmetric] powi2_add) (simp_all add: add.commute)
  moreover have "2 ^ 52 \<le> round_half_even (x / ?u)"
    using bexp_bounds(1) [OF assms] calculation(1) u
    by (intro round_half_even_ge) (simp add: pos_le_divide_eq)
  moreover have "round_half_even (x / ?u) \<le> 2 ^ 53"
    using bexp_bounds(2) [OF assms] calculation(2) u
    by (intro round_half_even_le) (simp add: pos_divide_le_eq)
  ultimately have "2 powi bexp x \<le> of_int (round_half_even (x / ?u)) * ?u"
      "of_int (round_half_even (x / ?u)) * ?u \<le> 2 powi (bexp x + 1)"
    using u by (metis mult_right_mono of_int_le_iff order_less_imp_le)+
  with assms show "2 powi bexp x \<le> fl x" "fl x \<le> 2 powi (bexp x + 1)"
    by (simp_all add: fl_def Let_def)
qed

lemma fl_pos: "0 < x \<Longrightarrow> 0 < fl x"
  by (rule less_le_trans [OF _ fl_pos_bounds(1)]) simp_all

lemma round_half_even_minus: "round_half_even (- x) = - round_half_even x"
proof (cases "x = of_int \<lfloor>x\<rfloor>")
  case True
  then show ?thesis by (metis of_int_minus round_half_even_of_int)
next
  case False
  then have "\<lfloor>- x\<rfloor> = - \<lfloor>x\<rfloor> - 1"
    by (smt (verit) ceiling_altdef floor_minus)
  then show ?thesis by (auto simp: round_half_even_def Let_def)
qed

lemma fl_minus [simp]: "fl (- x) = - fl x"
  by (simp add: fl_def Let_def round_half_even_minus)

lemma fl_nonneg: "0 \<le> x \<Longrightarrow> 0 \<le> fl x"
  using fl_pos [of x] by (cases "x = 0") auto

lemma fl_mono_pos:
  assumes "0 < x" and "x \<le> y"
  shows "fl x \<le> fl y"
proof (cases "bexp x = bexp y")
  case True
  have y: "0 < y" using assms by simp
  show ?thesis
    using True assms y by (simp add: fl_def Let_def round_half_even_mono divide_right_mono)
next
  case False
  with bexp_mono [OF assms] have "bexp x + 1 \<le> bexp y" by simp
  then have "(2 :: rat) powi (bexp x + 1) \<le> 2 powi bexp y" by (rule powi2_mono)
  then show ?thesis
    using fl_pos_bounds(2) [OF assms(1)] fl_pos_bounds(1) [of y] assms by linarith
qed

lemma fl_mono:
  assumes "x \<le> y"
  shows "fl x \<le> fl y"
proof (cases "0 < x")
  case True
  then show ?thesis using assms by (rule fl_mono_pos)
next
  case False
  show ?thesis
  proof (cases "0 \<le> y")
    case True
    have "0 \<le> fl (- x)" using False by (intro fl_nonneg) simp
    with True fl_nonneg [of y] show ?thesis by simp
  next
    case False
    then have "fl (- y) \<le> fl (- x)" using assms by (intro fl_mono_pos) auto
    then show ?thesis by simp
  qed
qed

text \<open>Values with at most 53 significant bits are exact: integers, halves, sums of scores.\<close>

lemma fl_exact_pos:
  assumes "0 < m" and "m \<le> 2 ^ 53"
  shows "fl (of_int m * 2 powi e) = of_int m * 2 powi e"
proof -
  let ?x = "(of_int m :: rat) * 2 powi e"
  have x: "0 < ?x" using assms by simp
  let ?u = "(2 :: rat) powi (bexp ?x - 52)"
  have "\<exists>k. ?x / ?u = of_int k"
  proof (cases "m = 2 ^ 53")
    case True
    then have x53: "?x = 2 powi (e + 53)" by (simp add: power_int_add)
    have b53: "bexp (2 powi (e + 53)) = e + 53"
      by (rule bexp_unique) (auto simp: power_int_add)
    have "?x = of_int (2 ^ 52) * ?u"
      unfolding x53 b53 by (simp only: powi2_nat [symmetric] powi2_add) (simp add: add.commute)
    then have "?x / ?u = of_int (2 ^ 52)" by (subst nonzero_divide_eq_eq) auto
    then show ?thesis by blast
  next
    case False
    with assms have "m < 2 ^ 53" by simp
    then have "of_int m < (of_int (2 ^ 53) :: rat)" by (simp only: of_int_less_iff)
    then have "?x < of_int (2 ^ 53) * 2 powi e" by simp
    also have "\<dots> = 2 powi (e + 53)"
      by (simp only: powi2_nat [symmetric] powi2_add) (simp add: add.commute)
    finally have "2 powi bexp ?x < (2 :: rat) powi (e + 53)"
      using bexp_bounds(1) [OF x] by linarith
    then have "bexp ?x - 52 \<le> e" by (simp add: powi2_less_iff)
    then have "(2 :: rat) powi e = of_int (2 ^ nat (e - (bexp ?x - 52))) * ?u"
      by (simp only: powi2_nat [symmetric] powi2_add) simp
    then have "?x = of_int (m * 2 ^ nat (e - (bexp ?x - 52))) * ?u"
      by (metis mult.assoc of_int_mult)
    then have "?x / ?u = of_int (m * 2 ^ nat (e - (bexp ?x - 52)))"
      by (subst nonzero_divide_eq_eq) auto
    then show ?thesis by blast
  qed
  then obtain k where k: "?x / ?u = of_int k" by blast
  have "fl ?x = of_int (round_half_even (?x / ?u)) * ?u" using x by (simp add: fl_def Let_def)
  also have "\<dots> = ?x / ?u * ?u" unfolding k by simp
  also have "\<dots> = ?x" by simp
  finally show ?thesis .
qed

lemma fl_exact:
  assumes "\<bar>m\<bar> \<le> 2 ^ 53"
  shows "fl (of_int m * 2 powi e) = of_int m * 2 powi e"
proof (cases m "0 :: int" rule: linorder_cases)
  case less
  with fl_exact_pos [of "- m" e] assms show ?thesis by simp
next
  case greater
  with fl_exact_pos [of m e] assms show ?thesis by simp
qed simp

lemma fl_of_int: "\<bar>m\<bar> \<le> 2 ^ 53 \<Longrightarrow> fl (of_int m) = of_int m"
  using fl_exact [of m 0] by simp

lemma fl_one [simp]: "fl 1 = 1"
  using fl_of_int [of 1] by simp

lemma fl_half_int: "\<bar>m\<bar> \<le> 2 ^ 53 \<Longrightarrow> fl (of_int m / 2) = of_int m / 2"
  using fl_exact [of m "-1"] by (simp add: power_int_def)

subsection \<open>Operations\<close>

definition fadd :: "rat \<Rightarrow> rat \<Rightarrow> rat" where "fadd x y = fl (x + y)"
definition fsub :: "rat \<Rightarrow> rat \<Rightarrow> rat" where "fsub x y = fl (x - y)"
definition fmul :: "rat \<Rightarrow> rat \<Rightarrow> rat" where "fmul x y = fl (x * y)"
definition fdiv :: "rat \<Rightarrow> rat \<Rightarrow> rat" where "fdiv x y = fl (x / y)"

definition int_div :: "int \<Rightarrow> int \<Rightarrow> rat" where
  "int_div a b = fl (of_int a / of_int b)"

definition py_round :: "rat \<Rightarrow> nat \<Rightarrow> rat" where
  "py_round x n = fl (of_int (round_half_even (x * 10 ^ n)) / 10 ^ n)"

text \<open>Neumaier's compensated summation, as \<open>sum\<close> performs it on floats.\<close>

fun neumaier :: "rat \<Rightarrow> rat \<Rightarrow> rat list \<Rightarrow> rat" where
  "neumaier s c [] = (if c \<noteq> 0 then fadd s c else s)"
| "neumaier s c (x # xs) =
     (let t = fadd s x;
          c' = (if \<bar>x\<bar> \<le> \<bar>s\<bar> then fadd c (fadd (fsub s t) x) else fadd c (fadd (fsub x t) s))
      in neumaier t c' xs)"

definition py_fsum :: "rat list \<Rightarrow> rat" where
  "py_fsum xs = neumaier 0 0 xs"

lemma int_div_unit:
  assumes "0 \<le> a" and "a \<le> b"
  shows "0 \<le> int_div a b" and "int_div a b \<le> 1"
proof -
  have "0 \<le> (of_int a / of_int b :: rat)" "of_int a / of_int b \<le> (1 :: rat)"
    using assms by (auto simp: divide_le_eq_1)
  then show "0 \<le> int_div a b" "int_div a b \<le> 1"
    using fl_nonneg [of "of_int a / of_int b"] fl_mono [of "of_int a / of_int b" 1]
    by (simp_all add: int_div_def)
qed

lemma int_div_self: "b \<noteq> 0 \<Longrightarrow> int_div b b = 1"
  by (simp add: int_div_def)

lemma int_div_zero [simp]: "int_div 0 b = 0"
  by (simp add: int_div_def)

lemma py_round_mono: "x \<le> y \<Longrightarrow> py_round x n \<le> py_round y n"
  unfolding py_round_def by (intro fl_mono divide_right_mono) (auto intro: round_half_even_mono)

lemma py_round_of_int [simp]: "\<bar>m\<bar> \<le> 2 ^ 53 \<Longrightarrow> py_round (of_int m) n = of_int m"
proof -
  assume "\<bar>m\<bar> \<le> 2 ^ 53"
  moreover have "(of_int m :: rat) * 10 ^ n = of_int (m * 10 ^ n)" by simp
  ultimately show ?thesis
    using round_half_even_of_int [of "m * 10 ^ n"] fl_of_int [of m] by (simp add: py_round_def)
qed

lemma py_round_0 [simp]: "py_round 0 n = 0"
  using py_round_of_int [of 0 n] by simp

lemma py_round_1 [simp]: "py_round 1 n = 1"
  using py_round_of_int [of 1 n] by simp

lemma py_round_unit:
  assumes "0 \<le> x" and "x \<le> 1"
  shows "0 \<le> py_round x n" and "py_round x n \<le> 1"
  using py_round_mono [OF assms(1), of n] py_round_mono [OF assms(2), of n] by simp_all

text \<open>Sums of half-integers are exact while the total has at most 53 bits.\<close>

definition half_int :: "rat \<Rightarrow> bool" where
  "half_int x \<longleftrightarrow> (\<exists>m. x = of_int m / 2)"

lemma fl_half:
  assumes "half_int x" and "\<bar>x\<bar> \<le> 2 ^ 52"
  shows "fl x = x"
proof -
  obtain m where m: "x = of_int m / 2" using assms(1) by (auto simp: half_int_def)
  with assms(2) have "of_int \<bar>m\<bar> \<le> (of_int (2 ^ 53) :: rat)" by simp
  then have "\<bar>m\<bar> \<le> 2 ^ 53" by (simp only: of_int_le_iff)
  then show ?thesis unfolding m by (rule fl_half_int)
qed

lemma half_int_add: "half_int x \<Longrightarrow> half_int y \<Longrightarrow> half_int (x + y)"
  unfolding half_int_def by (metis add_divide_distrib of_int_add)

lemma neumaier_exact:
  assumes "\<And>x. x \<in> set xs \<Longrightarrow> 0 \<le> x \<and> half_int x" and "0 \<le> s" and "half_int s"
    and "s + sum_list xs \<le> 2 ^ 52"
  shows "neumaier s 0 xs = s + sum_list xs"
  using assms
proof (induction xs arbitrary: s)
  case (Cons x xs)
  have x: "0 \<le> x" "half_int x" using Cons.prems(1) by auto
  have nn: "0 \<le> sum_list xs" using Cons.prems(1) by (intro sum_list_nonneg) auto
  then have "fadd s x = s + x"
    unfolding fadd_def using Cons.prems x by (intro fl_half half_int_add) auto
  moreover have "\<bar>x\<bar> \<le> 2 ^ 52" "\<bar>s\<bar> \<le> 2 ^ 52"
    using x Cons.prems(2,4) nn by (simp_all del: power_numeral)
  moreover from this have "fl x = x" "fl s = s"
    using x Cons.prems(3) by (simp_all only: fl_half)
  ultimately have "neumaier s 0 (x # xs) = neumaier (s + x) 0 xs"
    by (simp add: Let_def fsub_def fadd_def)
  also have "\<dots> = s + x + sum_list xs"
    using Cons.prems x by (intro Cons.IH) (auto intro: half_int_add)
  finally show ?case by simp
qed simp

lemma py_fsum_exact:
  assumes "\<And>x. x \<in> set xs \<Longrightarrow> 0 \<le> x \<and> half_int x" and "sum_list xs \<le> 2 ^ 52"
  shows "py_fsum xs = sum_list xs"
  using neumaier_exact [of xs 0] assms by (simp add: py_fsum_def half_int_def)


subsection \<open>Floats are closed under rounding and doubling\<close>

lemma fl_form:
  obtains k e where "fl x = of_int k * 2 powi e" and "\<bar>k\<bar> \<le> 2 ^ 53"
proof -
  have pos: "\<exists>k e. fl y = of_int k * 2 powi e \<and> \<bar>k\<bar> \<le> 2 ^ 53" if y: "0 < y" for y
  proof -
    let ?u = "(2 :: rat) powi (bexp y - 52)" and ?k = "round_half_even (y / (2 powi (bexp y - 52)))"
    have eq: "fl y = of_int ?k * ?u" using y by (simp add: fl_def Let_def)
    have "(2 :: rat) powi (bexp y + 1) = of_int (2 ^ 53) * ?u"
      by (simp only: powi2_nat [symmetric] powi2_add) (simp add: add.commute)
    then have "of_int ?k * ?u \<le> of_int (2 ^ 53) * ?u" using fl_pos_bounds(2) [OF y] eq by simp
    then have "(of_int ?k :: rat) \<le> of_int (2 ^ 53)" by (rule mult_right_le_imp_le) simp
    moreover have "0 < of_int ?k * ?u" using fl_pos [OF y] eq by simp
    then have "0 < ?k" by (metis mult_pos_pos of_int_0_less_iff zero_less_mult_pos2 zero_less_numeral zero_less_power_int)
    ultimately have "\<bar>?k\<bar> \<le> 2 ^ 53" by (simp only: of_int_le_iff abs_of_pos)
    with eq show ?thesis by blast
  qed
  show thesis
  proof (cases x "0 :: rat" rule: linorder_cases)
    case less
    then obtain k e where ke: "fl (- x) = of_int k * 2 powi e" "\<bar>k\<bar> \<le> 2 ^ 53" using pos [of "- x"] by auto
    from ke(1) have "fl x = of_int (- k) * 2 powi e" by simp
    with ke(2) show thesis by (intro that [of "- k" e]) simp_all
  next
    case equal
    then show thesis by (intro that [of 0 0]) simp_all
  next
    case greater
    with pos [of x] that show thesis by blast
  qed
qed

lemma fl_idem [simp]: "fl (fl x) = fl x"
  by (rule fl_form [of x]) (simp add: fl_exact)

lemma fl_double: "fl (2 * fl x) = 2 * fl x"
proof (rule fl_form [of x])
  fix k e assume k: "fl x = of_int k * 2 powi e" "\<bar>k\<bar> \<le> 2 ^ 53"
  have "2 * fl x = of_int k * 2 powi (e + 1)" by (simp add: k(1) power_int_add)
  then show ?thesis using fl_exact [OF k(2), of "e + 1"] by simp
qed

subsection \<open>The unit interval\<close>

definition in_unit :: "rat \<Rightarrow> bool" where
  "in_unit x \<longleftrightarrow> 0 \<le> x \<and> x \<le> 1"

lemma in_unit_consts [simp]: "in_unit 0" "in_unit 1" "in_unit (1 / 2)"
  by (simp_all add: in_unit_def)

lemma in_unit_fl [intro]: "in_unit x \<Longrightarrow> in_unit (fl x)"
  using fl_mono [of x 1] fl_nonneg [of x] by (simp add: in_unit_def)

lemma in_unit_round [intro]: "in_unit x \<Longrightarrow> in_unit (py_round x n)"
  by (simp add: in_unit_def py_round_unit)

lemma in_unit_int_div [intro]: "0 \<le> a \<Longrightarrow> a \<le> b \<Longrightarrow> in_unit (int_div a b)"
  using int_div_unit [of a b] by (cases "b = 0") (auto simp: in_unit_def)

lemma in_unit_mean:
  assumes "in_unit x" and "in_unit y"
  shows "in_unit (fdiv (fadd x y) 2)"
proof -
  have "fl (x + y) \<le> fl (of_int 2)" using assms by (intro fl_mono) (simp add: in_unit_def)
  then have "fl (x + y) \<le> 2" using fl_of_int [of 2] by simp
  moreover have "0 \<le> fl (x + y)" using assms by (intro fl_nonneg) (simp add: in_unit_def)
  ultimately show ?thesis unfolding fdiv_def fadd_def by (intro in_unit_fl) (simp add: in_unit_def)
qed

lemma in_unit_weighted:
  assumes "in_unit x" and "in_unit y"
  shows "in_unit (fadd (fmul (1 / 2) x) (fmul (1 / 2) y))"
proof -
  have half: "0 \<le> fl (1 / 2 * z) \<and> fl (1 / 2 * z) \<le> 1 / 2" if "in_unit z" for z
  proof -
    have "fl (1 / 2 * z) \<le> fl (of_int 1 / 2)" using that by (intro fl_mono) (simp add: in_unit_def)
    then show ?thesis using that fl_half_int [of 1] fl_nonneg [of "1 / 2 * z"] by (simp add: in_unit_def)
  qed
  show ?thesis unfolding fadd_def fmul_def using half [OF assms(1)] half [OF assms(2)]
    by (intro in_unit_fl) (simp add: in_unit_def)
qed

text \<open>The harmonic mean of two floats of the unit interval stays there, roundings included.\<close>

lemma in_unit_harmonic:
  assumes "in_unit p" and "in_unit r" and "fl p = p" and "0 < fadd p r"
  shows "in_unit (fdiv (fmul (fmul 2 p) r) (fadd p r))"
proof -
  have "fmul 2 p = 2 * p" using fl_double [of p] assms(3) by (simp add: fmul_def)
  then have m: "fmul (fmul 2 p) r = fl (2 * p * r)" by (simp add: fmul_def)
  have "p * r \<le> p" "p * r \<le> r" "0 \<le> p * r"
    using assms(1,2) by (auto simp: in_unit_def intro: mult_left_le mult_left_le_one_le)
  then have "fl (2 * p * r) \<le> fl (p + r)" "0 \<le> fl (2 * p * r)"
    by (auto intro!: fl_mono fl_nonneg)
  then have "in_unit (fl (2 * p * r) / fl (p + r))"
    using assms(4) by (simp add: in_unit_def fadd_def pos_divide_le_eq)
  then show ?thesis unfolding fdiv_def m unfolding fadd_def by (rule in_unit_fl)
qed

end
