(* ===== verification/Py_Text.thy ===== *)
theory Py_Text
  imports Py_Values Py_Float
begin

text \<open>
  Text scanning as the handlers and parsers use it, on code points below 256: \<open>str.split()\<close>,
  \<open>str.splitlines()\<close>, \<open>in\<close> on strings, \<open>str.isdigit()\<close>, decimal literals, and the regular expressions
  of the sources as matchers on the rest of the text with the character before it (for word
  boundaries). Shown: the words of a text contain no white space and joining them with single
  spaces and splitting again gives them back.
\<close>

subsection \<open>Words and lines\<close>

fun split_by :: "(char \<Rightarrow> bool) \<Rightarrow> string \<Rightarrow> string list" where
  "split_by P [] = [[]]"
| "split_by P (x # xs) = (if P x then [] # split_by P xs
     else case split_by P xs of [] \<Rightarrow> [[x]] | w # ws \<Rightarrow> (x # w) # ws)"

definition py_split :: "string \<Rightarrow> string list" where
  "py_split s = filter (\<lambda>w. w \<noteq> []) (split_by is_space s)"

definition is_eol :: "char \<Rightarrow> bool" where
  "is_eol c = ((of_char c :: nat) \<in> {10, 11, 12, 13, 28, 29, 30, 133})"

fun lines_acc :: "string \<Rightarrow> string \<Rightarrow> string list" where
  "lines_acc cur [] = (if cur = [] then [] else [rev cur])"
| "lines_acc cur (c # s) = (if is_eol c
     then rev cur # (case s of
         [] \<Rightarrow> []
       | d # s' \<Rightarrow> if of_char c = (13 :: nat) \<and> of_char d = (10 :: nat) then lines_acc [] s' else lines_acc [] s)
     else lines_acc (c # cur) s)"

definition splitlines :: "string \<Rightarrow> string list" where
  "splitlines s = lines_acc [] s"

fun contains :: "string \<Rightarrow> string \<Rightarrow> bool" where
  "contains sub [] = (sub = [])"
| "contains sub (c # s) = (starts_with (c # s) sub \<or> contains sub s)"

definition py_isdigit :: "string \<Rightarrow> bool" where
  "py_isdigit s = (s \<noteq> [] \<and> list_all (\<lambda>c. is_digit c \<or> (of_char c :: nat) \<in> {178, 179, 185}) s)"

text \<open>\<open>a or b\<close> on strings.\<close>

definition or_else :: "string \<Rightarrow> string \<Rightarrow> string" where
  "or_else a b = (if a = [] then b else a)"

text \<open>\<open>"; ".join(filter(None, xs))\<close>.\<close>

definition join_nonempty :: "string list \<Rightarrow> string" where
  "join_nonempty xs = join ''; '' (filter (\<lambda>x. x \<noteq> []) xs)"

subsection \<open>Regular expressions\<close>

definition is_word :: "char \<Rightarrow> bool" where
  "is_word c = (let n = (of_char c :: nat) in is_digit c \<or> (65 \<le> n \<and> n \<le> 90) \<or> (97 \<le> n \<and> n \<le> 122) \<or> n = 95
     \<or> n \<in> {170, 178, 179, 181, 185, 186, 188, 189, 190} \<or> (192 \<le> n \<and> n \<noteq> 215 \<and> n \<noteq> 247))"

definition word_opt :: "char option \<Rightarrow> bool" where
  "word_opt p = (case p of None \<Rightarrow> False | Some c \<Rightarrow> is_word c)"

definition head_opt :: "string \<Rightarrow> char option" where
  "head_opt s = (case s of [] \<Rightarrow> None | c # _ \<Rightarrow> Some c)"

text \<open>\<open>\\b\<close> between a previous character and the rest of the text.\<close>

definition boundary :: "char option \<Rightarrow> string \<Rightarrow> bool" where
  "boundary prev s = (word_opt prev \<noteq> word_opt (head_opt s))"

text \<open>\<open>re.search\<close>: the first position at which a matcher succeeds.\<close>

fun re_search :: "(char option \<Rightarrow> string \<Rightarrow> 'a option) \<Rightarrow> char option \<Rightarrow> string \<Rightarrow> 'a option" where
  "re_search m prev [] = m prev []"
| "re_search m prev (c # s) = (case m prev (c # s) of Some x \<Rightarrow> Some x | None \<Rightarrow> re_search m (Some c) s)"

text \<open>\<open>\\bword\\b\<close> at a position, for a non-empty word.\<close>

definition whole_word :: "string \<Rightarrow> char option \<Rightarrow> string \<Rightarrow> bool" where
  "whole_word w prev s = (boundary prev s \<and> starts_with s w \<and> boundary (Some (last w)) (drop (length w) s))"

definition skip_spaces :: "string \<Rightarrow> string option" where
  "skip_spaces s = (case s of [] \<Rightarrow> None | c # _ \<Rightarrow> if is_space c then Some (dropWhile is_space s) else None)"

text \<open>\<open>[0-9]+(?:\\.[0-9]+)?\<close>: the longest decimal literal, with the rest of the text.\<close>

definition re_decimal :: "string \<Rightarrow> (string \<times> string) option" where
  "re_decimal s = (let ds = takeWhile is_digit s; r = dropWhile is_digit s in
     if ds = [] then None
     else case r of
         [] \<Rightarrow> Some (ds, [])
       | c # r' \<Rightarrow> let fs = takeWhile is_digit r' in
           if c = CHR ''.'' \<and> fs \<noteq> [] then Some (ds @ CHR ''.'' # fs, dropWhile is_digit r') else Some (ds, r))"

text \<open>\<open>float\<close> of such a literal.\<close>

definition float_of_decimal :: "string \<Rightarrow> rat" where
  "float_of_decimal s = (case split_on CHR ''.'' s of
       [a] \<Rightarrow> fl (of_nat (nat_of_digits a))
     | [a, b] \<Rightarrow> fl (of_nat (nat_of_digits (a @ b)) / 10 ^ length b)
     | _ \<Rightarrow> 0)"

text \<open>\<open>^\\d+\\.\\d+\\.\\d+\\.\\d+\<close> at the start of a line.\<close>

fun dotted_prefix :: "nat \<Rightarrow> string \<Rightarrow> bool" where
  "dotted_prefix 0 s = (takeWhile is_digit s \<noteq> [])"
| "dotted_prefix (Suc n) s = (takeWhile is_digit s \<noteq> [] \<and>
     (case dropWhile is_digit s of [] \<Rightarrow> False | c # r \<Rightarrow> c = CHR ''.'' \<and> dotted_prefix n r))"

subsection \<open>Words survive joining\<close>

lemma split_by_word: "list_all (\<lambda>c. \<not> P c) w \<Longrightarrow> split_by P (w @ s) = (case split_by P s of [] \<Rightarrow> [w] | v # vs \<Rightarrow> (w @ v) # vs)"
proof (induction w)
  case Nil
  have "split_by P s \<noteq> []" by (cases s) (auto split: list.split)
  then show ?case by (auto split: list.split)
next
  case (Cons c w)
  then show ?case by (auto split: list.split)
qed

lemma split_by_words: "w \<in> set (split_by P s) \<Longrightarrow> list_all (\<lambda>c. \<not> P c) w"
  by (induction s arbitrary: w) (auto split: if_splits list.splits)

lemma py_split_words: "w \<in> set (py_split s) \<Longrightarrow> w \<noteq> [] \<and> list_all (\<lambda>c. \<not> is_space c) w"
  by (auto simp: py_split_def dest: split_by_words)

lemma py_split_join:
  assumes "\<And>w. w \<in> set ws \<Longrightarrow> w \<noteq> [] \<and> list_all (\<lambda>c. \<not> is_space c) w"
  shows "py_split (join '' '' ws) = ws"
  using assms
proof (induction "'' ''" ws rule: join.induct)
  case (2 x)
  then have "split_by is_space (x @ []) = [x]" using split_by_word [of is_space x "[]"] by simp
  then show ?case using 2 by (simp add: py_split_def)
next
  case (3 x y xs)
  have sp: "is_space CHR '' ''" by (simp add: is_space_def)
  have x: "x \<noteq> []" "list_all (\<lambda>c. \<not> is_space c) x" using 3 by auto
  have "split_by is_space (x @ CHR '' '' # join '' '' (y # xs)) = x # split_by is_space (join '' '' (y # xs))"
    using split_by_word [OF x(2), of "CHR '' '' # join '' '' (y # xs)"] sp by simp
  then show ?case using 3 x by (simp add: py_split_def)
qed (simp add: py_split_def)

lemma normalized_twice: "join '' '' (py_split (join '' '' (py_split s))) = join '' '' (py_split s)"
  by (simp add: py_split_join py_split_words)

subsection \<open>Floats from text and values\<close>

text \<open>\<open>float\<close> of a finite literal: digits with single underscores, a fraction and an exponent.\<close>

definition udigits :: "string \<Rightarrow> string option" where
  "udigits t = (let parts = split_on CHR ''_'' t in
     if list_all (\<lambda>p. p \<noteq> [] \<and> list_all is_digit p) parts then Some (concat parts) else None)"

definition parse_mantissa :: "string \<Rightarrow> rat option" where
  "parse_mantissa t = (case split_on CHR ''.'' t of
       [a] \<Rightarrow> map_option (\<lambda>ds. of_nat (nat_of_digits ds)) (udigits a)
     | [a, b] \<Rightarrow> (case (if a = [] then Some [] else udigits a, if b = [] then Some [] else udigits b) of
           (Some ds, Some es) \<Rightarrow> if ds = [] \<and> es = [] then None else Some (of_nat (nat_of_digits (ds @ es)) / 10 ^ length es)
         | _ \<Rightarrow> None)
     | _ \<Rightarrow> None)"

definition parse_signed :: "(string \<Rightarrow> 'a option) \<Rightarrow> ('a \<Rightarrow> 'a) \<Rightarrow> string \<Rightarrow> 'a option" where
  "parse_signed p neg s = (case s of [] \<Rightarrow> p [] | c # t \<Rightarrow>
     if c = CHR ''-'' then map_option neg (p t) else if c = CHR ''+'' then p t else p s)"

definition parse_float :: "string \<Rightarrow> rat option" where
  "parse_float s = (let t = int_strip s; m = takeWhile (\<lambda>c. c \<noteq> CHR ''e'' \<and> c \<noteq> CHR ''E'') t; x = drop (length m) t in
     case (parse_signed parse_mantissa uminus m,
           if x = [] then Some 0 else parse_signed (\<lambda>e. map_option (int \<circ> nat_of_digits) (udigits e)) uminus (tl x)) of
       (Some v, Some e) \<Rightarrow> Some (fl (v * 10 powi e))
     | _ \<Rightarrow> None)"

definition float_of_val :: "pyval \<Rightarrow> rat res" where
  "float_of_val v = (case v of
       PFloat r \<Rightarrow> Inr r
     | PInt i \<Rightarrow> Inr (fl (of_int i))
     | PBool b \<Rightarrow> Inr (of_bool b)
     | PStr s \<Rightarrow> (case parse_float s of Some r \<Rightarrow> Inr r | None \<Rightarrow> Inl (ValueError (''could not convert string to float: '' @ py_repr s)))
     | _ \<Rightarrow> Inl (TypeError ''float() argument must be a string or a real number''))"

text \<open>\<open>math.isclose(a, b, rel_tol=0.0, abs_tol=tol)\<close>.\<close>

definition isclose_abs :: "rat \<Rightarrow> rat \<Rightarrow> rat \<Rightarrow> bool" where
  "isclose_abs tol a b = (a = b \<or> \<bar>fsub b a\<bar> \<le> tol)"

end
