(* ===== verification/Interface_Names.thy ===== *)
theory Interface_Names
  imports Py_Prelude
begin

text \<open>
  The interface-name helpers of \<open>netopsbench/platform/utils/interface_names.py\<close>: one front-panel
  port has a SONiC name (\<open>Ethernet4\<close>), a Linux name (\<open>eth2\<close>) and two legacy labels (\<open>e1-2\<close>,
  \<open>ethernet-1/2\<close>). The four regular expressions are written as scanners: \<open>re_digits\<close> is
  \<open>^prefix(\d+)$\<close> and \<open>re_pair\<close> is \<open>^prefix(\d+)sep(\d+)$\<close>, both ignoring case, where \<open>$\<close> also
  matches before a final newline (\<open>at_end\<close>), as in \<open>re.match\<close>.
  The lemmas show that the four labels of a port are converted into each other and that two
  labels are equivalent exactly when they name the same port.
\<close>

subsection \<open>The regular expressions\<close>

definition at_end :: "string \<Rightarrow> bool" where
  "at_end s \<longleftrightarrow> s = [] \<or> s = [CHR 0x0A]"

definition re_digits :: "string \<Rightarrow> string \<Rightarrow> string option" where
  "re_digits pre s =
     (let rest = drop (length pre) s; ds = takeWhile is_digit rest; tl = dropWhile is_digit rest
      in if py_lower (take (length pre) s) = pre \<and> ds \<noteq> [] \<and> at_end tl then Some ds else None)"

definition re_pair :: "string \<Rightarrow> char \<Rightarrow> string \<Rightarrow> (string \<times> string) option" where
  "re_pair pre sep s =
     (let rest = drop (length pre) s; ds = takeWhile is_digit rest; tl = dropWhile is_digit rest
      in if py_lower (take (length pre) s) = pre \<and> ds \<noteq> []
         then (case tl of
                 [] \<Rightarrow> None
               | c # tl' \<Rightarrow>
                   (let es = takeWhile is_digit tl'; fin = dropWhile is_digit tl'
                    in if c = sep \<and> es \<noteq> [] \<and> at_end fin then Some (ds, es) else None))
         else None)"

definition SONIC_INTERFACE_RE :: "string \<Rightarrow> string option" where
  "SONIC_INTERFACE_RE = re_digits ''ethernet''"

definition LINUX_INTERFACE_RE :: "string \<Rightarrow> string option" where
  "LINUX_INTERFACE_RE = re_digits ''eth''"

definition E_STYLE_INTERFACE_RE :: "string \<Rightarrow> (string \<times> string) option" where
  "E_STYLE_INTERFACE_RE = re_pair ''e'' CHR ''-''"

definition VENDOR_STYLE_INTERFACE_RE :: "string \<Rightarrow> (string \<times> string) option" where
  "VENDOR_STYLE_INTERFACE_RE = re_pair ''ethernet-'' CHR ''/''"

subsection \<open>The conversions\<close>

text \<open>\<open>opt_str x\<close> is \<open>str(x or "").strip()\<close>.\<close>

definition opt_str :: "string option \<Rightarrow> string" where
  "opt_str x = (case x of None \<Rightarrow> [] | Some s \<Rightarrow> py_strip s)"

definition eth_label :: "nat \<Rightarrow> string" where
  "eth_label n = ''eth'' @ show_nat n"

definition sonic_label :: "nat \<Rightarrow> string" where
  "sonic_label p = ''Ethernet'' @ show_nat p"

definition normalize_interface_name :: "string option \<Rightarrow> string" where
  "normalize_interface_name interface_name =
     (let raw_name = opt_str interface_name in
      if raw_name = [] then []
      else case SONIC_INTERFACE_RE raw_name of
        Some ds \<Rightarrow>
          (let port_idx = nat_of_digits ds
           in if port_idx mod 4 = 0 then eth_label (port_idx div 4 + 1) else py_lower raw_name)
      | None \<Rightarrow>
        (case LINUX_INTERFACE_RE raw_name of
          Some ds \<Rightarrow> eth_label (nat_of_digits ds)
        | None \<Rightarrow>
          (case E_STYLE_INTERFACE_RE raw_name of
            Some (_, es) \<Rightarrow> eth_label (nat_of_digits es)
          | None \<Rightarrow>
            (case VENDOR_STYLE_INTERFACE_RE raw_name of
              Some (_, es) \<Rightarrow> eth_label (nat_of_digits es)
            | None \<Rightarrow>
              (let normalized = py_replace ''ethernet'' ''eth'' (py_replace ''ethernet-'' ''eth'' (py_lower raw_name))
               in py_replace ''-'' [] (py_replace ''/'' [] normalized))))))"

definition to_linux_interface :: "string option \<Rightarrow> string" where
  "to_linux_interface interface_name =
     (case LINUX_INTERFACE_RE (normalize_interface_name interface_name) of
        Some ds \<Rightarrow> eth_label (nat_of_digits ds)
      | None \<Rightarrow> opt_str interface_name)"

definition to_sonic_interface :: "string option \<Rightarrow> string" where
  "to_sonic_interface interface_name =
     (let fallback = (case SONIC_INTERFACE_RE (opt_str interface_name) of
                        Some ds \<Rightarrow> sonic_label (nat_of_digits ds)
                      | None \<Rightarrow> opt_str interface_name)
      in case LINUX_INTERFACE_RE (normalize_interface_name interface_name) of
           Some ds \<Rightarrow> (let eth_idx = nat_of_digits ds
                       in if 1 \<le> eth_idx then sonic_label ((eth_idx - 1) * 4) else fallback)
         | None \<Rightarrow> fallback)"

definition port_aliases :: "nat \<Rightarrow> string set" where
  "port_aliases eth_idx =
     {eth_label eth_idx, ''e1-'' @ show_nat eth_idx, ''ethernet-1/'' @ show_nat eth_idx,
      sonic_label ((eth_idx - 1) * 4)}"

definition interface_aliases :: "string option \<Rightarrow> string set" where
  "interface_aliases interface_name =
     (let raw_name = opt_str interface_name in
      if raw_name = [] then {}
      else let normalized = normalize_interface_name (Some raw_name);
               sonic_name = to_sonic_interface (Some raw_name);
               linux_name = to_linux_interface (Some raw_name)
           in {raw_name} \<union> (if normalized \<noteq> [] then {normalized} else {})
              \<union> (case LINUX_INTERFACE_RE normalized of
                   Some ds \<Rightarrow> (if 1 \<le> nat_of_digits ds then port_aliases (nat_of_digits ds) else {})
                 | None \<Rightarrow> {})
              \<union> (if sonic_name \<noteq> [] then {sonic_name} else {})
              \<union> (if linux_name \<noteq> [] then {linux_name} else {}))"

definition are_interfaces_equivalent :: "string option \<Rightarrow> string option \<Rightarrow> bool" where
  "are_interfaces_equivalent left right =
     (if left = None \<or> left = Some [] \<or> right = None \<or> right = Some [] then False
      else if normalize_interface_name left = normalize_interface_name right then True
      else interface_aliases left \<inter> interface_aliases right \<noteq> {})"

text \<open>\<open>_SONIC_INTERFACE_RE.fullmatch\<close>: the match must reach the end of the string.\<close>

definition sonic_fullmatch :: "string \<Rightarrow> bool" where
  "sonic_fullmatch s = (SONIC_INTERFACE_RE s \<noteq> None \<and> s \<noteq> [] \<and> last s \<noteq> CHR 0x0A)"

definition resolve_interface_metric_identities :: "string option \<Rightarrow> string list \<times> string list" where
  "resolve_interface_metric_identities interface_name =
     (let names = sorted_list_of_set (interface_aliases interface_name);
          sonic_names = sort [name \<leftarrow> names. sonic_fullmatch name]
      in (names, concat (map (\<lambda>name. [''COUNTERS/'' @ name, ''/COUNTERS/'' @ name]) sonic_names)))"

subsection \<open>Scanning the labels of a port\<close>

lemma takeWhile_digits_append:
  assumes "\<And>c. c \<in> set ds \<Longrightarrow> is_digit c" and "s = [] \<or> \<not> is_digit (hd s)"
  shows "takeWhile is_digit (ds @ s) = ds" and "dropWhile is_digit (ds @ s) = s"
  using assms by (induction ds) (auto simp: takeWhile_eq_Nil_iff dropWhile_eq_self_iff)

lemma takeWhile_show_nat [simp]:
  "takeWhile is_digit (show_nat n) = show_nat n" "dropWhile is_digit (show_nat n) = []"
  using takeWhile_digits_append [of "show_nat n" "[]"] show_nat_digits by auto

lemma takeWhile_show_nat_sep [simp]:
  "\<not> is_digit c \<Longrightarrow> takeWhile is_digit (show_nat n @ c # s) = show_nat n"
  "\<not> is_digit c \<Longrightarrow> dropWhile is_digit (show_nat n @ c # s) = c # s"
  using takeWhile_digits_append [of "show_nat n" "c # s"] show_nat_digits by auto

lemma show_nat_1 [simp]: "show_nat 1 = ''1''" "show_nat (Suc 0) = ''1''"
  by (simp_all add: show_nat.simps digit_char_def)

lemma hd_show_nat_digit: "is_digit (hd (show_nat n))"
  by (rule show_nat_digits [of _ n]) simp

lemma last_show_nat_digit: "is_digit (last (show_nat n))"
  by (rule show_nat_digits [of _ n]) simp

lemma show_nat_not_letter:
  assumes "\<not> is_digit c"
  shows "show_nat n \<noteq> c # s" and "take (Suc k) (show_nat n) \<noteq> c # s"
proof -
  show "show_nat n \<noteq> c # s" using assms hd_show_nat_digit [of n] by auto
  show "take (Suc k) (show_nat n) \<noteq> c # s"
    using assms hd_show_nat_digit [of n] by (cases "show_nat n") auto
qed

lemma lower_digit [simp]: "is_digit c \<Longrightarrow> lower_char c = c"
  by (auto simp: is_digit_def lower_char_def less_eq_char_def Let_def)

lemma space_digit [simp]: "is_digit c \<Longrightarrow> \<not> is_space c"
  by (auto simp: is_digit_def is_space_def less_eq_char_def Let_def)

lemma py_lower_append [simp]: "py_lower (a @ b) = py_lower a @ py_lower b"
  by (simp add: py_lower_def)

lemma py_lower_show_nat [simp]: "py_lower (show_nat n) = show_nat n"
  unfolding py_lower_def by (rule map_idI) (auto dest: show_nat_digits)

lemma py_strip_label: "pre \<noteq> [] \<Longrightarrow> \<not> is_space (hd pre) \<Longrightarrow> py_strip (pre @ show_nat n) = pre @ show_nat n"
  by (rule py_strip_id) (auto simp: last_show_nat_digit)

lemma lower_lits [simp]:
  "py_lower ''ethernet'' = ''ethernet''" "py_lower ''Ethernet'' = ''ethernet''" "py_lower ''eth'' = ''eth''"
  "py_lower ''Eth'' = ''eth''" "py_lower ''e'' = ''e''" "py_lower ''E'' = ''e''" "py_lower ''e1-'' = ''e1-''"
  "py_lower ''ethernet-'' = ''ethernet-''"
  by code_simp+

lemma space_lits [simp]: "\<not> is_space CHR ''e''" "\<not> is_space CHR ''E''"
  by code_simp+

lemma digit_lits [simp]: "\<not> is_digit CHR ''e''" "\<not> is_digit CHR ''E''" "\<not> is_digit CHR ''t''"
    "is_digit CHR ''1''"
  by code_simp+

lemma at_end_simps [simp]: "at_end []" "\<not> at_end (CHR ''-'' # s)" "\<not> at_end (CHR ''/'' # s)"
    "\<not> at_end (CHR ''e'' # s)"
  by (simp_all add: at_end_def)

lemma sonic_re_sonic [simp]: "SONIC_INTERFACE_RE (sonic_label p) = Some (show_nat p)"
  by (simp add: SONIC_INTERFACE_RE_def re_digits_def sonic_label_def Let_def)

lemma linux_re_eth [simp]: "LINUX_INTERFACE_RE (eth_label n) = Some (show_nat n)"
  by (simp add: LINUX_INTERFACE_RE_def re_digits_def eth_label_def Let_def)

lemma re_digits_None_char:
  assumes "length pre < length s" and "\<not> is_digit (s ! length pre)"
  shows "re_digits pre s = None"
proof -
  have "drop (length pre) s \<noteq> []" "hd (drop (length pre) s) = s ! length pre"
    using assms(1) by (simp_all add: hd_drop_conv_nth)
  then have "takeWhile is_digit (drop (length pre) s) = []"
    using assms(2) by (simp add: takeWhile_eq_Nil_iff)
  then show ?thesis by (simp add: re_digits_def)
qed

lemma re_digits_None_prefix: "py_lower (take (length pre) s) \<noteq> pre \<Longrightarrow> re_digits pre s = None"
  by (simp add: re_digits_def)

lemma sonic_re_eth [simp]: "SONIC_INTERFACE_RE (eth_label n) = None"
proof -
  have "take 8 (eth_label n) = ''eth'' @ take 5 (show_nat n)" by (simp add: eth_label_def)
  moreover have "py_lower (take 5 (show_nat n)) = take 5 (show_nat n)"
    unfolding py_lower_def by (rule map_idI) (auto dest!: in_set_takeD show_nat_digits)
  moreover have "take 5 (show_nat n) \<noteq> ''ernet''"
    using show_nat_not_letter(2) [of "CHR ''e''" 4 n "''rnet''"] by (simp add: numeral_eq_Suc)
  ultimately have "py_lower (take 8 (eth_label n)) \<noteq> ''ethernet''"
    by (simp add: py_lower_def)
  then show ?thesis
    unfolding SONIC_INTERFACE_RE_def by (intro re_digits_None_prefix) (simp add: numeral_eq_Suc)
qed

definition e_label :: "nat \<Rightarrow> string" where
  "e_label n = ''e1-'' @ show_nat n"

definition vendor_label :: "nat \<Rightarrow> string" where
  "vendor_label n = ''ethernet-1/'' @ show_nat n"

lemma label_res_none [simp]:
  "SONIC_INTERFACE_RE (e_label n) = None" "LINUX_INTERFACE_RE (e_label n) = None"
  "SONIC_INTERFACE_RE (vendor_label n) = None" "LINUX_INTERFACE_RE (vendor_label n) = None"
  "E_STYLE_INTERFACE_RE (vendor_label n) = None"
proof -
  show "LINUX_INTERFACE_RE (e_label n) = None"
    unfolding LINUX_INTERFACE_RE_def
    by (rule re_digits_None_prefix) (simp add: e_label_def py_lower_def lower_char_def)
  show "SONIC_INTERFACE_RE (e_label n) = None"
    unfolding SONIC_INTERFACE_RE_def
    by (rule re_digits_None_prefix) (simp add: e_label_def py_lower_def lower_char_def)
  show "SONIC_INTERFACE_RE (vendor_label n) = None"
    unfolding SONIC_INTERFACE_RE_def by (rule re_digits_None_char) (simp_all add: vendor_label_def)
  show "LINUX_INTERFACE_RE (vendor_label n) = None"
    unfolding LINUX_INTERFACE_RE_def by (rule re_digits_None_char) (simp_all add: vendor_label_def)
  show "E_STYLE_INTERFACE_RE (vendor_label n) = None"
    by (simp add: E_STYLE_INTERFACE_RE_def re_pair_def vendor_label_def Let_def)
qed

lemma e_re_e [simp]: "E_STYLE_INTERFACE_RE (e_label n) = Some (''1'', show_nat n)"
  by (simp add: E_STYLE_INTERFACE_RE_def re_pair_def e_label_def Let_def)

lemma vendor_re_vendor [simp]: "VENDOR_STYLE_INTERFACE_RE (vendor_label n) = Some (''1'', show_nat n)"
  by (simp add: VENDOR_STYLE_INTERFACE_RE_def re_pair_def vendor_label_def Let_def)

lemma opt_str_label [simp]:
  "opt_str (Some (eth_label n)) = eth_label n" "opt_str (Some (sonic_label n)) = sonic_label n"
  "opt_str (Some (e_label n)) = e_label n" "opt_str (Some (vendor_label n)) = vendor_label n"
  by (simp_all only: opt_str_def option.case eth_label_def sonic_label_def e_label_def vendor_label_def)
    (rule py_strip_label; simp)+

lemma label_nonempty [simp]:
  "eth_label n \<noteq> []" "sonic_label n \<noteq> []" "e_label n \<noteq> []" "vendor_label n \<noteq> []"
  by (simp_all add: eth_label_def sonic_label_def e_label_def vendor_label_def)

subsection \<open>Conversions between the labels\<close>

lemma normalize_labels [simp]:
  "normalize_interface_name (Some (eth_label n)) = eth_label n"
  "normalize_interface_name (Some (sonic_label (4 * k))) = eth_label (Suc k)"
  "normalize_interface_name (Some (e_label n)) = eth_label n"
  "normalize_interface_name (Some (vendor_label n)) = eth_label n"
  by (simp_all add: normalize_interface_name_def)

definition port_label :: "nat \<Rightarrow> string \<Rightarrow> bool" where
  "port_label n s \<longleftrightarrow> 1 \<le> n \<and> s \<in> {eth_label n, sonic_label (4 * (n - 1)), e_label n, vendor_label n}"

lemma port_label_nonempty: "port_label n s \<Longrightarrow> s \<noteq> []"
  unfolding port_label_def using label_nonempty by (metis insertE singletonD)

lemma port_label_normalize: "port_label n s \<Longrightarrow> normalize_interface_name (Some s) = eth_label n"
  by (auto simp: port_label_def)

lemma port_label_to_linux: "port_label n s \<Longrightarrow> to_linux_interface (Some s) = eth_label n"
  by (simp add: to_linux_interface_def port_label_normalize)

lemma port_label_to_sonic: "port_label n s \<Longrightarrow> to_sonic_interface (Some s) = sonic_label (4 * (n - 1))"
  by (simp add: to_sonic_interface_def port_label_normalize Let_def mult.commute port_label_def)

lemma port_label_aliases:
  assumes "port_label n s"
  shows "interface_aliases (Some s) = {eth_label n, sonic_label (4 * (n - 1)), e_label n, vendor_label n}"
proof -
  have raw: "opt_str (Some s) = s" "s \<noteq> []"
    using assms port_label_nonempty by (auto simp: port_label_def)
  have "port_aliases n = {eth_label n, sonic_label (4 * (n - 1)), e_label n, vendor_label n}"
    by (auto simp: port_aliases_def e_label_def vendor_label_def mult.commute)
  moreover have "s \<in> {eth_label n, sonic_label (4 * (n - 1)), e_label n, vendor_label n}" "1 \<le> n"
    using assms by (simp_all add: port_label_def)
  ultimately show ?thesis
    using port_label_normalize [OF assms] port_label_to_sonic [OF assms] port_label_to_linux [OF assms]
    by (auto simp: interface_aliases_def raw Let_def)
qed

lemma eth_label_inj [simp]: "(eth_label m = eth_label n) = (m = n)"
  by (simp add: eth_label_def)

lemma port_label_unique:
  assumes "port_label m s" and "port_label n s"
  shows "m = n"
  using port_label_normalize [OF assms(1)] port_label_normalize [OF assms(2)] by simp

text \<open>C12: the labels of one port are converted into its Linux and its SONiC name, and converting a
  SONiC name to Linux and back gives it again.\<close>

theorem interface_conversions:
  assumes "port_label n s"
  shows "to_linux_interface (Some s) = eth_label n
    \<and> to_sonic_interface (Some s) = sonic_label (4 * (n - 1))
    \<and> to_sonic_interface (Some (to_linux_interface (Some s))) = to_sonic_interface (Some s)
    \<and> to_linux_interface (Some (to_sonic_interface (Some s))) = to_linux_interface (Some s)"
proof -
  have "port_label n (eth_label n)" "port_label n (sonic_label (4 * (n - 1)))"
    using assms by (auto simp: port_label_def)
  then show ?thesis
    using assms by (simp add: port_label_to_linux port_label_to_sonic)
qed

text \<open>C11: two labels of front-panel ports are equivalent exactly when they name the same port,
  whatever notation each uses.\<close>

theorem equivalent_iff_same_port:
  assumes "port_label m s" and "port_label n t"
  shows "are_interfaces_equivalent (Some s) (Some t) = (m = n)"
proof -
  have ne: "s \<noteq> []" "t \<noteq> []" using assms port_label_nonempty by blast+
  have "interface_aliases (Some s) \<inter> interface_aliases (Some t) = {}" if "m \<noteq> n"
  proof (rule ccontr)
    assume "interface_aliases (Some s) \<inter> interface_aliases (Some t) \<noteq> {}"
    then obtain u where "u \<in> interface_aliases (Some s)" "u \<in> interface_aliases (Some t)" by blast
    then have "port_label m u" "port_label n u"
      using assms by (auto simp: port_label_aliases) (auto simp: port_label_def)
    with that show False using port_label_unique by blast
  qed
  then show ?thesis
    using assms ne by (auto simp: are_interfaces_equivalent_def port_label_normalize)
qed

theorem interface_conversions_witness: "to_linux_interface (Some (sonic_label 4)) = eth_label 2"
  using interface_conversions [of 2 "sonic_label 4"] by (simp add: port_label_def)

theorem equivalent_iff_same_port_witness:
  "are_interfaces_equivalent (Some (eth_label 2)) (Some (sonic_label 4))
   \<and> \<not> are_interfaces_equivalent (Some (eth_label 2)) (Some (vendor_label 3))"
  using equivalent_iff_same_port [of 2 "eth_label 2" 2 "sonic_label 4"]
    equivalent_iff_same_port [of 2 "eth_label 2" 3 "vendor_label 3"] by (simp add: port_label_def)

end
