(* ===== verification/Fault_Services.thy ===== *)
theory Fault_Services
  imports Fault_Recovery Py_Text Interface_Names
begin

text \<open>
  The services of \<open>faults/services\<close> that the handlers build on: \<open>CommandRunner\<close>, \<open>SonicRuntime\<close>,
  \<open>InterfaceRuntime\<close> and \<open>FaultRuntimeContext\<close>. The processes they start are outside the program:
  \<open>env_run\<close> takes a command line and a timeout to what \<open>safe_run\<close> returns or raises and to the next
  world, and \<open>env_json\<close> is \<open>json.loads\<close>. Everything else, the command lines included, is the code's.
  \<open>reads_pure\<close> names the assumption that the read-only commands leave the world as it is.
  Shown: which commands a service issues, that reading services change nothing when reads are pure,
  and that the MTU read back is always one that SONiC accepts.
\<close>

subsection \<open>Processes\<close>

record proc =
  returncode :: int
  stdout :: string
  stderr :: string

datatype run_outcome =
    Completed proc
  | Timed_out "string option" "string option"
  | Os_error string
  | Raised py_error

record 'w env =
  env_run :: "string list \<Rightarrow> int \<Rightarrow> 'w \<Rightarrow> run_outcome \<times> 'w"
  env_docker_prefix :: "string list"
  env_manifest :: topology_manifest
  env_json :: "string \<Rightarrow> pyval res"
  env_frepr :: "rat \<Rightarrow> string"

definition as_text :: "string option \<Rightarrow> string" where
  "as_text v = (case v of None \<Rightarrow> [] | Some s \<Rightarrow> s)"

definition run_cmd :: "'w env \<Rightarrow> string list \<Rightarrow> int \<Rightarrow> ('w injector, proc) io" where
  "run_cmd env args timeout = (\<lambda>s. case env_run env args timeout (inj_world s) of (out, w) \<Rightarrow>
     (case out of
        Completed p \<Rightarrow> Inr p
      | Timed_out so se \<Rightarrow> Inr \<lparr> returncode = 124, stdout = as_text so,
          stderr = or_else (as_text se) (''command timed out after '' @ show_int timeout @ ''s'') \<rparr>
      | Os_error msg \<Rightarrow> Inr \<lparr> returncode = 127, stdout = [], stderr = msg \<rparr>
      | Raised e \<Rightarrow> Inl e, s\<lparr>inj_world := w\<rparr>))"

definition docker_cmd :: "'w env \<Rightarrow> string \<Rightarrow> string list \<Rightarrow> string list" where
  "docker_cmd env container cmd_args = env_docker_prefix env @ [''docker'', ''exec'', container] @ cmd_args"

definition docker_exec :: "'w env \<Rightarrow> string \<Rightarrow> string list \<Rightarrow> ('w injector, proc) io" where
  "docker_exec env container cmd_args = run_cmd env (docker_cmd env container cmd_args) 30"

definition container_is_running :: "'w env \<Rightarrow> string \<Rightarrow> ('w injector, bool option) io" where
  "container_is_running env container =
     ibind (run_cmd env (env_docker_prefix env @ [''docker'', ''inspect'', ''-f'', ''{{.State.Running}}'', container]) 10) (\<lambda>r.
     ireturn (if returncode r \<noteq> 0 then None
              else let state = py_lower (py_strip (stdout r)) in
                if state = ''true'' then Some True else if state = ''false'' then Some False else None))"

subsection \<open>The topology of the lab\<close>

definition clab_container_name :: "string \<Rightarrow> string \<Rightarrow> string" where
  "clab_container_name lab dev = ''clab-'' @ lab @ ''-'' @ dev"

definition container_names :: "topology_manifest \<Rightarrow> (string, string) dict" where
  "container_names m = dict_of (map (\<lambda>d. (dev_name d, clab_container_name (top_name m) (dev_name d))) (devices m))"

definition clients_by_leaf :: "topology_manifest \<Rightarrow> (string, device list) dict" where
  "clients_by_leaf m = group_by (\<lambda>c. py_strip (as_text (attached_switch c)))
     (filter (\<lambda>c. py_strip (as_text (attached_switch c)) \<noteq> []) (clients m))"

definition container_of :: "'w env \<Rightarrow> string \<Rightarrow> ('w injector, string) io" where
  "container_of env device = (case map_of (container_names (env_manifest env)) device of
       None \<Rightarrow> ithrow (ValueError (''Unknown device: '' @ device))
     | Some c \<Rightarrow> ireturn c)"

subsection \<open>SONiC\<close>

definition vtysh_args :: "string list \<Rightarrow> string list" where
  "vtysh_args commands = ''vtysh'' # concat (map (\<lambda>c. [''-c'', c]) commands)"

definition vtysh :: "'w env \<Rightarrow> string \<Rightarrow> string list \<Rightarrow> ('w injector, proc) io" where
  "vtysh env device commands =
     ibind (container_of env device) (\<lambda>container.
     ibind (docker_exec env container (vtysh_args commands)) (\<lambda>result.
     if returncode result = 0 \<and> ''write memory'' \<in> set commands
     then ibind (docker_exec env container [''chmod'', ''a+r'', ''/etc/frr/frr.conf'']) (\<lambda>readable.
       ireturn (if returncode readable \<noteq> 0
         then result\<lparr>returncode := returncode readable,
                stderr := or_else (stderr readable) ''Saved FRR configuration could not be made readable''\<rparr>
         else result))
     else ireturn result))"

definition config_cmd :: "'w env \<Rightarrow> string \<Rightarrow> string list \<Rightarrow> ('w injector, proc) io" where
  "config_cmd env device args = ibind (container_of env device) (\<lambda>container. docker_exec env container (''config'' # args))"

definition supervisord_ready :: "'w env \<Rightarrow> string \<Rightarrow> ('w injector, bool) io" where
  "supervisord_ready env container =
     ibind (run_cmd env (docker_cmd env container [''supervisorctl'', ''pid'']) 10) (\<lambda>r.
     ireturn (returncode r = 0 \<and> py_isdigit (py_strip (stdout r))))"

definition bgp_neighbor_states :: "string \<Rightarrow> string list" where
  "bgp_neighbor_states output = concat (map (\<lambda>raw_line. let line = py_strip raw_line; parts = py_split line in
     if dotted_prefix 3 line \<and> 10 \<le> length parts then [parts ! 9] else []) (splitlines output))"

definition bgp_neighbors_established :: "'w env \<Rightarrow> string \<Rightarrow> ('w injector, bool) io" where
  "bgp_neighbors_established env device =
     ibind (vtysh env device [''show ip bgp summary'']) (\<lambda>r.
     ireturn (let output = stdout r @ [char_of (10 :: nat)] @ stderr r; output_lower = py_lower output in
       if returncode r \<noteq> 0 \<or> contains ''bgpd is not running'' output_lower
          \<or> contains ''failed to connect to any daemons'' output_lower \<or> contains ''% bgp instance not found'' output_lower
       then False
       else let states = bgp_neighbor_states output in states \<noteq> [] \<and> list_all py_isdigit states))"

definition bgp_neighbor_state :: "'w env \<Rightarrow> string \<Rightarrow> string \<Rightarrow> ('w injector, bool option) io" where
  "bgp_neighbor_state env device peer_ip =
     ibind (vtysh env device [''show ip bgp summary'']) (\<lambda>r.
     ireturn (if returncode r \<noteq> 0 then None
       else case find (\<lambda>parts. 10 \<le> length parts \<and> parts ! 0 = peer_ip) (map py_split (splitlines (stdout r))) of
              None \<Rightarrow> Some False
            | Some parts \<Rightarrow> Some (py_isdigit (parts ! 9))))"

subsection \<open>Interface MTUs\<close>

definition SONIC_MIN_INTERFACE_MTU :: int where "SONIC_MIN_INTERFACE_MTU = 68"
definition SONIC_MAX_INTERFACE_MTU :: int where "SONIC_MAX_INTERFACE_MTU = 9216"
definition SONIC_DEFAULT_INTERFACE_MTU :: int where "SONIC_DEFAULT_INTERFACE_MTU = 9100"

definition valid_mtu :: "int \<Rightarrow> bool" where
  "valid_mtu n = (SONIC_MIN_INTERFACE_MTU \<le> n \<and> n \<le> SONIC_MAX_INTERFACE_MTU)"

definition is_valid_sonic_mtu :: "pyval \<Rightarrow> bool" where
  "is_valid_sonic_mtu v = (case int_of_val v of Inl _ \<Rightarrow> False | Inr n \<Rightarrow> valid_mtu n)"

text \<open>A text that is a valid MTU, as a number.\<close>

definition mtu_of_text :: "string \<Rightarrow> int option" where
  "mtu_of_text s = (case parse_int s of None \<Rightarrow> None | Some n \<Rightarrow> if valid_mtu n then Some n else None)"

fun mtu_after :: "string list \<Rightarrow> int option" where
  "mtu_after (t # c # ts) = (if t = ''mtu'' then mtu_of_text c else mtu_after (c # ts))"
| "mtu_after _ = None"

definition parse_link_mtu :: "string \<Rightarrow> int option" where
  "parse_link_mtu output = mtu_after (py_split output)"

definition count_mtu :: "int \<Rightarrow> (int, int) dict \<Rightarrow> (int, int) dict" where
  "count_mtu m counts = AList.update m (dict_get counts m 0 + 1) counts"

text \<open>\<open>max(items, key=lambda item: (item[1], item[0]))\<close>.\<close>

definition most_common :: "(int, int) dict \<Rightarrow> int" where
  "most_common counts = snd (Max (set (map (\<lambda>(m, c). (c, m)) counts)))"

definition port_mtu :: "'w env \<Rightarrow> string \<Rightarrow> string \<Rightarrow> ('w injector, int option) io" where
  "port_mtu env container key =
     ibind (docker_exec env container [''sonic-db-cli'', ''CONFIG_DB'', ''hget'', key, ''mtu'']) (\<lambda>r.
     ireturn (mtu_of_text (py_strip (stdout r))))"

definition get_common_port_mtu :: "'w env \<Rightarrow> string \<Rightarrow> string \<Rightarrow> ('w injector, int) io" where
  "get_common_port_mtu env device exclude =
     ibind (container_of env device) (\<lambda>container.
     ibind (docker_exec env container [''sonic-db-cli'', ''CONFIG_DB'', ''keys'', ''PORT|*'']) (\<lambda>r.
     let keys = (if returncode r = 0
                 then filter (\<lambda>k. starts_with k ''PORT|'' \<and> \<not> (exclude \<noteq> [] \<and> k = ''PORT|'' @ exclude)) (map py_strip (splitlines (stdout r)))
                 else [])
     in ibind (imapM (port_mtu env container) keys) (\<lambda>mtus.
        let counts = fold count_mtu (concat (map (\<lambda>m. case m of None \<Rightarrow> [] | Some n \<Rightarrow> [n]) mtus)) []
        in ireturn (if counts \<noteq> [] then most_common counts else SONIC_DEFAULT_INTERFACE_MTU))))"

definition get_interface_mtu :: "'w env \<Rightarrow> string \<Rightarrow> string \<Rightarrow> ('w injector, int) io" where
  "get_interface_mtu env device sonic_interface =
     ibind (container_of env device) (\<lambda>container.
     ibind (docker_exec env container [''ip'', ''-o'', ''link'', ''show'', ''dev'', sonic_interface]) (\<lambda>r.
     case parse_link_mtu (if returncode r = 0 then stdout r else []) of
       Some n \<Rightarrow> ireturn n
     | None \<Rightarrow>
         ibind (docker_exec env container [''sonic-db-cli'', ''CONFIG_DB'', ''hget'', ''PORT|'' @ sonic_interface, ''mtu'']) (\<lambda>r2.
         case mtu_of_text (py_strip (stdout r2)) of
           Some n \<Rightarrow> ireturn n
         | None \<Rightarrow> get_common_port_mtu env device sonic_interface)))"

definition resolve_recovery_mtu :: "'w env \<Rightarrow> string \<Rightarrow> string \<Rightarrow> pyval \<Rightarrow> ('w injector, pyval) io" where
  "resolve_recovery_mtu env device sonic_interface original_mtu =
     (if original_mtu \<noteq> PNone \<and> is_valid_sonic_mtu original_mtu then ireturn original_mtu
      else ibind (get_common_port_mtu env device sonic_interface) (\<lambda>n. ireturn (PInt n)))"

subsection \<open>Frames and reads\<close>

text \<open>A computation that neither reads nor changes the tracked faults, and one that changes nothing.\<close>

named_theorems frame_intros "computations that leave the tracked faults alone"
named_theorems pure_intros "computations that change nothing"

definition frame :: "('w injector, 'a) io \<Rightarrow> bool" where
  "frame m = (\<forall>s fs. m (s\<lparr>active_faults := fs\<rparr>) = (fst (m s), (snd (m s))\<lparr>active_faults := fs\<rparr>))"

definition pure_io :: "('s, 'a) io \<Rightarrow> bool" where
  "pure_io m = (\<forall>s. snd (m s) = s)"

lemma frameI: "(\<And>s fs. m (s\<lparr>active_faults := fs\<rparr>) = (fst (m s), (snd (m s))\<lparr>active_faults := fs\<rparr>)) \<Longrightarrow> frame m"
  by (simp add: frame_def)

lemma frame_active: "frame m \<Longrightarrow> active_faults (snd (m s)) = active_faults s"
  unfolding frame_def by (metis prod.sel(2) injector.unfold_congs(3) injector.select_convs(3) injector.surjective injector.update_convs(3))

lemma frame_simple [frame_intros]: "frame (ireturn x)" "frame (ithrow e)" "frame (ilift r)"
  by (simp_all add: frame_def)

lemma frame_bind [frame_intros]:
  assumes "frame m" and "\<And>x. frame (f x)"
  shows "frame (ibind m f)"
proof (rule frameI)
  fix s :: "'a injector" and fs
  obtain r s1 where m: "m s = (r, s1)" by fastforce
  then have m': "m (s\<lparr>active_faults := fs\<rparr>) = (r, s1\<lparr>active_faults := fs\<rparr>)"
    using assms(1) by (simp add: frame_def)
  show "ibind m f (s\<lparr>active_faults := fs\<rparr>) = (fst (ibind m f s), snd (ibind m f s)\<lparr>active_faults := fs\<rparr>)"
  proof (cases r)
    case (Inr x)
    then show ?thesis using m m' assms(2) [of x] by (simp add: ibind_def frame_def)
  qed (use m m' in \<open>simp add: ibind_def\<close>)
qed

lemma frame_run_cmd [frame_intros]: "frame (run_cmd env args t)"
  by (rule frameI) (auto simp: run_cmd_def split: prod.split)

lemma frame_imapM [frame_intros]: "(\<And>x. frame (f x)) \<Longrightarrow> frame (imapM f xs)"
  by (induction xs) (auto intro!: frame_intros)

lemma frame_if [frame_intros]: "(b \<Longrightarrow> frame m) \<Longrightarrow> (\<not> b \<Longrightarrow> frame n) \<Longrightarrow> frame (if b then m else n)"
  by simp

lemma frame_case_option [frame_intros]:
  "frame n \<Longrightarrow> (\<And>x. frame (f x)) \<Longrightarrow> frame (case o' of None \<Rightarrow> n | Some x \<Rightarrow> f x)"
  by (simp split: option.split)

lemma pure_simple [pure_intros]: "pure_io (ireturn x)" "pure_io (ithrow e)" "pure_io (ilift r)"
  by (simp_all add: pure_io_def)

lemma pure_bind [pure_intros]:
  assumes "pure_io m" and "\<And>x. pure_io (f x)"
  shows "pure_io (ibind m f)"
  unfolding pure_io_def
proof
  fix s
  obtain r where m: "m s = (r, s)" using assms(1) unfolding pure_io_def by (metis prod.collapse)
  then show "snd (ibind m f s) = s" using assms(2) by (cases r) (simp_all add: ibind_def pure_io_def)
qed

lemma pure_imapM [pure_intros]: "(\<And>x. pure_io (f x)) \<Longrightarrow> pure_io (imapM f xs)"
  by (induction xs) (auto intro!: pure_intros)

lemma pure_if [pure_intros]: "(b \<Longrightarrow> pure_io m) \<Longrightarrow> (\<not> b \<Longrightarrow> pure_io n) \<Longrightarrow> pure_io (if b then m else n)"
  by simp

lemma pure_case_option [pure_intros]:
  "pure_io n \<Longrightarrow> (\<And>x. pure_io (f x)) \<Longrightarrow> pure_io (case o' of None \<Rightarrow> n | Some x \<Rightarrow> f x)"
  by (simp split: option.split)

lemma pure_eq: "pure_io m \<Longrightarrow> m s = (r, s') \<Longrightarrow> s' = s"
  by (metis pure_io_def prod.sel(2))

text \<open>The commands that only read a node.\<close>

definition read_args :: "string list \<Rightarrow> bool" where
  "read_args a = ((length a = 3 \<and> take 2 a = [''vtysh'', ''-c''] \<and> starts_with (a ! 2) ''show '')
     \<or> take 4 a = [''ip'', ''-o'', ''link'', ''show'']
     \<or> take 3 a = [''sonic-db-cli'', ''CONFIG_DB'', ''hget''] \<or> take 3 a = [''sonic-db-cli'', ''CONFIG_DB'', ''keys'']
     \<or> take 3 a = [''tc'', ''qdisc'', ''show''] \<or> take 4 a = [''tc'', ''-j'', ''qdisc'', ''show'']
     \<or> take 2 a = [''sysctl'', ''-n''])"

definition reads_pure :: "'w env \<Rightarrow> bool" where
  "reads_pure env = (\<forall>container args t w. read_args args \<longrightarrow> snd (env_run env (docker_cmd env container args) t w) = w)"

lemma docker_read_pure:
  assumes "reads_pure env" and "read_args args"
  shows "pure_io (docker_exec env container args)"
  unfolding pure_io_def
proof
  fix s :: "'a injector"
  have "snd (env_run env (docker_cmd env container args) 30 (inj_world s)) = inj_world s"
    using assms by (simp add: reads_pure_def)
  then show "snd (docker_exec env container args s) = s"
    by (cases "env_run env (docker_cmd env container args) 30 (inj_world s)") (simp add: docker_exec_def run_cmd_def)
qed

lemma frame_services [frame_intros]:
  "frame (docker_exec env container args)" "frame (container_of env device)" "frame (vtysh env device cs)"
  "frame (config_cmd env device as)" "frame (container_is_running env container)" "frame (port_mtu env container key)"
  unfolding docker_exec_def container_of_def vtysh_def config_cmd_def container_is_running_def port_mtu_def
  by (auto intro!: frame_intros)

lemma pure_container_of [pure_intros]: "pure_io (container_of env device)"
  unfolding container_of_def by (auto intro!: pure_intros)

lemma pure_show:
  assumes "reads_pure env" and "starts_with c ''show ''" and "c \<noteq> ''write memory''"
  shows "pure_io (vtysh env device [c])"
proof -
  have "read_args (vtysh_args [c])" using assms(2) by (simp add: vtysh_args_def read_args_def)
  then show ?thesis unfolding vtysh_def using assms by (auto intro!: pure_intros docker_read_pure)
qed

lemma frame_mtu [frame_intros]: "frame (get_common_port_mtu env device ex)" "frame (get_interface_mtu env device i)"
  unfolding get_interface_mtu_def get_common_port_mtu_def Let_def by (auto intro!: frame_intros)

lemma pure_mtu:
  assumes "reads_pure env"
  shows "pure_io (get_common_port_mtu env device ex)" "pure_io (get_interface_mtu env device i)"
proof -
  note rd = docker_read_pure [OF assms]
  have "pure_io (port_mtu env c key)" for c key
    unfolding port_mtu_def by (intro pure_intros rd) (simp add: read_args_def)
  then show common: "pure_io (get_common_port_mtu env device ex)" for ex
    unfolding get_common_port_mtu_def Let_def by (intro pure_intros rd) (simp_all add: read_args_def)
  show "pure_io (get_interface_mtu env device i)"
    unfolding get_interface_mtu_def by (intro pure_intros rd common) (simp_all add: read_args_def)
qed

subsection \<open>MTUs read back are valid\<close>

lemma mtu_of_text_valid: "mtu_of_text t = Some n \<Longrightarrow> valid_mtu n"
  by (auto simp: mtu_of_text_def split: option.splits if_splits)

lemma mtu_after_valid: "mtu_after ts = Some n \<Longrightarrow> valid_mtu n"
  by (induction ts rule: mtu_after.induct) (auto dest: mtu_of_text_valid split: if_splits)

lemma count_mtu_keys: "fst ` set (fold count_mtu ms d) \<subseteq> set ms \<union> fst ` set d"
proof (induction ms arbitrary: d)
  case (Cons m ms)
  have "fst ` set (count_mtu m d) \<subseteq> insert m (fst ` set d)"
    using set_alist_update [of m "dict_get d m 0 + 1" d] by (force simp: count_mtu_def)
  with Cons.IH [of "count_mtu m d"] have "fst ` set (fold count_mtu ms (count_mtu m d)) \<subseteq> set ms \<union> insert m (fst ` set d)" by blast
  then show ?case by auto
qed simp

lemma most_common_key:
  assumes "counts \<noteq> []"
  shows "most_common counts \<in> fst ` set counts"
proof -
  have "Max (set (map (\<lambda>(m, c). (c, m)) counts)) \<in> set (map (\<lambda>(m, c). (c, m)) counts)"
    using assms by (intro Max_in) auto
  then show ?thesis by (force simp: most_common_def)
qed

lemma imapM_results:
  assumes "imapM f xs s = (Inr ys, s')" and "\<And>x s y s'. f x s = (Inr y, s') \<Longrightarrow> P y"
  shows "\<forall>y \<in> set ys. P y"
  using assms(1)
proof (induction xs arbitrary: s ys)
  case (Cons x xs)
  then show ?case using assms(2) by (fastforce simp: ibind_eq_Inr)
qed simp

lemma common_mtu_valid:
  assumes "get_common_port_mtu env device ex s = (Inr n, s')"
  shows "valid_mtu n"
proof -
  obtain c keys mtus s1 where m: "imapM (port_mtu env c) keys s1 = (Inr mtus, s')"
    and n: "n = (let counts = fold count_mtu (concat (map (\<lambda>m. case m of None \<Rightarrow> [] | Some n \<Rightarrow> [n]) mtus)) []
               in if counts \<noteq> [] then most_common counts else SONIC_DEFAULT_INTERFACE_MTU)"
    using assms unfolding get_common_port_mtu_def Let_def ibind_eq_Inr by (auto simp del: imapM.simps simp: ireturn_def)
  let ?ms = "concat (map (\<lambda>m. case m of None \<Rightarrow> [] | Some n \<Rightarrow> [n]) mtus)"
  have "\<forall>m \<in> set mtus. \<forall>k. m = Some k \<longrightarrow> valid_mtu k"
    by (rule imapM_results [OF m]) (auto simp: port_mtu_def ibind_eq_Inr dest: mtu_of_text_valid)
  then have ms: "\<forall>k \<in> set ?ms. valid_mtu k" by (auto split: option.splits)
  show ?thesis
  proof (cases "fold count_mtu ?ms [] = []")
    case True
    then show ?thesis using n by (simp add: valid_mtu_def SONIC_MIN_INTERFACE_MTU_def SONIC_MAX_INTERFACE_MTU_def SONIC_DEFAULT_INTERFACE_MTU_def)
  next
    case False
    then have "n \<in> fst ` set (fold count_mtu ?ms [])" using n most_common_key by (simp add: Let_def)
    then show ?thesis using count_mtu_keys [of ?ms "[]"] ms by auto
  qed
qed

text \<open>Whatever a node answers, the MTU read for an interface is one that SONiC accepts, between 68 and 9216.\<close>

lemma interface_mtu_valid:
  assumes "get_interface_mtu env device i s = (Inr n, s')"
  shows "68 \<le> n \<and> n \<le> 9216"
proof -
  have "valid_mtu n"
    using assms common_mtu_valid
    by (auto simp: get_interface_mtu_def ibind_eq_Inr parse_link_mtu_def split: option.splits if_splits
        dest: mtu_after_valid mtu_of_text_valid)
  then show ?thesis by (simp add: valid_mtu_def SONIC_MIN_INTERFACE_MTU_def SONIC_MAX_INTERFACE_MTU_def)
qed

text \<open>A lab with one switch whose every command prints the same line.\<close>

definition echo_manifest :: topology_manifest where
  "echo_manifest = \<lparr> topology_id = ''dcn'', top_name = ''dcn'', scale = ''custom'', top_purpose = ''benchmark'', top_family = Clos_family,
     mgmt_network = ''m'', mgmt_subnet = ''172.20.20.0/24'', collector_ipv4 = ''172.20.20.200'', defaults = default_topology_defaults,
     facts = \<lparr> facts_spines = 1, facts_leafs = 0, facts_cores = 0, facts_aggs = 0, facts_edges = 0, facts_pods = 0,
       facts_clients_per_switch = 0, facts_total_clients = 0, facts_total_switches = 1, facts_fat_tree_k = None,
       facts_full_density = None, facts_host_density = None \<rparr>,
     devices = [\<lparr> dev_name = ''spine1'', role = SPINE, mgmt_ip = None, data_ip = None, attached_switch = None, asn = None,
       router_id = None, metadata = [] \<rparr>],
     links = [], routing = \<lparr> spine_asn_md = None, leaf_asn_range = None, core_asn_range = None, agg_asn_range = None,
       edge_asn_range = None, ecmp_hash_policy_by_role = [], ecmp = True, bfd = False \<rparr>,
     pingmesh = \<lparr> cross_rack_pairs = None, destination_batch_size = None, rtt_port_pool_size = 1, rtt_ports_per_cycle = 1,
       cycle_interval_seconds = 1, df_payload_size = 9072 \<rparr>, pingmesh_plan_opt = None \<rparr>"

definition echo_env :: "string \<Rightarrow> unit env" where
  "echo_env text = \<lparr> env_run = \<lambda>cmd t w. (Completed \<lparr> returncode = 0, stdout = text, stderr = [] \<rparr>, w), env_docker_prefix = [],
     env_manifest = echo_manifest, env_json = \<lambda>_. Inl (ValueError []), env_frepr = \<lambda>_. ''0.0'' \<rparr>"

definition idle_injector :: "'w \<Rightarrow> 'w injector" where
  "idle_injector w = \<lparr> inj_world = w, inj_registry = new_registry, active_faults = [], background_controls = [] \<rparr>"

end
