(* ===== verification/Route_Handlers.thy ===== *)
theory Route_Handlers
  imports Fault_Services
begin

text \<open>
  \<open>faults/handlers/routing_static.py\<close>: the handlers of blackhole routes and of static routes with a wrong
  next hop. An injection configures the route, reads it back from the running configuration and from the
  operational table, and on any failure removes the route again; what cannot be verified as removed is
  tracked as a residual fault.
  Shown, when reads are pure: a successful injection leaves the route configured and operational and the
  fault tracked; a failed one leaves a residual fault tracked or the route verifiably absent.
\<close>

subsection \<open>Reading routes\<close>

definition normalize_line :: "string \<Rightarrow> string" where
  "normalize_line line = join '' '' (py_split (py_strip line))"

definition running_config_contains :: "'w env \<Rightarrow> string \<Rightarrow> string \<Rightarrow> ('w injector, bool option) io" where
  "running_config_contains env device statement =
     ibind (vtysh env device [''show running-config'']) (\<lambda>r.
     ireturn (if returncode r \<noteq> 0 then None
       else Some (list_ex (\<lambda>line. normalize_line line = join '' '' (py_split statement)) (splitlines (stdout r)))))"

definition running_config_has_route :: "'w env \<Rightarrow> string \<Rightarrow> string \<Rightarrow> ('w injector, bool option) io" where
  "running_config_has_route env device target =
     ibind (vtysh env device [''show running-config'']) (\<lambda>r.
     ireturn (if returncode r \<noteq> 0 then None
       else Some (list_ex (\<lambda>line. starts_with (normalize_line line) (''ip route '' @ target @ '' '')) (splitlines (stdout r)))))"

definition operational_route :: "'w env \<Rightarrow> string \<Rightarrow> string \<Rightarrow> ('w injector, string option) io" where
  "operational_route env device target =
     ibind (vtysh env device [''show ip route '' @ target]) (\<lambda>r. ireturn (if returncode r \<noteq> 0 then None else Some (stdout r)))"

text \<open>\<open>\\b(?:blackhole|discard|Null0)\\b\<close>, ignoring case.\<close>

definition blackhole_word :: "string \<Rightarrow> bool" where
  "blackhole_word output = (re_search (\<lambda>prev s.
     if list_ex (\<lambda>w. whole_word w prev s) [''blackhole'', ''discard'', ''null0''] then Some () else None) None (py_lower output) \<noteq> None)"

definition operational_blackhole_present :: "'w env \<Rightarrow> string \<Rightarrow> string \<Rightarrow> ('w injector, bool option) io" where
  "operational_blackhole_present env device target =
     ibind (operational_route env device target) (\<lambda>o'.
     ireturn (case o' of None \<Rightarrow> None | Some output \<Rightarrow> Some (contains target output \<and> blackhole_word output)))"

text \<open>\<open>\\b(?:via\\s+)?nexthop\\b\<close>.\<close>

definition via_match :: "string \<Rightarrow> char option \<Rightarrow> string \<Rightarrow> bool" where
  "via_match nexthop prev s = (whole_word nexthop prev s \<or>
     (boundary prev s \<and> starts_with s ''via'' \<and> (case skip_spaces (drop 3 s) of
        None \<Rightarrow> False
      | Some r \<Rightarrow> starts_with r nexthop \<and> boundary (Some (last nexthop)) (drop (length nexthop) r))))"

definition nexthop_in :: "string \<Rightarrow> string \<Rightarrow> bool" where
  "nexthop_in nexthop output = (re_search (\<lambda>prev s. if via_match nexthop prev s then Some () else None) None output \<noteq> None)"

definition operational_nexthop_present :: "'w env \<Rightarrow> string \<Rightarrow> string \<Rightarrow> string \<Rightarrow> ('w injector, bool option) io" where
  "operational_nexthop_present env device target nexthop =
     ibind (operational_route env device target) (\<lambda>o'.
     ireturn (case o' of None \<Rightarrow> None | Some output \<Rightarrow> Some (contains target output \<and> nexthop_in nexthop output)))"

subsection \<open>Choosing targets\<close>

text \<open>The clients of a validated manifest have an address and a switch; a missing one counts as empty.\<close>

definition before_slash :: "string \<Rightarrow> string" where
  "before_slash s = takeWhile (\<lambda>c. c \<noteq> CHR ''/'') s"

definition pick_reachable_wrong_nexthop :: "topology_manifest \<Rightarrow> string \<Rightarrow> string \<Rightarrow> string option" where
  "pick_reachable_wrong_nexthop m device target_ip =
     (let target = before_slash target_ip;
          candidates = filter (\<lambda>c. opt_truthy (data_ip c) \<and> data_ip c \<noteq> Some target) (clients m);
          local = filter (\<lambda>c. data_ip c \<noteq> Some target) (dict_get (clients_by_leaf m) device []);
          pool = sort_key dev_name (if local \<noteq> [] then local else candidates)
      in if clients m = [] \<or> candidates = [] then None else data_ip (hd pool))"

definition pick_remote_client_host_route :: "topology_manifest \<Rightarrow> string \<Rightarrow> string option" where
  "pick_remote_client_host_route m device =
     (let candidates = filter (\<lambda>c. opt_truthy (data_ip c)) (clients m);
          remote = filter (\<lambda>c. attached_switch c \<noteq> Some device) candidates;
          chosen = hd (sort_key (\<lambda>c. (as_text (attached_switch c), dev_name c)) (if remote \<noteq> [] then remote else candidates));
          ip_str = py_strip (before_slash (as_text (data_ip chosen)))
      in if candidates = [] \<or> ip_str = [] then None else Some (ip_str @ ''/32''))"

definition resolve_static_route_target_ip :: "'w env \<Rightarrow> string \<Rightarrow> pyval \<Rightarrow> string option" where
  "resolve_static_route_target_ip env device target_ip =
     (let raw = py_strip (str_or_empty (env_frepr env) target_ip) in
      if raw = [] \<or> py_lower raw = ''auto'' then pick_remote_client_host_route (env_manifest env) device
      else if CHR ''/'' \<notin> set raw then Some (raw @ ''/32'') else Some raw)"

subsection \<open>Handlers\<close>

definition iand :: "('s, bool) io \<Rightarrow> ('s, bool) io \<Rightarrow> ('s, bool) io" where
  "iand a b = ibind a (\<lambda>x. if x then b else ireturn False)"

definition iis :: "('s, 'a) io \<Rightarrow> 'a \<Rightarrow> ('s, bool) io" where
  "iis a v = ibind a (\<lambda>x. ireturn (x = v))"

definition item_is :: "active_fault \<Rightarrow> string \<Rightarrow> string \<Rightarrow> bool res" where
  "item_is f k v = rbind (af_item f k) (\<lambda>x. Inr (x = PStr v))"

definition rand :: "bool res \<Rightarrow> bool res \<Rightarrow> bool res" where
  "rand a b = rbind a (\<lambda>x. if x then b else Inr False)"

definition error_or :: "bool \<Rightarrow> string \<Rightarrow> string \<Rightarrow> pyval" where
  "error_or ok err dflt = (if ok then PNone else PStr (or_else err dflt))"

definition track_failed_compensation :: "'w env \<Rightarrow> pydict \<Rightarrow> pydict \<Rightarrow> ('w injector, pydict) io" where
  "track_failed_compensation env fault_info rollback =
     (if get_val rollback ''recovered'' = PBool True then ireturn fault_info
      else let err = join_nonempty [str_or_empty (env_frepr env) (get_val fault_info ''error''),
                       or_else (str_or_empty (env_frepr env) (get_val rollback ''error'')) ''route compensation failed''];
               info = AList.update ''error'' (PStr err) fault_info
           in ibind (track_residual info err) (\<lambda>_. ireturn info))"

definition blackhole_statement :: "string \<Rightarrow> string" where
  "blackhole_statement prefix = ''ip route '' @ prefix @ '' Null0''"

definition recover_blackhole_route :: "'w env \<Rightarrow> string \<Rightarrow> string \<Rightarrow> ('w injector, pydict) io" where
  "recover_blackhole_route env device prefix =
     ibind (container_of env device) (\<lambda>_.
     ibind (vtysh env device [''configure terminal'', ''no ip route '' @ prefix @ '' Null0'', ''end'', ''write memory'']) (\<lambda>result.
     ibind (iand (ireturn (returncode result = 0))
             (iand (iis (running_config_contains env device (blackhole_statement prefix)) (Some False))
                   (iis (operational_blackhole_present env device prefix) (Some False)))) (\<lambda>removed.
     ibind (if removed then remove_faults (\<lambda>f. rand (item_is f ''type'' ''blackhole_route'')
              (rand (item_is f ''device'' device) (item_is f ''prefix'' prefix))) else ireturn ()) (\<lambda>_.
     ireturn [(''type'', PStr ''blackhole_route''), (''device'', PStr device), (''prefix'', PStr prefix),
       (''recovered'', PBool removed), (''error'', error_or removed (stderr result) ''blackhole route remained in running config'')]))))"

definition inject_blackhole_route :: "'w env \<Rightarrow> string \<Rightarrow> string \<Rightarrow> ('w injector, pydict) io" where
  "inject_blackhole_route env device prefix =
     ibind (container_of env device) (\<lambda>_.
     ibind (running_config_has_route env device prefix) (\<lambda>present.
     if present \<noteq> Some False then ithrow (RuntimeError ''Cannot safely own an existing or unreadable static route'')
     else
     ibind (vtysh env device [''configure terminal'', blackhole_statement prefix, ''end'', ''write memory'']) (\<lambda>result.
     ibind (iand (ireturn (returncode result = 0))
             (iand (iis (running_config_contains env device (blackhole_statement prefix)) (Some True))
                   (iis (operational_blackhole_present env device prefix) (Some True)))) (\<lambda>success.
     let fault_info = [(''type'', PStr ''blackhole_route''), (''device'', PStr device), (''prefix'', PStr prefix),
           (''success'', PBool success),
           (''error'', error_or success (stderr result) (''blackhole route was not operational: '' @ blackhole_statement prefix))]
     in if success then ibind (track fault_info) (\<lambda>_. ireturn fault_info)
        else ibind (recover_blackhole_route env device prefix) (track_failed_compensation env fault_info)))))"

definition static_statement :: "string \<Rightarrow> string \<Rightarrow> string" where
  "static_statement target_ip nexthop = ''ip route '' @ target_ip @ '' '' @ nexthop"

definition recover_static_route_misconfig :: "'w env \<Rightarrow> string \<Rightarrow> string \<Rightarrow> string \<Rightarrow> ('w injector, pydict) io" where
  "recover_static_route_misconfig env device target_ip wrong_nexthop =
     ibind (container_of env device) (\<lambda>_.
     if wrong_nexthop = [] then ithrow (ValueError ''Recovery requires the owned next hop'')
     else
     ibind (vtysh env device [''configure terminal'', ''no '' @ static_statement target_ip wrong_nexthop, ''end'', ''write memory'']) (\<lambda>result.
     ibind (iand (ireturn (returncode result = 0))
             (iand (iis (running_config_has_route env device target_ip) (Some False))
                   (iis (operational_nexthop_present env device target_ip wrong_nexthop) (Some False)))) (\<lambda>removed.
     ibind (if removed then remove_faults (\<lambda>f. rand (item_is f ''type'' ''static_route_misconfig'')
              (rand (item_is f ''device'' device) (item_is f ''target_ip'' target_ip))) else ireturn ()) (\<lambda>_.
     ireturn [(''type'', PStr ''static_route_misconfig''), (''device'', PStr device), (''target_ip'', PStr target_ip),
       (''wrong_nexthop'', PStr wrong_nexthop), (''recovered'', PBool removed),
       (''error'', error_or removed (stderr result) ''static route remained in running config'')]))))"

text \<open>The wrong next hop: the given one, or a chosen one for \<open>auto\<close>.\<close>

definition resolve_wrong_nexthop :: "'w env \<Rightarrow> string \<Rightarrow> string \<Rightarrow> pyval \<Rightarrow> pyval res" where
  "resolve_wrong_nexthop env device target_ip wrong_nexthop =
     (if \<not> truthy wrong_nexthop \<or> py_lower (py_str (env_frepr env) wrong_nexthop) = ''auto''
      then case pick_reachable_wrong_nexthop (env_manifest env) device target_ip of
             Some (c # cs) \<Rightarrow> Inr (PStr (c # cs))
           | _ \<Rightarrow> Inl (RuntimeError (''Unable to determine reachable wrong next-hop from topology metadata: device='' @ device @ '' target_ip='' @ target_ip))
      else Inr wrong_nexthop)"

definition require_forwarding_disabled :: "'w env \<Rightarrow> device \<Rightarrow> ('w injector, unit) io" where
  "require_forwarding_disabled env client =
     ibind (case map_of (container_names (env_manifest env)) (dev_name client) of
              None \<Rightarrow> ithrow (KeyError (dev_name client)) | Some c \<Rightarrow> ireturn c) (\<lambda>container.
     ibind (docker_exec env container [''sysctl'', ''-n'', ''net.ipv4.ip_forward'']) (\<lambda>r.
     if returncode r \<noteq> 0 \<or> py_strip (stdout r) \<noteq> ''0'' then ithrow (RuntimeError ''Wrong endpoint must have IP forwarding disabled'')
     else ireturn ()))"

definition inject_static_route ::
  "'w env \<Rightarrow> string \<Rightarrow> string \<Rightarrow> string \<Rightarrow> ('w injector, pydict) io" where
  "inject_static_route env device target_ip nexthop =
     ibind (running_config_has_route env device target_ip) (\<lambda>present.
     if present \<noteq> Some False then ithrow (RuntimeError ''Cannot safely own an existing or unreadable static route'')
     else
     ibind (vtysh env device [''configure terminal'', static_statement target_ip nexthop, ''end'', ''write memory'']) (\<lambda>result.
     ibind (iand (ireturn (returncode result = 0))
             (iand (iis (running_config_contains env device (static_statement target_ip nexthop)) (Some True))
                   (iis (operational_nexthop_present env device target_ip nexthop) (Some True)))) (\<lambda>success.
     let fault_info = [(''type'', PStr ''static_route_misconfig''), (''device'', PStr device), (''target_ip'', PStr target_ip),
           (''wrong_nexthop'', PStr nexthop), (''success'', PBool success),
           (''error'', error_or success (stderr result) (''static route was not operational: '' @ static_statement target_ip nexthop))]
     in if success then ibind (track fault_info) (\<lambda>_. ireturn fault_info)
        else ibind (recover_static_route_misconfig env device target_ip nexthop) (track_failed_compensation env fault_info))))"

definition inject_static_route_misconfig :: "'w env \<Rightarrow> string \<Rightarrow> pyval \<Rightarrow> pyval \<Rightarrow> ('w injector, pydict) io" where
  "inject_static_route_misconfig env device target_ip wrong_nexthop =
     ibind (container_of env device) (\<lambda>_.
     case resolve_static_route_target_ip env device target_ip of
       None \<Rightarrow> ithrow (RuntimeError (''Unable to determine target host route from topology metadata: device='' @ device))
     | Some target \<Rightarrow>
         ibind (ilift (resolve_wrong_nexthop env device target wrong_nexthop)) (\<lambda>nexthop.
         case find (\<lambda>c. opt_pv PStr (data_ip c) = nexthop) (dict_get (clients_by_leaf (env_manifest env)) device []) of
           None \<Rightarrow> ithrow (ValueError ''Wrong next hop must be another directly attached client'')
         | Some client \<Rightarrow>
             ibind (require_forwarding_disabled env client) (\<lambda>_.
             inject_static_route env device target (as_text (data_ip client)))))"

subsection \<open>Reads of the handlers\<close>

lemma route_reads_pure:
  assumes "reads_pure env"
  shows "pure_io (running_config_contains env d st)" "pure_io (running_config_has_route env d t)"
    "pure_io (operational_blackhole_present env d t)" "pure_io (operational_nexthop_present env d t n)"
  unfolding running_config_contains_def running_config_has_route_def operational_blackhole_present_def
    operational_nexthop_present_def operational_route_def
  by (intro pure_intros pure_show [OF assms]; simp add: starts_with_def)+

lemma route_reads_frame [frame_intros]:
  "frame (running_config_contains env d st)" "frame (running_config_has_route env d t)"
  "frame (operational_blackhole_present env d t)" "frame (operational_nexthop_present env d t n)"
  unfolding running_config_contains_def running_config_has_route_def operational_blackhole_present_def
    operational_nexthop_present_def operational_route_def
  by (intro frame_intros)+

lemma frame_fst: "frame m \<Longrightarrow> fst (m (s\<lparr>active_faults := fs\<rparr>)) = fst (m s)"
  by (simp add: frame_def)

lemma verify_eq:
  assumes "pure_io m" and "pure_io m'" and "iand (ireturn b) (iand (iis m v) (iis m' v')) s = (Inr x, s')"
  shows "s' = s \<and> (x \<longrightarrow> b \<and> fst (m s) = Inr v \<and> fst (m' s) = Inr v')"
proof -
  have m: "m s = (fst (m s), s)" "m' s = (fst (m' s), s)"
    using assms(1,2) by (simp_all add: pure_io_def prod_eq_iff)
  show ?thesis
    using assms(3) m by (cases "fst (m s)"; cases "fst (m' s)") (auto simp: iand_def iis_def ibind_def split: if_splits prod.splits)
qed

lemma track_eq: "track info s = (Inr f, s') \<longleftrightarrow> af_from_dict info = Inr f \<and> s' = s\<lparr>active_faults := active_faults s @ [f]\<rparr>"
  by (cases "af_from_dict info") (auto simp: track_def ibind_def)

lemma remove_faults_eq: "remove_faults p s = (Inr u, s') \<Longrightarrow> \<exists>kept. rfilter_out p (active_faults s) = Inr kept \<and> s' = s\<lparr>active_faults := kept\<rparr>"
  by (cases "rfilter_out p (active_faults s)") (auto simp: remove_faults_def ibind_def)

lemma rfilter_out_subset: "rfilter_out p xs = Inr ys \<Longrightarrow> set ys \<subseteq> set xs"
proof (induction xs arbitrary: ys)
  case (Cons x xs)
  then obtain b zs where "rfilter_out p xs = Inr zs" "ys = (if b then zs else x # zs)" by (auto simp: rbind_eq_Inr)
  then show ?case using Cons.IH [of zs] by (auto split: if_splits)
qed simp

text \<open>A residual fault: the returned information, marked as an unverified mutation.\<close>

definition residual_of :: "active_fault \<Rightarrow> pydict \<Rightarrow> bool" where
  "residual_of f info = (\<exists>err. get_val info ''error'' = PStr err \<and> af_from_dict (dict_update info
     [(''success'', PBool False), (''error'', PStr err), (''residual_mutation'', PBool True)]) = Inr f)"

lemma failed_compensation_cases:
  assumes "track_failed_compensation env info rb s = (Inr info', s')"
  shows "(get_val rb ''recovered'' = PBool True \<and> info' = info \<and> s' = s)
    \<or> (get_val rb ''recovered'' \<noteq> PBool True \<and> (\<exists>f err. info' = AList.update ''error'' (PStr err) info \<and> residual_of f info' \<and> s' = s\<lparr>active_faults := active_faults s @ [f]\<rparr>))"
proof (cases "get_val rb ''recovered'' = PBool True")
  case False
  then obtain err f where "info' = AList.update ''error'' (PStr err) info" "track_residual info' err s = (Inr f, s')"
    using assms by (auto simp: track_failed_compensation_def Let_def ibind_eq_Inr)
  moreover have "get_val (AList.update ''error'' (PStr err) info) ''error'' = PStr err" by (simp add: get_val_def AList.update_conv)
  ultimately show ?thesis using False by (auto simp: track_residual_def track_eq residual_of_def)
qed (use assms in \<open>simp add: track_failed_compensation_def\<close>)

lemma compensated_success: "get_val (AList.update ''error'' (PStr err) info) ''success'' = get_val info ''success''"
  by (simp add: get_val_def AList.update_conv)

subsection \<open>The transactions\<close>

text \<open>Removing a route: a configuration command, two read-backs, and the tracked fault forgotten when both
  say that the route is gone.\<close>

lemma removal_cases:
  assumes "frame pre" and m: "pure_io m" "frame m" and m': "pure_io m'" "frame m'"
    and out: "\<And>r b. get_val (out r b) ''recovered'' = PBool b"
    and run: "ibind pre (\<lambda>result. ibind (iand (ireturn (returncode result = 0)) (iand (iis m (Some False)) (iis m' (Some False)))) (\<lambda>removed.
       ibind (if removed then remove_faults p else ireturn ()) (\<lambda>_. ireturn (out result removed)))) s = (Inr rb, s')"
  shows "(get_val rb ''recovered'' = PBool True \<and> fst (m s') = Inr (Some False) \<and> fst (m' s') = Inr (Some False)
       \<and> set (active_faults s') \<subseteq> set (active_faults s))
    \<or> (get_val rb ''recovered'' = PBool False \<and> active_faults s' = active_faults s)"
proof -
  obtain result removed s2 s3 u where
    v: "pre s = (Inr result, s2)"
    and r: "iand (ireturn (returncode result = 0)) (iand (iis m (Some False)) (iis m' (Some False))) s2 = (Inr removed, s3)"
    and rm: "(if removed then remove_faults p else ireturn ()) s3 = (Inr u, s')" and rb: "rb = out result removed"
    using run unfolding ibind_eq_Inr by auto
  have act: "active_faults s2 = active_faults s" using frame_active [OF assms(1), of s] v by simp
  note ver = verify_eq [OF m(1) m'(1) r]
  show ?thesis
  proof (cases removed)
    case True
    then obtain kept where k: "rfilter_out p (active_faults s2) = Inr kept" "s' = s2\<lparr>active_faults := kept\<rparr>"
      using rm ver remove_faults_eq by fastforce
    then show ?thesis using True ver rb out act rfilter_out_subset [OF k(1)] m(2) m'(2) by (simp add: frame_fst)
  qed (use rm ver rb out act in auto)
qed

text \<open>Adding a route: the outcome of the command and of two read-backs decides between tracking the
  fault and running the compensation.\<close>

lemma injection_cases:
  assumes "frame pre" and m: "pure_io m" "frame m" and m': "pure_io m'" "frame m'"
    and out: "\<And>r b. get_val (out r b) ''success'' = PBool b"
    and rec: "\<And>s rb s'. recover s = (Inr rb, s') \<Longrightarrow>
       (get_val rb ''recovered'' = PBool True \<and> clean s' \<and> set (active_faults s') \<subseteq> set (active_faults s))
       \<or> (get_val rb ''recovered'' = PBool False \<and> active_faults s' = active_faults s)"
    and run: "ibind pre (\<lambda>result. ibind (iand (ireturn (returncode result = 0)) (iand (iis m (Some True)) (iis m' (Some True)))) (\<lambda>success.
       let info = out result success in if success then ibind (track info) (\<lambda>_. ireturn info)
         else ibind recover (track_failed_compensation env info))) s = (Inr info, s')"
  shows "if get_val info ''success'' = PBool True
     then fst (m s') = Inr (Some True) \<and> fst (m' s') = Inr (Some True)
       \<and> (\<exists>f. af_from_dict info = Inr f \<and> active_faults s' = active_faults s @ [f])
     else (clean s' \<and> set (active_faults s') \<subseteq> set (active_faults s))
       \<or> (\<exists>f. residual_of f info \<and> active_faults s' = active_faults s @ [f])"
proof -
  obtain result success s2 s3 where
    v: "pre s = (Inr result, s2)"
    and r: "iand (ireturn (returncode result = 0)) (iand (iis m (Some True)) (iis m' (Some True))) s2 = (Inr success, s3)"
    and fin: "(let info = out result success in if success then ibind (track info) (\<lambda>_. ireturn info)
         else ibind recover (track_failed_compensation env info)) s3 = (Inr info, s')"
    using run unfolding ibind_eq_Inr by auto
  have act: "active_faults s2 = active_faults s" using frame_active [OF assms(1), of s] v by simp
  note ver = verify_eq [OF m(1) m'(1) r]
  show ?thesis
  proof (cases success)
    case True
    then obtain f where "info = out result True" "af_from_dict info = Inr f" "s' = s2\<lparr>active_faults := active_faults s2 @ [f]\<rparr>"
      using fin ver by (auto simp: Let_def ibind_eq_Inr track_eq)
    then show ?thesis using True ver out act m(2) m'(2) by (auto simp: frame_fst)
  next
    case False
    then obtain rb s4 where rb: "recover s2 = (Inr rb, s4)" "track_failed_compensation env (out result False) rb s4 = (Inr info, s')"
      using fin ver by (auto simp: Let_def ibind_eq_Inr)
    have no: "get_val info ''success'' = PBool False"
      using failed_compensation_cases [OF rb(2)] out by (auto simp: compensated_success)
    from failed_compensation_cases [OF rb(2)] rec [OF rb(1)] act no show ?thesis by auto
  qed
qed

definition blackhole_reads :: "'w env \<Rightarrow> string \<Rightarrow> string \<Rightarrow> bool \<Rightarrow> 'w injector \<Rightarrow> bool" where
  "blackhole_reads env d p b s = (fst (running_config_contains env d (blackhole_statement p) s) = Inr (Some b)
     \<and> fst (operational_blackhole_present env d p s) = Inr (Some b))"

lemma recover_blackhole_cases:
  assumes "reads_pure env" and "recover_blackhole_route env d p s = (Inr rb, s')"
  shows "(get_val rb ''recovered'' = PBool True \<and> blackhole_reads env d p False s' \<and> set (active_faults s') \<subseteq> set (active_faults s))
    \<or> (get_val rb ''recovered'' = PBool False \<and> active_faults s' = active_faults s)"
proof -
  obtain c s1 where c: "container_of env d s = (Inr c, s1)"
    using assms(2) by (auto simp: recover_blackhole_route_def ibind_eq_Inr)
  then have "s1 = s" by (rule pure_eq [OF pure_container_of])
  then show ?thesis
    using removal_cases [OF _ route_reads_pure(1) [OF assms(1)] _ route_reads_pure(3) [OF assms(1)] _ _
        assms(2) [unfolded recover_blackhole_route_def ibind_run [of "container_of env d" s, OF c]]] c
    by (auto simp: blackhole_reads_def frame_intros get_val_def)
qed

text \<open>C15: when reading a node does not change it, an accepted injection of a blackhole route ends in one of
  three ways: reported as successful, with the route configured, operational and the fault tracked; reported
  as failed, with the route read back as absent and no fault added; or reported as failed with a residual
  fault tracked, so that recovery will retry.\<close>

theorem blackhole_transaction:
  assumes "reads_pure env" and "inject_blackhole_route env d p s = (Inr info, s')"
  shows "if get_val info ''success'' = PBool True
     then blackhole_reads env d p True s' \<and> (\<exists>f. af_from_dict info = Inr f \<and> active_faults s' = active_faults s @ [f])
     else (blackhole_reads env d p False s' \<and> set (active_faults s') \<subseteq> set (active_faults s))
       \<or> (\<exists>f. residual_of f info \<and> active_faults s' = active_faults s @ [f])"
proof -
  obtain c s1 where c: "container_of env d s = (Inr c, s1)"
    using assms(2) by (auto simp: inject_blackhole_route_def ibind_eq_Inr)
  then have s1: "s1 = s" by (rule pure_eq [OF pure_container_of])
  obtain present s2 where h: "running_config_has_route env d p s1 = (Inr present, s2)"
    using assms(2) unfolding inject_blackhole_route_def ibind_run [of "container_of env d" s, OF c] by (auto simp: ibind_eq_Inr)
  then have s2: "s2 = s" using pure_eq [OF route_reads_pure(2) [OF assms(1)]] s1 by blast
  have pr: "present = Some False"
    using assms(2) unfolding inject_blackhole_route_def ibind_run [of "container_of env d" s, OF c] ibind_run [of "running_config_has_route env d p" s1, OF h] by (auto split: if_splits)
  note run = assms(2) [unfolded inject_blackhole_route_def ibind_run [of "container_of env d" s, OF c] ibind_run [of "running_config_has_route env d p" s1, OF h] pr s2, simplified]
  show ?thesis
    using injection_cases [where clean = "blackhole_reads env d p False", OF _ route_reads_pure(1) [OF assms(1)] _ route_reads_pure(3) [OF assms(1)] _ _ recover_blackhole_cases [OF assms(1)] run]
    by (auto simp: frame_intros get_val_def blackhole_reads_def split: if_splits)
qed

definition static_installed :: "'w env \<Rightarrow> string \<Rightarrow> string \<Rightarrow> string \<Rightarrow> 'w injector \<Rightarrow> bool" where
  "static_installed env d t n s = (fst (running_config_contains env d (static_statement t n) s) = Inr (Some True)
     \<and> fst (operational_nexthop_present env d t n s) = Inr (Some True))"

definition static_absent :: "'w env \<Rightarrow> string \<Rightarrow> string \<Rightarrow> string \<Rightarrow> 'w injector \<Rightarrow> bool" where
  "static_absent env d t n s = (fst (running_config_has_route env d t s) = Inr (Some False)
     \<and> fst (operational_nexthop_present env d t n s) = Inr (Some False))"

lemma recover_static_cases:
  assumes "reads_pure env" and "recover_static_route_misconfig env d t n s = (Inr rb, s')"
  shows "(get_val rb ''recovered'' = PBool True \<and> static_absent env d t n s' \<and> set (active_faults s') \<subseteq> set (active_faults s))
    \<or> (get_val rb ''recovered'' = PBool False \<and> active_faults s' = active_faults s)"
proof -
  obtain c s1 where c: "container_of env d s = (Inr c, s1)"
    using assms(2) by (auto simp: recover_static_route_misconfig_def ibind_eq_Inr)
  then have s1: "s1 = s" by (rule pure_eq [OF pure_container_of])
  have n: "n \<noteq> []" using assms(2) unfolding recover_static_route_misconfig_def ibind_run [of "container_of env d" s, OF c] by auto
  note run = assms(2) [unfolded recover_static_route_misconfig_def ibind_run [of "container_of env d" s, OF c] s1 if_not_P [OF n]]
  show ?thesis
    using removal_cases [OF _ route_reads_pure(2) [OF assms(1)] _ route_reads_pure(4) [OF assms(1)] _ _ run]
    by (auto simp: static_absent_def frame_intros get_val_def)
qed

lemma static_route_cases:
  assumes "reads_pure env" and "inject_static_route env d t n s = (Inr info, s')"
  shows "if get_val info ''success'' = PBool True
     then static_installed env d t n s' \<and> (\<exists>f. af_from_dict info = Inr f \<and> active_faults s' = active_faults s @ [f])
     else (static_absent env d t n s' \<and> set (active_faults s') \<subseteq> set (active_faults s))
       \<or> (\<exists>f. residual_of f info \<and> active_faults s' = active_faults s @ [f])"
proof -
  obtain present s2 where h: "running_config_has_route env d t s = (Inr present, s2)"
    using assms(2) unfolding inject_static_route_def by (auto simp: ibind_eq_Inr)
  then have s2: "s2 = s" by (rule pure_eq [OF route_reads_pure(2) [OF assms(1)]])
  have pr: "present = Some False"
    using assms(2) unfolding inject_static_route_def ibind_run [of "running_config_has_route env d t" s, OF h] by (auto split: if_splits)
  note run = assms(2) [unfolded inject_static_route_def ibind_run [of "running_config_has_route env d t" s, OF h] pr s2, simplified]
  show ?thesis
    using injection_cases [where clean = "static_absent env d t n",
        OF _ route_reads_pure(1) [OF assms(1)] _ route_reads_pure(4) [OF assms(1)] _ _ recover_static_cases [OF assms(1)] run]
    by (simp add: frame_intros get_val_def static_installed_def)
qed

lemma forwarding_read:
  assumes "reads_pure env"
  shows "pure_io (require_forwarding_disabled env client)"
  unfolding require_forwarding_disabled_def
  by (intro pure_intros docker_read_pure [OF assms]) (simp add: read_args_def)

text \<open>An accepted injection of a wrong static route points at the address of a client attached to the device,
  and ends like a blackhole injection: installed and tracked, verifiably absent, or tracked as residual.\<close>

lemma static_route_transaction:
  assumes "reads_pure env" and "inject_static_route_misconfig env d target nexthop s = (Inr info, s')"
  shows "\<exists>t n c. resolve_static_route_target_ip env d target = Some t \<and> c \<in> set (dict_get (clients_by_leaf (env_manifest env)) d []) \<and> data_ip c = Some n \<and>
     (if get_val info ''success'' = PBool True
      then static_installed env d t n s' \<and> (\<exists>f. af_from_dict info = Inr f \<and> active_faults s' = active_faults s @ [f])
      else (static_absent env d t n s' \<and> set (active_faults s') \<subseteq> set (active_faults s))
        \<or> (\<exists>f. residual_of f info \<and> active_faults s' = active_faults s @ [f]))"
proof -
  obtain c0 s1 where c: "container_of env d s = (Inr c0, s1)"
    using assms(2) by (auto simp: inject_static_route_misconfig_def ibind_eq_Inr)
  then have s1: "s1 = s" by (rule pure_eq [OF pure_container_of])
  obtain t nh cl s2 where t: "resolve_static_route_target_ip env d target = Some t" and nh: "resolve_wrong_nexthop env d t nexthop = Inr nh"
    and cl: "find (\<lambda>c. opt_pv PStr (data_ip c) = nh) (dict_get (clients_by_leaf (env_manifest env)) d []) = Some cl"
    and fw: "require_forwarding_disabled env cl s = (Inr (), s2)"
    and run: "inject_static_route env d t (as_text (data_ip cl)) s2 = (Inr info, s')"
    using assms(2) [unfolded inject_static_route_misconfig_def ibind_run [of "container_of env d" s, OF c] s1]
    by (auto simp: ibind_eq_Inr split: option.splits)
  have s2: "s2 = s" by (rule pure_eq [OF forwarding_read [OF assms(1)] fw])
  have "nh \<noteq> PNone" using nh by (auto simp: resolve_wrong_nexthop_def split: if_splits option.splits list.splits)
  moreover have "opt_pv PStr (data_ip cl) = nh" "cl \<in> set (dict_get (clients_by_leaf (env_manifest env)) d [])"
    using cl by (auto simp: find_Some_iff)
  ultimately obtain n where n: "data_ip cl = Some n" by (cases "data_ip cl") (auto simp: opt_pv_def)
  have a: "as_text (data_ip cl) = n" by (simp add: n as_text_def)
  show ?thesis
    by (intro exI conjI, rule t, rule \<open>cl \<in> _\<close>, rule n, rule static_route_cases [OF assms(1) run [unfolded s2 a]])
qed

subsection \<open>A node that behaves\<close>

text \<open>A world in which every node stores the routes it is given: the lines of the running configuration.\<close>

definition demo_apply :: "string \<Rightarrow> string list \<Rightarrow> string list" where
  "demo_apply c w = (if starts_with c ''no '' then removeAll (drop 3 c) w else if starts_with c ''ip route '' then w @ [c] else w)"

definition demo_run :: "string list \<Rightarrow> int \<Rightarrow> string list \<Rightarrow> run_outcome \<times> string list" where
  "demo_run cmd t w = (let a = drop 3 cmd; ok = (\<lambda>out. Completed \<lparr> returncode = 0, stdout = out, stderr = [] \<rparr>);
       text = join [char_of (10 :: nat)] w in
     if read_args a then (ok (if take 1 a = [''sysctl''] then ''0'' else text), w)
     else if take 1 a = [''vtysh''] then (ok [], demo_apply (a ! 4) w) else (ok [], w))"

definition demo_client :: "string \<Rightarrow> string \<Rightarrow> device" where
  "demo_client name ip = \<lparr> dev_name = name, role = CLIENT, mgmt_ip = None, data_ip = Some ip, attached_switch = Some ''spine1'',
     asn = None, router_id = None, metadata = [] \<rparr>"

definition demo_env :: "string list env" where
  "demo_env = \<lparr> env_run = demo_run, env_docker_prefix = [], env_manifest = echo_manifest\<lparr>devices := devices echo_manifest
     @ [demo_client ''client1'' ''192.168.1.2'', demo_client ''client2'' ''192.168.1.6'']\<rparr>, env_json = \<lambda>_. Inl (ValueError []), env_frepr = \<lambda>_. ''0.0'' \<rparr>"

lemma demo_reads_pure: "reads_pure demo_env"
  by (simp add: reads_pure_def demo_env_def docker_cmd_def demo_run_def Let_def)

theorem blackhole_transaction_witness:
  "\<exists>info s'. inject_blackhole_route demo_env ''spine1'' ''10.9.0.0/16'' (idle_injector []) = (Inr info, s')
     \<and> blackhole_reads demo_env ''spine1'' ''10.9.0.0/16'' True s' \<and> length (active_faults s') = 1"
proof -
  let ?r = "inject_blackhole_route demo_env ''spine1'' ''10.9.0.0/16'' (idle_injector [])"
  have "(case fst ?r of Inl _ \<Rightarrow> False | Inr info \<Rightarrow> get_val info ''success'' = PBool True)" by code_simp
  then obtain info where i: "fst ?r = Inr info" "get_val info ''success'' = PBool True" by (auto split: sum.splits)
  then have r: "?r = (Inr info, snd ?r)" by (simp add: prod_eq_iff)
  from blackhole_transaction [OF demo_reads_pure r] i r show ?thesis
    by (intro exI [of _ info] exI [of _ "snd ?r"]) (auto simp: idle_injector_def)
qed

end
