(* ===== verification/Impairment_Handlers.thy ===== *)
theory Impairment_Handlers
  imports Route_Handlers
begin

text \<open>
  \<open>faults/handlers/impairment.py\<close>: packet corruption, loss and latency through a netem queueing discipline,
  and MTU mismatches. The three netem injections share one shape (\<open>inject_netem\<close>).
  Shown, when reads are pure: a reported success has been read back and is tracked; a reported failure
  has been undone verifiably, or is tracked as a residual fault.
\<close>

subsection \<open>Reading queueing disciplines\<close>

definition qdisc_show :: "string \<Rightarrow> string list" where
  "qdisc_show linux_if = [''tc'', ''qdisc'', ''show'', ''dev'', linux_if]"

text \<open>\<open>\\bimpairment(?:\\s+random)?\\s+([0-9]+(?:\\.[0-9]+)?)unit(?:\\s|$)\<close>.\<close>

definition netem_value :: "string \<Rightarrow> string \<Rightarrow> char option \<Rightarrow> string \<Rightarrow> string option" where
  "netem_value impairment unit prev s =
     (if boundary prev s \<and> starts_with s impairment
      then let r = drop (length impairment) s;
               r' = (case skip_spaces r of Some t \<Rightarrow> if starts_with t ''random'' then drop 6 t else r | None \<Rightarrow> r)
           in case skip_spaces r' of
                None \<Rightarrow> None
              | Some t \<Rightarrow> (case re_decimal t of
                    None \<Rightarrow> None
                  | Some (d, u) \<Rightarrow> if starts_with u unit \<and> (case drop (length unit) u of [] \<Rightarrow> True | c # _ \<Rightarrow> is_space c)
                                  then Some d else None)
      else None)"

definition qdisc_matches :: "'w env \<Rightarrow> string \<Rightarrow> string \<Rightarrow> string \<Rightarrow> pyval \<Rightarrow> string \<Rightarrow> ('w injector, bool) io" where
  "qdisc_matches env container linux_if impairment expected unit =
     ibind (docker_exec env container (qdisc_show linux_if)) (\<lambda>r.
     let output = py_lower (stdout r) in
     case re_search (netem_value impairment unit) None output of
       None \<Rightarrow> ireturn False
     | Some d \<Rightarrow> if returncode r = 0 \<and> contains ''netem'' output
                then ibind (ilift (float_of_val expected)) (\<lambda>x. ireturn (isclose_abs (fl (1 / 1000)) (float_of_decimal d) x))
                else ireturn False)"

definition is_default_kind :: "pyval \<Rightarrow> bool res" where
  "is_default_kind row = (case row of
       PDict d \<Rightarrow> (case get_val d ''kind'' of
           PList _ \<Rightarrow> Inl (TypeError ''unhashable type'') | PDict _ \<Rightarrow> Inl (TypeError ''unhashable type'')
         | k \<Rightarrow> Inr (k \<in> {PStr ''noqueue'', PStr ''pfifo_fast'', PStr ''mq''}))
     | _ \<Rightarrow> Inl (AttributeError ''get''))"

fun all_default :: "pyval list \<Rightarrow> bool res" where
  "all_default [] = Inr True"
| "all_default (row # rows) = rbind (is_default_kind row) (\<lambda>b. if b then all_default rows else Inr False)"

text \<open>Iterating over the parsed value: only a list has rows with a kind.\<close>

definition rows_default :: "pyval \<Rightarrow> bool res" where
  "rows_default v = (case v of
       PList rows \<Rightarrow> all_default rows
     | PDict d \<Rightarrow> if d = [] then Inr True else Inl (AttributeError ''get'')
     | PStr s \<Rightarrow> if s = [] then Inr True else Inl (AttributeError ''get'')
     | _ \<Rightarrow> Inl (TypeError ''object is not iterable''))"

definition require_default_qdisc :: "'w env \<Rightarrow> string \<Rightarrow> string \<Rightarrow> ('w injector, unit) io" where
  "require_default_qdisc env container interface =
     ibind (docker_exec env container [''tc'', ''-j'', ''qdisc'', ''show'', ''dev'', interface]) (\<lambda>r.
     if returncode r \<noteq> 0 then ithrow (RuntimeError ''Cannot inspect existing qdisc'')
     else ibind (ilift (env_json env (stdout r))) (\<lambda>rows.
          ibind (ilift (rows_default rows)) (\<lambda>ok.
          if ok then ireturn () else ithrow (RuntimeError ''Non-default qdisc exists; refusing to overwrite unowned state''))))"

definition has_netem_qdisc :: "'w env \<Rightarrow> string \<Rightarrow> string \<Rightarrow> ('w injector, bool option) io" where
  "has_netem_qdisc env container linux_if =
     ibind (docker_exec env container (qdisc_show linux_if)) (\<lambda>r.
     ireturn (if returncode r \<noteq> 0 then None else Some (contains ''netem'' (py_lower (stdout r)))))"

subsection \<open>Netem faults\<close>

definition remove_netem :: "'w env \<Rightarrow> string \<Rightarrow> string \<Rightarrow> ('w injector, proc \<times> bool) io" where
  "remove_netem env container linux_if =
     ibind (docker_exec env container [''tc'', ''qdisc'', ''del'', ''dev'', linux_if, ''root'']) (\<lambda>r.
     ibind (if returncode r \<in> {0, 2} then iis (has_netem_qdisc env container linux_if) (Some False) else ireturn False) (\<lambda>ok.
     ireturn (r, ok)))"

definition finish_netem_injection :: "'w env \<Rightarrow> string \<Rightarrow> string \<Rightarrow> bool \<Rightarrow> pydict \<Rightarrow> ('w injector, pydict) io" where
  "finish_netem_injection env container linux_if success fault_info =
     (if success then ibind (track fault_info) (\<lambda>_. ireturn fault_info)
      else ibind (remove_netem env container linux_if) (\<lambda>(rollback, compensated).
        if compensated then ireturn fault_info
        else let err = join_nonempty [str_or_empty (env_frepr env) (get_val fault_info ''error''),
                         or_else (or_else (stderr rollback) (stdout rollback)) ''netem compensation failed''];
                 info = AList.update ''error'' (PStr err) fault_info
             in ibind (track_residual info err) (\<lambda>_. ireturn info)))"

datatype netem_kind = Corruption | Loss | Latency

fun netem_type :: "netem_kind \<Rightarrow> string" where
  "netem_type Corruption = ''packet_corruption''"
| "netem_type Loss = ''packet_loss''"
| "netem_type Latency = ''high_latency''"

fun netem_field :: "netem_kind \<Rightarrow> string" where
  "netem_field Corruption = ''corruption_pct''"
| "netem_field Loss = ''loss_pct''"
| "netem_field Latency = ''latency_ms''"

fun netem_word :: "netem_kind \<Rightarrow> string" where
  "netem_word Corruption = ''corrupt''"
| "netem_word Loss = ''loss''"
| "netem_word Latency = ''delay''"

fun netem_unit :: "netem_kind \<Rightarrow> string" where
  "netem_unit Latency = ''ms''"
| "netem_unit _ = ''%''"

fun netem_missing :: "netem_kind \<Rightarrow> string" where
  "netem_missing Corruption = ''netem corruption rule was not observed''"
| "netem_missing Loss = ''netem loss rule was not observed''"
| "netem_missing Latency = ''netem delay rule was not observed''"

definition inject_netem :: "'w env \<Rightarrow> netem_kind \<Rightarrow> string \<Rightarrow> string \<Rightarrow> pyval \<Rightarrow> ('w injector, pydict) io" where
  "inject_netem env knd device interface value =
     ibind (container_of env device) (\<lambda>container.
     let linux_if = to_linux_interface (Some interface) in
     ibind (require_default_qdisc env container linux_if) (\<lambda>_.
     ibind (docker_exec env container [''tc'', ''qdisc'', ''replace'', ''dev'', linux_if, ''root'', ''netem'', netem_word knd,
              py_str (env_frepr env) value @ netem_unit knd]) (\<lambda>result.
     ibind (if returncode result = 0 then qdisc_matches env container linux_if (netem_word knd) value (netem_unit knd)
            else ireturn False) (\<lambda>success.
     finish_netem_injection env container linux_if success
       [(''type'', PStr (netem_type knd)), (''device'', PStr device), (''interface'', PStr linux_if), (netem_field knd, value),
        (''success'', PBool success), (''error'', error_or success (stderr result) (netem_missing knd))]))))"

definition inject_packet_corruption :: "'w env \<Rightarrow> string \<Rightarrow> string \<Rightarrow> pyval \<Rightarrow> ('w injector, pydict) io" where
  "inject_packet_corruption env = inject_netem env Corruption"

definition inject_packet_loss :: "'w env \<Rightarrow> string \<Rightarrow> string \<Rightarrow> pyval \<Rightarrow> ('w injector, pydict) io" where
  "inject_packet_loss env = inject_netem env Loss"

definition inject_high_latency :: "'w env \<Rightarrow> string \<Rightarrow> string \<Rightarrow> pyval \<Rightarrow> ('w injector, pydict) io" where
  "inject_high_latency env = inject_netem env Latency"

definition recover_tc_rules :: "'w env \<Rightarrow> string \<Rightarrow> string \<Rightarrow> ('w injector, pydict) io" where
  "recover_tc_rules env device interface =
     ibind (container_of env device) (\<lambda>container.
     let linux_if = to_linux_interface (Some interface) in
     ibind (remove_netem env container linux_if) (\<lambda>(result, recovered).
     ibind (if recovered then remove_faults (\<lambda>f. rand (item_is f ''device'' device)
              (rand (Inr (af_get f ''interface'' PNone = PStr linux_if))
                (rbind (af_item f ''type'') (\<lambda>t. Inr (t \<in> {PStr ''packet_corruption'', PStr ''packet_loss'', PStr ''high_latency''})))))
            else ireturn ()) (\<lambda>_.
     ireturn [(''device'', PStr device), (''interface'', PStr linux_if), (''recovered'', PBool recovered),
       (''error'', error_or recovered (stderr result) ''netem qdisc remained installed'')])))"

subsection \<open>MTU mismatches\<close>

text \<open>\<open>==\<close> between an integer and a value.\<close>

definition int_eq :: "int \<Rightarrow> pyval \<Rightarrow> bool" where
  "int_eq i v = (case v of PInt j \<Rightarrow> i = j | PFloat r \<Rightarrow> of_int i = r | PBool b \<Rightarrow> i = of_bool b | _ \<Rightarrow> False)"

definition apply_mtu :: "'w env \<Rightarrow> string \<Rightarrow> string \<Rightarrow> string \<Rightarrow> string \<Rightarrow> pyval \<Rightarrow> ('w injector, proc \<times> int) io" where
  "apply_mtu env device container sonic_if linux_if target_mtu =
     ibind (config_cmd env device [''interface'', ''mtu'', sonic_if, py_str (env_frepr env) target_mtu]) (\<lambda>result.
     ibind (get_interface_mtu env device sonic_if) (\<lambda>effective_mtu.
     if returncode result \<noteq> 0 \<or> \<not> int_eq effective_mtu target_mtu
     then ibind (docker_exec env container [''ip'', ''link'', ''set'', linux_if, ''mtu'', py_str (env_frepr env) target_mtu]) (\<lambda>result.
          ibind (get_interface_mtu env device sonic_if) (\<lambda>effective_mtu. ireturn (result, effective_mtu)))
     else ireturn (result, effective_mtu)))"

definition mtu_fault_info :: "string \<Rightarrow> string \<Rightarrow> string \<Rightarrow> pyval \<Rightarrow> int \<Rightarrow> int \<Rightarrow> proc \<Rightarrow> int \<Rightarrow> pydict" where
  "mtu_fault_info device sonic_if linux_if mtu original_mtu target result effective_mtu =
     (let success = (returncode result = 0 \<and> effective_mtu = target) in
      [(''type'', PStr ''mtu_mismatch''), (''device'', PStr device), (''interface'', PStr sonic_if),
       (''linux_interface'', PStr linux_if), (''mtu'', mtu), (''original_mtu'', PInt original_mtu), (''success'', PBool success),
       (''error'', error_or success (stderr result) (''effective MTU is '' @ show_int effective_mtu @ '', expected '' @ show_int target))])"

definition finish_mtu_injection :: "'w env \<Rightarrow> string \<Rightarrow> string \<Rightarrow> string \<Rightarrow> string \<Rightarrow> int \<Rightarrow> pydict \<Rightarrow> ('w injector, pydict) io" where
  "finish_mtu_injection env device container sonic_if linux_if original_mtu fault_info =
     (if get_val fault_info ''success'' = PBool True then ibind (track fault_info) (\<lambda>_. ireturn fault_info)
      else ibind (apply_mtu env device container sonic_if linux_if (PInt original_mtu)) (\<lambda>(rollback, restored_mtu).
        if returncode rollback = 0 \<and> restored_mtu = original_mtu then ireturn fault_info
        else let err = join_nonempty [str_or_empty (env_frepr env) (get_val fault_info ''error''),
                   or_else (stderr rollback) (''MTU compensation read back '' @ show_int restored_mtu @ '', expected '' @ show_int original_mtu)];
                 info = AList.update ''error'' (PStr err) fault_info
             in ibind (track_residual info err) (\<lambda>_. ireturn info)))"

definition inject_mtu_mismatch :: "'w env \<Rightarrow> string \<Rightarrow> string \<Rightarrow> pyval \<Rightarrow> ('w injector, pydict) io" where
  "inject_mtu_mismatch env device interface mtu =
     ibind (container_of env device) (\<lambda>container.
     let sonic_if = to_sonic_interface (Some interface); linux_if = to_linux_interface (Some interface) in
     ibind (get_interface_mtu env device sonic_if) (\<lambda>original_mtu.
     ibind (ilift (int_of_val mtu)) (\<lambda>target.
     ibind (apply_mtu env device container sonic_if linux_if (PInt target)) (\<lambda>(result, effective_mtu).
     finish_mtu_injection env device container sonic_if linux_if original_mtu
       (mtu_fault_info device sonic_if linux_if mtu original_mtu target result effective_mtu)))))"

definition recover_mtu_mismatch :: "'w env \<Rightarrow> string \<Rightarrow> string \<Rightarrow> pyval \<Rightarrow> ('w injector, pydict) io" where
  "recover_mtu_mismatch env device interface original_mtu =
     ibind (container_of env device) (\<lambda>container.
     let sonic_if = to_sonic_interface (Some interface); linux_if = to_linux_interface (Some interface) in
     ibind (resolve_recovery_mtu env device sonic_if original_mtu) (\<lambda>target_mtu.
     ibind (apply_mtu env device container sonic_if linux_if target_mtu) (\<lambda>(result, effective_mtu).
     let recovered = (returncode result = 0 \<and> int_eq effective_mtu target_mtu) in
     ibind (if recovered then remove_faults (\<lambda>f. rand (item_is f ''type'' ''mtu_mismatch'')
              (rand (item_is f ''device'' device) (item_is f ''interface'' sonic_if))) else ireturn ()) (\<lambda>_.
     ireturn [(''type'', PStr ''mtu_mismatch''), (''device'', PStr device), (''interface'', PStr sonic_if),
       (''restored_mtu'', target_mtu), (''recovered'', PBool recovered),
       (''error'', error_or recovered (stderr result)
          (''effective MTU is '' @ show_int effective_mtu @ '', expected '' @ py_str (env_frepr env) target_mtu))]))))"

subsection \<open>Transactions\<close>

lemma netem_reads_pure:
  assumes "reads_pure env"
  shows "pure_io (has_netem_qdisc env c i)" "pure_io (qdisc_matches env c i w v u)" "pure_io (require_default_qdisc env c i)"
  unfolding has_netem_qdisc_def qdisc_matches_def require_default_qdisc_def qdisc_show_def Let_def
  by (intro pure_intros docker_read_pure [OF assms]; simp add: read_args_def)+

lemma netem_frame [frame_intros]:
  "frame (has_netem_qdisc env c i)" "frame (qdisc_matches env c i w v u)" "frame (require_default_qdisc env c i)"
  unfolding has_netem_qdisc_def qdisc_matches_def require_default_qdisc_def Let_def by (intro frame_intros)+

lemma remove_netem_eq:
  assumes "reads_pure env" and "remove_netem env c i s = (Inr (r, ok), s')"
  shows "active_faults s' = active_faults s \<and> (ok \<longrightarrow> fst (has_netem_qdisc env c i s') = Inr (Some False))"
proof -
  obtain s1 where d: "docker_exec env c [''tc'', ''qdisc'', ''del'', ''dev'', i, ''root''] s = (Inr r, s1)"
    and f: "(if returncode r \<in> {0, 2} then iis (has_netem_qdisc env c i) (Some False) else ireturn False) s1 = (Inr ok, s')"
    using assms(2) by (auto simp: remove_netem_def ibind_eq_Inr)
  have act: "active_faults s1 = active_faults s"
    using frame_active [of "docker_exec env c [''tc'', ''qdisc'', ''del'', ''dev'', i, ''root'']" s] d by (simp add: frame_intros)
  have h: "has_netem_qdisc env c i s1 = (fst (has_netem_qdisc env c i s1), s1)"
    using netem_reads_pure(1) [OF assms(1)] by (simp add: pure_io_def prod_eq_iff)
  show ?thesis
    using f act h by (cases "fst (has_netem_qdisc env c i s1)") (auto simp: iis_def ibind_def split: if_splits)
qed

lemma residual_update:
  assumes "track_residual (AList.update ''error'' (PStr err) info) err s = (Inr f, s')"
  shows "residual_of f (AList.update ''error'' (PStr err) info) \<and> s' = s\<lparr>active_faults := active_faults s @ [f]\<rparr>"
  using assms by (auto simp: track_residual_def track_eq residual_of_def get_val_def AList.update_conv)

lemma finish_netem_cases:
  assumes "reads_pure env" and "finish_netem_injection env c i ok info0 s = (Inr info, s')" and "get_val info0 ''success'' = PBool ok"
  shows "if get_val info ''success'' = PBool True
     then ok \<and> (\<exists>f. af_from_dict info = Inr f \<and> s' = s\<lparr>active_faults := active_faults s @ [f]\<rparr>)
     else (fst (has_netem_qdisc env c i s') = Inr (Some False) \<and> active_faults s' = active_faults s)
       \<or> (\<exists>f. residual_of f info \<and> active_faults s' = active_faults s @ [f])"
proof (cases ok)
  case True
  then show ?thesis using assms(2,3) by (auto simp: finish_netem_injection_def ibind_eq_Inr track_eq)
next
  case False
  then obtain r comp s1 where rm: "remove_netem env c i s = (Inr (r, comp), s1)"
    using assms(2) by (auto simp: finish_netem_injection_def ibind_eq_Inr)
  note e = remove_netem_eq [OF assms(1) rm]
  show ?thesis
  proof (cases comp)
    case True
    then show ?thesis using False assms(2,3) rm e by (auto simp: finish_netem_injection_def ibind_run [of "remove_netem env c i" s, OF rm])
  next
    case c: False
    then obtain err f where "info = AList.update ''error'' (PStr err) info0" "track_residual info err s1 = (Inr f, s')"
      using False assms(2) rm by (auto simp: finish_netem_injection_def ibind_run [of "remove_netem env c i" s, OF rm] Let_def ibind_eq_Inr)
    then show ?thesis using residual_update [of err info0 s1 f s'] e assms(3) False by (auto simp: compensated_success)
  qed
qed

text \<open>C16: when the commands that only read a node leave it exactly as it was, an injection of packet
  corruption, loss or latency that returns a result has two outcomes. When it reports success, the rule read
  back has the requested value and the fault is tracked. When it reports failure, it has verified that no netem
  rule is left and tracks nothing new, or it has tracked a residual fault.\<close>

theorem netem_transaction:
  assumes "reads_pure env" and "inject_netem env knd device interface value s = (Inr info, s')"
  shows "\<exists>c i. map_of (container_names (env_manifest env)) device = Some c \<and> i = to_linux_interface (Some interface) \<and>
     (if get_val info ''success'' = PBool True
      then fst (qdisc_matches env c i (netem_word knd) value (netem_unit knd) s') = Inr True
        \<and> (\<exists>f. af_from_dict info = Inr f \<and> active_faults s' = active_faults s @ [f])
      else (fst (has_netem_qdisc env c i s') = Inr (Some False) \<and> active_faults s' = active_faults s)
        \<or> (\<exists>f. residual_of f info \<and> active_faults s' = active_faults s @ [f]))"
proof -
  let ?i = "to_linux_interface (Some interface)"
  obtain c s0 where c: "container_of env device s = (Inr c, s0)"
    using assms(2) by (auto simp: inject_netem_def ibind_eq_Inr)
  then have s0: "s0 = s" by (rule pure_eq [OF pure_container_of])
  have cn: "map_of (container_names (env_manifest env)) device = Some c" using c by (auto simp: container_of_def split: option.splits)
  let ?q = "qdisc_matches env c ?i (netem_word knd) value (netem_unit knd)"
  obtain result s1 s2 s3 ok info0 where rq: "require_default_qdisc env c ?i s = (Inr (), s1)"
    and d: "docker_exec env c [''tc'', ''qdisc'', ''replace'', ''dev'', ?i, ''root'', ''netem'', netem_word knd,
              py_str (env_frepr env) value @ netem_unit knd] s1 = (Inr result, s2)"
    and q: "(if returncode result = 0 then ?q else ireturn False) s2 = (Inr ok, s3)"
    and fin: "finish_netem_injection env c ?i ok info0 s3 = (Inr info, s')" and ok: "get_val info0 ''success'' = PBool ok"
    using assms(2) [unfolded inject_netem_def ibind_run [of "container_of env device" s, OF c] s0 Let_def]
    by (cases knd) (auto simp: ibind_eq_Inr get_val_def)
  have s1: "s1 = s" by (rule pure_eq [OF netem_reads_pure(3) [OF assms(1)] rq])
  have act: "active_faults s2 = active_faults s"
    using frame_active [of "docker_exec env c [''tc'', ''qdisc'', ''replace'', ''dev'', ?i, ''root'', ''netem'', netem_word knd,
              py_str (env_frepr env) value @ netem_unit knd]" s1] d s1 by (simp add: frame_intros)
  have qp: "?q s2 = (fst (?q s2), s2)" using netem_reads_pure(2) [OF assms(1)] by (simp add: pure_io_def prod_eq_iff)
  have s3: "s3 = s2" "ok \<Longrightarrow> fst (?q s2) = Inr True" using q qp by (auto split: if_splits)
  have "frame ?q" by (simp add: frame_intros)
  then show ?thesis
    using finish_netem_cases [OF assms(1) fin ok] s3 act cn by (auto simp: frame_fst split: if_splits)
qed

definition netem_env :: "string env" where
  "netem_env = \<lparr> env_run = \<lambda>cmd t w. let a = drop 3 cmd; ok = (\<lambda>out. Completed \<lparr> returncode = 0, stdout = out, stderr = [] \<rparr>) in
       if read_args a then (ok w, w) else if take 3 a = [''tc'', ''qdisc'', ''replace''] then (ok [], join '' '' a) else (ok [], []),
     env_docker_prefix = [], env_manifest = echo_manifest, env_json = \<lambda>_. Inr (PList []), env_frepr = \<lambda>_. ''0.0'' \<rparr>"

lemma netem_env_reads: "reads_pure netem_env"
  by (simp add: reads_pure_def netem_env_def docker_cmd_def Let_def)

theorem netem_transaction_witness:
  "\<exists>info s'. inject_netem netem_env Loss ''spine1'' ''Ethernet0'' (PInt 30) (idle_injector []) = (Inr info, s')
     \<and> get_val info ''success'' = PBool True \<and> length (active_faults s') = 1"
proof -
  let ?r = "inject_netem netem_env Loss ''spine1'' ''Ethernet0'' (PInt 30) (idle_injector [])"
  have "(case fst ?r of Inl _ \<Rightarrow> False | Inr info \<Rightarrow> get_val info ''success'' = PBool True)" by code_simp
  then obtain info where i: "fst ?r = Inr info" "get_val info ''success'' = PBool True" by (auto split: sum.splits)
  then have r: "?r = (Inr info, snd ?r)" by (simp add: prod_eq_iff)
  from netem_transaction [OF netem_env_reads r] i r show ?thesis
    by (intro exI [of _ info] exI [of _ "snd ?r"]) (auto simp: idle_injector_def)
qed

lemma apply_mtu_eq:
  assumes "reads_pure env" and "apply_mtu env d c si li v s = (Inr (r, n), s')"
  shows "active_faults s' = active_faults s \<and> fst (get_interface_mtu env d si s') = Inr n"
proof -
  have fr: "frame (config_cmd env d as)" "frame (docker_exec env c bs)" for as bs by (simp_all add: frame_intros)
  have pu: "get_interface_mtu env d si t = (Inr m, t') \<Longrightarrow> t' = t \<and> fst (get_interface_mtu env d si t) = Inr m" for t t' m
    using pure_eq [OF pure_mtu(2) [OF assms(1)]] by fastforce
  have fa: "config_cmd env d as t = (Inr x, t') \<Longrightarrow> active_faults t' = active_faults t"
    "docker_exec env c bs t = (Inr x, t') \<Longrightarrow> active_faults t' = active_faults t" for as bs t t' x
    using frame_active [OF fr(1), of as t] frame_active [OF fr(2), of bs t] by auto
  show ?thesis
    using assms(2) by (auto simp: apply_mtu_def ibind_eq_Inr split: if_splits dest!: pu fa)
qed

lemma finish_mtu_cases:
  assumes "reads_pure env" and "finish_mtu_injection env d c si li orig info0 s = (Inr info, s')" and "get_val info0 ''success'' = PBool ok"
  shows "if get_val info ''success'' = PBool True
     then ok \<and> (\<exists>f. af_from_dict info = Inr f \<and> s' = s\<lparr>active_faults := active_faults s @ [f]\<rparr>)
     else (fst (get_interface_mtu env d si s') = Inr orig \<and> active_faults s' = active_faults s)
       \<or> (\<exists>f. residual_of f info \<and> active_faults s' = active_faults s @ [f])"
proof (cases ok)
  case True
  then show ?thesis using assms(2,3) by (auto simp: finish_mtu_injection_def ibind_eq_Inr track_eq)
next
  case False
  then obtain r n s1 where rm: "apply_mtu env d c si li (PInt orig) s = (Inr (r, n), s1)"
    using assms(2,3) by (auto simp: finish_mtu_injection_def ibind_eq_Inr)
  note e = apply_mtu_eq [OF assms(1) rm]
  note step = ibind_run [of "apply_mtu env d c si li (PInt orig)" s, OF rm]
  show ?thesis
  proof (cases "returncode r = 0 \<and> n = orig")
    case True
    then show ?thesis using False assms(2,3) e by (auto simp: finish_mtu_injection_def step)
  next
    case c: False
    then obtain err f where "info = AList.update ''error'' (PStr err) info0" "track_residual info err s1 = (Inr f, s')"
      using False assms(2,3) by (auto simp: finish_mtu_injection_def step Let_def ibind_eq_Inr)
    then show ?thesis using residual_update [of err info0 s1 f s'] e assms(3) False by (auto simp: compensated_success)
  qed
qed

text \<open>C18: when the commands that only read a node leave it exactly as it was, an injection of an MTU
  mismatch that returns a result has two outcomes. When it reports success, the requested MTU is read back and
  the fault is tracked. When it reports failure, the interface reads the MTU it had before and nothing new is
  tracked, or a residual fault is tracked.\<close>

theorem mtu_transaction:
  assumes "reads_pure env" and "inject_mtu_mismatch env device interface mtu s = (Inr info, s')"
  shows "let read = (\<lambda>s. fst (get_interface_mtu env device (to_sonic_interface (Some interface)) s)) in
     if get_val info ''success'' = PBool True
     then int_of_val mtu = read s' \<and> (\<exists>f. af_from_dict info = Inr f \<and> active_faults s' = active_faults s @ [f])
     else (read s' = read s \<and> active_faults s' = active_faults s)
       \<or> (\<exists>f. residual_of f info \<and> active_faults s' = active_faults s @ [f])"
proof -
  let ?si = "to_sonic_interface (Some interface)" and ?li = "to_linux_interface (Some interface)"
  let ?g = "get_interface_mtu env device ?si"
  obtain c s0 where c: "container_of env device s = (Inr c, s0)"
    using assms(2) by (auto simp: inject_mtu_mismatch_def ibind_eq_Inr)
  then have s0: "s0 = s" by (rule pure_eq [OF pure_container_of])
  obtain orig s1 where o: "?g s = (Inr orig, s1)"
    using assms(2) [unfolded inject_mtu_mismatch_def ibind_run [of "container_of env device" s, OF c] s0 Let_def]
    by (auto simp: ibind_eq_Inr)
  have s1: "s1 = s" by (rule pure_eq [OF pure_mtu(2) [OF assms(1)] o])
  obtain target result eff s2 info0 where t: "int_of_val mtu = Inr target"
    and a: "apply_mtu env device c ?si ?li (PInt target) s = (Inr (result, eff), s2)"
    and fin: "finish_mtu_injection env device c ?si ?li orig info0 s2 = (Inr info, s')"
    and ok: "get_val info0 ''success'' = PBool (returncode result = 0 \<and> eff = target)"
    using assms(2) [unfolded inject_mtu_mismatch_def ibind_run [of "container_of env device" s, OF c] s0 Let_def
      ibind_run [of ?g s, OF o] s1]
    by (auto simp: ibind_eq_Inr mtu_fault_info_def get_val_def Let_def)
  have "frame ?g" by (simp add: frame_intros)
  with finish_mtu_cases [OF assms(1) fin ok] apply_mtu_eq [OF assms(1) a] o t show ?thesis
    by (auto simp: Let_def frame_fst split: if_splits)
qed

lemma echo_env_reads: "reads_pure (echo_env t)"
  by (simp add: reads_pure_def echo_env_def)

theorem mtu_transaction_witness:
  "\<exists>info s'. inject_mtu_mismatch (echo_env ''mtu 900'') ''spine1'' ''Ethernet0'' (PInt 900) (idle_injector ()) = (Inr info, s')
     \<and> fst (get_interface_mtu (echo_env ''mtu 900'') ''spine1'' (to_sonic_interface (Some ''Ethernet0'')) s') = Inr 900 \<and> length (active_faults s') = 1"
proof -
  let ?r = "inject_mtu_mismatch (echo_env ''mtu 900'') ''spine1'' ''Ethernet0'' (PInt 900) (idle_injector ())"
  have "(case fst ?r of Inl _ \<Rightarrow> False | Inr info \<Rightarrow> get_val info ''success'' = PBool True)" by code_simp
  then obtain info where i: "fst ?r = Inr info" "get_val info ''success'' = PBool True" by (auto split: sum.splits)
  then have r: "?r = (Inr info, snd ?r)" by (simp add: prod_eq_iff)
  from mtu_transaction [OF echo_env_reads r] i r show ?thesis
    by (intro exI [of _ info] exI [of _ "snd ?r"]) (auto simp: idle_injector_def Let_def int_of_val_def)
qed

end
