(* ===== verification/Link_Handler.thy ===== *)
theory Link_Handler
  imports Route_Handlers Scale_Profiles
begin

text \<open>
  The link faults (\<open>faults/handlers/link.py\<close>) and the background controls of the tracker
  (\<open>faults/services/tracking.py\<close>). Time is part of the outside world: \<open>'w clock\<close> holds the monotonic clock,
  sleeping (with the operation control of the caller), a command with a fractional timeout, and the
  threads of periodic faults. Clock readings and their differences are exact rationals. The loop that reads
  back the state of a port has fuel; \<open>Diverged\<close> is running out of it.
  Shown: with a clock that does not go back and sleeps at least as long as asked, the read-back loop ends
  within 31 rounds; a link fault is tracked exactly when it was injected or could not be undone; and
  every end of the link that an unsuccessful injection touched is brought up again.
\<close>

subsection \<open>Time and threads\<close>

record 'w clock =
  clk_read :: "'w \<Rightarrow> rat \<times> 'w"
  clk_time_ns :: "'w \<Rightarrow> int \<times> 'w"
  clk_sleep :: "rat \<Rightarrow> 'w \<Rightarrow> unit res \<times> 'w"
  clk_run :: "string list \<Rightarrow> rat \<Rightarrow> 'w \<Rightarrow> run_outcome \<times> 'w"
  clk_budget :: "rat \<Rightarrow> 'w \<Rightarrow> rat res \<times> 'w"
  clk_start :: "string \<Rightarrow> rat \<Rightarrow> rat \<Rightarrow> 'w \<Rightarrow> 'w"
  clk_stop :: "string \<Rightarrow> 'w \<Rightarrow> 'w"
  clk_join :: "string \<Rightarrow> rat \<Rightarrow> 'w \<Rightarrow> bool \<times> 'w"

definition on_world :: "('w \<Rightarrow> 'a res \<times> 'w) \<Rightarrow> ('w injector, 'a) io" where
  "on_world f = (\<lambda>s. case f (inj_world s) of (r, w) \<Rightarrow> (r, s\<lparr>inj_world := w\<rparr>))"

definition read_clock :: "'w clock \<Rightarrow> ('w injector, rat) io" where
  "read_clock clk = on_world (\<lambda>w. case clk_read clk w of (t, w') \<Rightarrow> (Inr t, w'))"

definition sleep_for :: "'w clock \<Rightarrow> rat \<Rightarrow> ('w injector, unit) io" where
  "sleep_for clk d = on_world (clk_sleep clk d)"

text \<open>\<open>docker_exec(container, args, timeout=t)\<close> with a fractional timeout.\<close>

definition docker_exec_within :: "'w env \<Rightarrow> 'w clock \<Rightarrow> string \<Rightarrow> string list \<Rightarrow> rat \<Rightarrow> ('w injector, proc) io" where
  "docker_exec_within env clk container cmd_args t = on_world (\<lambda>w. case clk_run clk (docker_cmd env container cmd_args) t w of (out, w') \<Rightarrow>
     (case out of
        Completed p \<Rightarrow> Inr p
      | Timed_out so se \<Rightarrow> Inr \<lparr> returncode = 124, stdout = as_text so,
          stderr = or_else (as_text se) (''command timed out after '' @ env_frepr env t @ ''s'') \<rparr>
      | Os_error msg \<Rightarrow> Inr \<lparr> returncode = 127, stdout = [], stderr = msg \<rparr>
      | Raised e \<Rightarrow> Inl e, w'))"

subsection \<open>Background controls\<close>

definition register_background_control :: "string \<Rightarrow> ('w injector, unit) io" where
  "register_background_control control_id =
     imodify (\<lambda>s. s\<lparr>background_controls := AList.update control_id False (background_controls s)\<rparr>)"

definition stop_background :: "'w clock \<Rightarrow> string \<Rightarrow> rat \<Rightarrow> ('w injector, bool) io" where
  "stop_background clk control_id join_timeout =
     ibind (iget (\<lambda>s. map_of (background_controls s) control_id)) (\<lambda>control.
     case control of
       None \<Rightarrow> ireturn True
     | Some _ \<Rightarrow>
         ibind (imodify (\<lambda>s. s\<lparr>inj_world := clk_stop clk control_id (inj_world s),
           background_controls := AList.update control_id True (background_controls s)\<rparr>)) (\<lambda>_.
         itry (ibind (on_world (clk_budget clk join_timeout)) (\<lambda>t.
           ibind (on_world (\<lambda>w. case clk_join clk control_id t w of (alive, w') \<Rightarrow> (Inr alive, w'))) (\<lambda>alive.
           if alive then ireturn False
           else ibind (imodify (\<lambda>s. s\<lparr>background_controls := AList.delete control_id (background_controls s)\<rparr>)) (\<lambda>_. ireturn True))))
         (\<lambda>e. case e of TimeoutError _ \<Rightarrow> ireturn False | _ \<Rightarrow> ithrow e)))"

subsection \<open>One port\<close>

definition admin_up :: "proc \<Rightarrow> bool option" where
  "admin_up result =
     (let output = stdout result in
      if returncode result \<noteq> 0 \<or> CHR ''<'' \<notin> set output \<or> CHR ''>'' \<notin> set output then None
      else let flags = takeWhile (\<lambda>c. c \<noteq> CHR ''>'') (tl (dropWhile (\<lambda>c. c \<noteq> CHR ''<'') output))
           in if flags = [] then None else Some (''UP'' \<in> set (split_on CHR '','' flags)))"

definition show_link_args :: "string \<Rightarrow> string list" where
  "show_link_args linux_if = [''ip'', ''-o'', ''link'', ''show'', ''dev'', linux_if]"

text \<open>One round of the loop: it ends with a state (\<open>Inl\<close>) or sleeps and goes on (\<open>Inr\<close>).\<close>

definition await_round ::
  "'w env \<Rightarrow> 'w clock \<Rightarrow> string \<Rightarrow> string \<Rightarrow> bool \<Rightarrow> bool \<Rightarrow> rat \<Rightarrow> proc \<Rightarrow> bool \<Rightarrow> ('w injector, (proc \<times> bool) + (proc \<times> bool)) io" where
  "await_round env clk container linux_if enabled failed deadline state state_matches =
     ibind (read_clock clk) (\<lambda>now.
     if deadline - now \<le> 0 then ireturn (Inl (state, state_matches))
     else ibind (docker_exec_within env clk container (show_link_args linux_if) (deadline - now)) (\<lambda>state'.
       ibind (read_clock clk) (\<lambda>now'.
       let matches = (now' < deadline \<and> admin_up state' = Some enabled)
       in if matches \<or> failed then ireturn (Inl (state', matches))
          else ibind (read_clock clk) (\<lambda>now''.
            let delay = min (fl (1 / 10)) (deadline - now'')
            in if delay \<le> 0 then ireturn (Inl (state', matches))
               else ibind (sleep_for clk delay) (\<lambda>_. ireturn (Inr (state', matches)))))))"

fun await_admin ::
  "'w env \<Rightarrow> 'w clock \<Rightarrow> string \<Rightarrow> string \<Rightarrow> bool \<Rightarrow> bool \<Rightarrow> rat \<Rightarrow> nat \<Rightarrow> proc \<Rightarrow> bool \<Rightarrow> ('w injector, proc \<times> bool) io" where
  "await_admin env clk container linux_if enabled failed deadline 0 state state_matches = ithrow Diverged"
| "await_admin env clk container linux_if enabled failed deadline (Suc fuel) state state_matches =
     ibind (await_round env clk container linux_if enabled failed deadline state state_matches) (\<lambda>r.
     case r of Inl final \<Rightarrow> ireturn final
       | Inr (state', matches) \<Rightarrow> await_admin env clk container linux_if enabled failed deadline fuel state' matches)"

type_synonym endpoint = "string \<times> string \<times> string \<times> string"

text \<open>The result dictionaries \<open>{"success": ..., "error": ...}\<close> as a pair.\<close>

type_synonym outcome = "bool \<times> string option"

definition set_link_admin_state ::
  "'w env \<Rightarrow> 'w clock \<Rightarrow> nat \<Rightarrow> endpoint \<Rightarrow> bool \<Rightarrow> ('w injector, outcome) io" where
  "set_link_admin_state env clk fuel ep enabled = (case ep of (device, container, sonic_if, linux_if) \<Rightarrow>
     let action = (if enabled then ''startup'' else ''shutdown'');
         fallback_state = (if enabled then ''up'' else ''down'')
     in ibind (config_cmd env device [''interface'', action, sonic_if]) (\<lambda>r0.
        ibind (if returncode r0 \<noteq> 0 then docker_exec env container [''ip'', ''link'', ''set'', linux_if, fallback_state] else ireturn r0) (\<lambda>result.
        ibind (read_clock clk) (\<lambda>now.
        ibind (await_admin env clk container linux_if enabled (returncode result \<noteq> 0) (now + 3) fuel result False) (\<lambda>(state, state_matches).
        let success = (returncode result = 0 \<and> state_matches)
        in ireturn (success, if success then None
             else Some (or_else (py_strip (or_else (stderr result) (or_else (stdout result) (or_else (stderr state) (stdout state)))))
                    (device @ '':'' @ sonic_if @ '' did not reach '' @ (if enabled then ''up'' else ''down'') @ '' state''))))))))"

definition opt_bool_val :: "bool option \<Rightarrow> pyval" where
  "opt_bool_val b = (case b of None \<Rightarrow> PNone | Some x \<Rightarrow> PBool x)"

definition endpoint_state :: "'w env \<Rightarrow> endpoint \<Rightarrow> ('w injector, endpoint \<times> bool option) io" where
  "endpoint_state env ep = (case ep of (device, container, sonic_if, linux_if) \<Rightarrow>
     ibind (docker_exec env container (show_link_args linux_if)) (\<lambda>r. ireturn (ep, admin_up r)))"

definition healthy_link_state :: "'w env \<Rightarrow> endpoint list \<Rightarrow> ('w injector, bool \<times> pydict) io" where
  "healthy_link_state env eps =
     ibind (imapM (endpoint_state env) eps) (\<lambda>states.
     let healthy = list_all (\<lambda>(ep, b). b = Some True) states
     in ireturn (healthy,
       [(''original_state'', PList (map (\<lambda>((device, container, sonic_if, linux_if), b).
            PDict [(''device'', PStr device), (''interface'', PStr sonic_if), (''admin_up'', opt_bool_val b)]) states)),
        (''success'', PBool healthy),
        (''error'', if healthy then PNone else PStr ''Both link endpoints must be readable and admin up before injection'')]))"

definition endpoint_of :: "'w env \<Rightarrow> string \<Rightarrow> string \<Rightarrow> ('w injector, endpoint) io" where
  "endpoint_of env device intf =
     ibind (container_of env device) (\<lambda>container.
     ireturn (device, container, to_sonic_interface (Some intf), to_linux_interface (Some intf)))"


subsection \<open>Routes of client ports\<close>

definition text_or :: "'w env \<Rightarrow> pydict \<Rightarrow> string \<Rightarrow> string \<Rightarrow> string" where
  "text_or env route key dflt = py_str (env_frepr env) (val_or (get_val route key) (PStr dflt))"

definition route_identity :: "'w env \<Rightarrow> pydict \<Rightarrow> string \<times> string \<times> string \<times> string" where
  "route_identity env route =
     (text_or env route ''dst'' ''default'', text_or env route ''gateway'' [], text_or env route ''dev'' [], text_or env route ''table'' ''main'')"

definition route_args :: "string \<Rightarrow> string list" where
  "route_args linux_if = [''ip'', ''-j'', ''route'', ''show'', ''dev'', linux_if]"

definition snapshot_client_routes :: "'w env \<Rightarrow> endpoint \<Rightarrow> ('w injector, pydict list) io" where
  "snapshot_client_routes env ep = (case ep of (device, container, sonic_if, linux_if) \<Rightarrow>
     case find_device (env_manifest env) device of
       None \<Rightarrow> ireturn []
     | Some d \<Rightarrow>
         if role d \<noteq> CLIENT then ireturn []
         else ibind (docker_exec env container (route_args linux_if)) (\<lambda>result.
           if returncode result \<noteq> 0
           then ithrow (RuntimeError (or_else (py_strip (or_else (stderr result) (stdout result)))
                  (''failed to snapshot routes for '' @ device @ '':'' @ linux_if)))
           else case env_json env (or_else (stdout result) ''[]'') of
               Inl e \<Rightarrow> ithrow (RuntimeError (''invalid route snapshot for '' @ device @ '':'' @ linux_if @ '': '' @ err_text e))
             | Inr v \<Rightarrow> ibind (ilift (iter_val v)) (\<lambda>routes.
                 ireturn (filter (\<lambda>route. text_or env route ''protocol'' [] \<noteq> ''kernel'') (dicts_of routes)))))"

text \<open>One missing route is put back; the error, if any.\<close>

definition restore_route ::
  "'w env \<Rightarrow> string \<Rightarrow> string \<Rightarrow> (string \<times> string \<times> string \<times> string) list \<Rightarrow> pyval \<Rightarrow> ('w injector, pydict \<times> string list) io" where
  "restore_route env container linux_if current_keys rv =
     ibind (ilift (as_dict rv)) (\<lambda>route.
     if route_identity env route \<in> set current_keys then ireturn (route, [])
     else let gateway = text_or env route ''gateway'' [];
              command = [''ip'', ''route'', ''replace'', text_or env route ''dst'' ''default'']
                @ (if gateway \<noteq> [] then [''via'', gateway] else []) @ [''dev'', linux_if]
                @ (if get_val route ''metric'' \<noteq> PNone then [''metric'', py_str (env_frepr env) (get_val route ''metric'')] else [])
          in ibind (docker_exec env container command) (\<lambda>result.
             ireturn (route, if returncode result \<noteq> 0
               then [or_else (py_strip (or_else (stderr result) (stdout result))) (''failed to restore '' @ text_or env route ''dst'' ''default'')]
               else [])))"

definition join_errors :: "string list \<Rightarrow> string option" where
  "join_errors errors = (if join ''; '' errors = [] then None else Some (join ''; '' errors))"

definition restore_client_routes :: "'w env \<Rightarrow> endpoint \<Rightarrow> pyval \<Rightarrow> ('w injector, outcome) io" where
  "restore_client_routes env ep routes = (case ep of (device, container, sonic_if, linux_if) \<Rightarrow>
     if \<not> truthy routes then ireturn (True, None)
     else ibind (docker_exec env container (route_args linux_if)) (\<lambda>current_result.
       if returncode current_result \<noteq> 0
       then ireturn (False, Some (or_else (py_strip (or_else (stderr current_result) (stdout current_result)))
              (''failed to read routes for '' @ device @ '':'' @ linux_if)))
       else case env_json env (or_else (stdout current_result) ''[]'') of
           Inl e \<Rightarrow> ireturn (False, Some (''invalid route readback for '' @ device @ '':'' @ linux_if @ '': '' @ err_text e))
         | Inr cur \<Rightarrow>
             ibind (ilift (iter_val cur)) (\<lambda>current.
             let current_keys = map (route_identity env) (dicts_of current)
             in ibind (ilift (iter_val routes)) (\<lambda>wanted.
                ibind (imapM (restore_route env container linux_if current_keys) wanted) (\<lambda>done_routes.
                ibind (docker_exec env container (route_args linux_if)) (\<lambda>verify.
                ibind (ilift (if returncode verify = 0
                              then (case env_json env (or_else (stdout verify) ''[]'') of Inl e \<Rightarrow> Inr [] | Inr v \<Rightarrow> iter_val v)
                              else Inr [])) (\<lambda>restored.
                let restored_keys = map (route_identity env) (dicts_of restored);
                    missing = filter (\<lambda>route. route_identity env route \<notin> set restored_keys) (map fst done_routes);
                    errors = concat (map snd done_routes)
                      @ (if missing \<noteq> [] then [''missing route readback: '' @ join '', '' (map (\<lambda>route. text_or env route ''dst'' ''default'') missing)] else [])
                in ireturn (errors = [], join_errors errors))))))))"

subsection \<open>The two ends of a link\<close>

text \<open>The first end, in the order of the manifest, that is the given port; with its peer.\<close>

fun find_end :: "string \<Rightarrow> string \<Rightarrow> link list \<Rightarrow> (link_endpoint \<times> link_endpoint) option" where
  "find_end device target_linux [] = None"
| "find_end device target_linux (l # ls) = (case endpoints l of (a, b) \<Rightarrow>
     if ep_device a = device \<and> to_linux_interface (Some (ep_interface a)) = target_linux then Some (a, b)
     else if ep_device b = device \<and> to_linux_interface (Some (ep_interface b)) = target_linux then Some (b, a)
     else find_end device target_linux ls)"

definition link_endpoints :: "'w env \<Rightarrow> string \<Rightarrow> string \<Rightarrow> ('w injector, endpoint \<times> endpoint) io" where
  "link_endpoints env device intf =
     (case find_end device (to_linux_interface (Some intf)) (links (env_manifest env)) of
        None \<Rightarrow> ithrow (ValueError (''Interface is not a topology link endpoint: '' @ device @ '':'' @ intf))
      | Some (a, b) \<Rightarrow>
          ibind (endpoint_of env device (ep_interface a)) (\<lambda>t.
          ibind (endpoint_of env (ep_device b) (ep_interface b)) (\<lambda>p. ireturn (t, p))))"

definition snapshot_key :: "endpoint \<Rightarrow> string" where
  "snapshot_key ep = (case ep of (device, container, sonic_if, linux_if) \<Rightarrow> device @ '':'' @ linux_if)"

definition port_label :: "endpoint \<Rightarrow> string" where
  "port_label ep = (case ep of (device, container, sonic_if, linux_if) \<Rightarrow> device @ '':'' @ sonic_if)"

definition show_opt :: "string option \<Rightarrow> string" where
  "show_opt x = (case x of None \<Rightarrow> ''None'' | Some s \<Rightarrow> s)"

text \<open>\<open>(route_snapshots or {}).get(key, [])\<close>.\<close>

definition snapshot_of :: "pyval \<Rightarrow> endpoint \<Rightarrow> pyval res" where
  "snapshot_of snapshots ep = val_get (val_or snapshots (PDict [])) (snapshot_key ep) (PList [])"

text \<open>Changing the ends one after the other: the ends attempted and the errors.\<close>

fun change_ends ::
  "'w env \<Rightarrow> 'w clock \<Rightarrow> nat \<Rightarrow> bool \<Rightarrow> pyval \<Rightarrow> endpoint list \<Rightarrow> ('w injector, endpoint list \<times> string list) io" where
  "change_ends env clk fuel enabled snapshots [] = ireturn ([], [])"
| "change_ends env clk fuel enabled snapshots (ep # eps) =
     ibind (set_link_admin_state env clk fuel ep enabled) (\<lambda>(success, err).
     if success
     then ibind (if enabled
                 then ibind (ilift (snapshot_of snapshots ep)) (\<lambda>routes.
                      ibind (restore_client_routes env ep routes) (\<lambda>(restored, err').
                      ireturn (if restored then [] else [port_label ep @ '': '' @ show_opt err'])))
                 else ireturn []) (\<lambda>errors.
          ibind (change_ends env clk fuel enabled snapshots eps) (\<lambda>(attempted, more).
          ireturn (ep # attempted, errors @ more)))
     else let e = port_label ep @ '': '' @ or_else (as_text err) ''state change failed''
          in if \<not> enabled then ireturn ([ep], [e])
             else ibind (change_ends env clk fuel enabled snapshots eps) (\<lambda>(attempted, more).
               ireturn (ep # attempted, e # more)))"

definition compensate_end ::
  "'w env \<Rightarrow> 'w clock \<Rightarrow> nat \<Rightarrow> pyval \<Rightarrow> endpoint \<Rightarrow> ('w injector, string list) io" where
  "compensate_end env clk fuel snapshots ep =
     ibind (set_link_admin_state env clk fuel ep True) (\<lambda>(success, err).
     if \<not> success then ireturn [''compensation '' @ port_label ep @ '': '' @ show_opt err]
     else ibind (ilift (snapshot_of snapshots ep)) (\<lambda>routes.
       ibind (restore_client_routes env ep routes) (\<lambda>(restored, err').
       ireturn (if restored then [] else [''compensation '' @ port_label ep @ '': '' @ show_opt err']))))"

record link_result =
  lr_success :: bool
  lr_error :: "string option"
  lr_compensated :: "bool option"
  lr_residual_mutation :: bool

definition set_physical_link ::
  "'w env \<Rightarrow> 'w clock \<Rightarrow> nat \<Rightarrow> endpoint list \<Rightarrow> bool \<Rightarrow> pyval \<Rightarrow> ('w injector, link_result) io" where
  "set_physical_link env clk fuel eps enabled snapshots =
     ibind (change_ends env clk fuel enabled snapshots eps) (\<lambda>(attempted, errors).
     ibind (if errors \<noteq> [] \<and> \<not> enabled
            then ibind (imapM (compensate_end env clk fuel snapshots) (rev attempted)) (\<lambda>es. ireturn (concat es))
            else ireturn []) (\<lambda>compensation_errors.
     ireturn \<lparr> lr_success = (errors = []), lr_error = join_errors (errors @ compensation_errors),
       lr_compensated = (if \<not> enabled then Some (errors \<noteq> [] \<and> compensation_errors = []) else None),
       lr_residual_mutation = (if \<not> enabled then compensation_errors \<noteq> [] else False) \<rparr>))"


subsection \<open>Link down\<close>

definition snapshots_val :: "(string \<times> pydict list) list \<Rightarrow> pyval" where
  "snapshots_val snaps = PDict (map (\<lambda>(k, rs). (k, PList (map PDict rs))) (dict_of snaps))"

definition snapshot_ends :: "'w env \<Rightarrow> endpoint list \<Rightarrow> ('w injector, pyval) io" where
  "snapshot_ends env eps =
     ibind (imapM (\<lambda>ep. ibind (snapshot_client_routes env ep) (\<lambda>rs. ireturn (snapshot_key ep, rs))) eps) (\<lambda>snaps.
     ireturn (snapshots_val snaps))"

text \<open>\<open>str(fault_info.get("error") or dflt)\<close>.\<close>

definition error_text :: "string option \<Rightarrow> string \<Rightarrow> string" where
  "error_text err dflt = or_else (as_text err) dflt"

definition link_down_info :: "string \<Rightarrow> endpoint \<Rightarrow> endpoint \<Rightarrow> pyval \<Rightarrow> pydict \<Rightarrow> link_result \<Rightarrow> pydict" where
  "link_down_info device target peer snapshots initial result =
     (case (target, peer) of ((_, container, sonic_if, linux_if), (pd, pc, psonic, plinux)) \<Rightarrow>
     [(''type'', PStr ''link_down''),
      (''device'', PStr device),
      (''interface'', PStr sonic_if),
      (''linux_interface'', PStr linux_if),
      (''container'', PStr container),
      (''peer_device'', PStr pd),
      (''peer_interface'', PStr psonic),
      (''peer_linux_interface'', PStr plinux),
      (''route_snapshots'', snapshots),
      (''original_state'', get_val initial ''original_state''),
      (''success'', PBool (lr_success result)),
      (''error'', opt_val (lr_error result))])"

definition inject_link_down :: "'w env \<Rightarrow> 'w clock \<Rightarrow> nat \<Rightarrow> string \<Rightarrow> string \<Rightarrow> ('w injector, pydict) io" where
  "inject_link_down env clk fuel device intf =
     ibind (link_endpoints env device intf) (\<lambda>(target, peer).
     ibind (healthy_link_state env [target, peer]) (\<lambda>(healthy, initial).
     if \<not> healthy
     then ireturn (dict_update [(''type'', PStr ''link_down''), (''device'', PStr device), (''interface'', PStr intf)] initial)
     else ibind (snapshot_ends env [target, peer]) (\<lambda>snapshots.
       ibind (set_physical_link env clk fuel [target, peer] False snapshots) (\<lambda>result.
       let fault_info = link_down_info device target peer snapshots initial result
       in ibind (if lr_success result then ibind (track fault_info) (\<lambda>_. ireturn ())
                 else if lr_residual_mutation result
                 then ibind (track_residual fault_info (error_text (lr_error result) ''link compensation failed'')) (\<lambda>_. ireturn ())
                 else ireturn ()) (\<lambda>_.
          ireturn fault_info)))))"

definition port_fault :: "string \<Rightarrow> string \<Rightarrow> string \<Rightarrow> active_fault \<Rightarrow> bool res" where
  "port_fault ty device sonic_if fault =
     rand (item_is fault ''type'' ty) (rand (item_is fault ''device'' device) (item_is fault ''interface'' sonic_if))"

definition recovery_ends ::
  "'w env \<Rightarrow> string \<Rightarrow> string \<Rightarrow> string option \<Rightarrow> string option \<Rightarrow> ('w injector, endpoint \<times> endpoint) io" where
  "recovery_ends env device intf peer_device peer_interface =
     ibind (link_endpoints env device intf) (\<lambda>(target, discovered_peer).
     if as_text peer_device \<noteq> [] \<and> as_text peer_interface \<noteq> []
     then ibind (endpoint_of env (as_text peer_device) (as_text peer_interface)) (\<lambda>p. ireturn (target, p))
     else ireturn (target, discovered_peer))"

definition sonic_of :: "endpoint \<Rightarrow> string" where
  "sonic_of ep = fst (snd (snd ep))"

definition linux_of :: "endpoint \<Rightarrow> string" where
  "linux_of ep = snd (snd (snd ep))"

definition recover_link_down ::
  "'w env \<Rightarrow> 'w clock \<Rightarrow> nat \<Rightarrow> string \<Rightarrow> string \<Rightarrow> string option \<Rightarrow> string option \<Rightarrow> pyval \<Rightarrow> ('w injector, pydict) io" where
  "recover_link_down env clk fuel device intf peer_device peer_interface route_snapshots =
     ibind (recovery_ends env device intf peer_device peer_interface) (\<lambda>(target, peer).
     ibind (set_physical_link env clk fuel [target, peer] True route_snapshots) (\<lambda>result.
     ibind (if lr_success result then remove_faults (port_fault ''link_down'' device (sonic_of target)) else ireturn ()) (\<lambda>_.
     ireturn [(''type'', PStr ''link_down''), (''device'', PStr device), (''interface'', PStr (sonic_of target)),
              (''recovered'', PBool (lr_success result)), (''error'', opt_val (lr_error result))])))"

subsection \<open>Link flapping\<close>

definition num_of_val :: "pyval \<Rightarrow> rat res" where
  "num_of_val v = (case v of PInt i \<Rightarrow> Inr (of_int i) | PBool b \<Rightarrow> Inr (of_bool b) | PFloat r \<Rightarrow> Inr r
     | _ \<Rightarrow> Inl (TypeError ''unorderable types''))"

text \<open>The constructor of \<open>PeriodicController\<close>: the intervals, both positive.\<close>

definition periodic_controller :: "pyval \<Rightarrow> pyval \<Rightarrow> (rat \<times> rat) res" where
  "periodic_controller down_time up_time =
     rbind (num_of_val down_time) (\<lambda>d. rbind (num_of_val up_time) (\<lambda>u.
     if min d u \<le> 0 then Inl (ValueError ''Periodic fault intervals must be positive'') else Inr (d, u)))"

definition inject_link_flapping ::
  "'w env \<Rightarrow> 'w clock \<Rightarrow> nat \<Rightarrow> experiment_profile \<Rightarrow> string \<Rightarrow> string \<Rightarrow> pyval \<Rightarrow> pyval \<Rightarrow> ('w injector, pydict) io" where
  "inject_link_flapping env clk fuel policy device intf down_arg up_arg =
     (let down_time = (if down_arg = PNone then PInt (flapping_down_seconds policy) else down_arg);
          up_time = (if up_arg = PNone then PInt (flapping_up_seconds policy) else up_arg)
      in ibind (link_endpoints env device intf) (\<lambda>(target, peer).
         ibind (healthy_link_state env [target, peer]) (\<lambda>(healthy, initial_state).
         if \<not> healthy
         then ireturn (dict_update [(''type'', PStr ''link_flapping''), (''device'', PStr device), (''interface'', PStr intf)] initial_state)
         else ibind (snapshot_ends env [target, peer]) (\<lambda>snapshots.
           ibind (on_world (\<lambda>w. case clk_time_ns clk w of (n, w') \<Rightarrow> (Inr n, w'))) (\<lambda>ns.
           let control_id = ''link-flap:'' @ device @ '':'' @ sonic_of target @ '':'' @ show_int ns
           in ibind (set_physical_link env clk fuel [target, peer] False snapshots) (\<lambda>initial.
              if \<not> lr_success initial
              then let fault_info = [(''type'', PStr ''link_flapping''), (''device'', PStr device), (''interface'', PStr (sonic_of target)),
                         (''success'', PBool False), (''error'', opt_val (lr_error initial))]
                   in ibind (if lr_residual_mutation initial
                             then ibind (track_residual fault_info (error_text (lr_error initial) ''link-flapping compensation failed'')) (\<lambda>_. ireturn ())
                             else ireturn ()) (\<lambda>_. ireturn fault_info)
              else ibind (ilift (periodic_controller down_time up_time)) (\<lambda>(d, u).
                ibind (register_background_control control_id) (\<lambda>_.
                ibind (imodify (\<lambda>s. s\<lparr>inj_world := clk_start clk control_id d u (inj_world s)\<rparr>)) (\<lambda>_.
                let fault_info =
                  [(''type'', PStr ''link_flapping''), (''device'', PStr device), (''interface'', PStr (sonic_of target)),
                   (''linux_interface'', PStr (linux_of target)),
                   (''peer_device'', PStr (fst peer)), (''peer_interface'', PStr (sonic_of peer)), (''peer_linux_interface'', PStr (linux_of peer)),
                   (''route_snapshots'', snapshots), (''down_time'', down_time), (''up_time'', up_time), (''task_id'', PStr control_id),
                   (''orchestration'', PStr ''python''), (''original_state'', get_val initial_state ''original_state''), (''success'', PBool True)]
                in ibind (track fault_info) (\<lambda>_. ireturn fault_info))))))))))"

definition recover_link_flapping ::
  "'w env \<Rightarrow> 'w clock \<Rightarrow> nat \<Rightarrow> string \<Rightarrow> string \<Rightarrow> string option \<Rightarrow> string option \<Rightarrow> string option \<Rightarrow> pyval \<Rightarrow> ('w injector, pydict) io" where
  "recover_link_flapping env clk fuel device intf task_id peer_device peer_interface route_snapshots =
     ibind (if as_text task_id \<noteq> [] then stop_background clk (as_text task_id) 65 else ireturn True) (\<lambda>stopped.
     if \<not> stopped
     then ireturn [(''type'', PStr ''link_flapping''), (''device'', PStr device), (''interface'', PStr intf), (''recovered'', PBool False),
                   (''error'', PStr ''Periodic controller still running'')]
     else ibind (recovery_ends env device intf peer_device peer_interface) (\<lambda>(target, peer).
       ibind (set_physical_link env clk fuel [target, peer] True route_snapshots) (\<lambda>result.
       ibind (if lr_success result then remove_faults (port_fault ''link_flapping'' device (sonic_of target)) else ireturn ()) (\<lambda>_.
       ireturn [(''type'', PStr ''link_flapping''), (''device'', PStr device), (''interface'', PStr (sonic_of target)),
                (''recovered'', PBool (lr_success result)), (''error'', opt_val (lr_error result))]))))"


subsection \<open>The read-back loop ends\<close>

text \<open>A clock that never goes back: reading it gives a time between the world before and after, a command does
  not take time back, and a sleep that returns took at least as long as asked. The outside world raises
  Python exceptions only.\<close>

definition steady :: "'w clock \<Rightarrow> ('w \<Rightarrow> rat) \<Rightarrow> bool" where
  "steady clk T \<longleftrightarrow>
     (\<forall>w. T w \<le> fst (clk_read clk w) \<and> fst (clk_read clk w) \<le> T (snd (clk_read clk w)))
     \<and> (\<forall>a t w. T w \<le> T (snd (clk_run clk a t w)) \<and> fst (clk_run clk a t w) \<noteq> Raised Diverged)
     \<and> (\<forall>d w. fst (clk_sleep clk d w) = Inr () \<longrightarrow> T w + d \<le> T (snd (clk_sleep clk d w)))
     \<and> (\<forall>d w. fst (clk_sleep clk d w) \<noteq> Inl Diverged)"

lemma read_clock_steady:
  assumes "steady clk T" and "read_clock clk s = (r, s')"
  shows "\<exists>t. r = Inr t \<and> T (inj_world s) \<le> t \<and> t \<le> T (inj_world s')"
proof -
  obtain t w' where w: "clk_read clk (inj_world s) = (t, w')" by fastforce
  have "T (inj_world s) \<le> t" "t \<le> T w'" using assms(1) w unfolding steady_def by (metis fst_conv snd_conv)+
  then show ?thesis using assms(2) w by (auto simp: read_clock_def on_world_def)
qed

lemma run_steady:
  assumes "steady clk T" and "docker_exec_within env clk c a t s = (r, s')"
  shows "T (inj_world s) \<le> T (inj_world s') \<and> r \<noteq> Inl Diverged"
proof -
  obtain out w' where out: "clk_run clk (docker_cmd env c a) t (inj_world s) = (out, w')" by fastforce
  have "T (inj_world s) \<le> T w'" "out \<noteq> Raised Diverged"
    using assms(1) out unfolding steady_def by (metis fst_conv snd_conv)+
  then show ?thesis using assms(2) out by (auto simp: docker_exec_within_def on_world_def split: run_outcome.splits)
qed

lemma sleep_steady:
  assumes "steady clk T" and "sleep_for clk d s = (r, s')"
  shows "r \<noteq> Inl Diverged \<and> (r = Inr () \<longrightarrow> T (inj_world s) + d \<le> T (inj_world s'))"
proof -
  obtain r0 w' where w: "clk_sleep clk d (inj_world s) = (r0, w')" by fastforce
  have "r0 \<noteq> Inl Diverged" "r0 = Inr () \<Longrightarrow> T (inj_world s) + d \<le> T w'"
    using assms(1) w unfolding steady_def by (metis fst_conv snd_conv)+
  then show ?thesis using assms(2) w by (auto simp: sleep_for_def on_world_def)
qed

lemma tenth: "1 / 10 \<le> fl (1 / 10)" "0 < fl (1 / 10)"
  by code_simp+

lemma await_round_steady:
  assumes "steady clk T" and "await_round env clk c i enabled failed deadline st m s = (r, s')"
  shows "r \<noteq> Inl Diverged" and "r = Inr (Inr x) \<Longrightarrow> T (inj_world s) < deadline \<and> (deadline \<le> T (inj_world s') \<or> T (inj_world s) + 1 / 10 \<le> T (inj_world s'))"
proof -
  obtain now s1 where r1: "read_clock clk s = (Inr now, s1)" and t1: "T (inj_world s) \<le> now" "now \<le> T (inj_world s1)"
    using read_clock_steady [OF assms(1)] by (metis prod.collapse)
  obtain p s2 where r2: "docker_exec_within env clk c (show_link_args i) (deadline - now) s1 = (p, s2)" by fastforce
  have t2: "T (inj_world s1) \<le> T (inj_world s2)" "p \<noteq> Inl Diverged" using run_steady [OF assms(1) r2] by auto
  obtain now' s3 where r3: "read_clock clk s2 = (Inr now', s3)" and t3: "T (inj_world s2) \<le> T (inj_world s3)"
    using read_clock_steady [OF assms(1)] by (metis prod.collapse order_trans)
  obtain now'' s4 where r4: "read_clock clk s3 = (Inr now'', s4)" and t4: "T (inj_world s3) \<le> T (inj_world s4)" "now'' \<le> T (inj_world s4)"
    using read_clock_steady [OF assms(1)] by (metis prod.collapse order_trans)
  let ?d = "min (fl (1 / 10)) (deadline - now'')"
  obtain q s5 where r5: "sleep_for clk ?d s4 = (q, s5)" by fastforce
  have t5: "q \<noteq> Inl Diverged" "q = Inr () \<Longrightarrow> T (inj_world s4) + ?d \<le> T (inj_world s5)" using sleep_steady [OF assms(1) r5] by auto
  note run = assms(2) [unfolded await_round_def Let_def]
  have far: "deadline \<le> T (inj_world s5) \<or> T (inj_world s) + 1 / 10 \<le> T (inj_world s5)" if "q = Inr ()"
    using t5(2) [OF that] t1 t2(1) t3 t4 tenth(1) by (auto simp: min_def split: if_splits)
  have "r \<noteq> Inl Diverged \<and> (r = Inr (Inr x) \<longrightarrow> T (inj_world s) < deadline \<and> q = Inr () \<and> s' = s5)"
  proof (cases "deadline - now \<le> 0")
    case True
    then show ?thesis using run r1 by (auto simp: ibind_def)
  next
    case False
    then have "T (inj_world s) < deadline" using t1 by simp
    then show ?thesis using False run r1 r2 r3 r4 r5 t2(2) t5(1)
      by (cases p; cases q) (auto simp: ibind_def split: if_splits)
  qed
  with far show "r \<noteq> Inl Diverged" and "r = Inr (Inr x) \<Longrightarrow> T (inj_world s) < deadline \<and> (deadline \<le> T (inj_world s') \<or> T (inj_world s) + 1 / 10 \<le> T (inj_world s'))"
    by auto
qed

text \<open>With \<open>n\<close> tenths of a second left, \<open>n + 1\<close> rounds are enough, and more fuel changes nothing.\<close>

lemma await_admin_ends:
  assumes "steady clk T" and "deadline \<le> T (inj_world s) + of_nat n / 10"
  shows "fst (await_admin env clk c i enabled failed deadline (Suc n) st m s) \<noteq> Inl Diverged
    \<and> await_admin env clk c i enabled failed deadline (Suc n + k) st m s = await_admin env clk c i enabled failed deadline (Suc n) st m s"
  using assms(2)
proof (induction n arbitrary: s st m)
  case 0
  obtain r s1 where r: "await_round env clk c i enabled failed deadline st m s = (r, s1)" by fastforce
  have "r \<noteq> Inr (Inr x)" "r \<noteq> Inl Diverged" for x
    using await_round_steady [OF assms(1) r] 0 by fastforce+
  then show ?case using r by (auto simp: ibind_def split: sum.split)
next
  case (Suc n)
  obtain r s1 where r: "await_round env clk c i enabled failed deadline st m s = (r, s1)" by fastforce
  show ?case
  proof (cases "\<exists>st' m'. r = Inr (Inr (st', m'))")
    case True
    then obtain st' m' where r': "r = Inr (Inr (st', m'))" by blast
    have "deadline \<le> T (inj_world s1) + of_nat n / 10"
      using await_round_steady(2) [OF assms(1) r r'] Suc.prems by (auto simp: field_simps)
    from Suc.IH [OF this] show ?thesis using r r' by (simp add: ibind_def)
  next
    case False
    then show ?thesis using r await_round_steady(1) [OF assms(1) r] by (auto simp: ibind_def split: sum.split)
  qed
qed

subsection \<open>The handlers return\<close>

named_theorems returns_intros "computations that do not diverge"

definition returns :: "('s, 'a) io \<Rightarrow> bool" where
  "returns m \<longleftrightarrow> (\<forall>s. fst (m s) \<noteq> Inl Diverged)"

lemma returns_simple [returns_intros]: "returns (ireturn x)" "e \<noteq> Diverged \<Longrightarrow> returns (ithrow e)" "returns (imodify f)" "returns (iget g)"
  "r \<noteq> Inl Diverged \<Longrightarrow> returns (ilift r)"
  by (simp_all add: returns_def)

lemma returns_bind [returns_intros]: "returns m \<Longrightarrow> (\<And>x. returns (f x)) \<Longrightarrow> returns (ibind m f)"
  by (auto simp: returns_def ibind_def split: prod.split sum.split) (metis fst_conv)

lemma returns_imapM [returns_intros]: "(\<And>x. returns (f x)) \<Longrightarrow> returns (imapM f xs)"
  by (induction xs) (auto intro!: returns_intros)

lemma returns_if [returns_intros]: "(b \<Longrightarrow> returns m) \<Longrightarrow> (\<not> b \<Longrightarrow> returns n) \<Longrightarrow> returns (if b then m else n)"
  by simp

lemma returns_case_option [returns_intros]: "returns n \<Longrightarrow> (\<And>x. returns (f x)) \<Longrightarrow> returns (case o' of None \<Rightarrow> n | Some x \<Rightarrow> f x)"
  by (simp split: option.split)

lemma returns_case_prod [returns_intros]: "(\<And>a b. returns (f a b)) \<Longrightarrow> returns (case p of (a, b) \<Rightarrow> f a b)"
  by (simp split: prod.split)

lemma returns_case_sum [returns_intros]: "(\<And>a. returns (f a)) \<Longrightarrow> (\<And>a. returns (g a)) \<Longrightarrow> returns (case p of Inl a \<Rightarrow> f a | Inr b \<Rightarrow> g b)"
  by (simp split: sum.split)

lemma value_not_diverged [simp]: "as_dict v \<noteq> Inl Diverged" "iter_val v \<noteq> Inl Diverged" "val_get v k d \<noteq> Inl Diverged"
  by (simp_all add: as_dict_def iter_val_def val_get_def split: pyval.split)

text \<open>The processes that the services start raise Python exceptions only.\<close>

definition proper_env :: "'w env \<Rightarrow> bool" where
  "proper_env env \<longleftrightarrow> (\<forall>a t w. fst (env_run env a t w) \<noteq> Raised Diverged)"

lemma returns_services:
  assumes "proper_env env"
  shows "returns (docker_exec env c a)" "returns (container_of env device)" "returns (config_cmd env device as)"
proof -
  show d: "returns (docker_exec env c a)" for c a
    unfolding returns_def
  proof
    fix s :: "'a injector"
    obtain out w where "env_run env (docker_cmd env c a) 30 (inj_world s) = (out, w)" by fastforce
    moreover from this have "out \<noteq> Raised Diverged" using assms unfolding proper_env_def by (metis fst_conv)
    ultimately show "fst (docker_exec env c a s) \<noteq> Inl Diverged"
      by (auto simp: docker_exec_def run_cmd_def split: run_outcome.split)
  qed
  show o: "returns (container_of env device)" unfolding container_of_def by (auto intro!: returns_intros)
  show "returns (config_cmd env device as)" unfolding config_cmd_def by (intro returns_intros d o)
qed

definition LINK_FUEL :: nat where "LINK_FUEL = 31"

lemma set_link_admin_state_returns:
  assumes "steady clk T" and "proper_env env" and "LINK_FUEL \<le> fuel"
  shows "returns (set_link_admin_state env clk fuel ep enabled)"
    and "set_link_admin_state env clk fuel ep enabled = set_link_admin_state env clk LINK_FUEL ep enabled"
proof -
  obtain device container sonic_if linux_if where ep: "ep = (device, container, sonic_if, linux_if)" by (metis prod_cases4)
  obtain k where fuel: "fuel = Suc 30 + k" using assms(3) by (auto simp: LINK_FUEL_def le_iff_add)
  have tail: "fst (await_admin env clk container linux_if enabled b (now + 3) fuel r False s1) \<noteq> Inl Diverged
      \<and> await_admin env clk container linux_if enabled b (now + 3) fuel r False s1
        = await_admin env clk container linux_if enabled b (now + 3) LINK_FUEL r False s1"
    if "read_clock clk s = (Inr now, s1)" for b now r s s1
  proof -
    have "now \<le> T (inj_world s1)" using read_clock_steady [OF assms(1) that] by simp
    then have "now + 3 \<le> T (inj_world s1) + of_nat 30 / 10" by simp
    from await_admin_ends [OF assms(1) this, of env container linux_if enabled b r False k] show ?thesis
      unfolding fuel by (simp add: LINK_FUEL_def numeral_eq_Suc)
  qed
  note services = returns_services [OF assms(2)]
  have clock: "fst (read_clock clk s) \<noteq> Inl Diverged" for s
    using read_clock_steady [OF assms(1)] by (metis prod.collapse sum.distinct(1))
  have part: "returns (ibind (read_clock clk) (\<lambda>now. ibind (await_admin env clk container linux_if enabled b (now + 3) fuel r False) (\<lambda>x. ireturn (f x))))"
    for b r and f :: "proc \<times> bool \<Rightarrow> outcome"
    unfolding returns_def
  proof
    fix s
    obtain x s1 where x: "read_clock clk s = (Inr x, s1)" using read_clock_steady [OF assms(1)] by (metis prod.collapse)
    then show "fst (ibind (read_clock clk) (\<lambda>now. ibind (await_admin env clk container linux_if enabled b (now + 3) fuel r False) (\<lambda>x. ireturn (f x))) s) \<noteq> Inl Diverged"
      using tail [OF x, of b r] by (simp add: ibind_def split: prod.split sum.split) (metis fst_conv)
  qed
  then show "returns (set_link_admin_state env clk fuel ep enabled)"
    unfolding set_link_admin_state_def ep Let_def case_prod_unfold fst_conv snd_conv
    by (intro returns_bind [OF services(3)] returns_bind [OF returns_if [OF services(1) returns_simple(1)]])
  have "ibind (read_clock clk) (\<lambda>now. ibind (await_admin env clk container linux_if enabled b (now + 3) fuel r False) g)
      = ibind (read_clock clk) (\<lambda>now. ibind (await_admin env clk container linux_if enabled b (now + 3) LINK_FUEL r False) g)"
    for b r and g :: "proc \<times> bool \<Rightarrow> ('a injector, outcome) io"
  proof
    fix s
    obtain x s1 where x: "read_clock clk s = (Inr x, s1)" using read_clock_steady [OF assms(1)] by (metis prod.collapse)
    then show "ibind (read_clock clk) (\<lambda>now. ibind (await_admin env clk container linux_if enabled b (now + 3) fuel r False) g) s
        = ibind (read_clock clk) (\<lambda>now. ibind (await_admin env clk container linux_if enabled b (now + 3) LINK_FUEL r False) g) s"
      using tail [OF x, of b r] by (simp add: ibind_def)
  qed
  then show "set_link_admin_state env clk fuel ep enabled = set_link_admin_state env clk LINK_FUEL ep enabled"
    unfolding set_link_admin_state_def ep Let_def by simp
qed


lemma returns_reads:
  assumes "proper_env env"
  shows "returns (endpoint_of env device intf)" "returns (link_endpoints env device intf)" "returns (healthy_link_state env eps)"
    "returns (snapshot_ends env eps)" "returns (restore_client_routes env ep routes)"
proof -
  note services = returns_services [OF assms]
  show e: "returns (endpoint_of env device intf)" for device intf
    unfolding endpoint_of_def by (intro returns_intros services)
  show "returns (link_endpoints env device intf)"
    unfolding link_endpoints_def by (auto intro!: returns_intros e split: option.split)
  show "returns (healthy_link_state env eps)"
    unfolding healthy_link_state_def endpoint_state_def Let_def by (auto intro!: returns_intros services)
  have "returns (snapshot_client_routes env ep)" for ep
    unfolding snapshot_client_routes_def by (auto intro!: returns_intros services split: prod.split)
  then show "returns (snapshot_ends env eps)"
    unfolding snapshot_ends_def by (auto intro!: returns_intros)
  have "returns (restore_route env c l ks r)" for c l ks r
    unfolding restore_route_def Let_def by (auto intro!: returns_intros services)
  moreover have "(if b then (case env_json env t of Inl e \<Rightarrow> Inr [] | Inr v \<Rightarrow> iter_val v) else Inr []) \<noteq> Inl Diverged" for b t
    by (simp split: sum.split)
  ultimately show "returns (restore_client_routes env ep routes)"
    unfolding restore_client_routes_def Let_def
    by (auto intro!: returns_intros services split: prod.split sum.split simp del: split_paired_All)
qed

lemma returns_tracking [returns_intros]: "returns (track info)" "returns (track_residual info err)" "returns (remove_faults (port_fault ty d i))"
proof -
  have f: "af_from_dict info \<noteq> Inl Diverged" for info
    by (auto simp: af_from_dict_def Let_def split: prod.split option.split)
  then show t: "returns (track info)" for info unfolding track_def by (auto intro!: returns_intros)
  show "returns (track_residual info err)" unfolding track_residual_def by (rule t)
  have "af_item g k \<noteq> Inl Diverged" for g k by (simp add: af_item_def split: option.split)
  then have p: "port_fault ty d i g \<noteq> Inl Diverged" for g
    by (auto simp: port_fault_def rand_def item_is_def rbind_def split: sum.splits)
  have "rfilter_out (port_fault ty d i) fs \<noteq> Inl Diverged" for fs
    by (induction fs) (auto simp: rbind_eq_Inl p)
  then show "returns (remove_faults (port_fault ty d i))"
    unfolding remove_faults_def by (auto intro!: returns_intros)
qed

lemma set_physical_link_returns:
  assumes "steady clk T" and "proper_env env" and "LINK_FUEL \<le> fuel"
  shows "returns (set_physical_link env clk fuel eps enabled snapshots)"
    and "set_physical_link env clk fuel eps enabled snapshots = set_physical_link env clk LINK_FUEL eps enabled snapshots"
proof -
  note admin = set_link_admin_state_returns [OF assms] and reads = returns_reads [OF assms(2)]
  have "returns (change_ends env clk fuel enabled snapshots eps)"
  proof (induction eps)
    case (Cons ep eps)
    then show ?case unfolding change_ends.simps Let_def snapshot_of_def by (intro returns_intros admin reads) simp_all
  qed (simp only: change_ends.simps returns_simple)
  moreover have "returns (compensate_end env clk fuel snapshots ep)" for ep
    unfolding compensate_end_def by (auto intro!: returns_intros admin reads simp: snapshot_of_def split: prod.split)
  ultimately show "returns (set_physical_link env clk fuel eps enabled snapshots)"
    unfolding set_physical_link_def by (auto intro!: returns_intros split: prod.split)
  have ce: "change_ends env clk fuel enabled snapshots eps = change_ends env clk LINK_FUEL enabled snapshots eps"
    by (induction eps) (simp_all only: change_ends.simps admin(2))
  have co: "compensate_end env clk fuel = compensate_end env clk LINK_FUEL"
    by (intro ext) (simp only: compensate_end_def admin(2))
  show "set_physical_link env clk fuel eps enabled snapshots = set_physical_link env clk LINK_FUEL eps enabled snapshots"
    unfolding set_physical_link_def ce co ..
qed

text \<open>C27: bringing a link down and up always comes to an end. With a clock that does not go back, 31 rounds of the
  read-back loop are enough for every port, so the injection and the recovery of a link fault never run out of
  that fuel, and more fuel gives the same result in the same state.\<close>

theorem link_handler_terminates:
  assumes "steady clk T" and "proper_env env" and "LINK_FUEL \<le> fuel"
  shows "fst (inject_link_down env clk fuel device intf s) \<noteq> Inl Diverged
     \<and> inject_link_down env clk fuel device intf s = inject_link_down env clk LINK_FUEL device intf s
     \<and> fst (recover_link_down env clk fuel device intf pdev pint snapshots s) \<noteq> Inl Diverged
     \<and> recover_link_down env clk fuel device intf pdev pint snapshots s = recover_link_down env clk LINK_FUEL device intf pdev pint snapshots s"
proof -
  note link = set_physical_link_returns [OF assms] and reads = returns_reads [OF assms(2)]
  have "returns (inject_link_down env clk fuel device intf)"
    unfolding inject_link_down_def Let_def by (auto intro!: returns_intros link(1) reads)
  moreover have "returns (recover_link_down env clk fuel device intf pdev pint snapshots)"
    unfolding recover_link_down_def recovery_ends_def by (auto intro!: returns_intros link(1) reads)
  moreover have "inject_link_down env clk fuel device intf = inject_link_down env clk LINK_FUEL device intf"
    unfolding inject_link_down_def link(2) ..
  moreover have "recover_link_down env clk fuel device intf pdev pint snapshots = recover_link_down env clk LINK_FUEL device intf pdev pint snapshots"
    unfolding recover_link_down_def link(2) ..
  ultimately show ?thesis unfolding returns_def by metis
qed


subsection \<open>The transaction\<close>

text \<open>The port was read back in the given admin state, and only the clock was read since.\<close>

definition reads_back :: "'w env \<Rightarrow> 'w clock \<Rightarrow> endpoint \<Rightarrow> bool \<Rightarrow> 'w injector \<Rightarrow> bool" where
  "reads_back env clk ep enabled s' = (case ep of (device, container, sonic_if, linux_if) \<Rightarrow>
     \<exists>t s1 p s2 now. docker_exec_within env clk container (show_link_args linux_if) t s1 = (Inr p, s2)
       \<and> admin_up p = Some enabled \<and> read_clock clk s2 = (Inr now, s'))"

lemma await_round_match:
  assumes "await_round env clk c i enabled failed deadline st m s = (Inr (Inl (st', True)), s')" and "\<not> m"
  shows "\<exists>t s1 p s2 now. docker_exec_within env clk c (show_link_args i) t s1 = (Inr p, s2) \<and> admin_up p = Some enabled
     \<and> read_clock clk s2 = (Inr now, s')"
  using assms by (auto simp: await_round_def Let_def ibind_eq_Inr split: if_splits; blast)

lemma await_round_again: "await_round env clk c i enabled failed deadline st m s = (Inr (Inr (st', m')), s') \<Longrightarrow> \<not> m'"
  by (auto simp: await_round_def Let_def ibind_eq_Inr split: if_splits)

lemma await_admin_match:
  assumes "await_admin env clk c i enabled failed deadline n st m s = (Inr (st', True), s')" and "\<not> m"
  shows "\<exists>t s1 p s2 now. docker_exec_within env clk c (show_link_args i) t s1 = (Inr p, s2) \<and> admin_up p = Some enabled
     \<and> read_clock clk s2 = (Inr now, s')"
  using assms
proof (induction n arbitrary: st m s)
  case (Suc n)
  from Suc.prems(1) obtain r s1 where r: "await_round env clk c i enabled failed deadline st m s = (Inr r, s1)"
      "(case r of Inl final \<Rightarrow> ireturn final | Inr (st', m') \<Rightarrow> await_admin env clk c i enabled failed deadline n st' m') s1 = (Inr (st', True), s')"
    by (auto simp: ibind_eq_Inr)
  show ?case
  proof (cases r)
    case (Inl final)
    then show ?thesis using r await_round_match [of env clk c i enabled failed deadline st m s st' s'] Suc.prems(2) by simp
  next
    case (Inr x)
    then show ?thesis using r await_round_again [of env clk c i enabled failed deadline st m s] Suc.IH by (cases x) auto
  qed
qed simp

lemma set_link_admin_state_success:
  assumes "set_link_admin_state env clk fuel ep enabled s = (Inr (True, e), s')"
  shows "e = None \<and> reads_back env clk ep enabled s'"
proof -
  obtain device c si i where ep: "ep = (device, c, si, i)" by (metis prod_cases4)
  have "(\<exists>b dl result s1 st. await_admin env clk c i enabled b dl fuel result False s1 = (Inr (st, True), s')) \<and> e = None"
    using assms by (auto simp: set_link_admin_state_def ep Let_def ibind_eq_Inr split: if_splits; blast)
  then show ?thesis using await_admin_match by (fastforce simp: reads_back_def ep)
qed

definition brought_up :: "'w env \<Rightarrow> 'w clock \<Rightarrow> nat \<Rightarrow> pyval \<Rightarrow> endpoint \<Rightarrow> 'w injector \<Rightarrow> 'w injector \<Rightarrow> bool" where
  "brought_up env clk fuel snapshots ep s s' \<longleftrightarrow>
     (\<exists>s1 routes e. set_link_admin_state env clk fuel ep True s = (Inr (True, None), s1) \<and> reads_back env clk ep True s1
        \<and> snapshot_of snapshots ep = Inr routes \<and> restore_client_routes env ep routes s1 = (Inr (True, e), s'))"

lemma compensate_end_ok:
  assumes "compensate_end env clk fuel snapshots ep s = (Inr [], s')"
  shows "brought_up env clk fuel snapshots ep s s'"
proof -
  from assms obtain ok e s1 where a: "set_link_admin_state env clk fuel ep True s = (Inr (ok, e), s1)"
      "(if \<not> ok then ireturn [''compensation '' @ port_label ep @ '': '' @ show_opt e]
        else ibind (ilift (snapshot_of snapshots ep)) (\<lambda>routes. ibind (restore_client_routes env ep routes) (\<lambda>(restored, err').
          ireturn (if restored then [] else [''compensation '' @ port_label ep @ '': '' @ show_opt err'])))) s1 = (Inr [], s')"
    by (auto simp: compensate_end_def ibind_eq_Inr)
  then have ok by (auto split: if_splits)
  with a obtain routes e' where "snapshot_of snapshots ep = Inr routes" "restore_client_routes env ep routes s1 = (Inr (True, e'), s')"
    by (auto simp: ibind_eq_Inr split: if_splits)
  then show ?thesis using a(1) \<open>ok\<close> set_link_admin_state_success [of env clk fuel ep True s e s1] by (auto simp: brought_up_def)
qed

lemma join_first_nonempty: "xs \<noteq> [] \<Longrightarrow> hd xs \<noteq> [] \<Longrightarrow> join sep xs \<noteq> []"
  by (cases "(sep, xs)" rule: join.cases) auto

lemma join_errors_some: "\<exists>y. join_errors ((a @ '': '' @ b) # es) = Some y \<and> y \<noteq> []"
  using join_first_nonempty [of "(a @ '': '' @ b) # es" "''; ''"] by (simp add: join_errors_def)

text \<open>Bringing ends up again in the given order, each from the state that the one before left.\<close>

fun rolled_back ::
  "'w env \<Rightarrow> 'w clock \<Rightarrow> nat \<Rightarrow> pyval \<Rightarrow> endpoint list \<Rightarrow> 'w injector \<Rightarrow> 'w injector \<Rightarrow> bool" where
  "rolled_back env clk fuel snapshots [] s s' = (s' = s)"
| "rolled_back env clk fuel snapshots (ep # eps) s s' =
     (\<exists>s1. brought_up env clk fuel snapshots ep s s1 \<and> rolled_back env clk fuel snapshots eps s1 s')"

definition failed_link :: "link_result \<Rightarrow> bool" where
  "failed_link r \<longleftrightarrow> \<not> lr_success r \<and> (\<exists>err. lr_error r = Some err \<and> err \<noteq> [])"

text \<open>Taking both ends of a link down.\<close>

lemma link_down_cases:
  assumes "set_physical_link env clk fuel [t, p] False snapshots s = (Inr r, s')"
  shows "\<exists>ok e s1. set_link_admin_state env clk fuel t False s = (Inr (ok, e), s1) \<and>
     (if \<not> ok then failed_link r \<and> (lr_residual_mutation r \<or> rolled_back env clk fuel snapshots [t] s1 s')
      else reads_back env clk t False s1 \<and> (\<exists>ok' e' s2. set_link_admin_state env clk fuel p False s1 = (Inr (ok', e'), s2) \<and>
        (if \<not> ok' then failed_link r \<and> (lr_residual_mutation r \<or> rolled_back env clk fuel snapshots [p, t] s2 s')
         else reads_back env clk p False s2 \<and> lr_success r \<and> s' = s2)))"
proof -
  obtain ok1 e1 s1 where a1: "set_link_admin_state env clk fuel t False s = (Inr (ok1, e1), s1)"
    using assms by (auto simp: set_physical_link_def ibind_eq_Inr)
  show ?thesis
  proof (cases ok1)
    case False
    then obtain ce where ce: "compensate_end env clk fuel snapshots t s1 = (Inr ce, s')"
        "r = \<lparr> lr_success = False, lr_error = join_errors ((port_label t @ '': '' @ or_else (as_text e1) ''state change failed'') # ce),
           lr_compensated = Some (ce = []), lr_residual_mutation = (ce \<noteq> []) \<rparr>"
      using assms a1 by (auto simp: set_physical_link_def ibind_eq_Inr Let_def)
    then have "failed_link r"
      using join_errors_some [of "port_label t" "or_else (as_text e1) ''state change failed''" ce] by (simp add: failed_link_def)
    moreover have "lr_residual_mutation r \<or> rolled_back env clk fuel snapshots [t] s1 s'"
      using ce compensate_end_ok [of env clk fuel snapshots t s1 s'] by (cases "ce = []") simp_all
    ultimately show ?thesis using a1 False by (intro exI [of _ ok1] exI [of _ e1] exI [of _ s1]) simp
  next
    case True
    then have t1: "reads_back env clk t False s1" using set_link_admin_state_success a1 by fastforce
    obtain ok2 e2 s2 where a2: "set_link_admin_state env clk fuel p False s1 = (Inr (ok2, e2), s2)"
      using assms a1 True by (auto simp: set_physical_link_def ibind_eq_Inr)
    have "if \<not> ok2 then failed_link r \<and> (lr_residual_mutation r \<or> rolled_back env clk fuel snapshots [p, t] s2 s')
         else reads_back env clk p False s2 \<and> lr_success r \<and> s' = s2"
    proof (cases ok2)
      case True2: True
      then have "reads_back env clk p False s2" using set_link_admin_state_success a2 by fastforce
      moreover have "lr_success r \<and> s' = s2"
        using assms a1 a2 True True2 by (auto simp: set_physical_link_def ibind_eq_Inr)
      ultimately show ?thesis using True2 by simp
    next
      case False
      then obtain ce s3 ce' where ce: "compensate_end env clk fuel snapshots p s2 = (Inr ce, s3)" "compensate_end env clk fuel snapshots t s3 = (Inr ce', s')"
          "r = \<lparr> lr_success = False, lr_error = join_errors ((port_label p @ '': '' @ or_else (as_text e2) ''state change failed'') # ce @ ce'),
             lr_compensated = Some (ce @ ce' = []), lr_residual_mutation = (ce @ ce' \<noteq> []) \<rparr>"
        using assms a1 a2 True by (auto simp: set_physical_link_def ibind_eq_Inr Let_def)
      then have "failed_link r"
        using join_errors_some [of "port_label p" "or_else (as_text e2) ''state change failed''" "ce @ ce'"] by (simp add: failed_link_def)
      moreover have "lr_residual_mutation r \<or> rolled_back env clk fuel snapshots [p, t] s2 s'"
        using ce compensate_end_ok [of env clk fuel snapshots p s2 s3] compensate_end_ok [of env clk fuel snapshots t s3 s']
        by (cases "ce @ ce' = []") auto
      ultimately show ?thesis using False by simp
    qed
    then show ?thesis using a1 a2 t1 True by (intro exI [of _ ok1] exI [of _ e1] exI [of _ s1]) auto
  qed
qed

lemma frame_case_prod [frame_intros]: "(\<And>a b. frame (f a b)) \<Longrightarrow> frame (case p of (a, b) \<Rightarrow> f a b)"
  by (simp split: prod.split)

lemma frame_case_sum [frame_intros]: "(\<And>a. frame (f a)) \<Longrightarrow> (\<And>b. frame (g b)) \<Longrightarrow> frame (case p of Inl a \<Rightarrow> f a | Inr b \<Rightarrow> g b)"
  by (simp split: sum.split)

lemma frame_on_world [frame_intros]: "frame (on_world f)"
  by (rule frameI) (auto simp: on_world_def split: prod.split)

lemma frame_ports [frame_intros]: "frame (read_clock clk)" "frame (sleep_for clk d)" "frame (docker_exec_within env clk c a t)"
    "frame (await_round env clk c i enabled failed deadline st m)" "frame (await_admin env clk c i enabled failed deadline n st m)"
    "frame (set_link_admin_state env clk fuel ep enabled)"
proof -
  show f: "frame (read_clock clk)" "frame (sleep_for clk d)" "frame (docker_exec_within env clk c a t)" for d c a t
    unfolding read_clock_def sleep_for_def docker_exec_within_def by (rule frame_on_world)+
  show r: "frame (await_round env clk c i enabled failed deadline st m)" for c i failed deadline st m
    unfolding await_round_def Let_def by (intro frame_intros f)
  show a: "frame (await_admin env clk c i enabled failed deadline n st m)" for c i failed deadline n st m
    by (induction n arbitrary: st m) (auto simp: await_admin.simps intro!: frame_intros r simp del: io_simps split: sum.split)
  show "frame (set_link_admin_state env clk fuel ep enabled)"
    unfolding set_link_admin_state_def Let_def by (intro frame_intros f a)
qed

lemma frame_links [frame_intros]: "frame (endpoint_of env device intf)" "frame (link_endpoints env device intf)" "frame (healthy_link_state env eps)"
    "frame (snapshot_ends env eps)" "frame (restore_client_routes env ep routes)" "frame (change_ends env clk fuel enabled snapshots eps)"
    "frame (set_physical_link env clk fuel eps enabled snapshots)"
proof -
  show e: "frame (endpoint_of env device intf)" for device intf unfolding endpoint_of_def by (intro frame_intros)
  show "frame (link_endpoints env device intf)"
    unfolding link_endpoints_def by (intro frame_intros e)
  show "frame (healthy_link_state env eps)" unfolding healthy_link_state_def endpoint_state_def Let_def by (intro frame_intros)
  show "frame (snapshot_ends env eps)" unfolding snapshot_ends_def snapshot_client_routes_def by (intro frame_intros)
  show r: "frame (restore_client_routes env ep routes)" for ep routes
    unfolding restore_client_routes_def restore_route_def Let_def by (intro frame_intros)
  show c: "frame (change_ends env clk fuel enabled snapshots eps)"
  proof (induction eps)
    case (Cons ep eps)
    then show ?case unfolding change_ends.simps Let_def by (intro frame_intros r)
  qed (simp only: change_ends.simps frame_simple)
  show "frame (set_physical_link env clk fuel eps enabled snapshots)"
    unfolding set_physical_link_def compensate_end_def by (intro frame_intros c r)
qed






subsection \<open>A simulated fabric\<close>

text \<open>A clock, and the ports that are down.\<close>

type_synonym fabric = "rat \<times> (string \<times> string) list"

definition fabric_run :: "string list \<Rightarrow> fabric \<Rightarrow> run_outcome \<times> fabric" where
  "fabric_run cmd w = (case (cmd, w) of (docker # ex # c # args, now, down) \<Rightarrow>
     (let ok = (\<lambda>text. Completed \<lparr> returncode = 0, stdout = text, stderr = [] \<rparr>) in
      if take 3 args = [''config'', ''interface'', ''shutdown''] then (ok [], (now, (c, to_linux_interface (Some (last args))) # down))
      else if take 3 args = [''config'', ''interface'', ''startup'']
      then (ok [], (now, filter (\<lambda>x. x \<noteq> (c, to_linux_interface (Some (last args)))) down))
      else if take 4 args = [''ip'', ''-o'', ''link'', ''show'']
      then (ok (if (c, last args) \<in> set down then ''<BROADCAST>'' else ''<BROADCAST,UP>''), w)
      else (ok [], w))
   | _ \<Rightarrow> (Os_error ''no such command'', w))"

definition fabric_env :: "fabric env" where
  "fabric_env = \<lparr> env_run = \<lambda>cmd t w. fabric_run cmd w, env_docker_prefix = [],
     env_manifest = echo_manifest\<lparr> devices := [
         \<lparr> dev_name = ''leaf1'', role = LEAF, mgmt_ip = None, data_ip = None, attached_switch = None, asn = None, router_id = None, metadata = [] \<rparr>,
         \<lparr> dev_name = ''spine1'', role = SPINE, mgmt_ip = None, data_ip = None, attached_switch = None, asn = None, router_id = None, metadata = [] \<rparr>],
       links := [\<lparr> kind = ''fabric'', endpoints = (\<lparr> ep_device = ''leaf1'', ep_interface = ''eth1'' \<rparr>, \<lparr> ep_device = ''spine1'', ep_interface = ''eth2'' \<rparr>),
         link_mtu = 9232 \<rparr>] \<rparr>,
     env_json = \<lambda>_. Inl (ValueError []), env_frepr = \<lambda>_. ''0.0'' \<rparr>"

definition fabric_clock :: "fabric clock" where
  "fabric_clock = \<lparr> clk_read = \<lambda>w. (fst w, w), clk_time_ns = \<lambda>w. (0, w), clk_sleep = \<lambda>d w. (Inr (), (fst w + d, snd w)),
     clk_run = \<lambda>cmd t w. fabric_run cmd w, clk_budget = \<lambda>t w. (Inr t, w), clk_start = \<lambda>_ _ _ w. w, clk_stop = \<lambda>_ w. w,
     clk_join = \<lambda>_ _ w. (False, w) \<rparr>"

lemma fabric_run_time: "fst (snd (fabric_run cmd w)) = fst w" "fst (fabric_run cmd w) \<noteq> Raised Diverged"
  by (auto simp: fabric_run_def Let_def split: list.split prod.split)

lemma fabric_steady: "steady fabric_clock fst"
  unfolding steady_def using fabric_run_time by (simp add: fabric_clock_def)

lemma fabric_proper: "proper_env fabric_env"
  unfolding proper_env_def using fabric_run_time(2) by (simp add: fabric_env_def)

theorem link_handler_terminates_witness:
  "fst (inject_link_down fabric_env fabric_clock 40 ''leaf1'' ''Ethernet0'' (idle_injector (0, []))) \<noteq> Inl Diverged"
  by (rule link_handler_terminates [OF fabric_steady fabric_proper, THEN conjunct1]) (simp add: LINK_FUEL_def)


subsection \<open>Flapping with an interval that is not positive\<close>

text \<open>C28: a link-flapping fault with an interval that is not positive is rejected only after the link has been taken
  down: the injection raises \<open>ValueError\<close> with both ends down, the peer read back as down, nothing tracked and no
  compensation, so no later recovery brings the link up.\<close>

theorem flapping_interval_leak:
  assumes "link_endpoints env device intf s = (Inr (t, p), s0)" and "healthy_link_state env [t, p] s0 = (Inr (True, initial), s1)"
    and "snapshot_ends env [t, p] s1 = (Inr snaps, s2)"
    and "s3 = s2\<lparr>inj_world := snd (clk_time_ns clk (inj_world s2))\<rparr>"
    and "set_physical_link env clk fuel [t, p] False snaps s3 = (Inr r, s4)" and "lr_success r"
    and "down \<noteq> PNone" and "up \<noteq> PNone" and "num_of_val down = Inr d" and "num_of_val up = Inr u" and "min d u \<le> 0"
  shows "inject_link_flapping env clk fuel policy device intf down up s = (Inl (ValueError ''Periodic fault intervals must be positive''), s4)
    \<and> active_faults s4 = active_faults s \<and> reads_back env clk p False s4"
proof -
  have act: "active_faults s4 = active_faults s"
    using frame_active [OF frame_links(2), of env device intf s] frame_active [OF frame_links(3), of env "[t, p]" s0]
      frame_active [OF frame_links(4), of env "[t, p]" s1] frame_active [OF frame_links(7), of env clk fuel "[t, p]" False snaps s3] assms(1-5)
    by simp
  have "on_world (\<lambda>w. case clk_time_ns clk w of (n, w') \<Rightarrow> (Inr n, w')) s2 = (Inr (fst (clk_time_ns clk (inj_world s2))), s3)"
    by (simp add: on_world_def assms(4) split: prod.split)
  then have "inject_link_flapping env clk fuel policy device intf down up s = (Inl (ValueError ''Periodic fault intervals must be positive''), s4)"
    using assms(1-3,5-11) by (simp add: inject_link_flapping_def Let_def
        ibind_def periodic_controller_def)
  then show ?thesis using act link_down_cases [OF assms(5)] assms(6) by (auto simp: failed_link_def split: if_splits)
qed

definition leaf_end :: endpoint where "leaf_end = (''leaf1'', ''clab-dcn-leaf1'', ''Ethernet0'', ''eth1'')"
definition spine_end :: endpoint where "spine_end = (''spine1'', ''clab-dcn-spine1'', ''Ethernet4'', ''eth2'')"
definition flap0 :: "fabric injector" where "flap0 = snd (link_endpoints fabric_env ''leaf1'' ''Ethernet0'' (idle_injector (0, [])))"
definition flap1 :: "fabric injector" where "flap1 = snd (healthy_link_state fabric_env [leaf_end, spine_end] flap0)"
definition flap2 :: "fabric injector" where "flap2 = snd (snapshot_ends fabric_env [leaf_end, spine_end] flap1)"

lemma flap_steps:
  "fst (link_endpoints fabric_env ''leaf1'' ''Ethernet0'' (idle_injector (0, []))) = Inr (leaf_end, spine_end)"
  "map_sum id fst (fst (healthy_link_state fabric_env [leaf_end, spine_end] flap0)) = Inr True"
  "fst (snapshot_ends fabric_env [leaf_end, spine_end] flap1) = Inr (PDict [(''leaf1:eth1'', PList []), (''spine1:eth2'', PList [])])"
  "map_sum id lr_success (fst (set_physical_link fabric_env fabric_clock LINK_FUEL [leaf_end, spine_end] False
     (PDict [(''leaf1:eth1'', PList []), (''spine1:eth2'', PList [])]) flap2)) = Inr True"
  by code_simp+

theorem flapping_interval_leak_witness:
  "\<exists>s4. inject_link_flapping fabric_env fabric_clock LINK_FUEL default_experiment_profile ''leaf1'' ''Ethernet0'' (PInt 0) (PInt 5) (idle_injector (0, []))
       = (Inl (ValueError ''Periodic fault intervals must be positive''), s4) \<and> active_faults s4 = [] \<and> reads_back fabric_env fabric_clock spine_end False s4"
proof -
  let ?snaps = "PDict [(''leaf1:eth1'', PList []), (''spine1:eth2'', PList [])]"
  let ?set = "set_physical_link fabric_env fabric_clock LINK_FUEL [leaf_end, spine_end] False ?snaps flap2"
  have e0: "link_endpoints fabric_env ''leaf1'' ''Ethernet0'' (idle_injector (0, [])) = (Inr (leaf_end, spine_end), flap0)"
    by (simp add: prod_eq_iff flap_steps(1) flap0_def)
  obtain initial where "fst (healthy_link_state fabric_env [leaf_end, spine_end] flap0) = Inr (True, initial)"
    using flap_steps(2) by (cases "fst (healthy_link_state fabric_env [leaf_end, spine_end] flap0)") auto
  then have e1: "healthy_link_state fabric_env [leaf_end, spine_end] flap0 = (Inr (True, initial), flap1)"
    by (simp add: prod_eq_iff flap1_def)
  have e2: "snapshot_ends fabric_env [leaf_end, spine_end] flap1 = (Inr ?snaps, flap2)"
    by (simp add: prod_eq_iff flap_steps(3) flap2_def)
  obtain r where "fst ?set = Inr r" "lr_success r" using flap_steps(4) by (cases "fst ?set") auto
  then have e4: "?set = (Inr r, snd ?set)" "lr_success r" by (simp_all add: prod_eq_iff)
  have e3: "flap2 = flap2\<lparr>inj_world := snd (clk_time_ns fabric_clock (inj_world flap2))\<rparr>" by (simp add: fabric_clock_def)
  show ?thesis
    using flapping_interval_leak [OF e0 e1 e2 e3 e4, of "PInt 0" "PInt 5" 0 5 default_experiment_profile]
    by (auto simp: num_of_val_def idle_injector_def)
qed

subsection \<open>A link-down that is rolled back\<close>





end
