(* ===== verification/Periodic_Controller.thy ===== *)
theory Periodic_Controller
  imports Link_Handler
begin

text \<open>
  The thread of a periodic fault (\<open>faults/services/periodic.py\<close>) as a state machine. The thread waits, runs
  the healthy operation, waits, runs the fault operation, and so on; the tracker may set its stop event at
  any moment. A step of the machine is one return of a wait or of an operation; how each ends (time out,
  success, cancellation, exception) is the event. Cancellation is raised only once the stop event is set.
  Shown: in every reachable state the recorded phases alternate and at most 51 are kept; an error
  means that the thread stopped by itself; and once the stop event is set the thread ends within two steps,
  whatever happens, without starting another phase.
\<close>

subsection \<open>The machine\<close>

datatype phase = Fault_phase | Healthy_phase

record phase_entry =
  pe_phase :: phase
  pe_started_at :: "string option"
  pe_time :: string

datatype pc = Entering | Wait_down | Run_healthy string | Wait_up | Run_fault string | Finished

record periodic =
  pr_pc :: pc
  pr_stop :: bool
  pr_error :: "string option"
  pr_history :: "phase_entry list"

text \<open>The state after the constructor: the first fault phase has been applied by the injection.\<close>

definition new_periodic :: "pyval \<Rightarrow> pyval \<Rightarrow> string \<Rightarrow> periodic res" where
  "new_periodic down_time up_time now =
     rbind (periodic_controller down_time up_time) (\<lambda>_.
     Inr \<lparr> pr_pc = Entering, pr_stop = False, pr_error = None,
       pr_history = [\<lparr> pe_phase = Fault_phase, pe_started_at = None, pe_time = now \<rparr>] \<rparr>)"

text \<open>\<open>start\<close> runs the first fault phase itself before the thread begins; an exception of it is passed on.\<close>

definition start_periodic :: "unit res \<Rightarrow> string \<Rightarrow> string \<Rightarrow> periodic \<Rightarrow> periodic res" where
  "start_periodic fault started_at now c = rbind fault (\<lambda>_.
     Inr (c\<lparr> pr_history := (pr_history c)[0 := \<lparr> pe_phase = Fault_phase, pe_started_at = Some started_at, pe_time = now \<rparr>] \<rparr>))"

datatype pevent =
    Stop_requested
  | Checked
  | Elapsed string
  | Succeeded string
  | Cancelled
  | Failed string string

definition last_n :: "nat \<Rightarrow> 'a list \<Rightarrow> 'a list" where
  "last_n n xs = drop (length xs - n) xs"

definition finish :: "periodic \<Rightarrow> periodic" where
  "finish c = c\<lparr> pr_pc := Finished \<rparr>"

text \<open>The next state, or \<open>None\<close> when the event cannot happen. A wait returns \<open>True\<close> as soon as the stop event is
  set, so it elapses only while it is not; \<open>Checked\<close> is entering the operation scope, which checks the stop event,
  or a wait that finds it set.\<close>

fun pstep :: "periodic \<Rightarrow> pevent \<Rightarrow> periodic option" where
  "pstep c Stop_requested = Some (c\<lparr> pr_stop := True \<rparr>)"
| "pstep c Checked = (case pr_pc c of
       Entering \<Rightarrow> Some (if pr_stop c then finish c else c\<lparr> pr_pc := Wait_down \<rparr>)
     | Wait_down \<Rightarrow> if pr_stop c then Some (finish c) else None
     | Wait_up \<Rightarrow> if pr_stop c then Some (finish c) else None
     | _ \<Rightarrow> None)"
| "pstep c (Elapsed now) = (if pr_stop c then None else case pr_pc c of
       Wait_down \<Rightarrow> Some (c\<lparr> pr_pc := Run_healthy now \<rparr>)
     | Wait_up \<Rightarrow> Some (c\<lparr> pr_pc := Run_fault now \<rparr>)
     | _ \<Rightarrow> None)"
| "pstep c (Succeeded now) = (case pr_pc c of
       Run_healthy started \<Rightarrow> Some (c\<lparr> pr_pc := Wait_up,
         pr_history := pr_history c @ [\<lparr> pe_phase = Healthy_phase, pe_started_at = Some started, pe_time = now \<rparr>] \<rparr>)
     | Run_fault started \<Rightarrow> Some (c\<lparr> pr_pc := Wait_down,
         pr_history := last_n 50 (pr_history c @ [\<lparr> pe_phase = Fault_phase, pe_started_at = Some started, pe_time = now \<rparr>]) \<rparr>)
     | _ \<Rightarrow> None)"
| "pstep c Cancelled = (if \<not> pr_stop c then None else case pr_pc c of
       Run_healthy _ \<Rightarrow> Some (finish c) | Run_fault _ \<Rightarrow> Some (finish c) | _ \<Rightarrow> None)"
| "pstep c (Failed cls msg) = (case pr_pc c of
       Run_healthy _ \<Rightarrow> Some ((finish c)\<lparr> pr_error := Some (cls @ '': '' @ msg), pr_stop := True \<rparr>)
     | Run_fault _ \<Rightarrow> Some ((finish c)\<lparr> pr_error := Some (cls @ '': '' @ msg), pr_stop := True \<rparr>)
     | _ \<Rightarrow> None)"

text \<open>Steps of the thread itself, and everything that can happen from a new controller.\<close>

inductive thread_step :: "periodic \<Rightarrow> periodic \<Rightarrow> bool" where
  thread: "e \<noteq> Stop_requested \<Longrightarrow> pstep c e = Some c' \<Longrightarrow> thread_step c c'"

inductive reachable :: "periodic \<Rightarrow> bool" where
  start: "new_periodic down_time up_time now = Inr c \<Longrightarrow> reachable c"
| started: "new_periodic down_time up_time now = Inr c \<Longrightarrow> start_periodic fault started_at now' c = Inr c' \<Longrightarrow> reachable c'"
| step: "reachable c \<Longrightarrow> pstep c e = Some c' \<Longrightarrow> reachable c'"

inductive_cases thread_stepE: "thread_step c c'"

subsection \<open>Phases alternate\<close>

fun alternating :: "phase list \<Rightarrow> bool" where
  "alternating (a # b # ps) = (a \<noteq> b \<and> alternating (b # ps))"
| "alternating _ = True"

definition phases :: "periodic \<Rightarrow> phase list" where
  "phases c = map pe_phase (pr_history c)"

definition pinv :: "periodic \<Rightarrow> bool" where
  "pinv c \<longleftrightarrow> alternating (phases c) \<and> phases c \<noteq> []
     \<and> (case pr_pc c of
          Entering \<Rightarrow> last (phases c) = Fault_phase \<and> length (phases c) \<le> 50
        | Wait_down \<Rightarrow> last (phases c) = Fault_phase \<and> length (phases c) \<le> 50
        | Run_healthy _ \<Rightarrow> last (phases c) = Fault_phase \<and> length (phases c) \<le> 50
        | Wait_up \<Rightarrow> last (phases c) = Healthy_phase \<and> length (phases c) \<le> 51
        | Run_fault _ \<Rightarrow> last (phases c) = Healthy_phase \<and> length (phases c) \<le> 51
        | Finished \<Rightarrow> length (phases c) \<le> 51)
     \<and> (pr_error c \<noteq> None \<longrightarrow> pr_stop c \<and> pr_pc c = Finished)"

lemma alternating_snoc: "alternating (ps @ [p]) \<longleftrightarrow> ps = [] \<or> (alternating ps \<and> last ps \<noteq> p)"
  by (induction ps rule: alternating.induct) auto

lemma alternating_drop: "alternating ps \<Longrightarrow> alternating (drop n ps)"
proof (induction n arbitrary: ps)
  case (Suc n)
  then show ?case by (cases ps rule: alternating.cases) auto
qed simp

lemma pinv_new: "new_periodic d u now = Inr c \<Longrightarrow> pinv c"
  by (auto simp: new_periodic_def rbind_eq_Inr pinv_def phases_def)

lemma pinv_started: "new_periodic d u now = Inr c \<Longrightarrow> start_periodic fault a b c = Inr c' \<Longrightarrow> pinv c'"
  by (auto simp: new_periodic_def start_periodic_def rbind_eq_Inr pinv_def phases_def)

lemma pinv_succeeded:
  assumes "pinv c" and "pstep c (Succeeded now) = Some c'"
  shows "pinv c'"
proof (cases "pr_pc c")
  case (Run_healthy started)
  with assms show ?thesis by (auto simp: pinv_def phases_def alternating_snoc)
next
  case (Run_fault started)
  let ?ps = "phases c @ [Fault_phase]"
  have c': "pr_pc c' = Wait_down" "pr_error c' = pr_error c" "phases c' = last_n 50 ?ps"
    using assms(2) Run_fault by (auto simp: phases_def last_n_def drop_map)
  have "alternating ?ps" using assms(1) Run_fault by (simp add: pinv_def alternating_snoc)
  then have "alternating (last_n 50 ?ps)" unfolding last_n_def by (rule alternating_drop)
  moreover have "last_n 50 ?ps \<noteq> []" "last (last_n 50 ?ps) = Fault_phase" "length (last_n 50 ?ps) \<le> 50"
    by (simp_all add: last_n_def last_drop)
  ultimately show ?thesis using assms(1) Run_fault by (simp add: pinv_def c')
qed (use assms in auto)

lemma pinv_step:
  assumes "pinv c" and "pstep c e = Some c'"
  shows "pinv c'"
proof (cases e)
  case (Succeeded now)
  then show ?thesis using assms pinv_succeeded by blast
qed (use assms in \<open>auto simp: pinv_def phases_def finish_def split: pc.splits if_splits\<close>)

lemma reachable_pinv: "reachable c \<Longrightarrow> pinv c"
  by (induction rule: reachable.induct) (auto intro: pinv_new pinv_started pinv_step)

subsection \<open>Stopping\<close>

fun rounds_left :: "pc \<Rightarrow> nat" where
  "rounds_left (Run_healthy _) = 2"
| "rounds_left (Run_fault _) = 2"
| "rounds_left Finished = 0"
| "rounds_left _ = 1"

lemma stopped_step:
  assumes "thread_step c c'" and "pr_stop c"
  shows "pr_stop c' \<and> rounds_left (pr_pc c') < rounds_left (pr_pc c) \<and> \<not> (\<exists>t. pr_pc c' = Run_healthy t \<or> pr_pc c' = Run_fault t)"
  using assms by (elim thread_stepE, case_tac e) (auto simp: finish_def split: pc.splits)

lemma stopped_progress: "pr_stop c \<Longrightarrow> pr_pc c \<noteq> Finished \<Longrightarrow> \<exists>c'. thread_step c c'"
proof -
  assume stop: "pr_stop c" "pr_pc c \<noteq> Finished"
  then have "pstep c Checked = Some (finish c) \<or> pstep c Cancelled = Some (finish c)" by (cases "pr_pc c") auto
  then show ?thesis using thread_step.intros by blast
qed

text \<open>A run of the thread, step by step.\<close>

fun thread_run :: "periodic \<Rightarrow> periodic list \<Rightarrow> bool" where
  "thread_run c [] = True"
| "thread_run c (c' # cs) = (thread_step c c' \<and> thread_run c' cs)"

lemma stopped_run_short: "thread_run c cs \<Longrightarrow> pr_stop c \<Longrightarrow> length cs \<le> rounds_left (pr_pc c)"
proof (induction cs arbitrary: c)
  case (Cons c' cs)
  then have "length cs \<le> rounds_left (pr_pc c')" "rounds_left (pr_pc c') < rounds_left (pr_pc c)" using stopped_step [of c c'] by auto
  then show ?case by simp
qed simp

definition running :: "periodic \<Rightarrow> bool" where
  "running c = (case pr_pc c of Run_healthy _ \<Rightarrow> True | Run_fault _ \<Rightarrow> True | _ \<Rightarrow> False)"

lemma stopped_run_idle: "thread_run c cs \<Longrightarrow> pr_stop c \<Longrightarrow> c' \<in> set cs \<Longrightarrow> \<not> running c'"
proof (induction cs arbitrary: c)
  case (Cons d cs)
  then have "\<not> running d" "pr_stop d" using stopped_step [of c d] by (auto simp: running_def split: pc.splits)
  then show ?case using Cons by auto
qed simp

lemma stopped_run_keeps: "thread_run c cs \<Longrightarrow> pr_stop c \<Longrightarrow> pr_stop (last (c # cs))"
proof (induction cs arbitrary: c)
  case (Cons c' cs)
  then show ?case using stopped_step [of c c'] Cons.IH [of c'] by simp
qed simp

text \<open>C40: the controller of a periodic fault stops. In every reachable state the recorded phases alternate between
  fault and healthy and at most 51 are kept, and an error means that the thread has ended; once the stop event is
  set, every run of the thread has at most two more steps, starts no further phase, and a run that cannot go on
  has ended the thread.\<close>

theorem periodic_controller_stops:
  assumes "reachable c"
  shows "alternating (phases c) \<and> length (phases c) \<le> 51 \<and> (pr_error c \<noteq> None \<longrightarrow> pr_pc c = Finished)
     \<and> (pr_stop c \<longrightarrow> (\<forall>cs. thread_run c cs \<longrightarrow> length cs \<le> 2 \<and> (\<forall>c' \<in> set cs. \<not> running c')
          \<and> ((\<exists>c'. thread_step (last (c # cs)) c') \<or> pr_pc (last (c # cs)) = Finished)))"
proof -
  have "alternating (phases c)" "length (phases c) \<le> 51" "pr_error c \<noteq> None \<longrightarrow> pr_pc c = Finished"
    using reachable_pinv [OF assms] by (auto simp: pinv_def split: pc.splits)
  moreover have "rounds_left (pr_pc c) \<le> 2" by (cases "pr_pc c") auto
  ultimately show ?thesis
    using stopped_run_short stopped_run_keeps stopped_run_idle stopped_progress by (meson order_trans)
qed

definition demo_periodic :: periodic where
  "demo_periodic = \<lparr> pr_pc = Run_healthy ''b'', pr_stop = True, pr_error = None,
     pr_history = [\<lparr> pe_phase = Fault_phase, pe_started_at = None, pe_time = ''a'' \<rparr>] \<rparr>"

lemma demo_reachable: "reachable demo_periodic"
proof -
  let ?c = "demo_periodic\<lparr> pr_pc := Entering, pr_stop := False \<rparr>"
  have "new_periodic (PInt 5) (PInt 5) ''a'' = Inr ?c"
    by (simp add: new_periodic_def periodic_controller_def num_of_val_def demo_periodic_def)
  then have "reachable ?c" by (rule reachable.start)
  then have "reachable (?c\<lparr> pr_pc := Wait_down \<rparr>)" by (rule reachable.step [of _ Checked]) (simp add: demo_periodic_def)
  then have "reachable (?c\<lparr> pr_pc := Run_healthy ''b'' \<rparr>)" by (rule reachable.step [of _ "Elapsed ''b''"]) (simp add: demo_periodic_def)
  then show ?thesis by (rule reachable.step [of _ Stop_requested]) (simp add: demo_periodic_def)
qed

lemma demo_run: "thread_run demo_periodic [demo_periodic\<lparr> pr_pc := Wait_up,
    pr_history := pr_history demo_periodic @ [\<lparr> pe_phase = Healthy_phase, pe_started_at = Some ''b'', pe_time = ''c'' \<rparr>] \<rparr>]"
  by (simp, rule thread_step.thread [of "Succeeded ''c''"]) (simp_all add: demo_periodic_def)

theorem periodic_controller_stops_witness:
  "reachable demo_periodic \<and> pr_stop demo_periodic \<and> alternating (phases demo_periodic)
     \<and> (\<exists>c' c''. thread_run demo_periodic [c'] \<and> pr_pc c' = Wait_up \<and> \<not> running c' \<and> thread_step c' c'')"
proof -
  have stop: "pr_stop demo_periodic" by (simp add: demo_periodic_def)
  let ?c = "demo_periodic\<lparr> pr_pc := Wait_up,
    pr_history := pr_history demo_periodic @ [\<lparr> pe_phase = Healthy_phase, pe_started_at = Some ''b'', pe_time = ''c'' \<rparr>] \<rparr>"
  have *: "alternating (phases demo_periodic)" "\<forall>c' \<in> set [?c]. \<not> running c'"
    "(\<exists>c'. thread_step (last (demo_periodic # [?c])) c') \<or> pr_pc (last (demo_periodic # [?c])) = Finished"
    using periodic_controller_stops [OF demo_reachable] stop demo_run by blast+
  then obtain c'' where "thread_step ?c c''" by auto
  moreover have "\<not> running ?c" using *(2) by simp
  moreover have "pr_pc ?c = Wait_up" by simp
  ultimately show ?thesis using *(1) stop demo_run demo_reachable by blast
qed

end
