(* ===== verification/Fault_Coverage.thy ===== *)
theory Fault_Coverage
  imports Fault_Registry
begin

text \<open>
  Facts about the built-in catalogue of \<open>Fault_Registry\<close>, most of them by evaluation: the supported
  faults are the catalogue, and the coverage units of both families have distinct ids, use the
  catalogue's mechanisms only and cover it.
\<close>

subsection \<open>The supported faults\<close>

text \<open>Specs whose names are nobody's alias keep their names, so the registry lists them by name.\<close>

definition names_stable :: "string set \<Rightarrow> fault_registry \<Rightarrow> bool" where
  "names_stable N r = (alias_values_ok (fr_aliases r) \<and> (\<forall>k v. map_of (fr_aliases r) k = Some v \<longrightarrow> k \<in> N \<longrightarrow> v = k)
     \<and> (\<forall>(k, s) \<in> set (fr_specs r). spec_name s = k \<and> scenario_supported s))"

lemma set_fields_supported: "scenario_supported s \<Longrightarrow> scenario_supported (fold set_field fs s)"
proof (induction fs arbitrary: s)
  case (Cons f fs)
  obtain x v where "f = (x, v)" by fastforce
  then have "scenario_supported (set_field f s)" using Cons.prems by (cases x) auto
  then show ?case using Cons.IH by simp
qed simp

lemma register_stable:
  assumes "names_stable N r" and "wf_names s" and "spec_name s \<in> N" and "set (spec_aliases s) \<inter> N \<subseteq> {spec_name s}" and "scenario_supported s"
  shows "names_stable N (snd (register_spec r s))"
    and "fr_specs (snd (register_spec r s)) = AList.update (spec_name s) (fst (register_spec r s)) (fr_specs r)"
proof -
  have ok: "alias_values_ok (fr_aliases r)" using assms(1) by (simp add: names_stable_def)
  have c: "spec_canonical_name r s = spec_name s"
    unfolding spec_canonical_name_eq(1) [OF assms(2) ok] dict_get_def
    using assms(1,3) by (auto simp: names_stable_def split: option.splits)
  show specs: "fr_specs (snd (register_spec r s)) = AList.update (spec_name s) (fst (register_spec r s)) (fr_specs r)"
    using c by (simp add: register_spec_def Let_def)
  have "spec_name (fst (register_spec r s)) = spec_name s" "scenario_supported (fst (register_spec r s))"
    using c assms(5) by (simp_all add: register_spec_def Let_def set_fields_supported)
  moreover have "alias_values_ok (fr_aliases (snd (register_spec r s)))"
    by (rule register_index_step(2) [OF assms(2) ok refl])
  ultimately show "names_stable N (snd (register_spec r s))"
    using assms(1,4) set_alist_update [of "spec_name s" "fst (register_spec r s)" "fr_specs r"]
    unfolding names_stable_def specs by (auto simp: register_aliases [OF assms(2) ok] c split: if_splits)
qed

lemma register_all_stable:
  assumes "names_stable N r" and "list_all wf_names specs" and "list_all scenario_supported specs" and "set (map spec_name specs) \<subseteq> N"
    and "list_all (\<lambda>s. set (spec_aliases s) \<inter> N = {}) specs" and "distinct (map fst (fr_specs r) @ map spec_name specs)"
  shows "names_stable N (fold (\<lambda>s r. snd (register_spec r s)) specs r)
    \<and> map fst (fr_specs (fold (\<lambda>s r. snd (register_spec r s)) specs r)) = map fst (fr_specs r) @ map spec_name specs"
  using assms
proof (induction specs arbitrary: r)
  case (Cons s specs)
  have st: "names_stable N (snd (register_spec r s))"
    and sp: "fr_specs (snd (register_spec r s)) = AList.update (spec_name s) (fst (register_spec r s)) (fr_specs r)"
    using register_stable [of N r s] Cons.prems by auto
  have "map fst (fr_specs (snd (register_spec r s))) = map fst (fr_specs r) @ [spec_name s]"
    unfolding sp using Cons.prems(6) by (subst alist_update_fresh) auto
  then show ?case using Cons.IH [OF st] Cons.prems by simp
qed simp

lemma map_fst_sort_key: "map fst (sort_key fst (xs :: ('a :: linorder \<times> 'b) list)) = sort (map fst xs)"
proof (induction xs)
  case (Cons x xs)
  have "map fst (insort_key fst y ys) = insort (fst y) (map fst ys)" for y and ys :: "('a \<times> 'b) list"
    by (induction ys) auto
  then show ?case using Cons by simp
qed simp

lemma supported_of_stable:
  assumes "names_stable N r" and "fr_builtin_names r \<noteq> None"
  shows "fst (supported_scenario_faults frepr r) = sort (map fst (fr_specs r))"
proof -
  have "map spec_name (filter scenario_supported (map snd xs)) = map fst xs"
    if "\<forall>(k, s) \<in> set xs. spec_name s = k \<and> scenario_supported s" for xs
    using that by (induction xs) auto
  from this [of "sort_key fst (fr_specs r)"] assms show ?thesis
    by (auto simp: supported_scenario_faults_def list_all_specs_def load_builtins_def names_stable_def map_fst_sort_key Let_def)
qed

lemma supported_builtin:
  "get_supported_scenario_faults frepr = sort (map spec_name (build_builtin_fault_specs frepr))"
proof -
  let ?specs = "build_builtin_fault_specs frepr" let ?N = "set (map spec_name ?specs)"
  let ?r = "fold (\<lambda>s r. snd (register_spec r s)) ?specs new_registry"
  have names: "map spec_name ?specs = [''link_down'', ''link_flapping'', ''blackhole_route'', ''static_route_misconfig'', ''mtu_mismatch'',
     ''packet_corruption'', ''packet_loss'', ''high_latency'', ''device_down''] @ sort CONFIGURATION_TYPES" by code_simp
  have "names_stable ?N new_registry"
    by (auto simp: names_stable_def new_registry_def alias_values_ok_def CANONICAL_FAULT_ALIASES_def names CONFIGURATION_TYPES_def)
  moreover have "list_all scenario_supported ?specs" by code_simp
  moreover have "list_all (\<lambda>s. set (spec_aliases s) \<inter> ?N = {}) ?specs" unfolding names by code_simp
  moreover have "distinct (map spec_name ?specs)" unfolding names by code_simp
  ultimately have r: "names_stable ?N ?r" "map fst (fr_specs ?r) = map spec_name ?specs"
    using register_all_stable [of ?N new_registry ?specs] builtin_wf_names by (auto simp: new_registry_def)
  let ?c = "create_fault_registry frepr"
  have c: "?c = ?r\<lparr>fr_builtin_names := Some (sort (dict_keys (fr_specs ?r)))\<rparr>"
    by (simp add: create_fault_registry_def load_builtins_def new_registry_def Let_def)
  then have "names_stable ?N ?c" "fr_builtin_names ?c \<noteq> None" using r(1) by (simp_all add: names_stable_def)
  then show ?thesis unfolding get_supported_scenario_faults_def using supported_of_stable r(2) c by fastforce
qed

text \<open>The faults a scenario may name are exactly the types of the catalogue, in sorted order and
  without repetition.\<close>

lemma supported_faults_are_catalogue:
  "get_supported_scenario_faults frepr = sort (dict_keys FAULT_MECHANISMS) \<and> length (get_supported_scenario_faults frepr) = 24
   \<and> distinct (get_supported_scenario_faults frepr)"
proof -
  have "sort (map spec_name (build_builtin_fault_specs frepr)) = sort (dict_keys FAULT_MECHANISMS)" by code_simp
  moreover have "length (dict_keys FAULT_MECHANISMS) = 24" by code_simp
  moreover have "distinct (dict_keys FAULT_MECHANISMS)" by code_simp
  ultimately show ?thesis by (simp add: supported_builtin)
qed

text \<open>A unit uses the catalogue: its type is known and its mechanism is one of the type's; only a type
  with a single mechanism may leave it open.\<close>

definition unit_ok :: "coverage_unit \<Rightarrow> bool" where
  "unit_ok u = (case map_of FAULT_MECHANISMS (cu_fault_type u) of
       None \<Rightarrow> False
     | Some ms \<Rightarrow> (case cu_mechanism u of None \<Rightarrow> length ms = 1 | Some m \<Rightarrow> m \<in> set ms))"

definition covers_mechanism :: "coverage_unit list \<Rightarrow> string \<Rightarrow> string \<Rightarrow> bool" where
  "covers_mechanism us ft m = list_ex (\<lambda>u. cu_fault_type u = ft \<and> (cu_mechanism u = Some m \<or> (cu_mechanism u = None \<and> m = ft))) us"

definition uncovered :: "coverage_unit list \<Rightarrow> (string \<times> string) list" where
  "uncovered us = [(ft, m). (ft, ms) \<leftarrow> FAULT_MECHANISMS, m \<leftarrow> ms, \<not> covers_mechanism us ft m]"

definition units_of :: "string \<Rightarrow> coverage_unit list" where
  "units_of fam = (case coverage_units fam False of Inl _ \<Rightarrow> [] | Inr us \<Rightarrow> us)"

lemma coverage_total: "coverage_units ''clos'' False = Inr (units_of ''clos'')" "coverage_units ''fat-tree'' False = Inr (units_of ''fat-tree'')"
  by (simp_all add: units_of_def coverage_units_def)

lemma clos_units:
  "length (units_of ''clos'') = 60" "list_all unit_ok (units_of ''clos'')"
  "uncovered (units_of ''clos'') = [(''ecmp_misconfig'', ''multipath_relax_disabled'')]"
  by code_simp+

lemma clos_unit_ids: "distinct (map unit_id (units_of ''clos''))"
  by (rule distinct_by_runs [where key = "takeWhile (\<lambda>c. c \<noteq> CHR '':'')"]) code_simp

lemma fat_tree_units: "length (units_of ''fat-tree'') = 104" "list_all unit_ok (units_of ''fat-tree'')" "uncovered (units_of ''fat-tree'') = []"
  by code_simp+

lemma fat_tree_unit_ids: "distinct (map unit_id (units_of ''fat-tree''))"
  by (rule distinct_by_runs [where key = "takeWhile (\<lambda>c. c \<noteq> CHR '':'')"]) code_simp

text \<open>A CLOS benchmark has 60 coverage units and a fat tree 104; their ids are distinct, each names a
  mechanism of its fault type, and together they cover every mechanism of the catalogue, except that
  CLOS leaves out disabling multipath relaxation.\<close>

lemma coverage_units_complete:
  "list_all (\<lambda>(fam, n, missing). \<exists>us. coverage_units fam False = Inr us \<and> length us = n \<and> distinct (map unit_id us)
       \<and> list_all unit_ok us \<and> uncovered us = missing)
     [(''clos'', 60, [(''ecmp_misconfig'', ''multipath_relax_disabled'')]), (''fat-tree'', 104, [])]"
  by (simp add: coverage_total clos_units clos_unit_ids fat_tree_units fat_tree_unit_ids)

end
