(* ===== verification/Fault_Type_Judge.thy ===== *)
theory Fault_Type_Judge
  imports Fault_Coverage Py_Text
begin

text \<open>
  The fault-type judge of the evaluator (\<open>evaluator/fault_type_judge.py\<close>): canonicalization of free-form
  fault types, the bounded request, the taxonomy check of a judge's result, and the decision whether
  an agent's fault type counts as the ground truth. The language model behind a judge is a parameter
  (\<open>judge_fn\<close>), as are JSON decoding and the field parsing of pydantic (\<open>json\<close>, \<open>parse_fields\<close>); an
  exception of theirs is a value that says whether it is a \<open>ValueError\<close> or \<open>TypeError\<close>, with its class name.
  Shown: canonicalization is idempotent; requests are bounded; the exact condition of a match, and that
  a structured judge can only ever grant a type of the taxonomy.
\<close>

subsection \<open>Canonical fault types\<close>

definition UNKNOWN_FAULT_TYPE :: string where
  "UNKNOWN_FAULT_TYPE = ''unknown''"

definition LEGACY_FAULT_TYPE_ALIASES :: "(string, string) dict" where
  "LEGACY_FAULT_TYPE_ALIASES =
    [(''link_failure'', ''link_down''),
     (''linkdown'', ''link_down''),
     (''link failure'', ''link_down''),
     (''blackhole'', ''blackhole_route''),
     (''black_hole'', ''blackhole_route''),
     (''static_route_error'', ''static_route_misconfig''),
     (''static_route_misconfiguration'', ''static_route_misconfig''),
     (''route_misconfig'', ''static_route_misconfig''),
     (''mtu_error'', ''mtu_mismatch'')]"

definition supported_fault_types :: "(rat \<Rightarrow> string) \<Rightarrow> string list" where
  "supported_fault_types frepr = sort (remdups (get_supported_scenario_faults frepr))"

definition canonicalize_fault_type :: "(rat \<Rightarrow> string) \<Rightarrow> pyval \<Rightarrow> string" where
  "canonicalize_fault_type frepr v =
     (let raw = py_strip (str_or_empty frepr v) in
      if raw = [] then []
      else let normalized = py_replace '' '' ''_'' (py_strip (py_lower raw));
               normalized = dict_get LEGACY_FAULT_TYPE_ALIASES normalized normalized
           in or_else (canonicalize_fault_name frepr normalized) normalized)"

subsection \<open>The request\<close>

text \<open>\<open>xs[:i]\<close>, with a negative index counted from the end.\<close>

definition slice_to :: "int \<Rightarrow> 'a list \<Rightarrow> 'a list" where
  "slice_to i xs = take (nat (if i < 0 then i + int (length xs) else i)) xs"

definition truncate_text :: "string \<Rightarrow> int \<Rightarrow> string" where
  "truncate_text value limit =
     (let text = py_strip value in
      if int (length text) \<le> limit then text
      else py_rstrip (slice_to (limit - 3) text) @ ''...'')"

definition compact_evidence :: "string list \<Rightarrow> int \<Rightarrow> int \<Rightarrow> string list" where
  "compact_evidence evidence max_items max_chars = map (\<lambda>item. truncate_text item max_chars) (slice_to max_items evidence)"

record judge_request =
  rq_agent_fault_type :: string
  rq_ground_truth_fault_type :: string
  rq_canonical_agent_fault_type :: string
  rq_canonical_ground_truth_fault_type :: string
  rq_allowed_fault_types :: "string list"
  rq_agent_reasoning :: string
  rq_evidence :: "string list"

definition build_fault_type_judge_request ::
  "(rat \<Rightarrow> string) \<Rightarrow> pyval \<Rightarrow> pyval \<Rightarrow> string \<Rightarrow> string list option \<Rightarrow> judge_request" where
  "build_fault_type_judge_request frepr agent_fault_type ground_truth_fault_type agent_reasoning evidence =
     \<lparr> rq_agent_fault_type = str_or_empty frepr agent_fault_type,
       rq_ground_truth_fault_type = str_or_empty frepr ground_truth_fault_type,
       rq_canonical_agent_fault_type = canonicalize_fault_type frepr agent_fault_type,
       rq_canonical_ground_truth_fault_type = canonicalize_fault_type frepr ground_truth_fault_type,
       rq_allowed_fault_types = supported_fault_types frepr,
       rq_agent_reasoning = truncate_text agent_reasoning 1200,
       rq_evidence = compact_evidence (case evidence of None \<Rightarrow> [] | Some e \<Rightarrow> e) 6 240 \<rparr>"

definition build_fault_type_judge_prompt :: "judge_request \<Rightarrow> string" where
  "build_fault_type_judge_prompt request =
     (let nl = [CHR 0x0A];
          allowed = join '', '' (rq_allowed_fault_types request);
          evidence = or_else (join nl (map (\<lambda>item. ''- '' @ item) (rq_evidence request))) ''- none''
      in ''You are judging only the fault type label for a NetOpsBench diagnosis.'' @ nl @ nl
         @ ''Decide whether the agent's fault type is semantically equivalent to the ground-truth canonical fault type.'' @ nl
         @ ''Do not judge verdict, device, interface, confidence, or evidence quality. Only map the fault type phrase to the allowed taxonomy.'' @ nl @ nl
         @ ''Allowed canonical fault types: '' @ allowed @ nl @ nl
         @ ''Ground truth fault type: '' @ rq_ground_truth_fault_type request @ nl
         @ ''Canonical ground truth fault type: '' @ rq_canonical_ground_truth_fault_type request @ nl @ nl
         @ ''Agent fault type: '' @ or_else (rq_agent_fault_type request) ''<empty>'' @ nl
         @ ''Agent canonical fast-path guess: '' @ or_else (rq_canonical_agent_fault_type request) UNKNOWN_FAULT_TYPE @ nl @ nl
         @ ''Agent reasoning:'' @ nl
         @ or_else (rq_agent_reasoning request) ''<empty>'' @ nl @ nl
         @ ''Agent evidence:'' @ nl
         @ evidence @ nl @ nl
         @ ''If the agent phrase maps to a canonical type outside the allowed taxonomy, set canonical_agent_fault_type=\"unknown\", is_match=false, and taxonomy_violation=true.'' @ nl)"

subsection \<open>The result and its validation\<close>

record judge_result =
  jr_canonical_agent_fault_type :: string
  jr_canonical_ground_truth_fault_type :: string
  jr_is_match :: bool
  jr_confidence :: rat
  jr_reasoning :: string
  jr_matched_alias_or_description :: "string option"
  jr_taxonomy_violation :: bool
  jr_judge_model :: "string option"

definition normalize_canonical_field :: "(rat \<Rightarrow> string) \<Rightarrow> string \<Rightarrow> string" where
  "normalize_canonical_field frepr v = or_else (canonicalize_fault_type frepr (PStr v)) UNKNOWN_FAULT_TYPE"

definition validate_taxonomy :: "(rat \<Rightarrow> string) \<Rightarrow> judge_result \<Rightarrow> judge_result" where
  "validate_taxonomy frepr r =
     (let allowed = supported_fault_types frepr @ [UNKNOWN_FAULT_TYPE, []] in
      if jr_canonical_agent_fault_type r \<notin> set allowed \<or> jr_canonical_ground_truth_fault_type r \<notin> set allowed
      then r\<lparr> jr_taxonomy_violation := True, jr_is_match := False \<rparr>
      else r)"

text \<open>The exceptions a judge may raise: those the evaluator catches, by class name, and the others.\<close>

datatype judge_exc = CaughtError string | OtherError py_error

text \<open>\<open>model_validate\<close>: pydantic parses the fields, then the validators of the class run.\<close>

definition model_validate ::
  "(rat \<Rightarrow> string) \<Rightarrow> (pyval \<Rightarrow> judge_exc + judge_result) \<Rightarrow> pyval \<Rightarrow> judge_exc + judge_result" where
  "model_validate frepr parse_fields v = (case parse_fields v of
       Inl e \<Rightarrow> Inl e
     | Inr r \<Rightarrow> Inr (validate_taxonomy frepr
         (r\<lparr> jr_canonical_agent_fault_type := normalize_canonical_field frepr (jr_canonical_agent_fault_type r),
             jr_canonical_ground_truth_fault_type := normalize_canonical_field frepr (jr_canonical_ground_truth_fault_type r) \<rparr>)))"

datatype judge_reply = ResultReply judge_result | TextReply string | MappingReply pydict

definition structured_judge ::
  "(rat \<Rightarrow> string) \<Rightarrow> (string \<Rightarrow> judge_exc + pyval) \<Rightarrow> (pyval \<Rightarrow> judge_exc + judge_result)
   \<Rightarrow> (judge_request \<Rightarrow> judge_exc + judge_reply) \<Rightarrow> string option \<Rightarrow> judge_request \<Rightarrow> judge_exc + judge_result" where
  "structured_judge frepr json parse_fields judge_fn model request =
     (case (case judge_fn request of
              Inl e \<Rightarrow> Inl e
            | Inr (ResultReply r) \<Rightarrow> Inr r
            | Inr (TextReply t) \<Rightarrow> (case json t of Inl e \<Rightarrow> Inl e | Inr v \<Rightarrow> model_validate frepr parse_fields v)
            | Inr (MappingReply d) \<Rightarrow> model_validate frepr parse_fields (PDict d)) of
        Inl e \<Rightarrow> Inl e
      | Inr r \<Rightarrow> Inr (if jr_judge_model r = None then r\<lparr> jr_judge_model := model \<rparr> else r))"

subsection \<open>The decision\<close>

definition judge_result_to_dict :: "judge_result \<Rightarrow> pydict" where
  "judge_result_to_dict r =
    [(''canonical_agent_fault_type'', PStr (jr_canonical_agent_fault_type r)),
     (''canonical_ground_truth_fault_type'', PStr (jr_canonical_ground_truth_fault_type r)),
     (''is_match'', PBool (jr_is_match r)),
     (''confidence'', PFloat (jr_confidence r)),
     (''reasoning'', PStr (jr_reasoning r)),
     (''matched_alias_or_description'', opt_val (jr_matched_alias_or_description r)),
     (''taxonomy_violation'', PBool (jr_taxonomy_violation r)),
     (''judge_model'', opt_val (jr_judge_model r))]"

definition judge_verdict :: "(rat \<Rightarrow> string) \<Rightarrow> judge_request \<Rightarrow> judge_result \<Rightarrow> bool \<times> pydict" where
  "judge_verdict frepr request judgment =
     (let d = AList.update ''mode'' (PStr ''llm_judge'') (judge_result_to_dict judgment);
          d = (if jr_taxonomy_violation judgment then AList.update ''is_match'' (PBool False) d else d);
          d = (if jr_canonical_ground_truth_fault_type judgment \<noteq> rq_canonical_ground_truth_fault_type request
               then AList.update ''is_match'' (PBool False) (AList.update ''ground_truth_canonical_mismatch'' (PBool True) d)
               else d);
          d = (if truthy (get_val d ''is_match'')
                  \<and> jr_canonical_agent_fault_type judgment \<noteq> rq_canonical_ground_truth_fault_type request
               then AList.update ''is_match'' (PBool False) (AList.update ''agent_canonical_mismatch'' (PBool True) d)
               else d)
      in (truthy (get_val d ''is_match''), d))"

definition judge_fault_type_match ::
  "(rat \<Rightarrow> string) \<Rightarrow> (judge_request \<Rightarrow> judge_exc + judge_result) option \<Rightarrow> pyval \<Rightarrow> pyval \<Rightarrow> string
   \<Rightarrow> string list option \<Rightarrow> (bool \<times> pydict) res" where
  "judge_fault_type_match frepr judge agent_fault_type ground_truth_fault_type agent_reasoning evidence =
     (let request = build_fault_type_judge_request frepr agent_fault_type ground_truth_fault_type agent_reasoning evidence;
          details = [(''mode'', PStr ''deterministic''),
                     (''agent_fault_type'', PStr (rq_agent_fault_type request)),
                     (''ground_truth_fault_type'', PStr (rq_ground_truth_fault_type request)),
                     (''canonical_agent_fault_type'', PStr (rq_canonical_agent_fault_type request)),
                     (''canonical_ground_truth_fault_type'', PStr (rq_canonical_ground_truth_fault_type request))]
      in if rq_canonical_agent_fault_type request \<noteq> []
            \<and> rq_canonical_agent_fault_type request = rq_canonical_ground_truth_fault_type request
         then Inr (True, dict_update details
           [(''is_match'', PBool True), (''confidence'', PFloat 1), (''reasoning'', PStr ''canonical fault types match'')])
         else case judge of
             None \<Rightarrow> Inr (False, dict_update details
               [(''is_match'', PBool False), (''confidence'', PFloat 1), (''reasoning'', PStr ''canonical fault types differ'')])
           | Some judge \<Rightarrow> (case judge request of
                 Inl (CaughtError cls) \<Rightarrow> Inr (False, dict_update details
                   [(''mode'', PStr ''judge_error''), (''is_match'', PBool False), (''confidence'', PFloat 0),
                    (''reasoning'', PStr (''fault type judge failed: '' @ cls))])
               | Inl (OtherError e) \<Rightarrow> Inl e
               | Inr judgment \<Rightarrow> Inr (judge_verdict frepr request judgment)))"

subsection \<open>Canonicalization is idempotent\<close>

lemma lower_char_space [simp]: "is_space (lower_char c) = is_space c"
  by (auto simp: is_space_def lower_char_def Let_def of_char_of)

lemma lower_char_idem [simp]: "lower_char (lower_char c) = lower_char c"
  by (auto simp: lower_char_def Let_def of_char_of)

lemma py_lower_idem [simp]: "py_lower (py_lower s) = py_lower s"
  by (simp add: py_lower_def)

lemma hd_last_map: "s \<noteq> [] \<Longrightarrow> hd (map f s) = f (hd s) \<and> last (map f s) = f (last s)"
  by (simp add: hd_map last_map)

lemma py_replace_char: "py_replace [a] [b] s = map (\<lambda>c. if c = a then b else c) s"
  by (induction s) (auto simp: starts_with_def)

text \<open>The text before the alias tables: lower case, no blanks, no white space at its ends.\<close>

definition tidy :: "string \<Rightarrow> bool" where
  "tidy s \<longleftrightarrow> py_strip s = s \<and> py_lower s = s \<and> CHR '' '' \<notin> set s"

definition tidied :: "string \<Rightarrow> string" where
  "tidied raw = py_replace '' '' ''_'' (py_strip (py_lower raw))"

lemma tidied_tidy:
  assumes "py_strip raw = raw" and "raw \<noteq> []"
  shows "tidy (tidied raw)" and "tidied raw \<noteq> []"
proof -
  let ?f = "\<lambda>c. if c = CHR '' '' then CHR ''_'' else c"
  have ends: "\<not> is_space (hd raw)" "\<not> is_space (last raw)" using py_strip_ends [of raw] assms by auto
  have "py_strip (py_lower raw) = py_lower raw"
    by (rule py_strip_id) (use ends assms(2) in \<open>simp add: py_lower_def hd_last_map\<close>)
  then have eq: "tidied raw = map ?f (map lower_char raw)" by (simp add: tidied_def py_lower_def py_replace_char)
  have us: "lower_char CHR ''_'' = CHR ''_''" "\<not> is_space CHR ''_''" by code_simp+
  have "py_strip (tidied raw) = tidied raw"
    by (rule py_strip_id) (use ends assms(2) us in \<open>simp add: eq hd_map last_map\<close>)
  moreover have "py_lower (tidied raw) = tidied raw" by (simp add: eq py_lower_def us)
  moreover have "CHR '' '' \<notin> set (tidied raw)" by (auto simp: eq split: if_splits)
  ultimately show "tidy (tidied raw)" by (simp add: tidy_def)
  show "tidied raw \<noteq> []" using assms(2) by (simp add: eq)
qed

lemma tidied_id: "tidy s \<Longrightarrow> tidied s = s"
  by (simp add: tidied_def tidy_def py_replace_single_absent)

lemma index_names_tidy:
  "map_of (builtin_alias_index frepr) n = Some c \<Longrightarrow> tidy c \<and> map_of LEGACY_FAULT_TYPE_ALIASES c = None"
proof -
  assume "map_of (builtin_alias_index frepr) n = Some c"
  then have "(n, c) \<in> set (builtin_alias_index frepr)" by (rule map_of_SomeD)
  moreover have "list_all (\<lambda>(n, c). tidy c \<and> map_of LEGACY_FAULT_TYPE_ALIASES c = None) (builtin_alias_index frepr)"
    unfolding builtin_index_table by code_simp
  ultimately show ?thesis by (auto simp: list_all_iff)
qed

lemma legacy_values:
  "map_of LEGACY_FAULT_TYPE_ALIASES n = Some c \<Longrightarrow> map_of (builtin_alias_index frepr) c = Some c"
proof -
  assume "map_of LEGACY_FAULT_TYPE_ALIASES n = Some c"
  then have "(n, c) \<in> set LEGACY_FAULT_TYPE_ALIASES" by (rule map_of_SomeD)
  moreover have "list_all (\<lambda>(n, c). map_of (builtin_alias_index frepr) c = Some c) LEGACY_FAULT_TYPE_ALIASES"
    unfolding builtin_index_table by code_simp
  ultimately show ?thesis by (auto simp: list_all_iff)
qed

definition canon_tidy :: "(rat \<Rightarrow> string) \<Rightarrow> string \<Rightarrow> string" where
  "canon_tidy frepr n = canonicalize_fault_name frepr (dict_get LEGACY_FAULT_TYPE_ALIASES n n)"

lemma canon_tidy_cases:
  assumes "tidy n"
  shows "map_of (builtin_alias_index frepr) (canon_tidy frepr n) = Some (canon_tidy frepr n)
    \<or> canon_tidy frepr n = n \<and> map_of LEGACY_FAULT_TYPE_ALIASES n = None \<and> map_of (builtin_alias_index frepr) n = None"
proof (cases "map_of LEGACY_FAULT_TYPE_ALIASES n")
  case None
  then show ?thesis
    using assms builtin_index_fixed [of frepr n]
    by (cases "map_of (builtin_alias_index frepr) n")
      (auto simp: canon_tidy_def canonicalize_fault_name_def dict_get_def Let_def tidy_def)
next
  case (Some c)
  note c = legacy_values [OF Some, of frepr]
  then show ?thesis using builtin_index_fixed [OF c] Some
    by (auto simp: canon_tidy_def canonicalize_fault_name_def dict_get_def Let_def)
qed

lemma canon_tidy_tidy: "tidy n \<Longrightarrow> tidy (canon_tidy frepr n)"
  using canon_tidy_cases [of n frepr] index_names_tidy [of frepr] by metis

lemma canon_tidy_idem:
  assumes "tidy n"
  shows "canon_tidy frepr (canon_tidy frepr n) = canon_tidy frepr n"
  using canon_tidy_cases [OF assms, of frepr]
proof
  let ?c = "canon_tidy frepr n"
  assume c: "map_of (builtin_alias_index frepr) ?c = Some ?c"
  show ?thesis
    using index_names_tidy [OF c] builtin_index_fixed [OF c] c
    by (simp add: canon_tidy_def [of _ ?c] canonicalize_fault_name_def dict_get_def Let_def)
qed simp

lemma canon_tidy_nonempty: "tidy n \<Longrightarrow> n \<noteq> [] \<Longrightarrow> canon_tidy frepr n \<noteq> []"
  using canon_tidy_cases [of n frepr] builtin_index_fixed [of frepr] by metis

lemma canonicalize_fault_type_text:
  "canonicalize_fault_type frepr (PStr s) =
     (if py_strip s = [] then [] else canon_tidy frepr (tidied (py_strip s)))"
proof (cases "py_strip s = []")
  case True
  then show ?thesis by (cases "s = []") (auto simp: canonicalize_fault_type_def str_or_empty_def py_str_def Let_def)
next
  case False
  then have "s \<noteq> []" by (auto simp: py_strip_def py_rstrip_def)
  then have raw: "str_or_empty frepr (PStr s) = s" by (simp add: str_or_empty_def py_str_def)
  have ne: "canon_tidy frepr (tidied (py_strip s)) \<noteq> []"
    using tidied_tidy [of "py_strip s"] False by (simp add: canon_tidy_nonempty)
  show ?thesis using False ne
    by (simp add: canonicalize_fault_type_def raw Let_def tidied_def canon_tidy_def or_else_def)
qed

interpretation evaluator_names: canonicalizer "\<lambda>s. canonicalize_fault_type frepr (PStr s)"
proof
  fix n
  show "canonicalize_fault_type frepr (PStr (canonicalize_fault_type frepr (PStr n))) = canonicalize_fault_type frepr (PStr n)"
  proof (cases "py_strip n = []")
    case False
    define c where "c = canon_tidy frepr (tidied (py_strip n))"
    have t: "tidy (tidied (py_strip n))" "tidied (py_strip n) \<noteq> []"
      using False by (simp_all add: tidied_tidy)
    have c: "tidy c" "c \<noteq> []" "canon_tidy frepr c = c"
      using t by (simp_all add: c_def canon_tidy_tidy canon_tidy_nonempty canon_tidy_idem)
    then have "py_strip c = c" by (simp add: tidy_def)
    then show ?thesis
      using False c by (simp add: canonicalize_fault_type_text tidied_id flip: c_def)
  qed (simp add: canonicalize_fault_type_text py_strip_def py_rstrip_def)
qed


lemma canonicalize_fault_type_val: "canonicalize_fault_type frepr v = canonicalize_fault_type frepr (PStr (str_or_empty frepr v))"
  by (cases "str_or_empty frepr v = []") (simp_all add: canonicalize_fault_type_def str_or_empty_def [of frepr "PStr _"] py_str_def)

text \<open>Canonicalizing a fault type is idempotent: whatever value an agent or a scenario gives, the canonical
  type of its canonical type is itself, and the registry's own canonical name of it is itself too.\<close>

lemma canonicalize_fault_type_idem:
  "canonicalize_fault_type frepr (PStr (canonicalize_fault_type frepr v)) = canonicalize_fault_type frepr v
   \<and> canonicalize_fault_name frepr (canonicalize_fault_type frepr v) = canonicalize_fault_type frepr v"
proof
  let ?s = "str_or_empty frepr v"
  show "canonicalize_fault_type frepr (PStr (canonicalize_fault_type frepr v)) = canonicalize_fault_type frepr v"
    by (simp add: canonicalize_fault_type_val [of _ v] evaluator_names.canon_idem)
  show "canonicalize_fault_name frepr (canonicalize_fault_type frepr v) = canonicalize_fault_type frepr v"
  proof (cases "py_strip ?s = []")
    case True
    have "map_of (builtin_alias_index frepr) [] = None" unfolding builtin_index_table by code_simp
    moreover have "py_strip [] = []" by (simp add: py_strip_def py_rstrip_def)
    ultimately show ?thesis using True
      by (simp add: canonicalize_fault_type_val [of _ v] canonicalize_fault_type_text canonicalize_fault_name_def dict_get_def Let_def)
  next
    case False
    then have "canonicalize_fault_type frepr v = canon_tidy frepr (tidied (py_strip ?s))"
      by (simp add: canonicalize_fault_type_val [of _ v] canonicalize_fault_type_text)
    then show ?thesis by (simp add: canon_tidy_def builtin_names.canon_idem)
  qed
qed

subsection \<open>Requests are bounded\<close>

lemma length_py_rstrip: "length (py_rstrip s) \<le> length s"
  using length_dropWhile_le [of is_space "rev s"] by (simp add: py_rstrip_def)

lemma truncate_text_length:
  assumes "3 \<le> limit"
  shows "int (length (truncate_text s limit)) \<le> limit"
proof -
  let ?t = "slice_to (limit - 3) (py_strip s)"
  have "length ?t \<le> nat (limit - 3)" using assms by (simp add: slice_to_def)
  then have "length (py_rstrip ?t) \<le> nat (limit - 3)" using length_py_rstrip [of ?t] by linarith
  then show ?thesis using assms by (auto simp: truncate_text_def Let_def)
qed

text \<open>A request to the judge is bounded whatever the agent wrote: at most 1200 characters of reasoning and six
  items of evidence of at most 240 characters; text within its bound is kept whole.\<close>

lemma judge_request_bounded:
  "length (rq_agent_reasoning (build_fault_type_judge_request frepr a g reasoning evidence)) \<le> 1200
   \<and> length (rq_evidence (build_fault_type_judge_request frepr a g reasoning evidence)) \<le> 6
   \<and> list_all (\<lambda>item. length item \<le> 240) (rq_evidence (build_fault_type_judge_request frepr a g reasoning evidence))
   \<and> (if length (py_strip reasoning) \<le> 1200
      then rq_agent_reasoning (build_fault_type_judge_request frepr a g reasoning evidence) = py_strip reasoning
      else length (rq_agent_reasoning (build_fault_type_judge_request frepr a g reasoning evidence)) \<ge> 3)"
  using truncate_text_length [of 1200 reasoning] truncate_text_length [of 240]
  by (auto simp: build_fault_type_judge_request_def compact_evidence_def slice_to_def list_all_iff Let_def,
      auto simp: truncate_text_def)

subsection \<open>When a fault type matches\<close>

lemma request_fields [simp]:
  "rq_agent_fault_type (build_fault_type_judge_request frepr a g reasoning evidence) = str_or_empty frepr a"
  "rq_ground_truth_fault_type (build_fault_type_judge_request frepr a g reasoning evidence) = str_or_empty frepr g"
  "rq_canonical_agent_fault_type (build_fault_type_judge_request frepr a g reasoning evidence) = canonicalize_fault_type frepr a"
  "rq_canonical_ground_truth_fault_type (build_fault_type_judge_request frepr a g reasoning evidence) = canonicalize_fault_type frepr g"
  by (simp_all add: build_fault_type_judge_request_def)

definition types_agree :: "(rat \<Rightarrow> string) \<Rightarrow> pyval \<Rightarrow> pyval \<Rightarrow> bool" where
  "types_agree frepr a g \<longleftrightarrow> canonicalize_fault_type frepr a \<noteq> [] \<and> canonicalize_fault_type frepr a = canonicalize_fault_type frepr g"

definition judgment_grants :: "(rat \<Rightarrow> string) \<Rightarrow> pyval \<Rightarrow> judge_result \<Rightarrow> bool" where
  "judgment_grants frepr g r \<longleftrightarrow> jr_is_match r \<and> \<not> jr_taxonomy_violation r
     \<and> jr_canonical_ground_truth_fault_type r = canonicalize_fault_type frepr g
     \<and> jr_canonical_agent_fault_type r = canonicalize_fault_type frepr g"

lemma get_val_update [simp]: "get_val (AList.update k v d) k' = (if k' = k then v else get_val d k')"
  by (simp add: get_val_def AList.update_conv)

lemma judge_verdict_grants:
  assumes "rq_canonical_ground_truth_fault_type rq = canonicalize_fault_type frepr g"
  shows "fst (judge_verdict frepr rq r) = judgment_grants frepr g r"
proof -
  have "get_val (judge_result_to_dict r) ''is_match'' = PBool (jr_is_match r)"
    by (simp add: get_val_def judge_result_to_dict_def)
  then show ?thesis using assms by (auto simp: judge_verdict_def judgment_grants_def Let_def)
qed

lemma judge_asked:
  "\<not> types_agree frepr a g \<Longrightarrow> judge_fault_type_match frepr (Some j) a g reasoning evidence =
     (case j (build_fault_type_judge_request frepr a g reasoning evidence) of
        Inl (CaughtError cls) \<Rightarrow> Inr (False, dict_update
          [(''mode'', PStr ''deterministic''),
           (''agent_fault_type'', PStr (str_or_empty frepr a)),
           (''ground_truth_fault_type'', PStr (str_or_empty frepr g)),
           (''canonical_agent_fault_type'', PStr (canonicalize_fault_type frepr a)),
           (''canonical_ground_truth_fault_type'', PStr (canonicalize_fault_type frepr g))]
          [(''mode'', PStr ''judge_error''), (''is_match'', PBool False), (''confidence'', PFloat 0),
           (''reasoning'', PStr (''fault type judge failed: '' @ cls))])
      | Inl (OtherError e) \<Rightarrow> Inl e
      | Inr r \<Rightarrow> Inr (judge_verdict frepr (build_fault_type_judge_request frepr a g reasoning evidence) r))"
  by (auto simp: judge_fault_type_match_def types_agree_def Let_def split: sum.split judge_exc.split)

text \<open>C24: the exact condition under which an agent's fault type counts as correct. Equal canonical types that
  are not empty always match and the judge is not asked; without a judge nothing else does; with one, its
  result must say so, be inside the taxonomy, and name the ground truth's canonical type for both sides. A
  judge that fails with a value or type error gives no match, and any other exception is passed on.\<close>

theorem judge_match_condition:
  "map_sum id fst (judge_fault_type_match frepr judge a g reasoning evidence) =
     (if types_agree frepr a g then Inr True
      else case judge of
          None \<Rightarrow> Inr False
        | Some j \<Rightarrow> (case j (build_fault_type_judge_request frepr a g reasoning evidence) of
              Inl (CaughtError cls) \<Rightarrow> Inr False
            | Inl (OtherError e) \<Rightarrow> Inl e
            | Inr r \<Rightarrow> Inr (judgment_grants frepr g r)))"
proof (cases "types_agree frepr a g")
  case True
  then show ?thesis by (auto simp: judge_fault_type_match_def types_agree_def Let_def)
next
  case False
  let ?rq = "build_fault_type_judge_request frepr a g reasoning evidence"
  have "fst (judge_verdict frepr ?rq r) = judgment_grants frepr g r" for r
    by (rule judge_verdict_grants) simp
  moreover have "map_sum id fst (judge_fault_type_match frepr None a g reasoning evidence) = Inr False"
    using False by (auto simp: judge_fault_type_match_def types_agree_def Let_def)
  ultimately show ?thesis
    using False by (auto simp: judge_asked split: option.split sum.split judge_exc.split)
qed

text \<open>C25: a structured judge that answers with text or a mapping can only grant a match on a type of the
  taxonomy (or the literal \<open>unknown\<close>): no answer of the language model makes an unsupported or empty ground
  truth count as found.\<close>

theorem structured_match_in_taxonomy:
  assumes "judge_fault_type_match frepr (Some (structured_judge frepr json parse_fields judge_fn model)) a g reasoning evidence
             = Inr (True, details)"
    and "\<not> types_agree frepr a g"
    and "\<And>rq r. judge_fn rq \<noteq> Inr (ResultReply r)"
  shows "canonicalize_fault_type frepr g \<in> set (supported_fault_types frepr) \<union> {UNKNOWN_FAULT_TYPE}"
proof -
  let ?j = "structured_judge frepr json parse_fields judge_fn model"
  let ?rq = "build_fault_type_judge_request frepr a g reasoning evidence"
  obtain r where r: "?j ?rq = Inr r" "judge_verdict frepr ?rq r = (True, details)"
    using assms(1,2) by (auto simp: judge_asked split: sum.splits judge_exc.splits)
  then have grants: "judgment_grants frepr g r"
    using judge_verdict_grants [of ?rq frepr g r] by simp
  obtain v r' where v: "model_validate frepr parse_fields v = Inr r'"
      "jr_canonical_agent_fault_type r' = jr_canonical_agent_fault_type r"
      "jr_canonical_ground_truth_fault_type r' = jr_canonical_ground_truth_fault_type r"
      "jr_taxonomy_violation r' = jr_taxonomy_violation r"
    using r(1) assms(3) by (auto simp: structured_judge_def split: sum.splits judge_reply.splits if_splits)
  have "jr_canonical_ground_truth_fault_type r' \<in> set (supported_fault_types frepr @ [UNKNOWN_FAULT_TYPE, []])"
    using v(1,4) grants by (auto simp: model_validate_def validate_taxonomy_def Let_def judgment_grants_def split: sum.splits if_splits)
  moreover have "jr_canonical_ground_truth_fault_type r' \<noteq> []"
    using v(1) by (auto simp: model_validate_def validate_taxonomy_def Let_def normalize_canonical_field_def or_else_def
        UNKNOWN_FAULT_TYPE_def split: sum.splits if_splits)
  ultimately show ?thesis using grants v(3) by (auto simp: judgment_grants_def)
qed


definition cable_cut_result :: judge_result where
  "cable_cut_result = \<lparr> jr_canonical_agent_fault_type = ''Link Down'', jr_canonical_ground_truth_fault_type = ''link_down'',
     jr_is_match = True, jr_confidence = 1, jr_reasoning = ''same'', jr_matched_alias_or_description = None,
     jr_taxonomy_violation = False, jr_judge_model = None \<rparr>"

definition cable_cut_judge :: "judge_request \<Rightarrow> judge_exc + judge_result" where
  "cable_cut_judge = structured_judge (\<lambda>_. ''0.0'') (\<lambda>_. Inl (CaughtError ''JSONDecodeError'')) (\<lambda>_. Inr cable_cut_result)
     (\<lambda>_. Inr (MappingReply [])) (Some ''m'')"

lemma link_down_supported: "''link_down'' \<in> set (supported_fault_types frepr)"
proof -
  have "''link_down'' \<in> set (map spec_name (build_builtin_fault_specs frepr))" by code_simp
  then show ?thesis by (simp add: supported_fault_types_def supported_builtin)
qed

lemma cable_cut_names:
  "canonicalize_fault_type (\<lambda>_. ''0.0'') (PStr ''Link Down'') = ''link_down''"
  "canonicalize_fault_type (\<lambda>_. ''0.0'') (PStr ''link_down'') = ''link_down''"
  "canonicalize_fault_type (\<lambda>_. ''0.0'') (PStr ''cable cut'') = ''cable_cut''"
  unfolding canonicalize_fault_type_def canonicalize_fault_name_def builtin_index_table by code_simp+

lemma cable_cut_differs: "\<not> types_agree (\<lambda>_. ''0.0'') (PStr ''cable cut'') (PStr ''link_down'')"
  by (simp add: types_agree_def cable_cut_names)

lemma cable_cut_reply: "\<exists>r. cable_cut_judge rq = Inr r \<and> judgment_grants (\<lambda>_. ''0.0'') (PStr ''link_down'') r"
  by (simp add: cable_cut_judge_def structured_judge_def model_validate_def validate_taxonomy_def cable_cut_result_def Let_def
      normalize_canonical_field_def cable_cut_names or_else_def link_down_supported judgment_grants_def)

theorem structured_match_in_taxonomy_witness:
  "(\<exists>details. judge_fault_type_match (\<lambda>_. ''0.0'') (Some cable_cut_judge) (PStr ''cable cut'') (PStr ''link_down'') [] None
       = Inr (True, details))
   \<and> \<not> types_agree (\<lambda>_. ''0.0'') (PStr ''cable cut'') (PStr ''link_down'')
   \<and> canonicalize_fault_type (\<lambda>_. ''0.0'') (PStr ''link_down'') \<in> set (supported_fault_types (\<lambda>_. ''0.0'')) \<union> {UNKNOWN_FAULT_TYPE}"
proof -
  let ?rq = "build_fault_type_judge_request (\<lambda>_. ''0.0'') (PStr ''cable cut'') (PStr ''link_down'') [] None"
  obtain r where r: "cable_cut_judge ?rq = Inr r" "judgment_grants (\<lambda>_. ''0.0'') (PStr ''link_down'') r"
    using cable_cut_reply by blast
  have "judge_fault_type_match (\<lambda>_. ''0.0'') (Some cable_cut_judge) (PStr ''cable cut'') (PStr ''link_down'') [] None
      = Inr (judge_verdict (\<lambda>_. ''0.0'') ?rq r)"
    by (simp add: judge_asked [OF cable_cut_differs] r(1))
  then obtain details where d: "judge_fault_type_match (\<lambda>_. ''0.0'') (Some cable_cut_judge) (PStr ''cable cut'') (PStr ''link_down'') [] None
      = Inr (True, details)"
    using judge_verdict_grants [of ?rq "\<lambda>_. ''0.0''" "PStr ''link_down''" r] r(2) by (cases "judge_verdict (\<lambda>_. ''0.0'') ?rq r") auto
  show ?thesis
    using structured_match_in_taxonomy [OF d [unfolded cable_cut_judge_def] cable_cut_differs] d cable_cut_differs by blast
qed

end
