(* ===== verification/Scorer.thy ===== *)
theory Scorer
  imports Fault_Type_Judge Interface_Names
begin

text \<open>
  The evaluator (\<open>evaluator/scorer.py\<close>): scoring one agent output against a ground truth, choosing the
  acceptable location that fits best, and the benchmark report. Outputs, ground truths and details are
  the dictionaries of the code, read with its own defaults, so a value of the wrong type raises as it does
  there; scores and rates are floats with their rounding. The wall clock's two strings in a report are
  parameters, dictionary keys of the breakdowns are compared as values of one type.
  Shown: what decides a score; that the best location is the lexicographically best candidate; that every
  rate of a report lies in the unit interval, how the rates are ordered, and that the breakdowns add up.
\<close>

subsection \<open>Sums of values\<close>

text \<open>\<open>sum\<close> of numbers, for integers and sums of them that fit a machine word: exact on integers, rounded
  when the first float is added to them and compensated for the floats after it, where integers are added
  without compensation.\<close>

fun sum_floats :: "rat \<Rightarrow> rat \<Rightarrow> pyval list \<Rightarrow> pyval res" where
  "sum_floats s c [] = Inr (PFloat (if c \<noteq> 0 then fadd s c else s))"
| "sum_floats s c (PFloat x # vs) = (let t = fadd s x;
     c' = (if \<bar>x\<bar> \<le> \<bar>s\<bar> then fadd c (fadd (fsub s t) x) else fadd c (fadd (fsub x t) s)) in sum_floats t c' vs)"
| "sum_floats s c (PInt i # vs) = sum_floats (fadd s (fl (of_int i))) c vs"
| "sum_floats s c (PBool b # vs) = sum_floats (fadd s (of_bool b)) c vs"
| "sum_floats s c (v # vs) = Inl (TypeError ''unsupported operand type(s) for +'')"

fun sum_vals :: "int \<Rightarrow> pyval list \<Rightarrow> pyval res" where
  "sum_vals n [] = Inr (PInt n)"
| "sum_vals n (PInt i # vs) = sum_vals (n + i) vs"
| "sum_vals n (PBool b # vs) = sum_vals (n + of_bool b) vs"
| "sum_vals n (PFloat x # vs) = sum_floats (fadd (fl (of_int n)) x) 0 vs"
| "sum_vals n (v # vs) = Inl (TypeError ''unsupported operand type(s) for +'')"

text \<open>A number divided by a positive integer.\<close>

definition div_val :: "pyval \<Rightarrow> int \<Rightarrow> rat" where
  "div_val v n = (case v of PInt i \<Rightarrow> int_div i n | PFloat x \<Rightarrow> fdiv x (fl (of_int n)) | _ \<Rightarrow> 0)"

subsection \<open>Outputs and results\<close>

definition DEVICE_LOCALIZATION_WEIGHT :: rat where "DEVICE_LOCALIZATION_WEIGHT = 1 / 2"

definition INTERFACE_LOCALIZATION_WEIGHT :: rat where "INTERFACE_LOCALIZATION_WEIGHT = 1 / 2"

record agent_output =
  ao_verdict :: string
  ao_fault_type :: "string option"
  ao_location :: "pydict option"
  ao_evidence :: "string list"
  ao_confidence :: pyval
  ao_reasoning :: string
  ao_tool_calls :: "pydict list"
  ao_time_taken_seconds :: pyval
  ao_metadata :: pydict

definition agent_output_to_dict :: "agent_output \<Rightarrow> pydict" where
  "agent_output_to_dict a =
    [(''verdict'', PStr (ao_verdict a)),
     (''fault_type'', opt_val (ao_fault_type a)),
     (''location'', case ao_location a of None \<Rightarrow> PNone | Some l \<Rightarrow> PDict l),
     (''evidence'', PList (map PStr (ao_evidence a))),
     (''confidence'', ao_confidence a),
     (''reasoning'', PStr (ao_reasoning a)),
     (''tool_calls'', PList (map PDict (ao_tool_calls a))),
     (''time_taken_seconds'', ao_time_taken_seconds a),
     (''metadata'', PDict (ao_metadata a))]"

record evaluation_result =
  er_testcase_id :: string
  er_correct_verdict :: bool
  er_correct_device :: bool
  er_correct_interface :: bool
  er_correct_fault_type :: bool
  er_score :: rat
  er_details :: pydict

definition evaluation_result_to_dict :: "evaluation_result \<Rightarrow> pydict" where
  "evaluation_result_to_dict r =
    [(''testcase_id'', PStr (er_testcase_id r)),
     (''correct_verdict'', PBool (er_correct_verdict r)),
     (''correct_device'', PBool (er_correct_device r)),
     (''correct_interface'', PBool (er_correct_interface r)),
     (''correct_fault_type'', PBool (er_correct_fault_type r)),
     (''score'', PFloat (er_score r)),
     (''details'', PDict (er_details r))]"

text \<open>\<open>self.weights\<close> and \<open>self.fault_type_judge\<close>.\<close>

record evaluator =
  ev_device_weight :: rat
  ev_interface_weight :: rat
  ev_fault_type_judge :: "(judge_request \<Rightarrow> judge_exc + judge_result) option"

definition new_evaluator :: "(judge_request \<Rightarrow> judge_exc + judge_result) option \<Rightarrow> evaluator" where
  "new_evaluator judge = \<lparr> ev_device_weight = DEVICE_LOCALIZATION_WEIGHT, ev_interface_weight = INTERFACE_LOCALIZATION_WEIGHT,
     ev_fault_type_judge = judge \<rparr>"

definition create_default_evaluator :: evaluator where
  "create_default_evaluator = new_evaluator None"

definition create_fault_type_judge_evaluator :: "(judge_request \<Rightarrow> judge_exc + judge_result) \<Rightarrow> evaluator" where
  "create_fault_type_judge_evaluator judge = new_evaluator (Some judge)"

definition agent_details :: "agent_output \<Rightarrow> pydict" where
  "agent_details a =
    [(''agent_output'', PDict (agent_output_to_dict a)),
     (''tool_calls_count'', PInt (int (length (ao_tool_calls a)))),
     (''time_taken'', ao_time_taken_seconds a),
     (''confidence'', ao_confidence a),
     (''inconclusive'', PBool (ao_verdict a = ''inconclusive''))]"

subsection \<open>Matching locations\<close>

definition normalize_name :: "pyval \<Rightarrow> string res" where
  "normalize_name name = (if \<not> truthy name then Inr []
     else case name of
         PStr s \<Rightarrow> Inr (py_replace ''_'' [] (py_replace ''-'' [] (py_strip (py_lower s))))
       | _ \<Rightarrow> Inl (AttributeError ''lower''))"

definition normalize_interface :: "(rat \<Rightarrow> string) \<Rightarrow> pyval \<Rightarrow> string" where
  "normalize_interface frepr v = normalize_interface_name (Some (str_or_empty frepr v))"

type_synonym rank = "int \<times> int \<times> int"

definition is_better_location_rank :: "rank \<Rightarrow> rank \<Rightarrow> bool" where
  "is_better_location_rank rank best = (case (rank, best) of ((a, b, c), (a', b', c')) \<Rightarrow>
     if a > a' then True else if a < a' then False
     else if b > b' then True else if b < b' then False
     else if c > c' then True else False)"

record location_match =
  lm_rank :: rank
  lm_device :: bool
  lm_interface :: bool
  lm_location :: "pydict option"
  lm_mode :: string

definition location_flags ::
  "(rat \<Rightarrow> string) \<Rightarrow> pyval \<Rightarrow> pyval \<Rightarrow> bool \<Rightarrow> pydict \<Rightarrow> (bool \<times> bool) res" where
  "location_flags frepr agent_device agent_interface interface_applicable location =
     (let candidate_device = dict_get location ''device'' (PStr []);
          candidate_interface = get_val location ''interface''
      in rbind (normalize_name agent_device) (\<lambda>a.
         rbind (normalize_name candidate_device) (\<lambda>c.
         Inr (a = c, if interface_applicable
                     then normalize_interface frepr agent_interface = normalize_interface frepr candidate_interface
                     else True))))"

definition consider_location ::
  "(rat \<Rightarrow> string) \<Rightarrow> pyval \<Rightarrow> pyval \<Rightarrow> bool \<Rightarrow> location_match \<Rightarrow> nat \<times> pydict \<Rightarrow> location_match res" where
  "consider_location frepr agent_device agent_interface interface_applicable best il =
     (case il of (index, location) \<Rightarrow>
        rbind (location_flags frepr agent_device agent_interface interface_applicable location) (\<lambda>(device_match, interface_match).
        let rank = (of_bool device_match, of_bool interface_match, of_bool (index = 0))
        in if \<not> is_better_location_rank rank (lm_rank best) then Inr best
           else Inr \<lparr> lm_rank = rank, lm_device = device_match, lm_interface = interface_match, lm_location = Some location,
                      lm_mode = (if device_match \<and> interface_match then (if index = 0 then ''exact'' else ''equivalent'')
                                 else ''partial'') \<rparr>))"

definition match_location ::
  "(rat \<Rightarrow> string) \<Rightarrow> pyval \<Rightarrow> pyval \<Rightarrow> pydict list \<Rightarrow> bool \<Rightarrow> location_match res" where
  "match_location frepr agent_device agent_interface candidates interface_applicable =
     rfoldM (consider_location frepr agent_device agent_interface interface_applicable)
       \<lparr> lm_rank = (-1, -1, -1), lm_device = False, lm_interface = \<not> interface_applicable, lm_location = None, lm_mode = ''no_match'' \<rparr>
       (enumerate 0 candidates)"

subsection \<open>Scoring one case\<close>

definition evaluate_negative :: "agent_output \<Rightarrow> string \<Rightarrow> evaluation_result" where
  "evaluate_negative a testcase_id =
     (let correct_verdict = (ao_verdict a = ''network_healthy'')
      in \<lparr> er_testcase_id = testcase_id, er_correct_verdict = correct_verdict, er_correct_device = True, er_correct_interface = True,
           er_correct_fault_type = True, er_score = (if correct_verdict then 1 else 0),
           er_details = dict_update (agent_details a)
             [(''type'', PStr ''negative_sample''),
              (''negative_sample'', PBool True),
              (''agent_verdict'', PStr (ao_verdict a)),
              (''expected_verdict'', PStr ''network_healthy''),
              (''false_positive'', PBool (\<not> correct_verdict))] \<rparr>)"

definition fault_score :: "evaluator \<Rightarrow> bool \<Rightarrow> bool \<Rightarrow> bool \<Rightarrow> bool \<Rightarrow> rat" where
  "fault_score ev correct_verdict interface_applicable correct_device correct_interface =
     (if \<not> correct_verdict then 0
      else if interface_applicable
      then fadd (if correct_device then ev_device_weight ev else 0) (if correct_interface then ev_interface_weight ev else 0)
      else if correct_device then 1 else 0)"

definition evaluate :: "(rat \<Rightarrow> string) \<Rightarrow> evaluator \<Rightarrow> agent_output \<Rightarrow> pydict \<Rightarrow> string \<Rightarrow> evaluation_result res" where
  "evaluate frepr ev a ground_truth testcase_id =
     (if ground_truth = [] then Inr (evaluate_negative a testcase_id)
      else let correct_verdict = (ao_verdict a = ''fault_detected'') in
        rbind (as_dict (dict_get ground_truth ''location'' (PDict []))) (\<lambda>gt_location.
        let equivalent_locations = val_or (get_val ground_truth ''equivalent_locations'') (PList []);
            gt_interface = get_val gt_location ''interface'';
            gt_fault_type = dict_get ground_truth ''fault_type'' (PStr []);
            agent_location = (case ao_location a of None \<Rightarrow> [] | Some l \<Rightarrow> l);
            agent_device = dict_get agent_location ''device'' (PStr []);
            agent_interface = get_val agent_location ''interface'';
            agent_fault_type = PStr (case ao_fault_type a of None \<Rightarrow> [] | Some t \<Rightarrow> t);
            interface_applicable = truthy gt_interface
        in rbind (iter_val equivalent_locations) (\<lambda>equivalents.
           rbind (match_location frepr agent_device agent_interface (gt_location # dicts_of equivalents) interface_applicable) (\<lambda>lm.
           rbind (judge_fault_type_match frepr (ev_fault_type_judge ev) agent_fault_type gt_fault_type (ao_reasoning a) (Some (ao_evidence a)))
             (\<lambda>(correct_fault_type, fault_type_judgment).
           let score = fault_score ev correct_verdict interface_applicable (lm_device lm) (lm_interface lm)
           in Inr \<lparr> er_testcase_id = testcase_id, er_correct_verdict = correct_verdict, er_correct_device = lm_device lm,
                    er_correct_interface = lm_interface lm, er_correct_fault_type = correct_fault_type,
                    er_score = py_round score 3,
                    er_details = dict_update (agent_details a)
                      [(''ground_truth'', PDict ground_truth),
                       (''interface_applicable'', PBool interface_applicable),
                       (''equivalent_locations'', equivalent_locations),
                       (''matched_location'', case lm_location lm of None \<Rightarrow> PNone | Some l \<Rightarrow> PDict l),
                       (''location_match_mode'', PStr (lm_mode lm)),
                       (''fault_type_judgment'', PDict fault_type_judgment)] \<rparr>)))))"


subsection \<open>The report\<close>

definition is_negative :: "evaluation_result \<Rightarrow> bool" where
  "is_negative r = truthy (get_val (er_details r) ''negative_sample'')"

text \<open>\<open>bool((r.details.get("ground_truth", {}).get("location", {}) or {}).get("interface"))\<close>.\<close>

definition gt_interface_applicable :: "evaluation_result \<Rightarrow> bool res" where
  "gt_interface_applicable r =
     rbind (val_get (dict_get (er_details r) ''ground_truth'' (PDict [])) ''location'' (PDict [])) (\<lambda>location.
     rbind (val_get (val_or location (PDict [])) ''interface'' PNone) (\<lambda>i. Inr (truthy i)))"

definition is_fully_correct_case :: "evaluation_result \<Rightarrow> bool res" where
  "is_fully_correct_case r =
     (if is_negative r then Inr (er_correct_verdict r)
      else rbind (gt_interface_applicable r) (\<lambda>interface_applicable.
        Inr (er_correct_verdict r \<and> er_correct_device r \<and> er_correct_fault_type r
             \<and> (if interface_applicable then er_correct_interface r else True))))"

definition count_if :: "('a \<Rightarrow> bool) \<Rightarrow> 'a list \<Rightarrow> int" where
  "count_if P xs = int (length (filter P xs))"

text \<open>\<open>round(a / b, 3) if b else 0.0\<close>.\<close>

definition rate :: "int \<Rightarrow> int \<Rightarrow> rat" where
  "rate a b = (if b = 0 then 0 else py_round (int_div a b) 3)"

text \<open>The harmonic mean \<open>2 * p * r / (p + r)\<close>, zero when both are.\<close>

definition f1 :: "rat \<Rightarrow> rat \<Rightarrow> rat" where
  "f1 p r = (if fadd p r > 0 then fdiv (fmul (fmul 2 p) r) (fadd p r) else 0)"

record difficulty_stats =
  ds_total :: int
  ds_score_sum :: rat
  ds_avg_score :: rat

record fault_type_stats =
  fs_total :: int
  fs_correct :: int
  fs_score_sum :: rat
  fs_accuracy :: rat
  fs_avg_score :: rat

definition add_difficulty ::
  "(pyval, int \<times> rat) dict \<Rightarrow> evaluation_result \<Rightarrow> (pyval, int \<times> rat) dict res" where
  "add_difficulty d r =
     (let difficulty = dict_get (er_details r) ''difficulty'' (PStr ''unknown'') in
      if \<not> hashable difficulty then Inl (TypeError ''unhashable type'')
      else case dict_get d difficulty (0, 0) of (n, s) \<Rightarrow> Inr (AList.update difficulty (n + 1, fadd s (er_score r)) d))"

definition by_difficulty :: "evaluation_result list \<Rightarrow> (pyval, difficulty_stats) dict res" where
  "by_difficulty results = rbind (rfoldM add_difficulty [] results) (\<lambda>d.
     Inr (map (\<lambda>(k, n, s). (k, \<lparr> ds_total = n, ds_score_sum = s, ds_avg_score = py_round (fdiv s (fl (of_int n))) 3 \<rparr>)) d))"

definition add_fault_type ::
  "(pyval, int \<times> int \<times> rat) dict \<Rightarrow> evaluation_result \<Rightarrow> (pyval, int \<times> int \<times> rat) dict res" where
  "add_fault_type d r =
     rbind (val_get (dict_get (er_details r) ''ground_truth'' (PDict [])) ''fault_type'' (PStr ''unknown'')) (\<lambda>ft.
     if \<not> hashable ft then Inl (TypeError ''unhashable type'')
     else case dict_get d ft (0, 0, 0) of (n, k, s) \<Rightarrow>
       Inr (AList.update ft (n + 1, k + of_bool (er_correct_fault_type r), fadd s (er_score r)) d))"

definition by_fault_type :: "evaluation_result list \<Rightarrow> (pyval, fault_type_stats) dict res" where
  "by_fault_type positive_cases = rbind (rfoldM add_fault_type [] positive_cases) (\<lambda>d.
     Inr (map (\<lambda>(ft, n, k, s). (ft, \<lparr> fs_total = n, fs_correct = k, fs_score_sum = s,
       fs_accuracy = py_round (int_div k n) 3, fs_avg_score = py_round (fdiv s (fl (of_int n))) 3 \<rparr>)) d))"

text \<open>Reading the agent's accounting from the details of a result.\<close>

definition tool_call_count :: "evaluation_result \<Rightarrow> int res" where
  "tool_call_count r = rbind (val_get (dict_get (er_details r) ''agent_output'' (PDict [])) ''tool_calls'' (PList [])) len_val"

definition time_of :: "evaluation_result \<Rightarrow> pyval res" where
  "time_of r = rbind (val_get (dict_get (er_details r) ''agent_output'' (PDict [])) ''time_taken_seconds'' (PInt 0)) (\<lambda>t.
     Inr (val_or t (dict_get (er_details r) ''time_taken'' (PInt 0))))"

definition tokens_of :: "string \<Rightarrow> evaluation_result \<Rightarrow> int res" where
  "tokens_of key r = rbind (val_get (dict_get (er_details r) ''agent_output'' (PDict [])) ''metadata'' (PDict [])) (\<lambda>m.
     rbind (val_get m key (PInt 0)) (\<lambda>t. int_of_val (val_or t (PInt 0))))"

definition says_healthy :: "evaluation_result \<Rightarrow> bool res" where
  "says_healthy r = rbind (val_get (dict_get (er_details r) ''agent_output'' (PDict [])) ''verdict'' PNone) (\<lambda>v. Inr (v = PStr ''network_healthy''))"

record report_summary =
  rs_total_cases :: int
  rs_correct_verdict :: int
  rs_correct_device :: int
  rs_correct_interface :: int
  rs_correct_fault_type :: int
  rs_overall_accuracy :: rat
  rs_detection_accuracy :: rat
  rs_detection_precision :: rat
  rs_detection_recall :: rat
  rs_detection_f1 :: rat
  rs_detection_macro_f1 :: "rat option"
  rs_localization_success_rate :: rat
  rs_device_localization_rate :: rat
  rs_interface_localization_rate :: rat
  rs_interface_applicable_cases :: int
  rs_localization_composite_score :: rat
  rs_device_accuracy :: rat
  rs_fault_type_accuracy :: rat
  rs_average_score :: rat
  rs_avg_tool_calls :: rat
  rs_avg_time_seconds :: rat
  rs_total_input_tokens :: int
  rs_avg_input_tokens_per_case :: rat
  rs_total_output_tokens :: int
  rs_avg_output_tokens_per_case :: rat
  rs_false_positive_rate :: "rat option"
  rs_false_negative_rate :: "rat option"
  rs_negative_sample_cases :: int
  rs_positive_sample_cases :: int

record benchmark_report =
  br_benchmark_id :: string
  br_timestamp :: string
  br_agent_name :: string
  br_topology_scale :: string
  br_summary :: report_summary
  br_by_difficulty :: "(pyval, difficulty_stats) dict"
  br_by_fault_type :: "(pyval, fault_type_stats) dict"
  br_detailed_results :: "pydict list"

text \<open>Detection as a binary classification: true and false positives, false and true negatives.\<close>

definition detection_scores :: "int \<Rightarrow> int \<Rightarrow> int \<Rightarrow> int \<Rightarrow> rat \<times> rat \<times> rat \<times> rat" where
  "detection_scores tp fn fp tn =
     (let precision = rate tp (tp + fp); recall = rate tp (tp + fn);
          f1_pos = f1 precision recall;
          prec_neg = (if tn + fn > 0 then int_div tn (tn + fn) else 0);
          rec_neg = (if tn + fp > 0 then int_div tn (tn + fp) else 0)
      in (precision, recall, py_round f1_pos 3, py_round (fdiv (fadd f1_pos (f1 prec_neg rec_neg)) 2) 3))"

text \<open>The numbers of a report, from the results and what was read from the details of each: whether the
  ground truth of a positive case names an interface, whether a case is fully solved, and the accounting.\<close>

definition summarize ::
  "evaluation_result list \<Rightarrow> bool list \<Rightarrow> bool list \<Rightarrow> int list \<Rightarrow> pyval \<Rightarrow> int list \<Rightarrow> int list \<Rightarrow> bool list \<Rightarrow> report_summary" where
  "summarize results applicable fully tool_calls total_time input_tokens output_tokens healthy =
     (let total = int (length results);
        negative_cases = filter is_negative results;
        positive_cases = filter (\<lambda>r. \<not> is_negative r) results;
        positive_total = int (length positive_cases);
        correct_verdict = count_if er_correct_verdict results;
        correct_device = count_if (\<lambda>r. er_correct_verdict r \<and> er_correct_device r) positive_cases;
        correct_fault_type = count_if er_correct_fault_type positive_cases;
        localization = rate correct_device positive_total;
        interface_applicable_cases = count_if id applicable;
        correct_interface = count_if (\<lambda>(b, r). b \<and> er_correct_verdict r \<and> er_correct_interface r) (zip applicable positive_cases);
        interface_rate = rate correct_interface interface_applicable_cases;
        composite = py_round (fadd (fmul DEVICE_LOCALIZATION_WEIGHT localization) (fmul INTERFACE_LOCALIZATION_WEIGHT interface_rate)) 3;
        false_positives = count_if (\<lambda>r. truthy (get_val (er_details r) ''false_positive'')) negative_cases;
        false_negatives = count_if id healthy;
        tp = count_if er_correct_verdict positive_cases;
        fn = positive_total - tp;
        fp = false_positives;
        tn = int (length negative_cases) - fp;
        (precision, recall, f1_score, macro) = detection_scores tp fn fp tn
      in \<lparr> rs_total_cases = total, rs_correct_verdict = correct_verdict, rs_correct_device = correct_device,
          rs_correct_interface = correct_interface, rs_correct_fault_type = correct_fault_type,
          rs_overall_accuracy = py_round (int_div (count_if id fully) total) 3,
          rs_detection_accuracy = py_round (int_div correct_verdict total) 3,
          rs_detection_precision = precision, rs_detection_recall = recall, rs_detection_f1 = f1_score,
          rs_detection_macro_f1 = (if negative_cases \<noteq> [] then Some macro else None),
          rs_localization_success_rate = localization, rs_device_localization_rate = localization,
          rs_interface_localization_rate = interface_rate, rs_interface_applicable_cases = interface_applicable_cases,
          rs_localization_composite_score = composite, rs_device_accuracy = localization,
          rs_fault_type_accuracy = rate correct_fault_type positive_total,
          rs_average_score = py_round (fdiv (py_fsum (map er_score results)) (fl (of_int total))) 3,
          rs_avg_tool_calls = py_round (int_div (sum_list tool_calls) total) 1,
          rs_avg_time_seconds = py_round (div_val total_time total) 1,
          rs_total_input_tokens = sum_list input_tokens,
          rs_avg_input_tokens_per_case = py_round (int_div (sum_list input_tokens) total) 1,
          rs_total_output_tokens = sum_list output_tokens,
          rs_avg_output_tokens_per_case = py_round (int_div (sum_list output_tokens) total) 1,
          rs_false_positive_rate = (if negative_cases \<noteq> [] then Some (py_round (int_div false_positives (int (length negative_cases))) 3) else None),
          rs_false_negative_rate = (if positive_cases \<noteq> [] then Some (py_round (int_div false_negatives positive_total) 3) else None),
          rs_negative_sample_cases = int (length negative_cases), rs_positive_sample_cases = positive_total \<rparr>)"

text \<open>The report, \<open>None\<close> for the error entry of an empty list of results.\<close>

definition generate_report ::
  "string \<Rightarrow> string \<Rightarrow> evaluation_result list \<Rightarrow> string \<Rightarrow> string \<Rightarrow> benchmark_report option res" where
  "generate_report stamp now results agent_name scale_name =
     (if results = [] then Inr None
      else let positive_cases = filter (\<lambda>r. \<not> is_negative r) results
      in rbind (rmapM gt_interface_applicable positive_cases) (\<lambda>applicable.
         rbind (rmapM is_fully_correct_case results) (\<lambda>fully.
         rbind (by_difficulty results) (\<lambda>difficulty_breakdown.
         rbind (by_fault_type positive_cases) (\<lambda>fault_type_breakdown.
         rbind (rmapM tool_call_count results) (\<lambda>tool_calls.
         rbind (rmapM time_of results) (\<lambda>times.
         rbind (sum_vals 0 times) (\<lambda>total_time.
         rbind (rmapM (tokens_of ''input_tokens'') results) (\<lambda>input_tokens.
         rbind (rmapM (tokens_of ''output_tokens'') results) (\<lambda>output_tokens.
         rbind (rmapM says_healthy positive_cases) (\<lambda>healthy.
         Inr (Some \<lparr> br_benchmark_id = ''netopsbench-'' @ stamp, br_timestamp = now, br_agent_name = agent_name,
           br_topology_scale = scale_name,
           br_summary = summarize results applicable fully tool_calls total_time input_tokens output_tokens healthy,
           br_by_difficulty = difficulty_breakdown, br_by_fault_type = fault_type_breakdown,
           br_detailed_results = map evaluation_result_to_dict results \<rparr>))))))))))))"

subsection \<open>The best location\<close>

definition rank_of :: "nat \<Rightarrow> bool \<times> bool \<Rightarrow> rank" where
  "rank_of i f = (of_bool (fst f), of_bool (snd f), of_bool (i = 0))"

definition match_of :: "nat \<Rightarrow> bool \<times> bool \<Rightarrow> pydict \<Rightarrow> location_match" where
  "match_of i f l = \<lparr> lm_rank = rank_of i f, lm_device = fst f, lm_interface = snd f, lm_location = Some l,
     lm_mode = (if fst f \<and> snd f then (if i = 0 then ''exact'' else ''equivalent'') else ''partial'') \<rparr>"

lemma is_better_iff: "is_better_location_rank r b \<longleftrightarrow> b < r"
  by (cases r; cases b) (auto simp: is_better_location_rank_def less_prod_def)

lemma consider_location_eq:
  assumes "location_flags frepr d i ap l = Inr f"
  shows "consider_location frepr d i ap lm (n, l) = Inr (if lm_rank lm < rank_of n f then match_of n f l else lm)"
  using assms by (cases f) (simp add: consider_location_def is_better_iff rank_of_def match_of_def Let_def)

text \<open>After a non-empty list of candidates the match is that of one of them, and no candidate ranks above it.\<close>

lemma match_location_chosen:
  assumes "list_all2 (\<lambda>l f. location_flags frepr d i ap l = Inr f) cs fs" and "cs \<noteq> []"
  shows "\<exists>n < length cs. match_location frepr d i cs ap = Inr (match_of n (fs ! n) (cs ! n))
     \<and> (\<forall>m < length cs. rank_of m (fs ! m) \<le> rank_of n (fs ! n))"
  using assms
proof (induction cs arbitrary: fs rule: rev_induct)
  case (snoc c cs)
  from snoc.prems(1) obtain fs' f where fs: "fs = fs' @ [f]" "list_all2 (\<lambda>l f. location_flags frepr d i ap l = Inr f) cs fs'"
      "location_flags frepr d i ap c = Inr f"
    by (auto simp: list_all2_append1 list_all2_Cons1)
  have len: "length fs' = length cs" using fs(2) by (simp add: list_all2_lengthD)
  let ?step = "consider_location frepr d i ap"
  have run: "match_location frepr d i (cs @ [c]) ap = rbind (match_location frepr d i cs ap) (\<lambda>lm. ?step lm (length cs, c))"
    by (simp add: match_location_def enumerate_append_eq rfoldM_append) (simp add: rbind_def split: sum.split)
  show ?case
  proof (cases "cs = []")
    case True
    have "(- 1, - 1, - 1) < rank_of 0 f" by (simp add: rank_of_def less_prod_def of_bool_def)
    then show ?thesis
      using True run fs(1,3) len by (simp add: match_location_def consider_location_eq [OF fs(3)])
  next
    case False
    with snoc.IH [OF fs(2)] obtain n where n: "n < length cs"
        "match_location frepr d i cs ap = Inr (match_of n (fs' ! n) (cs ! n))"
        "\<And>m. m < length cs \<Longrightarrow> rank_of m (fs' ! m) \<le> rank_of n (fs' ! n)" by blast
    have eq: "match_location frepr d i (cs @ [c]) ap = Inr (if rank_of n (fs' ! n) < rank_of (length cs) f
        then match_of (length cs) f c else match_of n (fs' ! n) (cs ! n))"
      unfolding run n(2) by (simp add: consider_location_eq [OF fs(3)]) (simp add: match_of_def)
    show ?thesis
    proof (cases "rank_of n (fs' ! n) < rank_of (length cs) f")
      case True
      then show ?thesis using eq n(3) fs(1) len
        by (intro exI [of _ "length cs"]) (auto simp: nth_append less_Suc_eq intro: order_trans less_imp_le)
    next
      case False
      then show ?thesis using eq n(1,3) fs(1) len
        by (intro exI [of _ n]) (auto simp: nth_append less_Suc_eq)
    qed
  qed
qed simp

lemma rank_le_iff:
  "rank_of m f \<le> rank_of n g \<longleftrightarrow> (fst f < fst g \<or> (fst f = fst g \<and> (snd f < snd g \<or> (snd f = snd g \<and> (m = 0 \<longrightarrow> n = 0)))))"
  by (auto simp: rank_of_def less_eq_prod_def less_prod_def of_bool_def)

text \<open>C20: the location an output is scored against is the best acceptable one. The device counts when it is the
  device of some candidate; the interface counts when some candidate agrees on both, or, if no candidate has the
  device, when some candidate has the interface. The ground truth itself is preferred over an equivalent
  location, and the reported location is a candidate with exactly the reported flags.\<close>

theorem match_location_best:
  assumes "rmapM (location_flags frepr d i ap) cs = Inr fs" and "cs \<noteq> []"
  shows "\<exists>lm n. match_location frepr d i cs ap = Inr lm
     \<and> lm_device lm = (\<exists>f \<in> set fs. fst f)
     \<and> lm_interface lm = (if \<exists>f \<in> set fs. fst f then (True, True) \<in> set fs else \<exists>f \<in> set fs. snd f)
     \<and> lm_mode lm = (if hd fs = (True, True) then ''exact'' else if (True, True) \<in> set fs then ''equivalent'' else ''partial'')
     \<and> n < length cs \<and> lm_location lm = Some (cs ! n) \<and> (lm_device lm, lm_interface lm) = fs ! n"
proof -
  have rel: "list_all2 (\<lambda>l f. location_flags frepr d i ap l = Inr f) cs fs" using assms(1) by (simp add: rmapM_eq_Inr)
  then have len: "length fs = length cs" by (simp add: list_all2_lengthD)
  from match_location_chosen [OF rel assms(2)] obtain n where n: "n < length cs"
      "match_location frepr d i cs ap = Inr (match_of n (fs ! n) (cs ! n))"
      "\<And>m. m < length cs \<Longrightarrow> rank_of m (fs ! m) \<le> rank_of n (fs ! n)" by blast
  have mem: "fs ! n \<in> set fs" using n(1) len by simp
  have best: "fst f < fst (fs ! n) \<or> (fst f = fst (fs ! n) \<and> snd f \<le> snd (fs ! n))" if "f \<in> set fs" for f
  proof -
    from that obtain m where "m < length cs" "f = fs ! m" using len by (metis in_set_conv_nth)
    then have "rank_of m f \<le> rank_of n (fs ! n)" using n(3) by simp
    then show ?thesis by (auto simp: rank_le_iff)
  qed
  have dev: "fst (fs ! n) = (\<exists>f \<in> set fs. fst f)" using mem best by fastforce
  have intf: "snd (fs ! n) = (if \<exists>f \<in> set fs. fst f then (True, True) \<in> set fs else \<exists>f \<in> set fs. snd f)"
  proof (cases "\<exists>f \<in> set fs. fst f")
    case True
    then show ?thesis using mem best [of "(True, True)"] dev by (auto, metis prod.collapse)
  next
    case False
    then show ?thesis using mem best by fastforce
  qed
  have hd: "hd fs = fs ! 0" using assms(2) len by (cases fs) auto
  have "n = 0" if "hd fs = (True, True)"
    using n(3) [of 0] that assms(2) hd by (cases "fs ! n") (auto simp: rank_le_iff)
  moreover have "n \<noteq> 0" if "hd fs \<noteq> (True, True)" "fst (fs ! n)" "snd (fs ! n)"
    using that hd by (metis prod.collapse)
  moreover have "fst (fs ! n) \<and> snd (fs ! n) \<longleftrightarrow> (True, True) \<in> set fs" using dev intf by force
  moreover have "hd fs \<in> set fs" using assms(2) len by (cases fs) auto
  ultimately have mode: "lm_mode (match_of n (fs ! n) (cs ! n)) =
      (if hd fs = (True, True) then ''exact'' else if (True, True) \<in> set fs then ''equivalent'' else ''partial'')"
    by (auto simp: match_of_def)
  let ?lm = "match_of n (fs ! n) (cs ! n)"
  have "lm_device ?lm = fst (fs ! n)" "lm_interface ?lm = snd (fs ! n)" "lm_location ?lm = Some (cs ! n)"
    "(lm_device ?lm, lm_interface ?lm) = fs ! n" by (simp_all add: match_of_def)
  with n(1,2) dev intf mode show ?thesis by (intro exI [of _ ?lm] exI [of _ n] conjI) simp_all
qed

definition loc :: "string \<Rightarrow> string \<Rightarrow> pydict" where
  "loc d i = [(''device'', PStr d), (''interface'', PStr i)]"

theorem match_location_best_witness:
  "rmapM (location_flags (\<lambda>_. ''0.0'') (PStr ''Leaf_2'') (PStr ''eth1'') True) [loc ''leaf1'' ''Ethernet0'', loc ''leaf2'' ''Ethernet0'']
     = Inr [(False, True), (True, True)]
   \<and> (\<exists>lm. match_location (\<lambda>_. ''0.0'') (PStr ''Leaf_2'') (PStr ''eth1'') [loc ''leaf1'' ''Ethernet0'', loc ''leaf2'' ''Ethernet0''] True = Inr lm
      \<and> lm_device lm \<and> lm_interface lm \<and> lm_mode lm = ''equivalent'')"
proof -
  have flags: "rmapM (location_flags (\<lambda>_. ''0.0'') (PStr ''Leaf_2'') (PStr ''eth1'') True) [loc ''leaf1'' ''Ethernet0'', loc ''leaf2'' ''Ethernet0'']
      = Inr [(False, True), (True, True)]" by code_simp
  show ?thesis using match_location_best [OF flags] flags by auto
qed


subsection \<open>What a score means\<close>

definition gt_names_interface :: "pydict \<Rightarrow> bool" where
  "gt_names_interface gt = (case map_of gt ''location'' of Some (PDict l) \<Rightarrow> truthy (get_val l ''interface'') | _ \<Rightarrow> False)"

definition expected_score :: "pydict \<Rightarrow> evaluation_result \<Rightarrow> rat" where
  "expected_score gt r =
     (if \<not> er_correct_verdict r then 0
      else if gt = [] then 1
      else if gt_names_interface gt then (of_bool (er_correct_device r) + of_bool (er_correct_interface r)) / 2
      else of_bool (er_correct_device r))"

lemma fl_one_half [simp]: "fl (1 / 2) = 1 / 2"
  using fl_half_int [of 1] by simp

lemma py_round_half [simp]: "py_round (1 / 2) 3 = 1 / 2"
proof -
  have "py_round (1 / 2) 3 = fl (of_int 500 / 1000)" by (simp add: py_round_def round_half_even_def)
  also have "\<dots> = fl (of_int 1 / 2)" by simp
  finally show ?thesis by simp
qed

lemma fault_score_eq:
  "py_round (fault_score (new_evaluator judge) v ap d i) 3 =
     (if \<not> v then 0 else if ap then (of_bool d + of_bool i) / 2 else of_bool d)"
  by (auto simp: fault_score_def new_evaluator_def DEVICE_LOCALIZATION_WEIGHT_def INTERFACE_LOCALIZATION_WEIGHT_def fadd_def)

lemma evaluate_fields:
  assumes "evaluate frepr ev a gt tid = Inr r" and "gt \<noteq> []"
  shows "\<exists>l. dict_get gt ''location'' (PDict []) = PDict l
    \<and> er_correct_verdict r = (ao_verdict a = ''fault_detected'')
    \<and> er_score r = py_round (fault_score ev (ao_verdict a = ''fault_detected'') (truthy (get_val l ''interface''))
         (er_correct_device r) (er_correct_interface r)) 3"
  using assms
  by (auto simp: evaluate_def Let_def rbind_eq_Inr as_dict_def split: pyval.splits)

text \<open>C21: the score of a case. The verdict gates it: a wrong verdict scores zero, a healthy network recognised
  as such scores one, and a detected fault scores half a point each for the device and the interface when the
  ground truth names an interface, and the device alone otherwise. So every score is 0, 1/2 or 1.\<close>

theorem evaluate_score:
  assumes "evaluate frepr (new_evaluator judge) a gt tid = Inr r"
  shows "er_correct_verdict r = (ao_verdict a = (if gt = [] then ''network_healthy'' else ''fault_detected''))
     \<and> er_score r = expected_score gt r \<and> er_score r \<in> {0, 1 / 2, 1}"
proof (cases "gt = []")
  case True
  then show ?thesis using assms by (auto simp: evaluate_def evaluate_negative_def expected_score_def Let_def)
next
  case False
  then obtain l where f: "dict_get gt ''location'' (PDict []) = PDict l"
      "er_correct_verdict r = (ao_verdict a = ''fault_detected'')"
      "er_score r = py_round (fault_score (new_evaluator judge) (ao_verdict a = ''fault_detected'') (truthy (get_val l ''interface''))
         (er_correct_device r) (er_correct_interface r)) 3"
    using evaluate_fields [OF assms] by blast
  have "truthy (get_val l ''interface'') = gt_names_interface gt"
    using f(1) by (auto simp: gt_names_interface_def dict_get_def get_val_def split: option.splits pyval.splits)
  then show ?thesis using f(2,3) False by (auto simp: fault_score_eq expected_score_def)
qed

definition leaf1_truth :: pydict where
  "leaf1_truth = [(''fault_type'', PStr ''link_down''), (''location'', PDict (loc ''leaf1'' ''Ethernet0''))]"

definition report_of :: "string \<Rightarrow> pydict \<Rightarrow> agent_output" where
  "report_of ft l = \<lparr> ao_verdict = ''fault_detected'', ao_fault_type = Some ft, ao_location = Some l, ao_evidence = [],
     ao_confidence = PFloat 1, ao_reasoning = [], ao_tool_calls = [], ao_time_taken_seconds = PFloat 0, ao_metadata = [] \<rparr>"

lemma link_down_types: "types_agree (\<lambda>_. ''0.0'') (PStr ''link_down'') (PStr ''link_down'')"
  by (simp add: types_agree_def cable_cut_names)

lemma judge_agreed:
  "types_agree frepr a g \<Longrightarrow> \<exists>det. judge_fault_type_match frepr judge a g reasoning evidence = Inr (True, det)"
  by (auto simp: judge_fault_type_match_def types_agree_def Let_def)

lemma leaf1_evaluated:
  "\<exists>r. evaluate (\<lambda>_. ''0.0'') (new_evaluator None) (report_of ''link_down'' (loc ''leaf1'' ''Ethernet4'')) leaf1_truth ''t'' = Inr r
     \<and> er_correct_verdict r \<and> er_correct_device r \<and> \<not> er_correct_interface r"
proof -
  let ?m = "match_location (\<lambda>_. ''0.0'') (PStr ''leaf1'') (PStr ''Ethernet4'') [loc ''leaf1'' ''Ethernet0''] True"
  have "(case ?m of Inl _ \<Rightarrow> False | Inr lm \<Rightarrow> lm_device lm \<and> \<not> lm_interface lm)" by code_simp
  then obtain lm where lm: "?m = Inr lm" "lm_device lm" "\<not> lm_interface lm" by (auto split: sum.splits)
  obtain det where "judge_fault_type_match (\<lambda>_. ''0.0'') None (PStr ''link_down'') (PStr ''link_down'') [] (Some []) = Inr (True, det)"
    using judge_agreed [OF link_down_types] by blast
  then show ?thesis using lm
    by (simp add: evaluate_def leaf1_truth_def report_of_def new_evaluator_def as_dict_def dict_get_def get_val_def val_or_def
        iter_val_def dicts_of_def Let_def loc_def)
qed

theorem evaluate_score_witness:
  "\<exists>r. evaluate (\<lambda>_. ''0.0'') (new_evaluator None) (report_of ''link_down'' (loc ''leaf1'' ''Ethernet4'')) leaf1_truth ''t'' = Inr r
     \<and> er_score r = 1 / 2"
proof -
  obtain r where r: "evaluate (\<lambda>_. ''0.0'') (new_evaluator None) (report_of ''link_down'' (loc ''leaf1'' ''Ethernet4'')) leaf1_truth ''t'' = Inr r"
      "er_correct_verdict r" "er_correct_device r" "\<not> er_correct_interface r"
    using leaf1_evaluated by blast
  have "leaf1_truth \<noteq> []" "gt_names_interface leaf1_truth"
    by (simp_all add: leaf1_truth_def gt_names_interface_def loc_def get_val_def)
  then show ?thesis using evaluate_score [OF r(1)] r by (auto simp: expected_score_def)
qed


subsection \<open>Rates of a report\<close>

lemma count_if_bounds: "0 \<le> count_if P xs" "count_if P xs \<le> int (length xs)"
  by (simp_all add: count_if_def)

lemma count_if_Nil [simp]: "count_if P [] = 0"
  by (simp add: count_if_def)

lemma count_if_mono:
  "(\<And>x. x \<in> set xs \<Longrightarrow> P x \<Longrightarrow> Q x) \<Longrightarrow> count_if P xs \<le> count_if Q xs"
  unfolding count_if_def by (induction xs) auto

lemma in_unit_rate [intro]: "0 \<le> a \<Longrightarrow> a \<le> b \<Longrightarrow> in_unit (rate a b)"
  by (auto simp: rate_def)

lemma float_rate: "fl (rate a b) = rate a b"
  by (simp add: rate_def py_round_def)

lemma rate_mono:
  assumes "a \<le> a'" and "0 \<le> b"
  shows "rate a b \<le> rate a' b"
proof -
  have "(of_int a :: rat) / of_int b \<le> of_int a' / of_int b" using assms by (intro divide_right_mono) simp_all
  then show ?thesis by (simp add: rate_def int_div_def py_round_mono fl_mono)
qed

lemma in_unit_f1: "in_unit p \<Longrightarrow> in_unit r \<Longrightarrow> fl p = p \<Longrightarrow> in_unit (f1 p r)"
  by (auto simp: f1_def intro: in_unit_harmonic)

lemma detection_scores_unit:
  assumes "0 \<le> tp" "0 \<le> fn" "0 \<le> fp" "0 \<le> tn" and "detection_scores tp fn fp tn = (p, r, f, m)"
  shows "in_unit p \<and> in_unit r \<and> in_unit f \<and> in_unit m"
proof -
  let ?pn = "if tn + fn > 0 then int_div tn (tn + fn) else 0" and ?rn = "if tn + fp > 0 then int_div tn (tn + fp) else 0"
  have pr: "in_unit (rate tp (tp + fp))" "in_unit (rate tp (tp + fn))" using assms(1-4) by (auto intro!: in_unit_rate)
  have f: "in_unit (f1 (rate tp (tp + fp)) (rate tp (tp + fn)))" by (rule in_unit_f1 [OF pr]) (rule float_rate)
  have "in_unit ?pn" "in_unit ?rn" using assms(1-4) by auto
  moreover have "fl ?pn = ?pn" by (simp add: int_div_def)
  ultimately have "in_unit (f1 ?pn ?rn)" by (rule in_unit_f1)
  then have "in_unit (fdiv (fadd (f1 (rate tp (tp + fp)) (rate tp (tp + fn))) (f1 ?pn ?rn)) 2)" by (rule in_unit_mean [OF f])
  then show ?thesis using assms(5) pr f by (auto simp: detection_scores_def Let_def)
qed

lemma score_half:
  assumes "x \<in> {0, 1 / 2, 1}"
  shows "0 \<le> x \<and> x \<le> 1 \<and> half_int x"
proof -
  have "half_int 0" unfolding half_int_def by (rule exI [of _ 0]) simp
  moreover have "half_int (1 / 2)" unfolding half_int_def by (rule exI [of _ 1]) simp
  moreover have "half_int 1" unfolding half_int_def by (rule exI [of _ 2]) simp
  ultimately show ?thesis using assms by (elim insertE emptyE) (simp_all only:, simp_all)
qed

lemma average_score_unit:
  assumes "xs \<noteq> []" and "\<And>x. x \<in> set xs \<Longrightarrow> x \<in> {0, 1 / 2, 1}" and "length xs \<le> 2 ^ 52"
  shows "in_unit (py_round (fdiv (py_fsum xs) (fl (of_int (int (length xs))))) 3)"
proof -
  have le: "sum_list ys \<le> of_nat (length ys)" if "\<And>x. x \<in> set ys \<Longrightarrow> x \<in> {0, 1 / 2, 1 :: rat}" for ys
    using that by (induction ys) force+
  have nn: "0 \<le> sum_list xs" using assms(2) by (intro sum_list_nonneg) force
  have cap: "(of_nat (length xs) :: rat) \<le> 2 ^ 52" using assms(3) by (metis of_nat_le_iff of_nat_numeral of_nat_power)
  have "py_fsum xs = sum_list xs"
  proof (rule py_fsum_exact)
    show "0 \<le> x \<and> half_int x" if "x \<in> set xs" for x using score_half [OF assms(2) [OF that]] by blast
    show "sum_list xs \<le> 2 ^ 52" using le [OF assms(2)] cap by (rule order_trans)
  qed
  moreover have "fl (of_int (int (length xs))) = of_nat (length xs)"
    using fl_of_int [of "int (length xs)"] assms(3) by simp
  moreover have "in_unit (sum_list xs / of_nat (length xs))"
    using le [OF assms(2)] nn assms(1) by (simp add: in_unit_def divide_le_eq)
  ultimately show ?thesis unfolding fdiv_def by (auto intro!: in_unit_round in_unit_fl)
qed

definition summary_rates :: "report_summary \<Rightarrow> rat list" where
  "summary_rates s = [rs_overall_accuracy s, rs_detection_accuracy s, rs_detection_precision s, rs_detection_recall s,
     rs_detection_f1 s, rs_localization_success_rate s, rs_device_localization_rate s, rs_interface_localization_rate s,
     rs_localization_composite_score s, rs_device_accuracy s, rs_fault_type_accuracy s, rs_average_score s]
     @ concat (map (\<lambda>x. case x of None \<Rightarrow> [] | Some y \<Rightarrow> [y])
         [rs_detection_macro_f1 s, rs_false_positive_rate s, rs_false_negative_rate s])"

text \<open>Every rate of a report: of its summary and of its two breakdowns.\<close>

definition report_rates :: "benchmark_report \<Rightarrow> rat list" where
  "report_rates rep = summary_rates (br_summary rep)
     @ map (\<lambda>(k, d). ds_avg_score d) (br_by_difficulty rep)
     @ map (\<lambda>(k, f). fs_accuracy f) (br_by_fault_type rep) @ map (\<lambda>(k, f). fs_avg_score f) (br_by_fault_type rep)"

text \<open>Taking a report apart.\<close>

lemma generate_report_cases:
  assumes "generate_report stamp now rs name scale_name = Inr (Some rep)"
  shows "\<exists>applicable fully tools time inp out healthy. rs \<noteq> []
    \<and> rmapM gt_interface_applicable (filter (\<lambda>r. \<not> is_negative r) rs) = Inr applicable
    \<and> rmapM is_fully_correct_case rs = Inr fully \<and> length healthy = length (filter (\<lambda>r. \<not> is_negative r) rs)
    \<and> by_difficulty rs = Inr (br_by_difficulty rep) \<and> by_fault_type (filter (\<lambda>r. \<not> is_negative r) rs) = Inr (br_by_fault_type rep)
    \<and> br_summary rep = summarize rs applicable fully tools time inp out healthy"
proof -
  obtain x xa xb xc xd xe xf xg xh xi where *: "rs \<noteq> []" "rmapM gt_interface_applicable (filter (\<lambda>r. \<not> is_negative r) rs) = Inr x"
      "rmapM is_fully_correct_case rs = Inr xa" "by_difficulty rs = Inr xb" "by_fault_type (filter (\<lambda>r. \<not> is_negative r) rs) = Inr xc"
      "rmapM says_healthy (filter (\<lambda>r. \<not> is_negative r) rs) = Inr xi"
      "br_by_difficulty rep = xb" "br_by_fault_type rep = xc" "br_summary rep = summarize rs x xa xd xe xg xh xi"
    using assms by (auto simp: generate_report_def Let_def rbind_eq_Inr split: if_splits)
  then show ?thesis using rmapM_length [OF *(6)] by blast
qed

lemma fully_correct_verdict: "is_fully_correct_case r = Inr b \<Longrightarrow> b \<Longrightarrow> er_correct_verdict r"
  by (auto simp: is_fully_correct_case_def rbind_eq_Inr split: if_splits)

lemma fully_count: "rmapM is_fully_correct_case rs = Inr fully \<Longrightarrow> count_if id fully \<le> count_if er_correct_verdict rs"
proof -
  assume "rmapM is_fully_correct_case rs = Inr fully"
  then have "list_all2 (\<lambda>r b. is_fully_correct_case r = Inr b) rs fully" by (simp add: rmapM_eq_Inr)
  then show ?thesis by induction (auto simp: count_if_def dest: fully_correct_verdict)
qed

lemma zip_count: "length bs = length xs \<Longrightarrow> count_if (\<lambda>(b, x). b \<and> P x) (zip bs xs) \<le> count_if id bs"
  unfolding count_if_def by (induction bs xs rule: list_induct2) auto

lemma summarize_rates:
  fixes tools time inp out
  assumes "rs \<noteq> []" and "length rs \<le> 2 ^ 52" and "\<And>r. r \<in> set rs \<Longrightarrow> er_score r \<in> {0, 1 / 2, 1}"
    and "length applicable = length (filter (\<lambda>r. \<not> is_negative r) rs)" and "length healthy = length (filter (\<lambda>r. \<not> is_negative r) rs)"
    and "count_if id fully \<le> count_if er_correct_verdict rs"
  defines "s \<equiv> summarize rs applicable fully tools time inp out healthy"
  shows "list_all in_unit (summary_rates s)"
    and "rs_overall_accuracy s \<le> rs_detection_accuracy s" and "rs_localization_success_rate s \<le> rs_detection_recall s"
proof -
  let ?pos = "filter (\<lambda>r. \<not> is_negative r) rs" and ?neg = "filter is_negative rs"
  let ?tp = "count_if er_correct_verdict ?pos" and ?fp = "count_if (\<lambda>r. truthy (get_val (er_details r) ''false_positive'')) ?neg"
  obtain p r f m where d: "detection_scores ?tp (int (length ?pos) - ?tp) ?fp (int (length ?neg) - ?fp) = (p, r, f, m)"
    by (metis prod_cases4)
  have prfm: "in_unit p" "in_unit r" "in_unit f" "in_unit m"
    using detection_scores_unit [OF _ _ _ _ d] by (simp_all add: count_if_bounds)
  have r: "r = rate ?tp (int (length ?pos))" using d by (simp add: detection_scores_def Let_def)
  have avg: "in_unit (py_round (fdiv (py_fsum (map er_score rs)) (fl (of_int (int (length rs))))) 3)"
    using average_score_unit [of "map er_score rs"] assms(1-3) by (simp add: image_iff) blast
  have fully: "count_if id fully \<le> int (length rs)" using assms(6) count_if_bounds(2) [of er_correct_verdict rs] by linarith
  have loc: "in_unit (rate (count_if (\<lambda>r. er_correct_verdict r \<and> er_correct_device r) ?pos) (int (length ?pos)))"
    by (intro in_unit_rate count_if_bounds)
  have intf: "in_unit (rate (count_if (\<lambda>(b, r). b \<and> er_correct_verdict r \<and> er_correct_interface r) (zip applicable ?pos)) (count_if id applicable))"
    by (intro in_unit_rate count_if_bounds zip_count assms(4))
  note unit = in_unit_round in_unit_int_div in_unit_rate count_if_bounds
  have "in_unit (py_round (int_div (count_if id healthy) (int (length ?pos))) 3)"
    using count_if_bounds [of id healthy] assms(5) by (intro unit) simp_all
  then show "list_all in_unit (summary_rates s)"
    unfolding s_def summarize_def Let_def d summary_rates_def DEVICE_LOCALIZATION_WEIGHT_def INTERFACE_LOCALIZATION_WEIGHT_def
    using prfm avg loc intf fully in_unit_weighted [OF loc intf] by (auto intro!: unit)
  show "rs_overall_accuracy s \<le> rs_detection_accuracy s"
    using rate_mono [OF assms(6), of "int (length rs)"] assms(1) by (simp add: s_def summarize_def Let_def d rate_def)
  have "count_if (\<lambda>r. er_correct_verdict r \<and> er_correct_device r) ?pos \<le> ?tp" by (rule count_if_mono) simp
  then show "rs_localization_success_rate s \<le> rs_detection_recall s"
    by (simp add: s_def summarize_def Let_def d r rate_mono)
qed

text \<open>An entry of a breakdown while it is built from at most \<open>m\<close> results: how many results it counts and
  the sum of their scores.\<close>

definition entry_ok :: "int \<Rightarrow> int \<times> rat \<Rightarrow> bool" where
  "entry_ok m e \<longleftrightarrow> 1 \<le> fst e \<and> fst e \<le> m \<and> 0 \<le> snd e \<and> snd e \<le> of_int (fst e) \<and> half_int (snd e)"

lemma entry_add:
  assumes "entry_ok m (n, s) \<or> (n = 0 \<and> s = 0 \<and> 0 \<le> m)" and "x \<in> {0, 1 / 2, 1}" and "m < 2 ^ 52"
  shows "entry_ok (m + 1) (n + 1, fadd s x)"
proof -
  have x: "0 \<le> x" "x \<le> 1" "half_int x" using score_half [OF assms(2)] by simp_all
  have s: "0 \<le> s" "s \<le> of_int n" "half_int s" "0 \<le> n" "n \<le> m"
    using assms(1) score_half [of 0] by (auto simp: entry_ok_def)
  have "(of_int (n + 1) :: rat) \<le> 2 ^ 52"
    using s(5) assms(3) by (metis add1_zle_eq le_less_trans of_int_le_iff of_int_numeral of_int_power)
  then have "\<bar>s + x\<bar> \<le> 2 ^ 52" using s x by simp
  then have "fadd s x = s + x" unfolding fadd_def by (intro fl_half half_int_add s x)
  then show ?thesis using s x by (simp add: entry_ok_def half_int_add)
qed

lemma entry_mono: "entry_ok m e \<Longrightarrow> m \<le> m' \<Longrightarrow> entry_ok m' e"
  by (simp add: entry_ok_def)

lemma entry_mean:
  assumes "entry_ok m (n, s)" and "m \<le> 2 ^ 52"
  shows "in_unit (py_round (fdiv s (fl (of_int n))) 3)"
proof -
  have e: "1 \<le> n" "n \<le> 2 ^ 52" "0 \<le> s" "s \<le> of_int n" using assms by (simp_all add: entry_ok_def)
  then have "fl (of_int n) = of_int n" by (intro fl_of_int) simp
  moreover have "in_unit (s / of_int n)" using e by (simp add: in_unit_def divide_le_eq)
  ultimately show ?thesis unfolding fdiv_def by (auto intro!: in_unit_round in_unit_fl)
qed

lemma dict_get_entry: "dict_get d k e0 = e \<Longrightarrow> (\<exists>k. (k, e) \<in> set d) \<or> e = e0"
  by (auto simp: dict_get_def dest: map_of_SomeD split: option.splits)

lemma by_difficulty_entries:
  assumes "rfoldM add_difficulty d rs = Inr d'" and "\<And>r. r \<in> set rs \<Longrightarrow> er_score r \<in> {0, 1 / 2, 1}"
    and "\<And>k e. (k, e) \<in> set d \<Longrightarrow> entry_ok m e" and "0 \<le> m" and "m + int (length rs) \<le> 2 ^ 52"
  shows "(k, e) \<in> set d' \<Longrightarrow> entry_ok (m + int (length rs)) e"
  using assms
proof (induction rs arbitrary: d m)
  case (Cons r rs)
  from Cons.prems(2) obtain d1 where d1: "add_difficulty d r = Inr d1" "rfoldM add_difficulty d1 rs = Inr d'"
    by (auto simp: rbind_eq_Inr)
  from d1(1) obtain k0 n s where g: "dict_get d k0 (0, 0) = (n, s)" and u: "d1 = AList.update k0 (n + 1, fadd s (er_score r)) d"
    by (auto simp: add_difficulty_def Let_def split: if_splits prod.splits)
  have "entry_ok m (n, s) \<or> (n = 0 \<and> s = 0 \<and> 0 \<le> m)" using dict_get_entry [OF g] Cons.prems(4,5) by auto
  then have new: "entry_ok (m + 1) (n + 1, fadd s (er_score r))"
    by (rule entry_add) (use Cons.prems(3,6) in auto)
  have "entry_ok (m + 1) e'" if "(k', e') \<in> set d1" for k' e'
    using that new Cons.prems(4) set_alist_update [of k0 "(n + 1, fadd s (er_score r))" d] entry_mono [of m e' "m + 1"]
    unfolding u by (cases e') auto
  then show ?case using Cons.IH [OF Cons.prems(1) d1(2), of "m + 1"] Cons.prems(3,5,6) by (simp add: add.assoc)
qed simp

lemma by_fault_type_entries:
  assumes "rfoldM add_fault_type d rs = Inr d'" and "\<And>r. r \<in> set rs \<Longrightarrow> er_score r \<in> {0, 1 / 2, 1}"
    and "\<And>k n c s. (k, n, c, s) \<in> set d \<Longrightarrow> entry_ok m (n, s) \<and> 0 \<le> c \<and> c \<le> n" and "0 \<le> m" and "m + int (length rs) \<le> 2 ^ 52"
  shows "(k, n, c, s) \<in> set d' \<Longrightarrow> entry_ok (m + int (length rs)) (n, s) \<and> 0 \<le> c \<and> c \<le> n"
  using assms
proof (induction rs arbitrary: d m)
  case (Cons r rs)
  from Cons.prems(2) obtain d1 where d1: "add_fault_type d r = Inr d1" "rfoldM add_fault_type d1 rs = Inr d'"
    by (auto simp: rbind_eq_Inr)
  from d1(1) obtain k0 n0 c0 s0 where g: "dict_get d k0 (0, 0, 0) = (n0, c0, s0)"
      and u: "d1 = AList.update k0 (n0 + 1, c0 + of_bool (er_correct_fault_type r), fadd s0 (er_score r)) d"
    by (auto simp: add_fault_type_def rbind_eq_Inr split: if_splits prod.splits)
  have old: "(entry_ok m (n0, s0) \<or> (n0 = 0 \<and> s0 = 0 \<and> 0 \<le> m)) \<and> 0 \<le> c0 \<and> c0 \<le> n0"
    using dict_get_entry [OF g] Cons.prems(4,5) by auto
  then have new: "entry_ok (m + 1) (n0 + 1, fadd s0 (er_score r))"
    by (intro entry_add) (use Cons.prems(3,6) in auto)
  have "entry_ok (m + 1) (n', s') \<and> 0 \<le> c' \<and> c' \<le> n'" if "(k', n', c', s') \<in> set d1" for k' n' c' s'
    using that new old Cons.prems(4) [of k' n' c' s'] entry_mono [of m "(n', s')" "m + 1"]
      set_alist_update [of k0 "(n0 + 1, c0 + of_bool (er_correct_fault_type r), fadd s0 (er_score r))" d]
    unfolding u by auto
  then show ?case using Cons.IH [OF Cons.prems(1) d1(2), of "m + 1"] Cons.prems(3,5,6) by (simp add: add.assoc)
qed simp

lemma breakdown_rates:
  assumes "\<And>r. r \<in> set rs \<Longrightarrow> er_score r \<in> {0, 1 / 2, 1}" and "length rs \<le> 2 ^ 52"
  shows "by_difficulty rs = Inr bd \<Longrightarrow> list_all in_unit (map (\<lambda>(k, d). ds_avg_score d) bd)"
    and "by_fault_type rs = Inr bf \<Longrightarrow> list_all in_unit (map (\<lambda>(k, f). fs_accuracy f) bf @ map (\<lambda>(k, f). fs_avg_score f) bf)"
proof -
  have cap: "0 + int (length rs) \<le> 2 ^ 52" using assms(2) by (simp flip: of_nat_le_iff)
  note mean = entry_mean [OF _ cap]
  show "list_all in_unit (map (\<lambda>(k, d). ds_avg_score d) bd)" if bd: "by_difficulty rs = Inr bd"
  proof -
    obtain d where d: "rfoldM add_difficulty [] rs = Inr d"
      and bd: "bd = map (\<lambda>(k, n, s). (k, \<lparr> ds_total = n, ds_score_sum = s, ds_avg_score = py_round (fdiv s (fl (of_int n))) 3 \<rparr>)) d"
      using bd by (auto simp: by_difficulty_def rbind_eq_Inr)
    have "in_unit (py_round (fdiv s (fl (of_int n))) 3)" if "(k, n, s) \<in> set d" for k n s
      using by_difficulty_entries [OF d assms(1) _ _ cap that] by (intro mean) auto
    then show ?thesis by (auto simp: bd list_all_iff)
  qed
  show "list_all in_unit (map (\<lambda>(k, f). fs_accuracy f) bf @ map (\<lambda>(k, f). fs_avg_score f) bf)" if bf: "by_fault_type rs = Inr bf"
  proof -
    obtain d where d: "rfoldM add_fault_type [] rs = Inr d"
      and bf: "bf = map (\<lambda>(ft, n, k, s). (ft, \<lparr> fs_total = n, fs_correct = k, fs_score_sum = s,
         fs_accuracy = py_round (int_div k n) 3, fs_avg_score = py_round (fdiv s (fl (of_int n))) 3 \<rparr>)) d"
      using bf by (auto simp: by_fault_type_def rbind_eq_Inr)
    have "entry_ok (0 + int (length rs)) (n, s) \<and> 0 \<le> c \<and> c \<le> n" if "(k, n, c, s) \<in> set d" for k n c s
      using by_fault_type_entries [OF d assms(1) _ _ cap that] by auto
    then have "in_unit (py_round (fdiv s (fl (of_int n))) 3) \<and> in_unit (py_round (int_div c n) 3)" if "(k, n, c, s) \<in> set d" for k n c s
      using that mean by (blast intro: in_unit_round in_unit_int_div)
    then show ?thesis by (auto simp: bf list_all_iff)
  qed
qed

text \<open>C22: every rate of a benchmark report, in its summary and in its breakdowns by difficulty and by fault
  type, lies between 0 and 1, for at most \<open>2 ^ 52\<close> results with the scores the evaluator gives (0, 0.5 or 1).
  Moreover end-to-end accuracy never exceeds detection accuracy, and localization never exceeds detection
  recall: no case counts as located or solved whose fault was not detected.\<close>

theorem report_rates_bounded:
  assumes "generate_report stamp now rs name scale_name = Inr (Some rep)"
    and "\<forall>r \<in> set rs. er_score r \<in> {0, 1 / 2, 1}" and "length rs \<le> 2 ^ 52"
  shows "list_all in_unit (report_rates rep)
     \<and> rs_overall_accuracy (br_summary rep) \<le> rs_detection_accuracy (br_summary rep)
     \<and> rs_localization_success_rate (br_summary rep) \<le> rs_detection_recall (br_summary rep)"
proof -
  let ?pos = "filter (\<lambda>r. \<not> is_negative r) rs"
  obtain ap fully tools time inp out healthy where s: "rs \<noteq> []" "rmapM gt_interface_applicable ?pos = Inr ap"
      "rmapM is_fully_correct_case rs = Inr fully" "length healthy = length ?pos"
      "br_summary rep = summarize rs ap fully tools time inp out healthy"
      "by_difficulty rs = Inr (br_by_difficulty rep)" "by_fault_type ?pos = Inr (br_by_fault_type rep)"
    using generate_report_cases [OF assms(1)] by blast
  have sc: "er_score r \<in> {0, 1 / 2, 1}" if "r \<in> set rs" for r using assms(2) that by blast
  have "length ?pos \<le> 2 ^ 52" using assms(3) length_filter_le [of "\<lambda>r. \<not> is_negative r" rs] by linarith
  then have "list_all in_unit (map (\<lambda>(k, f). fs_accuracy f) (br_by_fault_type rep) @ map (\<lambda>(k, f). fs_avg_score f) (br_by_fault_type rep))"
    using sc by (intro breakdown_rates(2) [OF _ _ s(7)]) auto
  then show ?thesis
    unfolding report_rates_def s(5)
    using summarize_rates [OF s(1) assms(3) sc rmapM_length [OF s(2)] s(4) fully_count [OF s(3)], of tools time inp out]
      breakdown_rates(1) [OF sc assms(3) s(6)]
    by simp
qed

subsection \<open>Breakdowns add up\<close>

lemma sum_update:
  "(\<Sum>(k, v) \<leftarrow> AList.update k0 v0 d. (g v :: int)) = (\<Sum>(k, v) \<leftarrow> d. g v) - (case map_of d k0 of None \<Rightarrow> 0 | Some v \<Rightarrow> g v) + g v0"
  by (induction d) (auto split: option.split)

lemma by_difficulty_sum:
  assumes "rfoldM add_difficulty d rs = Inr d'"
  shows "(\<Sum>(k, n, s) \<leftarrow> d'. n) = (\<Sum>(k, n, s) \<leftarrow> d. n) + int (length rs) \<and> (wf_dict d \<longrightarrow> wf_dict d')"
  using assms
proof (induction rs arbitrary: d)
  case (Cons r rs)
  from Cons.prems obtain d1 where d1: "add_difficulty d r = Inr d1" "rfoldM add_difficulty d1 rs = Inr d'"
    by (auto simp: rbind_eq_Inr)
  let ?k = "dict_get (er_details r) ''difficulty'' (PStr ''unknown'')"
  obtain n s where ns: "dict_get d ?k (0, 0) = (n, s)" by fastforce
  then have upd: "d1 = AList.update ?k (n + 1, fadd s (er_score r)) d"
    using d1(1) by (auto simp: add_difficulty_def Let_def split: if_splits)
  have "(\<Sum>(k, n, s) \<leftarrow> d1. n) = (\<Sum>(k, n, s) \<leftarrow> d. n) + 1"
    using sum_update [of fst ?k "(n + 1, fadd s (er_score r))" d] ns
    by (auto simp: upd case_prod_unfold dict_get_def split: option.splits)
  moreover have "wf_dict d1" if "wf_dict d" using that by (simp add: upd wf_dict_def AList.distinct_update)
  ultimately show ?case using Cons.IH [OF d1(2)] by auto
qed simp

lemma by_fault_type_sum:
  assumes "rfoldM add_fault_type d rs = Inr d'"
  shows "(\<Sum>(k, n, c, s) \<leftarrow> d'. n) = (\<Sum>(k, n, c, s) \<leftarrow> d. n) + int (length rs)
    \<and> (\<Sum>(k, n, c, s) \<leftarrow> d'. c) = (\<Sum>(k, n, c, s) \<leftarrow> d. c) + count_if er_correct_fault_type rs
    \<and> (wf_dict d \<longrightarrow> wf_dict d')"
  using assms
proof (induction rs arbitrary: d)
  case (Cons r rs)
  from Cons.prems obtain d1 where d1: "add_fault_type d r = Inr d1" "rfoldM add_fault_type d1 rs = Inr d'"
    by (auto simp: rbind_eq_Inr)
  from d1(1) obtain k n c s where ns: "dict_get d k (0, 0, 0) = (n, c, s)"
      and upd: "d1 = AList.update k (n + 1, c + of_bool (er_correct_fault_type r), fadd s (er_score r)) d"
    by (auto simp: add_fault_type_def rbind_eq_Inr split: if_splits prod.splits)
  let ?v = "(n + 1, c + of_bool (er_correct_fault_type r), fadd s (er_score r))"
  have "(\<Sum>(k, n, c, s) \<leftarrow> d1. n) = (\<Sum>(k, n, c, s) \<leftarrow> d. n) + 1"
    using sum_update [of fst k ?v d] ns by (auto simp: upd case_prod_unfold dict_get_def split: option.splits)
  moreover have "(\<Sum>(k, n, c, s) \<leftarrow> d1. c) = (\<Sum>(k, n, c, s) \<leftarrow> d. c) + of_bool (er_correct_fault_type r)"
    using sum_update [of "fst \<circ> snd" k ?v d] ns by (auto simp: upd case_prod_unfold dict_get_def split: option.splits)
  moreover have "wf_dict d1" if "wf_dict d" using that by (simp add: upd wf_dict_def AList.distinct_update)
  ultimately show ?case using Cons.IH [OF d1(2)] by (auto simp: count_if_def case_prod_unfold)
qed simp

text \<open>The breakdowns of a report partition its cases: the totals by difficulty add up to all cases, the
  totals by fault type to the positive cases and their correct counts to the reported number of correct
  fault types, and no key occurs twice.\<close>

lemma report_breakdowns_partition:
  assumes "generate_report stamp now rs name scale_name = Inr (Some rep)"
  shows "(\<Sum>(k, d) \<leftarrow> br_by_difficulty rep. ds_total d) = rs_total_cases (br_summary rep)
     \<and> (\<Sum>(k, f) \<leftarrow> br_by_fault_type rep. fs_total f) = rs_positive_sample_cases (br_summary rep)
     \<and> (\<Sum>(k, f) \<leftarrow> br_by_fault_type rep. fs_correct f) = rs_correct_fault_type (br_summary rep)
     \<and> rs_total_cases (br_summary rep) = rs_positive_sample_cases (br_summary rep) + rs_negative_sample_cases (br_summary rep)
     \<and> wf_dict (br_by_difficulty rep) \<and> wf_dict (br_by_fault_type rep)"
proof -
  let ?pos = "filter (\<lambda>r. \<not> is_negative r) rs"
  obtain ap fully tools time inp out healthy where s: "by_difficulty rs = Inr (br_by_difficulty rep)"
      "by_fault_type ?pos = Inr (br_by_fault_type rep)" "br_summary rep = summarize rs ap fully tools time inp out healthy"
    using generate_report_cases [OF assms] by blast
  obtain d where d: "rfoldM add_difficulty [] rs = Inr d"
      "br_by_difficulty rep = map (\<lambda>(k, n, s). (k, \<lparr> ds_total = n, ds_score_sum = s, ds_avg_score = py_round (fdiv s (fl (of_int n))) 3 \<rparr>)) d"
    using s(1) by (auto simp: by_difficulty_def rbind_eq_Inr)
  obtain e where e: "rfoldM add_fault_type [] ?pos = Inr e"
      "br_by_fault_type rep = map (\<lambda>(ft, n, k, s). (ft, \<lparr> fs_total = n, fs_correct = k, fs_score_sum = s,
         fs_accuracy = py_round (int_div k n) 3, fs_avg_score = py_round (fdiv s (fl (of_int n))) 3 \<rparr>)) e"
    using s(2) by (auto simp: by_fault_type_def rbind_eq_Inr)
  have sum: "rs_total_cases (br_summary rep) = int (length rs)" "rs_positive_sample_cases (br_summary rep) = int (length ?pos)"
      "rs_correct_fault_type (br_summary rep) = count_if er_correct_fault_type ?pos"
      "rs_negative_sample_cases (br_summary rep) = int (length (filter is_negative rs))"
    by (simp_all add: s(3) summarize_def Let_def split: prod.split)
  have "length rs = length ?pos + length (filter is_negative rs)" using sum_length_filter_compl [of is_negative rs] by simp
  moreover have "wf_dict (br_by_difficulty rep) = wf_dict d" "wf_dict (br_by_fault_type rep) = wf_dict e"
    by (simp_all add: d(2) e(2) wf_dict_def comp_def case_prod_unfold)
  ultimately show ?thesis
    using by_difficulty_sum [OF d(1)] by_fault_type_sum [OF e(1)]
    by (simp add: sum d(2) e(2) comp_def case_prod_unfold wf_dict_def)
qed

text \<open>A healthy network recognised as such, and a link fault on the wrong interface.\<close>

definition healthy_report :: agent_output where
  "healthy_report = (report_of [] [])\<lparr> ao_verdict := ''network_healthy'', ao_fault_type := None, ao_location := None \<rparr>"

definition sample_positive :: evaluation_result where
  "sample_positive = \<lparr> er_testcase_id = ''t2'', er_correct_verdict = True, er_correct_device = True, er_correct_interface = False,
     er_correct_fault_type = True, er_score = 1 / 2,
     er_details = [(''agent_output'', PDict (agent_output_to_dict (report_of ''link_down'' (loc ''leaf1'' ''Ethernet4'')))),
                   (''ground_truth'', PDict leaf1_truth)] \<rparr>"

definition sample_results :: "evaluation_result list" where
  "sample_results = [evaluate_negative healthy_report ''t1'', sample_positive]"

lemma sample_report: "\<exists>rep. generate_report ''20250101-000000'' ''now'' sample_results ''agent'' ''small'' = Inr (Some rep)"
  by (simp add: generate_report_def sample_results_def evaluate_negative_def sample_positive_def healthy_report_def report_of_def
      is_negative_def gt_interface_applicable_def is_fully_correct_case_def by_difficulty_def add_difficulty_def by_fault_type_def
      add_fault_type_def tool_call_count_def time_of_def tokens_of_def says_healthy_def val_get_def as_dict_def val_or_def dict_get_def
      get_val_def len_val_def int_of_val_def hashable_def agent_details_def agent_output_to_dict_def leaf1_truth_def loc_def
      dict_update_def Let_def)

lemma sample_scores: "\<forall>r \<in> set sample_results. er_score r \<in> {0, 1 / 2, 1}" "length sample_results \<le> 2 ^ 52"
  by (simp_all add: sample_results_def evaluate_negative_def sample_positive_def Let_def)

theorem report_rates_bounded_witness:
  "\<exists>rep. generate_report ''20250101-000000'' ''now'' sample_results ''agent'' ''small'' = Inr (Some rep)
     \<and> list_all in_unit (report_rates rep)"
  using sample_report report_rates_bounded [OF _ sample_scores] by blast

end
