(* ===== verification/Ground_Truth.thy ===== *)
theory Ground_Truth
  imports Scorer Fault_Services
begin

text \<open>
  The ground truth of an episode (\<open>incident/scoring.py\<close>): the injected fault and its location and, for a
  fault on a link, the far end of the link as an equivalent location. Reading the manifest of a topology
  directory is a parameter: no directory, or the result of loading it.
  Shown, together with the evaluator: an agent that reports the target, or the end of the link that lies across
  from it in the manifest, gets the full score.
\<close>

definition INTERFACE_SYMMETRIC_FAULT_TYPES :: "string list" where
  "INTERFACE_SYMMETRIC_FAULT_TYPES = [''link_down'', ''link_flapping'']"

definition peer_location :: "topology_manifest \<Rightarrow> string \<Rightarrow> string \<Rightarrow> pydict" where
  "peer_location m dev intf =
     (let intf' = (case find_device m dev of
            None \<Rightarrow> intf
          | Some peer \<Rightarrow> if role peer \<noteq> CLIENT then to_sonic_interface (Some intf) else intf)
      in [(''device'', PStr dev), (''interface'', PStr intf')])"

text \<open>\<open>are_interfaces_equivalent\<close> on a value of any type: falsy values are never equivalent.\<close>

definition equivalent_val :: "(rat \<Rightarrow> string) \<Rightarrow> string \<Rightarrow> pyval \<Rightarrow> bool" where
  "equivalent_val frepr intf v = are_interfaces_equivalent (Some intf) (if truthy v then Some (py_str frepr v) else None)"

fun scan_links :: "(rat \<Rightarrow> string) \<Rightarrow> topology_manifest \<Rightarrow> pyval \<Rightarrow> pyval \<Rightarrow> link list \<Rightarrow> pydict list" where
  "scan_links frepr m dev intf [] = []"
| "scan_links frepr m dev intf (l # ls) =
     (case endpoints l of (left, right) \<Rightarrow>
        if PStr (ep_device left) = dev \<and> equivalent_val frepr (ep_interface left) intf
        then [peer_location m (ep_device right) (ep_interface right)]
        else if PStr (ep_device right) = dev \<and> equivalent_val frepr (ep_interface right) intf
        then [peer_location m (ep_device left) (ep_interface left)]
        else scan_links frepr m dev intf ls)"

definition find_link_peer_locations ::
  "(rat \<Rightarrow> string) \<Rightarrow> topology_manifest res option \<Rightarrow> pyval \<Rightarrow> pyval \<Rightarrow> pydict list res" where
  "find_link_peer_locations frepr topology dev intf =
     (case topology of
        None \<Rightarrow> Inr []
      | Some loaded \<Rightarrow>
          if \<not> truthy dev \<or> \<not> truthy intf then Inr []
          else rbind loaded (\<lambda>m. Inr (scan_links frepr m dev intf (links m))))"

definition build_episode_ground_truth ::
  "(rat \<Rightarrow> string) \<Rightarrow> topology_manifest res option \<Rightarrow> pydict \<Rightarrow> pydict res" where
  "build_episode_ground_truth frepr topology episode_info =
     (let location = [(''device'', get_val episode_info ''target_device'')]
            @ (if truthy (get_val episode_info ''target_interface'') then [(''interface'', get_val episode_info ''target_interface'')] else []);
          ground_truth = [(''fault_type'', get_val episode_info ''fault_type''), (''location'', PDict location)]
      in if get_val episode_info ''fault_type'' \<in> set (map PStr INTERFACE_SYMMETRIC_FAULT_TYPES)
         then rbind (find_link_peer_locations frepr topology (get_val episode_info ''target_device'') (get_val episode_info ''target_interface''))
           (\<lambda>equivalent_locations. Inr (if equivalent_locations \<noteq> []
              then ground_truth @ [(''equivalent_locations'', PList (map PDict equivalent_locations))] else ground_truth))
         else Inr ground_truth)"

subsection \<open>Reporting an acceptable location\<close>

text \<open>A location given by texts, and when an agent's location denotes it.\<close>

definition text_location :: "pydict \<Rightarrow> bool" where
  "text_location l \<longleftrightarrow> (\<exists>d i. l = [(''device'', PStr d), (''interface'', PStr i)])"

definition denotes :: "(rat \<Rightarrow> string) \<Rightarrow> pydict \<Rightarrow> pydict \<Rightarrow> bool" where
  "denotes frepr a l \<longleftrightarrow> normalize_name (dict_get a ''device'' (PStr [])) = normalize_name (dict_get l ''device'' (PStr []))
     \<and> normalize_interface frepr (get_val a ''interface'') = normalize_interface frepr (get_val l ''interface'')"

lemma scan_links_text: "\<forall>l \<in> set (scan_links frepr m d i ls). text_location l"
  by (induction ls) (auto simp: peer_location_def text_location_def Let_def split: prod.splits)

lemma normalize_name_text: "\<exists>n. normalize_name (PStr s) = Inr n"
  by (simp add: normalize_name_def)

lemma flags_of_texts:
  assumes "normalize_name d = Inr n" and "\<forall>l \<in> set cs. text_location l"
  shows "\<exists>fs. list_all2 (\<lambda>l f. location_flags frepr d i ap l = Inr f) cs fs"
  using assms(2)
proof (induction cs)
  case (Cons c cs)
  then obtain fs where fs: "list_all2 (\<lambda>l f. location_flags frepr d i ap l = Inr f) cs fs" by auto
  obtain x y where c: "c = [(''device'', PStr x), (''interface'', PStr y)]" using Cons.prems by (auto simp: text_location_def)
  obtain nx where nx: "normalize_name (PStr x) = Inr nx" using normalize_name_text [of x] by blast
  have "dict_get c ''device'' (PStr []) = PStr x" by (simp add: c dict_get_def)
  then obtain f where "location_flags frepr d i ap c = Inr f" by (simp add: location_flags_def Let_def assms(1) nx)
  with fs show ?case by (intro exI [of _ "f # fs"]) simp
qed (rule exI [of _ "[]"], simp)

lemma list_all2_partner: "list_all2 P xs ys \<Longrightarrow> x \<in> set xs \<Longrightarrow> \<exists>y \<in> set ys. P x y"
  by (induction rule: list_all2_induct) auto

lemma match_location_full:
  assumes "list_all2 (\<lambda>l f. location_flags frepr d i ap l = Inr f) cs fs" and "(True, True) \<in> set fs"
  shows "\<exists>lm. match_location frepr d i cs ap = Inr lm \<and> lm_device lm \<and> lm_interface lm"
proof -
  have len: "length fs = length cs" using assms(1) by (simp add: list_all2_lengthD)
  then have ne: "cs \<noteq> []" using assms(2) by auto
  obtain k where k: "k < length cs" "fs ! k = (True, True)" using assms(2) len by (metis in_set_conv_nth)
  from match_location_chosen [OF assms(1) ne] obtain n where n: "n < length cs"
      "match_location frepr d i cs ap = Inr (match_of n (fs ! n) (cs ! n))" "rank_of k (fs ! k) \<le> rank_of n (fs ! n)"
    using k(1) by blast
  then show ?thesis using k(2) by (auto simp: rank_le_iff match_of_def)
qed

lemma denotes_flags:
  assumes "text_location l" and "denotes frepr a l" and "normalize_name (dict_get a ''device'' (PStr [])) = Inr n"
  shows "location_flags frepr (dict_get a ''device'' (PStr [])) (get_val a ''interface'') True l = Inr (True, True)"
proof -
  have "normalize_name (dict_get l ''device'' (PStr [])) = Inr n" using assms(2,3) by (simp add: denotes_def)
  then show ?thesis using assms(2,3) by (simp add: location_flags_def denotes_def Let_def)
qed

lemma judge_none_total: "\<exists>b det. judge_fault_type_match frepr None a g reasoning evidence = Inr (b, det)"
  by (auto simp: judge_fault_type_match_def Let_def)

text \<open>An output that names an acceptable location in any spelling gets the full score.\<close>

lemma acceptable_location_full:
  assumes "build_episode_ground_truth frepr topology info = Inr gt"
    and "get_val info ''fault_type'' \<in> set (map PStr INTERFACE_SYMMETRIC_FAULT_TYPES)"
    and "get_val info ''target_device'' = PStr d" and "get_val info ''target_interface'' = PStr i" and "i \<noteq> []"
    and "find_link_peer_locations frepr topology (PStr d) (PStr i) = Inr peers"
    and "l \<in> set ([(''device'', PStr d), (''interface'', PStr i)] # peers)"
    and "ao_verdict a = ''fault_detected''" and "ao_location a = Some al" and "denotes frepr al l"
  shows "\<exists>r. evaluate frepr create_default_evaluator a gt tid = Inr r \<and> er_correct_device r \<and> er_correct_interface r \<and> er_score r = 1"
proof -
  let ?t = "[(''device'', PStr d), (''interface'', PStr i)]"
  let ?dev = "dict_get al ''device'' (PStr [])" and ?int = "get_val al ''interface''"
  have gt: "gt = [(''fault_type'', get_val info ''fault_type''), (''location'', PDict ?t)]
      @ (if peers \<noteq> [] then [(''equivalent_locations'', PList (map PDict peers))] else [])"
    using assms(1-6) by (auto simp: build_episode_ground_truth_def Let_def)
  have texts: "\<forall>l \<in> set (?t # peers). text_location l"
    using assms(6) scan_links_text
    by (fastforce simp: find_link_peer_locations_def text_location_def rbind_eq_Inr split: option.splits if_splits)
  obtain n where n: "normalize_name ?dev = Inr n"
  proof -
    obtain x y where "l = [(''device'', PStr x), (''interface'', PStr y)]" using texts assms(7) unfolding text_location_def by blast
    then have "dict_get l ''device'' (PStr []) = PStr x" by (simp add: dict_get_def)
    then show thesis using assms(10) normalize_name_text [of x] that by (auto simp: denotes_def)
  qed
  obtain fs where fs: "list_all2 (\<lambda>l f. location_flags frepr ?dev ?int True l = Inr f) (?t # peers) fs"
    using flags_of_texts [OF n texts] by blast
  have "location_flags frepr ?dev ?int True l = Inr (True, True)"
    using denotes_flags [OF _ assms(10) n] texts assms(7) by blast
  then have "(True, True) \<in> set fs"
    using list_all2_partner [OF fs assms(7)] by auto
  then obtain lm where lm: "match_location frepr ?dev ?int (?t # peers) True = Inr lm" "lm_device lm" "lm_interface lm"
    using match_location_full [OF fs] by blast
  obtain b det where judge: "judge_fault_type_match frepr None (PStr (case ao_fault_type a of None \<Rightarrow> [] | Some t \<Rightarrow> t))
      (get_val info ''fault_type'') (ao_reasoning a) (Some (ao_evidence a)) = Inr (b, det)"
    using judge_none_total by blast
  have eq: "dicts_of (map PDict peers) = peers" by (induction peers) (simp_all add: dicts_of_def)
  have eqs: "as_dict (dict_get gt ''location'' (PDict [])) = Inr ?t" "dict_get gt ''fault_type'' (PStr []) = get_val info ''fault_type''"
      "iter_val (val_or (get_val gt ''equivalent_locations'') (PList [])) = Inr (map PDict peers)" "gt \<noteq> []"
      "truthy (get_val ?t ''interface'')"
    using assms(5) by (auto simp: gt as_dict_def dict_get_def get_val_def val_or_def iter_val_def)
  have "\<exists>r. evaluate frepr create_default_evaluator a gt tid = Inr r \<and> er_correct_device r = lm_device lm \<and> er_correct_interface r = lm_interface lm
      \<and> er_score r = py_round (fault_score (new_evaluator None) True True (lm_device lm) (lm_interface lm)) 3"
    using eqs lm(1) judge assms(8,9)
    by (simp add: evaluate_def Let_def create_default_evaluator_def new_evaluator_def eq)
  then show ?thesis using lm(2,3) by (simp add: fault_score_eq)
qed

subsection \<open>The far end of a link\<close>

text \<open>The link ends across from those that a device and an interface name.\<close>

definition is_link_end :: "string \<Rightarrow> string \<Rightarrow> link_endpoint \<Rightarrow> bool" where
  "is_link_end d i e \<longleftrightarrow> ep_device e = d \<and> are_interfaces_equivalent (Some (ep_interface e)) (Some i)"

definition far_ends :: "string \<Rightarrow> string \<Rightarrow> link list \<Rightarrow> link_endpoint list" where
  "far_ends d i ls = concat (map (\<lambda>l. (if is_link_end d i (fst (endpoints l)) then [snd (endpoints l)] else [])
     @ (if is_link_end d i (snd (endpoints l)) then [fst (endpoints l)] else [])) ls)"

definition end_location :: "link_endpoint \<Rightarrow> pydict" where
  "end_location e = [(''device'', PStr (ep_device e)), (''interface'', PStr (ep_interface e))]"

lemma scan_links_far:
  assumes "far_ends d i ls = [far]" and "i \<noteq> []"
  shows "scan_links frepr m (PStr d) (PStr i) ls = [peer_location m (ep_device far) (ep_interface far)]"
  using assms(1)
proof (induction ls)
  case (Cons l ls)
  have eq: "PStr (ep_device e) = PStr d \<and> equivalent_val frepr (ep_interface e) (PStr i) \<longleftrightarrow> is_link_end d i e" for e
    using assms(2) by (simp add: is_link_end_def equivalent_val_def py_str_def)
  have rest: "far_ends d i (l # ls) = far_ends d i [l] @ far_ends d i ls" by (simp add: far_ends_def)
  show ?case
  proof (cases "is_link_end d i (fst (endpoints l)) \<or> is_link_end d i (snd (endpoints l))")
    case True
    then show ?thesis using Cons.prems
      by (auto simp: far_ends_def eq [simplified] split: prod.splits if_splits)
  next
    case False
    then have "far_ends d i [l] = []" by (simp add: far_ends_def)
    then show ?thesis using False Cons rest by (auto simp: eq [simplified] split: prod.splits)
  qed
qed (simp add: far_ends_def)

lemma peer_location_denoted:
  assumes "port_label n (ep_interface far)"
  shows "denotes frepr (end_location far) (peer_location m (ep_device far) (ep_interface far))"
proof -
  have s: "str_or_empty frepr (PStr t) = t" for t by (simp add: str_or_empty_def py_str_def)
  have "normalize_interface_name (Some (to_sonic_interface (Some (ep_interface far)))) = normalize_interface_name (Some (ep_interface far))"
    using assms by (simp add: port_label_to_sonic port_label_normalize port_label_def)
  then show ?thesis
    by (simp add: denotes_def end_location_def peer_location_def Let_def dict_get_def get_val_def normalize_interface_def s
        split: option.split)
qed

text \<open>C23: reporting either end of a faulty link solves the localization. Take a link fault whose ground truth is
  built from its episode, and an output that detects the fault. When the output names the target itself, or when
  the target names exactly one link end of the loaded topology, that link's other end is a port with one of the
  four labels and the output names this other end, then the output is evaluated without error and gets the full
  score, in any spelling of the device and interface names.\<close>

theorem link_end_scores_full:
  assumes "build_episode_ground_truth frepr topology info = Inr gt"
    and "get_val info ''fault_type'' \<in> set (map PStr INTERFACE_SYMMETRIC_FAULT_TYPES)"
    and "get_val info ''target_device'' = PStr d" and "get_val info ''target_interface'' = PStr i" and "d \<noteq> []" and "i \<noteq> []"
    and "ao_verdict a = ''fault_detected''" and "ao_location a = Some al"
    and "denotes frepr al [(''device'', PStr d), (''interface'', PStr i)]
       \<or> (topology = Some (Inr m) \<and> far_ends d i (links m) = [far] \<and> port_label n (ep_interface far)
          \<and> denotes frepr al (end_location far))"
  shows "\<exists>r. evaluate frepr create_default_evaluator a gt tid = Inr r \<and> er_correct_device r \<and> er_correct_interface r \<and> er_score r = 1"
proof -
  obtain peers where peers: "find_link_peer_locations frepr topology (PStr d) (PStr i) = Inr peers"
    using assms(1-4) by (auto simp: build_episode_ground_truth_def Let_def rbind_eq_Inr)
  note full = acceptable_location_full [OF assms(1-4,6) peers _ assms(7,8)]
  from assms(9) show ?thesis
  proof (elim disjE conjE)
    assume far: "topology = Some (Inr m)" "far_ends d i (links m) = [far]" "port_label n (ep_interface far)"
      "denotes frepr al (end_location far)"
    let ?l = "peer_location m (ep_device far) (ep_interface far)"
    have "peers = [?l]"
      using peers assms(5,6) scan_links_far [OF far(2) assms(6)] by (simp add: find_link_peer_locations_def far(1))
    moreover have "denotes frepr al ?l"
      using far(4) peer_location_denoted [OF far(3)] by (simp add: denotes_def)
    ultimately show ?thesis by (intro full) simp_all
  qed (intro full, simp_all)
qed

definition cabled_manifest :: topology_manifest where
  "cabled_manifest = echo_manifest\<lparr> links := [\<lparr> kind = ''fabric'', endpoints = (\<lparr> ep_device = ''leaf1'', ep_interface = ''eth1'' \<rparr>,
     \<lparr> ep_device = ''spine1'', ep_interface = ''eth2'' \<rparr>), link_mtu = 9232 \<rparr>] \<rparr>"

definition leaf1_info :: pydict where
  "leaf1_info = [(''fault_type'', PStr ''link_down''), (''target_device'', PStr ''leaf1''), (''target_interface'', PStr ''Ethernet0'')]"

lemma cabled_far: "far_ends ''leaf1'' ''Ethernet0'' (links cabled_manifest) = [\<lparr> ep_device = ''spine1'', ep_interface = ''eth2'' \<rparr>]"
  by code_simp

lemma cabled_port: "port_label 2 ''eth2''"
  by code_simp

lemma cabled_denotes: "denotes (\<lambda>_. ''0.0'') (loc ''SPINE_1'' ''Ethernet4'') (end_location \<lparr> ep_device = ''spine1'', ep_interface = ''eth2'' \<rparr>)"
  by code_simp

theorem link_end_scores_full_witness:
  "\<exists>gt r. build_episode_ground_truth (\<lambda>_. ''0.0'') (Some (Inr cabled_manifest)) leaf1_info = Inr gt
     \<and> evaluate (\<lambda>_. ''0.0'') create_default_evaluator (report_of ''link_down'' (loc ''SPINE_1'' ''Ethernet4'')) gt ''t'' = Inr r
     \<and> er_score r = 1"
proof -
  have info: "get_val leaf1_info ''fault_type'' = PStr ''link_down''" "get_val leaf1_info ''target_device'' = PStr ''leaf1''"
      "get_val leaf1_info ''target_interface'' = PStr ''Ethernet0''"
    by (simp_all add: leaf1_info_def get_val_def)
  obtain gt where gt: "build_episode_ground_truth (\<lambda>_. ''0.0'') (Some (Inr cabled_manifest)) leaf1_info = Inr gt"
    by (simp add: build_episode_ground_truth_def Let_def info find_link_peer_locations_def INTERFACE_SYMMETRIC_FAULT_TYPES_def)
  have sym: "get_val leaf1_info ''fault_type'' \<in> set (map PStr INTERFACE_SYMMETRIC_FAULT_TYPES)"
    by (simp add: info INTERFACE_SYMMETRIC_FAULT_TYPES_def)
  have far: "Some (Inr cabled_manifest) = Some (Inr cabled_manifest) \<and> far_ends ''leaf1'' ''Ethernet0'' (links cabled_manifest)
        = [\<lparr> ep_device = ''spine1'', ep_interface = ''eth2'' \<rparr>]
      \<and> port_label 2 (ep_interface \<lparr> ep_device = ''spine1'', ep_interface = ''eth2'' \<rparr>)
      \<and> denotes (\<lambda>_. ''0.0'') (loc ''SPINE_1'' ''Ethernet4'') (end_location \<lparr> ep_device = ''spine1'', ep_interface = ''eth2'' \<rparr>)"
    using cabled_far cabled_denotes cabled_port by simp
  have "\<exists>r. evaluate (\<lambda>_. ''0.0'') create_default_evaluator (report_of ''link_down'' (loc ''SPINE_1'' ''Ethernet4'')) gt ''t'' = Inr r
      \<and> er_correct_device r \<and> er_correct_interface r \<and> er_score r = 1"
    by (rule link_end_scores_full [OF gt sym info(2,3) _ _ _ _ disjI2 [OF far]]) (simp_all add: report_of_def)
  with gt show ?thesis by blast
qed

end
