(* ===== verification/Traffic_Planner.thy ===== *)
theory Traffic_Planner
  imports Fabric_Plan Py_Text
begin

text \<open>
  The planner of the background traffic (\<open>traffic/estimator.py\<close>, \<open>traffic/planner.py\<close>,
  \<open>traffic/generator.py\<close>): packet rates of flows, clients and switches, the round-robin admission of flows under
  budgets for sources, destinations, listener ports and packet rates, the resulting configuration and its validation.
  The planner is proved once for any flow builder and estimator that keep the contract of the locale
  \<open>flow_model\<close>, and the contract is discharged by the functions the generator passes.
  Shown: the admission invariant, that the rates the planner keeps while admitting are those the estimators compute
  from the final flows, and that the validation accepts every configuration that is generated.
\<close>

subsection \<open>Data\<close>

record traffic_client =
  tc_name :: string
  tc_leaf :: "string option"
  tc_edge :: "string option"
  tc_attached :: "string option"
  tc_data_ip :: "string option"
  tc_ip :: "string option"

text \<open>The part of the projected topology that the planner and the estimators read: the clients, the names of
  each switch role (\<open>role_names\<close>) and the pods (\<open>device_pods\<close>).\<close>

record traffic_topology =
  tt_clients :: "traffic_client list"
  tt_roles :: "(string, string list) dict"
  tt_pods :: "(string, pyval) dict"

record traffic_flow =
  tf_id :: int
  tf_src :: string
  tf_src_ip :: string
  tf_dst :: string
  tf_dst_ip :: string
  tf_dst_port :: int
  tf_protocol :: string
  tf_bandwidth :: string
  tf_udp_payload_len :: "int option"
  tf_tcp_mss :: "int option"

text \<open>\<open>a or b\<close> on optional texts, and \<open>client.get("leaf") or client.get("edge") or client.get("attached_switch")\<close>.\<close>

definition text_or :: "string option \<Rightarrow> string option \<Rightarrow> string option" where
  "text_or a b = (case a of Some s \<Rightarrow> if s = [] then b else a | None \<Rightarrow> b)"

definition client_switch :: "traffic_client \<Rightarrow> string option" where
  "client_switch c = text_or (tc_leaf c) (text_or (tc_edge c) (tc_attached c))"

subsection \<open>Reading the projected topology\<close>

text \<open>Names, switches and addresses are texts in a projected topology; an entry where one has another type is
  outside the model and reported as a \<open>TypeError\<close>.\<close>

definition text_field :: "pydict \<Rightarrow> string \<Rightarrow> string option res" where
  "text_field d k = (case get_val d k of PNone \<Rightarrow> Inr None | PStr s \<Rightarrow> Inr (Some s) | _ \<Rightarrow> Inl (TypeError k))"

definition entry_name :: "pydict \<Rightarrow> string res" where
  "entry_name d = (case map_of d ''name'' of None \<Rightarrow> Inl (KeyError ''name'') | Some (PStr s) \<Rightarrow> Inr s | Some _ \<Rightarrow> Inl (TypeError ''name''))"

definition read_client :: "pydict \<Rightarrow> traffic_client res" where
  "read_client d =
     rbind (entry_name d) (\<lambda>name.
     rbind (text_field d ''leaf'') (\<lambda>leaf.
     rbind (text_field d ''edge'') (\<lambda>edge.
     rbind (text_field d ''attached_switch'') (\<lambda>attached.
     rbind (text_field d ''data_ip'') (\<lambda>data_ip.
     rbind (text_field d ''ip'') (\<lambda>ip.
     Inr \<lparr> tc_name = name, tc_leaf = leaf, tc_edge = edge, tc_attached = attached, tc_data_ip = data_ip, tc_ip = ip \<rparr>))))))"

definition group_entries :: "pydict \<Rightarrow> string \<Rightarrow> pydict list" where
  "group_entries devs grp = (case get_val devs grp of PList vs \<Rightarrow> dicts_of vs | _ \<Rightarrow> [])"

definition SWITCH_ROLES :: "string list" where
  "SWITCH_ROLES = [''spine'', ''leaf'', ''core'', ''agg'', ''edge'']"

definition role_names :: "pydict \<Rightarrow> (string, string list) dict res" where
  "role_names devs = rmapM (\<lambda>r. rbind (rmapM entry_name (group_entries devs (r @ ''s''))) (\<lambda>names. Inr (r, names))) SWITCH_ROLES"

definition device_pods :: "pydict \<Rightarrow> (string, pyval) dict res" where
  "device_pods devs =
     rbind (rmapM (\<lambda>d. rbind (entry_name d) (\<lambda>n. Inr (n, get_val d ''pod'')))
              (concat (map (\<lambda>r. group_entries devs (r @ ''s'')) [''agg'', ''edge'']))) (\<lambda>kvs. Inr (dict_of kvs))"

definition traffic_view :: "pydict \<Rightarrow> traffic_topology res" where
  "traffic_view topo = (case map_of topo ''devices'' of
       None \<Rightarrow> Inl (KeyError ''devices'')
     | Some v \<Rightarrow> rbind (as_dict v) (\<lambda>devs.
         rbind (raise_if (map_of devs ''clients'' = None) (KeyError ''clients'')) (\<lambda>_.
         rbind (rmapM read_client (group_entries devs ''clients'')) (\<lambda>cs.
         rbind (role_names devs) (\<lambda>rs.
         rbind (device_pods devs) (\<lambda>pods.
         Inr \<lparr> tt_clients = cs, tt_roles = rs, tt_pods = pods \<rparr>))))))"

subsection \<open>Estimators\<close>

definition UDP_IP_OVERHEAD_BYTES :: int where "UDP_IP_OVERHEAD_BYTES = 28"
definition TCP_IP_OVERHEAD_BYTES :: int where "TCP_IP_OVERHEAD_BYTES = 40"
definition MIN_TCP_PAYLOAD_BYTES :: int where "MIN_TCP_PAYLOAD_BYTES = 536"

text \<open>\<open>str.upper\<close> on the code points below 256 whose upper case is below 256 too.\<close>

definition upper_char :: "char \<Rightarrow> char" where
  "upper_char c = (let n = (of_char c :: nat) in
     if (97 \<le> n \<and> n \<le> 122) \<or> (224 \<le> n \<and> n \<le> 254 \<and> n \<noteq> 247) then char_of (n - 32) else c)"

definition float_times :: "string \<Rightarrow> int \<Rightarrow> rat res" where
  "float_times s n = rbind (float_of_val (PStr s)) (\<lambda>x. Inr (fmul x (of_int n)))"

definition bandwidth_to_bps :: "string \<Rightarrow> rat res" where
  "bandwidth_to_bps bandwidth =
     (if bandwidth = [] then Inr 0
      else let v = map upper_char (py_strip bandwidth) in
        if v \<noteq> [] \<and> last v = CHR ''K'' then float_times (butlast v) 1000
        else if v \<noteq> [] \<and> last v = CHR ''M'' then float_times (butlast v) 1000000
        else if v \<noteq> [] \<and> last v = CHR ''G'' then float_times (butlast v) 1000000000
        else float_of_val (PStr v))"

text \<open>\<open>isinstance(v, int) and v > 0\<close>; \<open>True\<close> is an integer.\<close>

definition positive_int :: "pyval \<Rightarrow> int option" where
  "positive_int v = (case v of PInt i \<Rightarrow> if 0 < i then Some i else None | PBool b \<Rightarrow> if b then Some 1 else None | _ \<Rightarrow> None)"

definition first_positive :: "pyval list \<Rightarrow> int option" where
  "first_positive vs = (case List.map_filter positive_int vs of [] \<Rightarrow> None | i # _ \<Rightarrow> Some i)"

definition infer_topology_link_mtu :: "pydict \<Rightarrow> int \<Rightarrow> int res" where
  "infer_topology_link_mtu topo dflt =
     rbind (val_get (dict_get topo ''defaults'' (PDict [])) ''link_mtu'' PNone) (\<lambda>a.
     rbind (val_get (dict_get topo ''fabric'' (PDict [])) ''link_mtu'' PNone) (\<lambda>b.
     rbind (val_get (dict_get topo ''routing'' (PDict [])) ''link_mtu'' PNone) (\<lambda>c.
     (case first_positive [a, b, c, get_val topo ''link_mtu''] of
        Some i \<Rightarrow> Inr i
      | None \<Rightarrow>
          rbind (val_get (dict_get topo ''devices'' (PDict [])) ''clients'' (PList [])) (\<lambda>cs.
          rbind (iter_val cs) (\<lambda>vs.
          rbind (rmapM (\<lambda>v. val_get v ''mtu'' PNone) vs) (\<lambda>ms.
          Inr (case first_positive ms of Some i \<Rightarrow> i | None \<Rightarrow> dflt))))))))"

definition estimate_packet_size_bytes :: "int \<Rightarrow> int \<Rightarrow> traffic_flow \<Rightarrow> rat" where
  "estimate_packet_size_bytes udp_payload_len_bytes tcp_mss_bytes flow =
     (if tf_protocol flow = ''udp''
      then fadd (max (fl (of_int (case tf_udp_payload_len flow of Some n \<Rightarrow> n | None \<Rightarrow> udp_payload_len_bytes))) 64)
             (of_int UDP_IP_OVERHEAD_BYTES)
      else if tf_protocol flow = ''tcp''
      then fadd (max (fl (of_int (case tf_tcp_mss flow of Some n \<Rightarrow> n | None \<Rightarrow> tcp_mss_bytes))) (of_int MIN_TCP_PAYLOAD_BYTES))
             (of_int TCP_IP_OVERHEAD_BYTES)
      else 0)"

definition estimate_flow_pps :: "int \<Rightarrow> int \<Rightarrow> traffic_flow \<Rightarrow> rat res" where
  "estimate_flow_pps udp_payload_len_bytes tcp_mss_bytes flow =
     (if tf_protocol flow \<notin> {''udp'', ''tcp''} then Inr 0
      else rbind (bandwidth_to_bps (tf_bandwidth flow)) (\<lambda>bps.
        if bps \<le> 0 then Inr 0
        else let size = estimate_packet_size_bytes udp_payload_len_bytes tcp_mss_bytes flow in
          if size \<le> 0 then Inr 0 else Inr (fdiv bps (fmul size 8))))"

text \<open>\<open>d[k] = d.get(k, 0.0) + x\<close>.\<close>

definition add_to :: "'k \<Rightarrow> rat \<Rightarrow> ('k, rat) dict \<Rightarrow> ('k, rat) dict" where
  "add_to k x d = AList.update k (fadd (dict_get d k 0) x) d"

definition names_of_role :: "traffic_topology \<Rightarrow> string \<Rightarrow> string list" where
  "names_of_role t r = dict_get (tt_roles t) r []"

definition endpoint_pps :: "traffic_topology \<Rightarrow> string option \<Rightarrow> rat \<Rightarrow> (string, rat) dict \<Rightarrow> (string, rat) dict" where
  "endpoint_pps t e pps d = (case e of
       Some s \<Rightarrow> if s \<in> set (names_of_role t ''leaf'') \<or> s \<in> set (names_of_role t ''edge'') then add_to s pps d else d
     | None \<Rightarrow> d)"

text \<open>The additions for names that share one rate.\<close>

definition share_pps :: "string list \<Rightarrow> rat \<Rightarrow> (string, rat) dict \<Rightarrow> (string, rat) dict" where
  "share_pps names pps d = fold (\<lambda>n. add_to n (fdiv pps (fl (of_nat (length names))))) names d"

definition pod_of :: "traffic_topology \<Rightarrow> string \<Rightarrow> pyval" where
  "pod_of t s = dict_get (tt_pods t) s PNone"

text \<open>The transit pods form a set in the source; each aggregation switch belongs to one pod, so their order is
  immaterial.\<close>

definition switch_path_pps :: "traffic_topology \<Rightarrow> string option \<Rightarrow> string option \<Rightarrow> rat \<Rightarrow> (string, rat) dict" where
  "switch_path_pps t src_switch dst_switch pps =
     (let ends = endpoint_pps t dst_switch pps (endpoint_pps t src_switch pps []) in
      case (src_switch, dst_switch) of
        (Some s, Some d) \<Rightarrow>
          if s = [] \<or> d = [] \<or> s = d then ends
          else if s \<in> set (names_of_role t ''leaf'') \<and> d \<in> set (names_of_role t ''leaf'')
          then share_pps (names_of_role t ''spine'') pps ends
          else let src_pod = pod_of t s; dst_pod = pod_of t d;
                   transit = [p \<leftarrow> (if src_pod = dst_pod then [src_pod] else [src_pod, dst_pod]). p \<noteq> PNone];
                   aggs = fold (\<lambda>p. share_pps [n \<leftarrow> names_of_role t ''agg''. pod_of t n = p] pps) transit ends
               in if src_pod \<noteq> dst_pod then share_pps (names_of_role t ''core'') pps aggs else aggs
      | _ \<Rightarrow> ends)"

definition all_names :: "traffic_topology \<Rightarrow> string list" where
  "all_names t = concat (dict_values (tt_roles t))"

definition zero_switches :: "traffic_topology \<Rightarrow> (string, rat) dict" where
  "zero_switches t = dict_of (map (\<lambda>n. (n, 0)) (all_names t))"

text \<open>\<open>switch_pps[name] += addition\<close> for every addition: the names are those of switches
  (\<open>switch_path_names\<close>), so the keys are present.\<close>

definition add_path :: "(string, rat) dict \<Rightarrow> (string, rat) dict \<Rightarrow> (string, rat) dict" where
  "add_path additions d = fold (\<lambda>(n, x). add_to n x) additions d"

definition lookup_switch :: "(string, string option) dict \<Rightarrow> string \<Rightarrow> string option" where
  "lookup_switch m name = dict_get m name None"

definition add_flow_pps :: "(traffic_flow \<Rightarrow> rat res) \<Rightarrow> traffic_topology \<Rightarrow> (string, string option) dict
    \<Rightarrow> (string, rat) dict \<Rightarrow> traffic_flow \<Rightarrow> (string, rat) dict res" where
  "add_flow_pps est t switch_of d flow =
     rbind (est flow) (\<lambda>pps.
     if pps \<le> 0 then Inr d
     else Inr (add_path (switch_path_pps t (lookup_switch switch_of (tf_src flow)) (lookup_switch switch_of (tf_dst flow)) pps) d))"

definition max_or_zero :: "rat list \<Rightarrow> rat" where
  "max_or_zero xs = (case xs of [] \<Rightarrow> 0 | y # ys \<Rightarrow> fold max ys y)"

definition estimator_switches :: "traffic_topology \<Rightarrow> (string, string option) dict" where
  "estimator_switches t = dict_of (map (\<lambda>c. (tc_name c, client_switch c)) (tt_clients t))"

definition role_report :: "(string, rat) dict \<Rightarrow> string \<Rightarrow> string list \<Rightarrow> pydict" where
  "role_report switch_pps r names =
     (let vals = dict_of (map (\<lambda>n. (n, py_round (dict_get switch_pps n 0) 2)) names)
      in [(r @ ''s'', PDict (map (\<lambda>(n, x). (n, PFloat x)) vals)),
          (''max_'' @ r @ ''_pps'', PFloat (py_round (max_or_zero (dict_values vals)) 2))])"

definition estimate_switch_pps :: "(traffic_flow \<Rightarrow> rat res) \<Rightarrow> traffic_topology \<Rightarrow> traffic_flow list \<Rightarrow> pydict res" where
  "estimate_switch_pps est t flows =
     rbind (rfoldM (add_flow_pps est t (estimator_switches t)) (zero_switches t) flows) (\<lambda>switch_pps.
     Inr (concat (map (\<lambda>(r, names). role_report switch_pps r names) (tt_roles t))
          @ [(''max_switch_pps'', PFloat (py_round (max_or_zero (dict_values switch_pps)) 2))]))"

definition add_client_pps :: "(traffic_flow \<Rightarrow> rat res) \<Rightarrow> (string, rat) dict \<Rightarrow> traffic_flow \<Rightarrow> (string, rat) dict res" where
  "add_client_pps est d flow = (if tf_src flow = [] then Inr d else rbind (est flow) (\<lambda>pps. Inr (add_to (tf_src flow) pps d)))"

definition estimate_client_pps :: "(traffic_flow \<Rightarrow> rat res) \<Rightarrow> traffic_flow list \<Rightarrow> (string, rat) dict res" where
  "estimate_client_pps est flows = rfoldM (add_client_pps est) [] flows"

subsection \<open>Planner\<close>

definition candidate_destinations :: "traffic_client list \<Rightarrow> nat \<Rightarrow> (nat \<times> traffic_client) list" where
  "candidate_destinations cs src_idx =
     map (\<lambda>offset. let dst_idx = (src_idx + offset) mod length cs in (dst_idx, cs ! dst_idx)) [1..<length cs]"

definition build_candidate_flow :: "int \<Rightarrow> int \<Rightarrow> int \<Rightarrow> traffic_client \<Rightarrow> traffic_client \<Rightarrow> string
    \<Rightarrow> (string, string) dict \<Rightarrow> int \<Rightarrow> traffic_flow res" where
  "build_candidate_flow udp_payload_len_bytes tcp_mss_bytes flow_id src_client dst_client protocol bandwidth_by_protocol dst_port =
     (let src_ip = text_or (tc_data_ip src_client) (tc_ip src_client);
          dst_ip = text_or (tc_data_ip dst_client) (tc_ip dst_client) in
      case (src_ip, dst_ip) of
        (Some (a # as), Some (b # bs)) \<Rightarrow>
          (case map_of bandwidth_by_protocol protocol of
             None \<Rightarrow> Inl (KeyError protocol)
           | Some bw \<Rightarrow> Inr \<lparr> tf_id = flow_id, tf_src = tc_name src_client, tf_src_ip = a # as, tf_dst = tc_name dst_client,
               tf_dst_ip = b # bs, tf_dst_port = dst_port, tf_protocol = protocol, tf_bandwidth = bw,
               tf_udp_payload_len = (if protocol = ''udp'' then Some udp_payload_len_bytes else None),
               tf_tcp_mss = (if protocol = ''udp'' then None else Some tcp_mss_bytes) \<rparr>)
      | _ \<Rightarrow> Inl (ValueError (''Missing client IP for flow '' @ tc_name src_client @ '' -> '' @ tc_name dst_client @ ''. ''
               @ ''Expected 'data_ip' or 'ip' in topology metadata.'')))"

text \<open>The arguments of the planner that are not functions.\<close>

record planner_params =
  pl_flows_per_client :: int
  pl_max_pps :: int
  pl_bandwidth :: "(string, string) dict"
  pl_switch_limit :: "int option"
  pl_port_base :: int
  pl_port_pool :: int

text \<open>The variables that \<open>admit_flow\<close> and the loops change.\<close>

record planner_state =
  ps_flows :: "traffic_flow list"
  ps_flow_id :: int
  ps_switch_pps :: "(string, rat) dict"
  ps_client_pps :: "(string, rat) dict"
  ps_out :: "(string, int) dict"
  ps_used :: "(string, string set) dict"
  ps_in :: "(string, int) dict"
  ps_cross :: int
  ps_same :: int
  ps_rejected :: "(string, int) dict"

definition planner_switches :: "traffic_topology \<Rightarrow> (string, string option) dict" where
  "planner_switches t = dict_of (map (\<lambda>c. (tc_name c, client_switch c)) [c \<leftarrow> tt_clients t. client_switch c \<noteq> None])"

definition initial_state :: "traffic_topology \<Rightarrow> planner_state" where
  "initial_state t = (let per_client = (\<lambda>x. dict_of (map (\<lambda>c. (tc_name c, x)) (tt_clients t))) in
     \<lparr> ps_flows = [], ps_flow_id = 0, ps_switch_pps = zero_switches t,
       ps_client_pps = dict_of (map (\<lambda>c. (tc_name c, 0)) (tt_clients t)),
       ps_out = per_client 0, ps_used = dict_of (map (\<lambda>c. (tc_name c, {})) (tt_clients t)), ps_in = per_client 0,
       ps_cross = 0, ps_same = 0,
       ps_rejected = [(''source_budget'', 0), (''destination_budget'', 0), (''pps_budget'', 0)] \<rparr>)"

definition cross_switch :: "string option \<Rightarrow> string option \<Rightarrow> bool" where
  "cross_switch a b = (case (a, b) of (Some x, Some y) \<Rightarrow> x \<noteq> [] \<and> y \<noteq> [] \<and> x \<noteq> y | _ \<Rightarrow> False)"

definition flow_type :: "traffic_topology \<Rightarrow> string \<Rightarrow> string \<Rightarrow> string" where
  "flow_type t src_name dst_name =
     (if cross_switch (lookup_switch (planner_switches t) src_name) (lookup_switch (planner_switches t) dst_name)
      then ''cross'' else ''intra'')"

definition flow_path :: "traffic_topology \<Rightarrow> traffic_flow \<Rightarrow> rat \<Rightarrow> (string, rat) dict" where
  "flow_path t flow pps = switch_path_pps t (lookup_switch (planner_switches t) (tf_src flow))
     (lookup_switch (planner_switches t) (tf_dst flow)) pps"

text \<open>The counters of a client that is not in the topology do not exist; every source and destination that the
  loops use is one of its clients, so the keys are present.\<close>

definition admission_error :: "(traffic_flow \<Rightarrow> rat res) \<Rightarrow> traffic_topology \<Rightarrow> planner_params \<Rightarrow> planner_state
    \<Rightarrow> traffic_flow \<Rightarrow> string option res" where
  "admission_error est t p st flow =
     (if dict_get (ps_out st) (tf_src flow) 0 \<ge> pl_flows_per_client p then Inr (Some ''source_budget'')
      else if dict_get (ps_in st) (tf_dst flow) 0 \<ge> pl_flows_per_client p then Inr (Some ''destination_budget'')
      else rbind (est flow) (\<lambda>pps.
        if fadd (dict_get (ps_client_pps st) (tf_src flow) 0) pps > of_int (pl_max_pps p) then Inr (Some ''pps_budget'')
        else (case pl_switch_limit p of
            None \<Rightarrow> Inr None
          | Some limit \<Rightarrow>
              if list_ex (\<lambda>(n, x). fadd (dict_get (ps_switch_pps st) n 0) x > of_int limit) (flow_path t flow pps)
              then Inr (Some ''pps_budget'') else Inr None)))"

definition admit_flow :: "(traffic_flow \<Rightarrow> rat res) \<Rightarrow> traffic_topology \<Rightarrow> planner_state \<Rightarrow> traffic_flow \<Rightarrow> planner_state res" where
  "admit_flow est t st flow =
     rbind (est flow) (\<lambda>pps.
     let s = tf_src flow; d = tf_dst flow; cross = (flow_type t s d = ''cross'') in
     Inr (st\<lparr> ps_client_pps := add_to s pps (ps_client_pps st),
       ps_out := AList.update s (dict_get (ps_out st) s 0 + 1) (ps_out st),
       ps_used := AList.update s (insert d (dict_get (ps_used st) s {})) (ps_used st),
       ps_in := AList.update d (dict_get (ps_in st) d 0 + 1) (ps_in st),
       ps_switch_pps := add_path (flow_path t flow pps) (ps_switch_pps st),
       ps_cross := ps_cross st + (if cross then 1 else 0),
       ps_same := ps_same st + (if cross then 0 else 1),
       ps_flows := ps_flows st @ [flow],
       ps_flow_id := ps_flow_id st + 1 \<rparr>))"

definition candidate_pool :: "traffic_topology \<Rightarrow> planner_state \<Rightarrow> nat \<Rightarrow> string \<Rightarrow> traffic_client list" where
  "candidate_pool t st src_idx pool_type =
     (let src = tt_clients t ! src_idx;
          cands = [d \<leftarrow> map snd (candidate_destinations (tt_clients t) src_idx). tc_name d \<notin> dict_get (ps_used st) (tc_name src) {}]
      in if pool_type = ''cross'' then [d \<leftarrow> cands. cross_switch (client_switch src) (client_switch d)]
         else [d \<leftarrow> cands. \<not> cross_switch (client_switch src) (client_switch d)])"

definition ordered_candidates :: "planner_state \<Rightarrow> traffic_client list \<Rightarrow> traffic_client list" where
  "ordered_candidates st pool =
     (let cyclic_rank = dict_of (map (\<lambda>(i, c). (tc_name c, i)) (enumerate 0 pool))
      in sort_key (\<lambda>c. (dict_get (ps_in st) (tc_name c) 0, dict_get cyclic_rank (tc_name c) 0)) pool)"

definition reject :: "string \<Rightarrow> planner_state \<Rightarrow> planner_state" where
  "reject reason st = st\<lparr> ps_rejected := AList.update reason (dict_get (ps_rejected st) reason 0 + 1) (ps_rejected st) \<rparr>"

text \<open>The functions that the generator passes to the planner: the flow builder with the payload sizes bound.\<close>

type_synonym flow_builder = "int \<Rightarrow> traffic_client \<Rightarrow> traffic_client \<Rightarrow> string \<Rightarrow> (string, string) dict \<Rightarrow> int \<Rightarrow> traffic_flow res"

fun try_candidates :: "flow_builder \<Rightarrow> (traffic_flow \<Rightarrow> rat res) \<Rightarrow> traffic_topology \<Rightarrow> planner_params \<Rightarrow> traffic_client
    \<Rightarrow> planner_state \<Rightarrow> traffic_client list \<Rightarrow> (bool \<times> planner_state) res" where
  "try_candidates bld est t p src st [] = Inr (False, st)"
| "try_candidates bld est t p src st (d # ds) =
     (let incoming_slot = dict_get (ps_in st) (tc_name d) 0 in
      if incoming_slot \<ge> pl_port_pool p then try_candidates bld est t p src (reject ''destination_budget'' st) ds
      else rbind (bld (ps_flow_id st) src d (if dict_get (ps_out st) (tc_name src) 0 mod 2 = 0 then ''udp'' else ''tcp'')
                    (pl_bandwidth p) (pl_port_base p + incoming_slot)) (\<lambda>flow.
           rbind (admission_error est t p st flow) (\<lambda>err.
           (case err of
              Some reason \<Rightarrow> try_candidates bld est t p src (reject reason st) ds
            | None \<Rightarrow> rbind (admit_flow est t st flow) (\<lambda>st'. Inr (True, st'))))))"

definition try_add_from_pool :: "flow_builder \<Rightarrow> (traffic_flow \<Rightarrow> rat res) \<Rightarrow> traffic_topology \<Rightarrow> planner_params
    \<Rightarrow> planner_state \<Rightarrow> nat \<Rightarrow> string \<Rightarrow> (bool \<times> planner_state) res" where
  "try_add_from_pool bld est t p st src_idx pool_type =
     try_candidates bld est t p (tt_clients t ! src_idx) st (ordered_candidates st (candidate_pool t st src_idx pool_type))"

definition preferred_pool :: "nat \<Rightarrow> string" where
  "preferred_pool round_index = (let pools = [''cross'', ''cross'', ''cross'', ''intra''] in pools ! min round_index (length pools - 1))"

definition plan_client :: "flow_builder \<Rightarrow> (traffic_flow \<Rightarrow> rat res) \<Rightarrow> traffic_topology \<Rightarrow> planner_params
    \<Rightarrow> string \<Rightarrow> planner_state \<Rightarrow> nat \<Rightarrow> planner_state res" where
  "plan_client bld est t p pool st src_idx =
     (if dict_get (ps_out st) (tc_name (tt_clients t ! src_idx)) 0 \<ge> pl_flows_per_client p then Inr (reject ''source_budget'' st)
      else rbind (try_add_from_pool bld est t p st src_idx pool) (\<lambda>(added, st').
        if added then Inr st'
        else rbind (try_add_from_pool bld est t p st' src_idx (if pool = ''cross'' then ''intra'' else ''cross'')) (\<lambda>(_, st''). Inr st'')))"

definition plan_round :: "flow_builder \<Rightarrow> (traffic_flow \<Rightarrow> rat res) \<Rightarrow> traffic_topology \<Rightarrow> planner_params
    \<Rightarrow> planner_state \<Rightarrow> nat \<Rightarrow> planner_state res" where
  "plan_round bld est t p st round_index =
     rfoldM (plan_client bld est t p (preferred_pool round_index)) st [0..<length (tt_clients t)]"

definition plan_flows :: "flow_builder \<Rightarrow> (traffic_flow \<Rightarrow> rat res) \<Rightarrow> traffic_topology \<Rightarrow> planner_params \<Rightarrow> planner_state res" where
  "plan_flows bld est t p = rfoldM (plan_round bld est t p) (initial_state t) [0..<nat (pl_flows_per_client p)]"

subsection \<open>The configuration\<close>

definition flow_dict :: "traffic_flow \<Rightarrow> pydict" where
  "flow_dict f = [(''flow_id'', PInt (tf_id f)), (''src'', PStr (tf_src f)), (''src_ip'', PStr (tf_src_ip f)), (''dst'', PStr (tf_dst f)),
     (''dst_ip'', PStr (tf_dst_ip f)), (''dst_port'', PInt (tf_dst_port f)), (''protocol'', PStr (tf_protocol f)),
     (''bandwidth'', PStr (tf_bandwidth f))]
     @ (case tf_udp_payload_len f of Some n \<Rightarrow> [(''udp_payload_len'', PInt n)] | None \<Rightarrow> [])
     @ (case tf_tcp_mss f of Some n \<Rightarrow> [(''tcp_mss'', PInt n)] | None \<Rightarrow> [])"

text \<open>The rates of the UDP flows alone.\<close>

definition add_udp_pps :: "(traffic_flow \<Rightarrow> rat res) \<Rightarrow> (string, rat) dict \<Rightarrow> traffic_flow \<Rightarrow> (string, rat) dict res" where
  "add_udp_pps est d flow = (if tf_protocol flow = ''udp'' then rbind (est flow) (\<lambda>pps. Inr (add_to (tf_src flow) pps d)) else Inr d)"

definition rounded_rates :: "(string, rat) dict \<Rightarrow> pyval" where
  "rounded_rates d = PDict (map (\<lambda>(c, x). (c, PFloat (py_round x 2))) d)"

definition counts_dict :: "(string, int) dict \<Rightarrow> pyval" where
  "counts_dict d = PDict (map (\<lambda>(c, n). (c, PInt n)) (sort_key fst d))"

definition count_protocol :: "string \<Rightarrow> traffic_flow list \<Rightarrow> int" where
  "count_protocol proto flows = int (length [f \<leftarrow> flows. tf_protocol f = proto])"

definition fold_or_zero :: "(int \<Rightarrow> int \<Rightarrow> int) \<Rightarrow> int list \<Rightarrow> int" where
  "fold_or_zero g xs = (case xs of [] \<Rightarrow> 0 | y # ys \<Rightarrow> fold g ys y)"

definition traffic_stats :: "planner_state \<Rightarrow> (string, rat) dict \<Rightarrow> (string, rat) dict \<Rightarrow> pydict \<Rightarrow> pydict" where
  "traffic_stats st per_client udp_rates switch_report =
     (let flows = ps_flows st; total = ps_cross st + ps_same st; incoming = dict_values (ps_in st);
          rejected = (\<lambda>r. dict_get (ps_rejected st) r 0) in
      [(''total_flows'', PInt (int (length flows))),
       (''udp_flows'', PInt (count_protocol ''udp'' flows)),
       (''tcp_flows'', PInt (count_protocol ''tcp'' flows)),
       (''rejected_candidates'', PInt (sum_list (dict_values (ps_rejected st)))),
       (''rejected_by_source_budget'', PInt (rejected ''source_budget'')),
       (''rejected_by_destination_budget'', PInt (rejected ''destination_budget'')),
       (''rejected_by_pps_budget'', PInt (rejected ''pps_budget'')),
       (''outgoing_flows_per_client'', counts_dict (ps_out st)),
       (''incoming_flows_per_client'', counts_dict (ps_in st)),
       (''min_incoming_flows'', PInt (fold_or_zero min incoming)),
       (''max_incoming_flows'', PInt (fold_or_zero max incoming)),
       (''required_listener_ports'', PList (map PInt (sorted_list_of_set (set (map tf_dst_port flows))))),
       (''estimated_pps_per_client'', rounded_rates per_client),
       (''estimated_max_pps_per_client'', PFloat (py_round (max_or_zero (dict_values per_client)) 2)),
       (''estimated_udp_pps_per_client'', rounded_rates udp_rates),
       (''estimated_max_udp_pps_per_client'', PFloat (py_round (max_or_zero (dict_values udp_rates)) 2)),
       (''cross_switch_flows'', PInt (ps_cross st)),
       (''same_switch_flows'', PInt (ps_same st)),
       (''cross_switch_flow_ratio'', PFloat (py_round (if total = 0 then 0 else int_div (ps_cross st) total) 3)),
       (''estimated_switch_pps'', PDict switch_report)])"

definition traffic_profile :: "string \<Rightarrow> planner_params \<Rightarrow> int \<Rightarrow> pydict" where
  "traffic_profile scl p link_mtu_bytes =
     [(''name'', PStr (scl @ ''_standard'')),
      (''description'', PStr (''Canonical standard traffic for '' @ scl @ '' topology'')),
      (''scale'', PStr scl),
      (''max_pps_per_client'', PInt (pl_max_pps p)),
      (''switch_pps_limit'', case pl_switch_limit p of None \<Rightarrow> PNone | Some n \<Rightarrow> PInt n),
      (''link_mtu_bytes'', PInt link_mtu_bytes)]"

definition plan_standard_traffic :: "flow_builder \<Rightarrow> (traffic_flow \<Rightarrow> rat res) \<Rightarrow> (traffic_flow list \<Rightarrow> (string, rat) dict res)
    \<Rightarrow> (traffic_topology \<Rightarrow> traffic_flow list \<Rightarrow> pydict res) \<Rightarrow> traffic_topology \<Rightarrow> string \<Rightarrow> int \<Rightarrow> planner_params \<Rightarrow> pydict res" where
  "plan_standard_traffic bld est est_client est_switch t scl link_mtu_bytes p =
     rbind (plan_flows bld est t p) (\<lambda>st.
     rbind (est_client (ps_flows st)) (\<lambda>per_client.
     rbind (rfoldM (add_udp_pps est) [] (ps_flows st)) (\<lambda>udp_rates.
     rbind (est_switch t (ps_flows st)) (\<lambda>switch_report.
     Inr [(''profile'', PDict (traffic_profile scl p link_mtu_bytes)),
          (''flows'', PList (map (PDict \<circ> flow_dict) (ps_flows st))),
          (''stats'', PDict (traffic_stats st per_client udp_rates switch_report))]))))"

subsection \<open>Generator\<close>

definition DEFAULT_SWITCH_PPS_LIMIT :: int where "DEFAULT_SWITCH_PPS_LIMIT = 5000"
definition BASE_SWITCH_PPS_LIMIT :: int where "BASE_SWITCH_PPS_LIMIT = 1000"
definition UDP_PAYLOAD_LEN_BYTES :: int where "UDP_PAYLOAD_LEN_BYTES = 1400"
definition TCP_MSS_BYTES :: int where "TCP_MSS_BYTES = 1360"
definition TRAFFIC_LISTENER_PORT_BASE :: int where "TRAFFIC_LISTENER_PORT_BASE = 5201"
definition TRAFFIC_LISTENER_PORT_POOL_SIZE :: int where "TRAFFIC_LISTENER_PORT_POOL_SIZE = 4"
definition FLOWS_PER_CLIENT :: int where "FLOWS_PER_CLIENT = 4"

record traffic_settings =
  switch_pps_limit :: "int option"

definition settings_or_default :: "traffic_settings option \<Rightarrow> traffic_settings" where
  "settings_or_default s = (case s of Some x \<Rightarrow> x | None \<Rightarrow> \<lparr> switch_pps_limit = Some DEFAULT_SWITCH_PPS_LIMIT \<rparr>)"

definition format_bandwidth_from_pps :: "rat \<Rightarrow> int \<Rightarrow> string" where
  "format_bandwidth_from_pps pps packet_size_bytes =
     (let bits_per_sec = fmul (fmul (max pps 1) (of_int packet_size_bytes)) 8 in
      if 1000000 \<le> bits_per_sec then show_int (max (trunc (fdiv bits_per_sec 1000000)) 1) @ ''M''
      else show_int (max (trunc (fdiv bits_per_sec 1000)) 100) @ ''K'')"

definition max_pps_per_client_for :: "string \<Rightarrow> int option \<Rightarrow> scale_registry option \<Rightarrow> int res" where
  "max_pps_per_client_for scl limit registry =
     rbind (get_scale_profile scl registry) (\<lambda>p.
     let base = max_pps_per_client p in
     Inr (case limit of None \<Rightarrow> base
        | Some l \<Rightarrow> min base (max 1 (round_half_even (int_div (base * l) BASE_SWITCH_PPS_LIMIT)))))"

definition standard_bandwidths :: "int \<Rightarrow> (string, string) dict" where
  "standard_bandwidths max_pps =
     (let pps_per_flow = int_div max_pps FLOWS_PER_CLIENT in
      [(''udp'', format_bandwidth_from_pps pps_per_flow (UDP_PAYLOAD_LEN_BYTES + 28)),
       (''tcp'', format_bandwidth_from_pps pps_per_flow (TCP_MSS_BYTES + 40))])"

definition flow_pps :: "traffic_flow \<Rightarrow> rat res" where
  "flow_pps = estimate_flow_pps UDP_PAYLOAD_LEN_BYTES TCP_MSS_BYTES"

definition standard_builder :: flow_builder where
  "standard_builder = build_candidate_flow UDP_PAYLOAD_LEN_BYTES TCP_MSS_BYTES"

definition standard_params :: "int \<Rightarrow> int option \<Rightarrow> planner_params" where
  "standard_params max_pps limit = \<lparr> pl_flows_per_client = FLOWS_PER_CLIENT, pl_max_pps = max_pps,
     pl_bandwidth = standard_bandwidths max_pps, pl_switch_limit = limit,
     pl_port_base = TRAFFIC_LISTENER_PORT_BASE, pl_port_pool = TRAFFIC_LISTENER_PORT_POOL_SIZE \<rparr>"

text \<open>The topology is a \<open>TopologyManifest\<close>; for a dictionary, \<open>coerce_topology_manifest\<close> first builds one. The
  profile entry is extended in place.\<close>

definition extend_profile :: "pydict \<Rightarrow> pydict" where
  "extend_profile traffic = (case get_val traffic ''profile'' of
       PDict prof \<Rightarrow> AList.update ''profile'' (PDict (AList.update ''tcp_mss_bytes'' (PInt TCP_MSS_BYTES)
         (AList.update ''udp_payload_len_bytes'' (PInt UDP_PAYLOAD_LEN_BYTES) prof))) traffic
     | _ \<Rightarrow> traffic)"

definition generate_traffic_config_from_topology :: "topology_manifest \<Rightarrow> string \<Rightarrow> string \<Rightarrow> traffic_settings option
    \<Rightarrow> scale_registry option \<Rightarrow> pydict res" where
  "generate_traffic_config_from_topology m scl profile_type opts registry =
     rbind (raise_if (profile_type \<noteq> ''standard'') (ValueError (''Only the standard traffic profile is supported, got: '' @ profile_type))) (\<lambda>_.
     rbind (get_scale_profile scl registry) (\<lambda>_.
     rbind (to_agent_topology m) (\<lambda>projected.
     let limit = switch_pps_limit (settings_or_default opts) in
     rbind (max_pps_per_client_for scl limit registry) (\<lambda>max_pps.
     rbind (infer_topology_link_mtu projected DEFAULT_LINK_MTU) (\<lambda>link_mtu_bytes.
     rbind (traffic_view projected) (\<lambda>t.
     rbind (plan_standard_traffic standard_builder flow_pps (estimate_client_pps flow_pps) (estimate_switch_pps flow_pps)
              t scl link_mtu_bytes (standard_params max_pps limit)) (\<lambda>traffic.
     Inr (extend_profile traffic))))))))"

text \<open>Comparing a number with an integer; \<open>fmt2\<close> is the format \<open>.2f\<close>.\<close>

definition number_of_val :: "pyval \<Rightarrow> rat res" where
  "number_of_val v = (case v of PInt i \<Rightarrow> Inr (of_int i) | PFloat x \<Rightarrow> Inr x | PBool b \<Rightarrow> Inr (of_bool b)
     | _ \<Rightarrow> Inl (TypeError '''>' not supported''))"

definition validate_traffic_config :: "(rat \<Rightarrow> string) \<Rightarrow> (rat \<Rightarrow> string) \<Rightarrow> pydict \<Rightarrow> string \<Rightarrow> traffic_settings option
    \<Rightarrow> scale_registry option \<Rightarrow> bool res" where
  "validate_traffic_config frepr fmt2 config scl opts registry =
     (let limit = switch_pps_limit (settings_or_default opts) in
     rbind (max_pps_per_client_for scl limit registry) (\<lambda>max_allowed.
     rbind (val_get (dict_get config ''stats'' (PDict [])) ''estimated_pps_per_client'' (PDict [])) (\<lambda>estimated_clients.
     rbind (val_get (dict_get config ''stats'' (PDict [])) ''estimated_max_pps_per_client'' (PFloat 0)) (\<lambda>max_client.
     rbind (val_get (dict_get config ''stats'' (PDict [])) ''estimated_switch_pps'' (PDict [])) (\<lambda>switch_pps.
     rbind (val_get switch_pps ''max_switch_pps'' (PFloat 0)) (\<lambda>max_switch.
     rbind (number_of_val max_client) (\<lambda>client_pps.
     rbind (raise_if (of_int max_allowed < client_pps)
         (ValueError (''Estimated PPS per client too high ('' @ fmt2 client_pps @ '' > '' @ show_int max_allowed @ ''). ''
            @ ''Details: '' @ py_str frepr estimated_clients))) (\<lambda>_.
     (case limit of
        None \<Rightarrow> Inr True
      | Some l \<Rightarrow> rbind (number_of_val max_switch) (\<lambda>x.
          rbind (raise_if (of_int l < x)
            (ValueError (''Estimated switch PPS too high (switch max='' @ fmt2 x @ '', limit='' @ show_int l @ '').''))) (\<lambda>_.
          Inr True)))))))))))"

subsection \<open>Arithmetic of the rate dictionaries\<close>

lemma dict_get_update: "dict_get (AList.update k v d) k' dflt = (if k' = k then v else dict_get d k' dflt)"
  by (simp add: dict_get_def AList.update_conv)

lemma dict_get_const: "dict_get (dict_of (map (\<lambda>c. (f c, x)) cs)) k x = x"
proof -
  have "map_of (rev (map (\<lambda>c. (f c, x)) cs)) k \<in> {None, Some x}"
    by (cases "map_of (rev (map (\<lambda>c. (f c, x)) cs)) k") (auto dest!: map_of_SomeD)
  then show ?thesis by (auto simp: dict_get_def map_of_dict_of)
qed

lemma dict_get_add_to: "dict_get (add_to k x d) n 0 = (if n = k then fadd (dict_get d k 0) x else dict_get d n 0)"
  by (simp add: add_to_def dict_get_update)

lemma wf_add_to [simp]: "wf_dict d \<Longrightarrow> wf_dict (add_to k x d)"
  by (simp add: add_to_def al.wf_store)

lemma wf_share_pps [simp]: "wf_dict d \<Longrightarrow> wf_dict (share_pps names pps d)"
proof -
  have "wf_dict d \<Longrightarrow> wf_dict (fold (\<lambda>n. add_to n x) names d)" for x by (induction names arbitrary: d) auto
  then show "wf_dict d \<Longrightarrow> wf_dict (share_pps names pps d)" by (simp add: share_pps_def)
qed

lemma wf_endpoint_pps [simp]: "wf_dict d \<Longrightarrow> wf_dict (endpoint_pps t e pps d)"
  by (simp add: endpoint_pps_def split: option.split)

lemma wf_fold_share: "wf_dict d \<Longrightarrow> wf_dict (fold (\<lambda>p. share_pps (f p) pps) ps d)"
  by (induction ps arbitrary: d) auto

lemma wf_switch_path [simp]: "wf_dict (switch_path_pps t a b pps)"
  by (auto simp: switch_path_pps_def Let_def wf_fold_share al.wf_empty split: option.split)

text \<open>A flow without packets adds nothing.\<close>

definition no_rate :: "('k, rat) dict \<Rightarrow> bool" where
  "no_rate d = (\<forall>n. dict_get d n 0 = 0)"

lemma no_rate_Nil [simp]: "no_rate []"
  by (simp add: no_rate_def dict_get_def)

lemma no_rate_add_to [simp]: "no_rate d \<Longrightarrow> no_rate (add_to k 0 d)"
  by (simp add: no_rate_def dict_get_add_to fadd_def)

lemma no_rate_share [simp]: "no_rate d \<Longrightarrow> no_rate (share_pps names 0 d)"
proof -
  have "no_rate d \<Longrightarrow> no_rate (fold (\<lambda>n. add_to n 0) names d)" by (induction names arbitrary: d) auto
  then show "no_rate d \<Longrightarrow> no_rate (share_pps names 0 d)" by (simp add: share_pps_def fdiv_def)
qed

lemma no_rate_endpoint [simp]: "no_rate d \<Longrightarrow> no_rate (endpoint_pps t e 0 d)"
  by (simp add: endpoint_pps_def split: option.split)

lemma no_rate_fold_share: "no_rate d \<Longrightarrow> no_rate (fold (\<lambda>p. share_pps (f p) 0) ps d)"
  by (induction ps arbitrary: d) auto

lemma no_rate_switch_path: "no_rate (switch_path_pps t a b 0)"
  by (auto simp: switch_path_pps_def Let_def no_rate_fold_share split: option.split)

lemma dict_get_add_path:
  assumes "wf_dict a"
  shows "dict_get (add_path a d) n 0 = (case map_of a n of None \<Rightarrow> dict_get d n 0 | Some x \<Rightarrow> fadd (dict_get d n 0) x)"
  using assms
proof (induction a arbitrary: d)
  case (Cons kx a)
  obtain k x where kx: "kx = (k, x)" by fastforce
  have "k \<notin> fst ` set a" "wf_dict a" using Cons.prems by (auto simp: kx wf_dict_def)
  moreover from this have "map_of a k = None" by (simp add: map_of_eq_None_iff)
  ultimately show ?case using Cons.IH [of "add_to k x d"] by (auto simp: kx add_path_def dict_get_add_to split: option.splits)
qed (simp add: add_path_def)

lemma wf_add_path [simp]: "wf_dict d \<Longrightarrow> wf_dict (add_path a d)"
  unfolding add_path_def by (induction a arbitrary: d) auto

lemma add_path_no_rate:
  assumes "no_rate a" and "wf_dict a" and "fl (dict_get d n 0) = dict_get d n 0"
  shows "dict_get (add_path a d) n 0 = dict_get d n 0"
proof (cases "map_of a n")
  case (Some x)
  then have "x = 0" using assms(1) by (metis dict_get_def no_rate_def option.simps(5))
  then show ?thesis using Some assms by (simp add: dict_get_add_path fadd_def)
qed (simp add: dict_get_add_path assms)

lemma add_path_float:
  "wf_dict a \<Longrightarrow> fl (dict_get d n 0) = dict_get d n 0 \<Longrightarrow> fl (dict_get (add_path a d) n 0) = dict_get (add_path a d) n 0"
  by (simp add: dict_get_add_path fadd_def split: option.split)

lemma switches_agree:
  assumes "distinct (map tc_name (tt_clients t))"
  shows "lookup_switch (planner_switches t) n = lookup_switch (estimator_switches t) n"
proof -
  let ?f = "\<lambda>c. (tc_name c, client_switch c)"
  have "distinct (map fst (map ?f (tt_clients t)))" "distinct (map fst (map ?f [c \<leftarrow> tt_clients t. client_switch c \<noteq> None]))"
    using assms by (simp_all add: comp_def distinct_map_filter)
  then have *: "planner_switches t = map ?f [c \<leftarrow> tt_clients t. client_switch c \<noteq> None]" "estimator_switches t = map ?f (tt_clients t)"
    unfolding planner_switches_def estimator_switches_def using dict_of_distinct by blast+
  have "(case map_of (map ?f [c \<leftarrow> cs. client_switch c \<noteq> None]) n of None \<Rightarrow> None | Some v \<Rightarrow> v)
      = (case map_of (map ?f cs) n of None \<Rightarrow> None | Some v \<Rightarrow> v)" if "distinct (map tc_name cs)" for cs
    using that
  proof (induction cs)
    case (Cons c cs)
    have "map_of (map ?f cs) (tc_name c) = None" using Cons.prems by (auto simp: map_of_eq_None_iff)
    then show ?case using Cons by auto
  qed simp
  then show ?thesis using assms by (simp add: lookup_switch_def dict_get_def *)
qed

subsection \<open>The admission invariant\<close>

definition flows_from :: "string \<Rightarrow> traffic_flow list \<Rightarrow> traffic_flow list" where
  "flows_from s fs = [f \<leftarrow> fs. tf_src f = s]"

definition flows_to :: "string \<Rightarrow> traffic_flow list \<Rightarrow> traffic_flow list" where
  "flows_to d fs = [f \<leftarrow> fs. tf_dst f = d]"

lemma flows_from_snoc [simp]: "flows_from s (fs @ [f]) = flows_from s fs @ (if tf_src f = s then [f] else [])"
  by (simp add: flows_from_def)

lemma flows_to_snoc [simp]: "flows_to d (fs @ [f]) = flows_to d fs @ (if tf_dst f = d then [f] else [])"
  by (simp add: flows_to_def)

text \<open>The flows of a plan: numbered in order, between two different clients, one per pair, with alternating protocols
  at each source, consecutive listener ports at each destination, and within the budgets.\<close>

definition nth_protocol :: "nat \<Rightarrow> string" where
  "nth_protocol i = (if even i then ''udp'' else ''tcp'')"

definition flows_wf :: "string set \<Rightarrow> planner_params \<Rightarrow> traffic_flow list \<Rightarrow> bool" where
  "flows_wf names p fs \<longleftrightarrow>
     map tf_id fs = map int [0..<length fs]
     \<and> (\<forall>f \<in> set fs. tf_src f \<in> names \<and> tf_dst f \<in> names \<and> tf_src f \<noteq> tf_dst f)
     \<and> distinct (map (\<lambda>f. (tf_src f, tf_dst f)) fs)
     \<and> (\<forall>s. map tf_protocol (flows_from s fs) = map nth_protocol [0..<length (flows_from s fs)])
     \<and> (\<forall>d. map tf_dst_port (flows_to d fs) = map (\<lambda>i. pl_port_base p + int i) [0..<length (flows_to d fs)])
     \<and> (\<forall>s. int (length (flows_from s fs)) \<le> pl_flows_per_client p)
     \<and> (\<forall>d. int (length (flows_to d fs)) \<le> min (pl_flows_per_client p) (pl_port_pool p))"

text \<open>The counters of the planner are those of its flows.\<close>

definition counts_ok :: "planner_state \<Rightarrow> bool" where
  "counts_ok st \<longleftrightarrow> (let fs = ps_flows st in
     ps_flow_id st = int (length fs)
     \<and> (\<forall>s. dict_get (ps_out st) s 0 = int (length (flows_from s fs)))
     \<and> (\<forall>d. dict_get (ps_in st) d 0 = int (length (flows_to d fs)))
     \<and> (\<forall>s. dict_get (ps_used st) s {} = tf_dst ` set (flows_from s fs))
     \<and> ps_cross st + ps_same st = int (length fs))"

text \<open>The rates of the planner are those the estimators compute from its flows, and they are within the limits.\<close>

definition client_rates_ok :: "(traffic_flow \<Rightarrow> rat res) \<Rightarrow> planner_params \<Rightarrow> planner_state \<Rightarrow> bool" where
  "client_rates_ok est p st \<longleftrightarrow>
     (\<forall>s. dict_get (ps_client_pps st) s 0 \<le> of_int (pl_max_pps p))
     \<and> (\<exists>d. estimate_client_pps est (ps_flows st) = Inr d \<and> wf_dict d
          \<and> (\<forall>s. s \<noteq> [] \<longrightarrow> dict_get d s 0 = dict_get (ps_client_pps st) s 0)
          \<and> [] \<notin> fst ` set d)"

definition switch_rates_ok :: "(traffic_flow \<Rightarrow> rat res) \<Rightarrow> traffic_topology \<Rightarrow> planner_params \<Rightarrow> planner_state \<Rightarrow> bool" where
  "switch_rates_ok est t p st \<longleftrightarrow>
     (\<forall>l. pl_switch_limit p = Some l \<longrightarrow> (\<forall>n. dict_get (ps_switch_pps st) n 0 \<le> of_int l))
     \<and> (\<exists>d. rfoldM (add_flow_pps est t (estimator_switches t)) (zero_switches t) (ps_flows st) = Inr d \<and> wf_dict d
          \<and> (\<forall>n. dict_get d n 0 = dict_get (ps_switch_pps st) n 0 \<and> fl (dict_get d n 0) = dict_get d n 0))"

definition planner_inv :: "(traffic_flow \<Rightarrow> rat res) \<Rightarrow> traffic_topology \<Rightarrow> planner_params \<Rightarrow> planner_state \<Rightarrow> bool" where
  "planner_inv est t p st \<longleftrightarrow> flows_wf (tc_name ` set (tt_clients t)) p (ps_flows st) \<and> counts_ok st
     \<and> client_rates_ok est p st \<and> switch_rates_ok est t p st"

text \<open>What the planner needs of its parameters: nothing is negative.\<close>

definition params_ok :: "planner_params \<Rightarrow> bool" where
  "params_ok p \<longleftrightarrow> 0 \<le> pl_flows_per_client p \<and> 0 \<le> pl_port_pool p \<and> 0 \<le> pl_max_pps p
     \<and> (\<forall>l. pl_switch_limit p = Some l \<longrightarrow> 0 \<le> l)"

lemma flows_nil [simp]: "flows_from s [] = []" "flows_to s [] = []"
  by (simp_all add: flows_from_def flows_to_def)

lemma planner_inv_initial:
  assumes "params_ok p"
  shows "planner_inv est t p (initial_state t)"
proof -
  have "flows_wf (tc_name ` set (tt_clients t)) p (ps_flows (initial_state t))"
    using assms by (simp add: flows_wf_def initial_state_def Let_def params_ok_def)
  moreover have "counts_ok (initial_state t)"
    by (simp add: counts_ok_def initial_state_def Let_def dict_get_const)
  moreover have "client_rates_ok est p (initial_state t)"
    using assms by (simp add: client_rates_ok_def initial_state_def Let_def dict_get_const estimate_client_pps_def al.wf_empty params_ok_def)
      (simp add: dict_get_def)
  moreover have zero: "dict_get (zero_switches t) n 0 = 0" for n
    using dict_get_const [of "\<lambda>n. n" 0] by (simp add: zero_switches_def)
  then have "switch_rates_ok est t p (initial_state t)"
    using assms by (simp add: switch_rates_ok_def initial_state_def Let_def params_ok_def) (simp add: zero_switches_def)
  ultimately show ?thesis by (simp add: planner_inv_def)
qed

lemma planner_inv_reject [simp]: "planner_inv est t p (reject r st) = planner_inv est t p st"
  by (simp add: planner_inv_def counts_ok_def client_rates_ok_def switch_rates_ok_def reject_def)

lemma reject_fields [simp]: "ps_used (reject r st) = ps_used st" "ps_out (reject r st) = ps_out st" "ps_in (reject r st) = ps_in st"
  by (simp_all add: reject_def)

subsection \<open>One admission\<close>

lemma flows_wf_admit:
  assumes wf: "flows_wf names p fs"
    and id: "tf_id f = int (length fs)"
    and ends: "tf_src f \<in> names" "tf_dst f \<in> names" "tf_src f \<noteq> tf_dst f"
    and new: "tf_dst f \<notin> tf_dst ` set (flows_from (tf_src f) fs)"
    and proto: "tf_protocol f = nth_protocol (length (flows_from (tf_src f) fs))"
    and port: "tf_dst_port f = pl_port_base p + int (length (flows_to (tf_dst f) fs))"
    and budget: "int (length (flows_from (tf_src f) fs)) < pl_flows_per_client p"
      "int (length (flows_to (tf_dst f) fs)) < pl_flows_per_client p" "int (length (flows_to (tf_dst f) fs)) < pl_port_pool p"
  shows "flows_wf names p (fs @ [f])"
proof -
  have "(tf_src f, tf_dst f) \<notin> (\<lambda>f. (tf_src f, tf_dst f)) ` set fs" using new by (auto simp: flows_from_def)
  moreover have "map tf_protocol (flows_from s (fs @ [f])) = map nth_protocol [0..<length (flows_from s (fs @ [f]))]" for s
    using wf proto by (simp add: flows_wf_def)
  moreover have "map tf_dst_port (flows_to d (fs @ [f])) = map (\<lambda>i. pl_port_base p + int i) [0..<length (flows_to d (fs @ [f]))]" for d
    using wf port by (simp add: flows_wf_def)
  moreover have "int (length (flows_from s (fs @ [f]))) \<le> pl_flows_per_client p" for s
    using wf budget(1) by (auto simp: flows_wf_def)
  moreover have "int (length (flows_to d (fs @ [f]))) \<le> min (pl_flows_per_client p) (pl_port_pool p)" for d
    using wf budget(2,3) by (auto simp: flows_wf_def)
  ultimately show ?thesis using wf id ends unfolding flows_wf_def by simp
qed

lemma counts_admit:
  assumes "counts_ok st" and "admit_flow est t st f = Inr st'"
  shows "counts_ok st'"
proof -
  obtain x where "est f = Inr x" using assms(2) by (auto simp: admit_flow_def rbind_eq_Inr)
  then have st': "ps_flows st' = ps_flows st @ [f]" "ps_flow_id st' = ps_flow_id st + 1"
    "ps_out st' = AList.update (tf_src f) (dict_get (ps_out st) (tf_src f) 0 + 1) (ps_out st)"
    "ps_in st' = AList.update (tf_dst f) (dict_get (ps_in st) (tf_dst f) 0 + 1) (ps_in st)"
    "ps_used st' = AList.update (tf_src f) (insert (tf_dst f) (dict_get (ps_used st) (tf_src f) {})) (ps_used st)"
    "ps_cross st' + ps_same st' = ps_cross st + ps_same st + 1"
    using assms(2) by (auto simp: admit_flow_def Let_def)
  show ?thesis using assms(1) by (simp add: counts_ok_def Let_def st' dict_get_update)
qed

lemma client_rates_admit:
  assumes ok: "client_rates_ok est p st" and est: "est f = Inr x"
    and adm: "admit_flow est t st f = Inr st'" and lim: "fadd (dict_get (ps_client_pps st) (tf_src f) 0) x \<le> of_int (pl_max_pps p)"
  shows "client_rates_ok est p st'"
proof -
  obtain d where d: "estimate_client_pps est (ps_flows st) = Inr d" "wf_dict d" "[] \<notin> fst ` set d"
    "\<forall>s. s \<noteq> [] \<longrightarrow> dict_get d s 0 = dict_get (ps_client_pps st) s 0"
    using ok by (auto simp: client_rates_ok_def)
  let ?d = "if tf_src f = [] then d else add_to (tf_src f) x d"
  have st': "ps_flows st' = ps_flows st @ [f]" "ps_client_pps st' = add_to (tf_src f) x (ps_client_pps st)"
    using adm est by (auto simp: admit_flow_def Let_def)
  have "estimate_client_pps est (ps_flows st') = Inr ?d"
    using d(1) est by (simp add: estimate_client_pps_def st' rfoldM_append add_client_pps_def)
  moreover have "wf_dict ?d" using d(2) by simp
  moreover have "[] \<notin> fst ` set ?d" using d(3) by (auto simp: add_to_def dest!: set_alist_update [THEN subsetD])
  moreover have "\<forall>s. s \<noteq> [] \<longrightarrow> dict_get ?d s 0 = dict_get (ps_client_pps st') s 0" using d(4) by (simp add: st' dict_get_add_to)
  moreover have "\<forall>s. dict_get (ps_client_pps st') s 0 \<le> of_int (pl_max_pps p)"
    using ok lim by (simp add: st' dict_get_add_to client_rates_ok_def)
  ultimately show ?thesis unfolding client_rates_ok_def by blast
qed

lemma switch_rates_admit:
  assumes ok: "switch_rates_ok est t p st" and est: "est f = Inr x" and pos: "0 \<le> x"
    and uniq: "distinct (map tc_name (tt_clients t))"
    and adm: "admit_flow est t st f = Inr st'"
    and lim: "\<And>l n y. pl_switch_limit p = Some l \<Longrightarrow> (n, y) \<in> set (flow_path t f x) \<Longrightarrow> fadd (dict_get (ps_switch_pps st) n 0) y \<le> of_int l"
  shows "switch_rates_ok est t p st'"
proof -
  obtain d where d: "rfoldM (add_flow_pps est t (estimator_switches t)) (zero_switches t) (ps_flows st) = Inr d" "wf_dict d"
    and d': "\<forall>n. dict_get d n 0 = dict_get (ps_switch_pps st) n 0 \<and> fl (dict_get d n 0) = dict_get d n 0"
    using ok unfolding switch_rates_ok_def by blast
  note d = d d' [rule_format, THEN conjunct1] d' [rule_format, THEN conjunct2]
  let ?a = "flow_path t f x"
  let ?d = "if x \<le> 0 then d else add_path ?a d"
  have wf: "wf_dict ?a" by (simp add: flow_path_def)
  have st': "ps_flows st' = ps_flows st @ [f]" "ps_switch_pps st' = add_path ?a (ps_switch_pps st)"
    using adm est by (auto simp: admit_flow_def Let_def)
  have "rfoldM (add_flow_pps est t (estimator_switches t)) (zero_switches t) (ps_flows st') = Inr ?d"
    using d(1) est by (simp add: st' rfoldM_append add_flow_pps_def flow_path_def switches_agree [OF uniq])
  moreover have "wf_dict ?d" using d(2) by simp
  moreover have eq: "dict_get ?d n 0 = dict_get (ps_switch_pps st') n 0" for n
  proof (cases "x \<le> 0")
    case True
    then have "no_rate ?a" using pos no_rate_switch_path by (simp add: flow_path_def)
    then show ?thesis using True d wf by (simp add: st' add_path_no_rate)
  next
    case False
    then show ?thesis by (simp add: st' dict_get_add_path [OF wf] d(3) split: option.split)
  qed
  moreover have "fl (dict_get ?d n 0) = dict_get ?d n 0" for n using d(4) [of n] wf by (simp add: add_path_float)
  moreover have "dict_get (ps_switch_pps st') n 0 \<le> of_int l" if "pl_switch_limit p = Some l" for l n
    using lim [OF that] that ok
    by (auto simp: st' dict_get_add_path [OF wf] switch_rates_ok_def dest: map_of_SomeD split: option.split)
  ultimately show ?thesis unfolding switch_rates_ok_def by blast
qed

subsection \<open>The planner keeps the invariant\<close>

text \<open>The candidates of a client are other clients that it does not send to yet.\<close>

lemma candidate_pool_sound:
  assumes uniq: "distinct (map tc_name (tt_clients t))" and i: "i < length (tt_clients t)"
    and d: "d \<in> set (ordered_candidates st' (candidate_pool t st i pool))"
  shows "d \<in> set (tt_clients t) \<and> tc_name d \<noteq> tc_name (tt_clients t ! i)
    \<and> tc_name d \<notin> dict_get (ps_used st) (tc_name (tt_clients t ! i)) {}"
proof -
  let ?cs = "tt_clients t"
  have "d \<in> set (candidate_pool t st i pool)" using d by (simp add: ordered_candidates_def Let_def)
  then obtain k where k: "1 \<le> k" "k < length ?cs" "d = ?cs ! ((i + k) mod length ?cs)"
    and used: "tc_name d \<notin> dict_get (ps_used st) (tc_name (?cs ! i)) {}"
    by (auto simp: candidate_pool_def candidate_destinations_def Let_def split: if_splits)
  have j: "(i + k) mod length ?cs < length ?cs" using i by (intro mod_less_divisor) auto
  have "(i + k) mod length ?cs \<noteq> i"
  proof
    assume "(i + k) mod length ?cs = i"
    then have "(i + k) mod length ?cs = i mod length ?cs" using i by simp
    then have "k mod length ?cs = 0" by (simp add: mod_eq_dvd_iff_nat)
    then show False using k by simp
  qed
  then have "tc_name d \<noteq> tc_name (?cs ! i)" using uniq i j k(3) by (auto simp: distinct_conv_nth dest!: spec)
  then show ?thesis using k(3) j used by simp
qed

lemma admission_bounds:
  assumes ok: "admission_error est t p st f = Inr None" and x: "est f = Inr x"
  shows "dict_get (ps_out st) (tf_src f) 0 < pl_flows_per_client p \<and> dict_get (ps_in st) (tf_dst f) 0 < pl_flows_per_client p
    \<and> fadd (dict_get (ps_client_pps st) (tf_src f) 0) x \<le> of_int (pl_max_pps p)
    \<and> (\<forall>l n y. pl_switch_limit p = Some l \<longrightarrow> (n, y) \<in> set (flow_path t f x) \<longrightarrow> fadd (dict_get (ps_switch_pps st) n 0) y \<le> of_int l)"
proof -
  have out: "\<not> pl_flows_per_client p \<le> dict_get (ps_out st) (tf_src f) 0" using ok by (simp add: admission_error_def split: if_splits)
  have inc: "\<not> pl_flows_per_client p \<le> dict_get (ps_in st) (tf_dst f) 0" using ok out by (simp add: admission_error_def split: if_splits)
  have client: "\<not> of_int (pl_max_pps p) < fadd (dict_get (ps_client_pps st) (tf_src f) 0) x"
    using ok out inc x by (simp add: admission_error_def split: if_splits)
  have "\<not> of_int l < fadd (dict_get (ps_switch_pps st) n 0) y" if "pl_switch_limit p = Some l" "(n, y) \<in> set (flow_path t f x)" for l n y
    using ok out inc x client that by (auto simp: admission_error_def list_ex_iff split: if_splits)
  then show ?thesis using out inc client by (simp add: not_less)
qed

text \<open>What the planner relies on in the functions it is given: a flow has the data it is built from, and no rate is
  negative.\<close>

locale flow_model =
  fixes bld :: flow_builder and est :: "traffic_flow \<Rightarrow> rat res"
  assumes built: "bld i s d proto bw port = Inr f \<Longrightarrow>
      tf_id f = i \<and> tf_src f = tc_name s \<and> tf_dst f = tc_name d \<and> tf_protocol f = proto \<and> tf_dst_port f = port"
    and rate_nonneg: "est f = Inr x \<Longrightarrow> 0 \<le> x"
begin

lemma admission_keeps:
  assumes inv: "planner_inv est t p st" and uniq: "distinct (map tc_name (tt_clients t))"
    and f: "bld (ps_flow_id st) src d (if dict_get (ps_out st) (tc_name src) 0 mod 2 = 0 then ''udp'' else ''tcp'')
              (pl_bandwidth p) (pl_port_base p + dict_get (ps_in st) (tc_name d) 0) = Inr f"
    and ends: "src \<in> set (tt_clients t)" "d \<in> set (tt_clients t)" "tc_name d \<noteq> tc_name src"
    and new: "tc_name d \<notin> dict_get (ps_used st) (tc_name src) {}"
    and pool: "dict_get (ps_in st) (tc_name d) 0 < pl_port_pool p"
    and ok: "admission_error est t p st f = Inr None" and adm: "admit_flow est t st f = Inr st'"
  shows "planner_inv est t p st'"
proof -
  have fl: "tf_id f = ps_flow_id st" "tf_src f = tc_name src" "tf_dst f = tc_name d"
    "tf_protocol f = (if dict_get (ps_out st) (tc_name src) 0 mod 2 = 0 then ''udp'' else ''tcp'')"
    "tf_dst_port f = pl_port_base p + dict_get (ps_in st) (tc_name d) 0"
    using built [OF f] by simp_all
  obtain x where x: "est f = Inr x" using adm by (auto simp: admit_flow_def rbind_eq_Inr)
  then have st': "ps_flows st' = ps_flows st @ [f]" using adm by (auto simp: admit_flow_def Let_def)
  have budgets: "dict_get (ps_out st) (tf_src f) 0 < pl_flows_per_client p" "dict_get (ps_in st) (tf_dst f) 0 < pl_flows_per_client p"
    and client: "fadd (dict_get (ps_client_pps st) (tf_src f) 0) x \<le> of_int (pl_max_pps p)"
    and switch: "\<And>l n y. pl_switch_limit p = Some l \<Longrightarrow> (n, y) \<in> set (flow_path t f x) \<Longrightarrow> fadd (dict_get (ps_switch_pps st) n 0) y \<le> of_int l"
    using admission_bounds [OF ok x] by blast+
  have counts: "counts_ok st" using inv by (simp add: planner_inv_def)
  have out: "dict_get (ps_out st) s 0 = int (length (flows_from s (ps_flows st)))"
    and inc: "dict_get (ps_in st) s 0 = int (length (flows_to s (ps_flows st)))"
    and used: "dict_get (ps_used st) s {} = tf_dst ` set (flows_from s (ps_flows st))"
    and id: "ps_flow_id st = int (length (ps_flows st))" for s
    using counts by (simp_all add: counts_ok_def Let_def)
  have "flows_wf (tc_name ` set (tt_clients t)) p (ps_flows st @ [f])"
  proof (rule flows_wf_admit)
    show "tf_protocol f = nth_protocol (length (flows_from (tf_src f) (ps_flows st)))"
      by (simp add: fl out nth_protocol_def flip: even_iff_mod_2_eq_zero)
  qed (use inv ends new pool budgets in \<open>simp_all add: planner_inv_def fl out inc used id\<close>)
  moreover have "counts_ok st'" using counts adm by (rule counts_admit)
  moreover have "client_rates_ok est p st'" 
    by (rule client_rates_admit [OF _ x adm client]) (use inv in \<open>simp add: planner_inv_def\<close>)
  moreover have "switch_rates_ok est t p st'"
    by (rule switch_rates_admit [OF _ x rate_nonneg [OF x] uniq adm switch]) (use inv in \<open>simp_all add: planner_inv_def\<close>)
  ultimately show ?thesis by (simp add: planner_inv_def st')
qed

lemma try_candidates_keeps:
  assumes "distinct (map tc_name (tt_clients t))" and "src \<in> set (tt_clients t)"
    and "try_candidates bld est t p src st ds = Inr (b, st')" and "planner_inv est t p st"
    and "\<forall>d \<in> set ds. d \<in> set (tt_clients t) \<and> tc_name d \<noteq> tc_name src \<and> tc_name d \<notin> dict_get (ps_used st) (tc_name src) {}"
  shows "planner_inv est t p st'"
  using assms(3-)
proof (induction ds arbitrary: st)
  case (Cons d ds)
  show ?case
  proof (cases "dict_get (ps_in st) (tc_name d) 0 \<ge> pl_port_pool p")
    case True
    then show ?thesis using Cons.prems by (intro Cons.IH [of "reject ''destination_budget'' st"]) simp_all
  next
    case False
    with Cons.prems(1) obtain f err where f: "bld (ps_flow_id st) src d
        (if dict_get (ps_out st) (tc_name src) 0 mod 2 = 0 then ''udp'' else ''tcp'')
        (pl_bandwidth p) (pl_port_base p + dict_get (ps_in st) (tc_name d) 0) = Inr f"
      and err: "admission_error est t p st f = Inr err"
      and rest: "(case err of Some r \<Rightarrow> try_candidates bld est t p src (reject r st) ds
         | None \<Rightarrow> rbind (admit_flow est t st f) (\<lambda>st'. Inr (True, st'))) = Inr (b, st')"
      by (auto simp: rbind_eq_Inr Let_def simp del: split_paired_Ex)
    show ?thesis
    proof (cases err)
      case (Some r)
      then show ?thesis using Cons.prems rest by (intro Cons.IH [of "reject r st"]) simp_all
    next
      case None
      then have "admit_flow est t st f = Inr st'" using rest by (auto simp: rbind_eq_Inr)
      then show ?thesis using admission_keeps [OF Cons.prems(2) assms(1) f assms(2)] Cons.prems(3) False err None by simp
    qed
  qed
qed simp

lemma plan_client_keeps:
  assumes uniq: "distinct (map tc_name (tt_clients t))" and i: "i < length (tt_clients t)"
    and run: "plan_client bld est t p pool st i = Inr st'" and inv: "planner_inv est t p st"
  shows "planner_inv est t p st'"
proof -
  have step: "planner_inv est t p s'" if "try_add_from_pool bld est t p s i pl = Inr (b, s')" "planner_inv est t p s" for s s' b pl
    using candidate_pool_sound [OF uniq i] i
    by (intro try_candidates_keeps [OF uniq _ that(1) [unfolded try_add_from_pool_def] that(2)] ballI) (blast | simp)+
  show ?thesis
  proof (cases "dict_get (ps_out st) (tc_name (tt_clients t ! i)) 0 \<ge> pl_flows_per_client p")
    case False
    then obtain b s1 where first: "try_add_from_pool bld est t p st i pool = Inr (b, s1)"
      and rest: "b \<and> s1 = st' \<or> (\<exists>b' pl. try_add_from_pool bld est t p s1 i pl = Inr (b', st'))"
      using run unfolding plan_client_def by (auto simp only: rbind_eq_Inr if_False split_paired_Ex prod.case split: if_splits)
    show ?thesis using step [OF first inv] rest step by blast
  qed (use run inv in \<open>auto simp: plan_client_def\<close>)
qed

lemma plan_flows_keeps:
  assumes "distinct (map tc_name (tt_clients t))" and "params_ok p" and "plan_flows bld est t p = Inr st"
  shows "planner_inv est t p st"
  using assms(3) [unfolded plan_flows_def]
proof (rule rfoldM_invariant)
  show "planner_inv est t p (initial_state t)" using assms(2) by (rule planner_inv_initial)
  fix s r s'
  assume s: "planner_inv est t p s" and r: "plan_round bld est t p s r = Inr s'"
  show "planner_inv est t p s'"
    using r [unfolded plan_round_def] s
    by (rule rfoldM_invariant) (auto intro: plan_client_keeps [OF assms(1)])
qed

end

subsection \<open>The generator's flows have a rate\<close>

lemma built_flow:
  "build_candidate_flow u mss i s d proto bw port = Inr f \<Longrightarrow>
     tf_id f = i \<and> tf_src f = tc_name s \<and> tf_dst f = tc_name d \<and> tf_protocol f = proto \<and> tf_dst_port f = port \<and> map_of bw proto = Some (tf_bandwidth f)"
  by (auto simp: build_candidate_flow_def Let_def split: option.splits list.splits)

lemma flow_rate_nonneg: "estimate_flow_pps u mss f = Inr x \<Longrightarrow> 0 \<le> x"
proof -
  have "0 \<le> fdiv b (fmul s 8)" if "\<not> b \<le> 0" "\<not> s \<le> 0" for b s
    using that fl_nonneg [of "s * 8"] by (simp add: fdiv_def fmul_def fl_nonneg)
  then show "estimate_flow_pps u mss f = Inr x \<Longrightarrow> 0 \<le> x"
    by (auto simp: estimate_flow_pps_def rbind_eq_Inr Let_def split: if_splits)
qed

interpretation standard: flow_model "build_candidate_flow u mss" "estimate_flow_pps u' mss'" for u mss u' mss'
  by unfold_locales (use built_flow in blast, rule flow_rate_nonneg)

lemma parse_float_digits:
  assumes "s \<noteq> []" and "\<forall>c \<in> set s. is_digit c"
  shows "parse_float s = Some (fl (of_nat (nat_of_digits s)))"
proof -
  have "int_strip s = s"
    using assms digit_not_space by (intro int_strip_id) (auto simp: last_in_set)
  note strip = this
  have e: "c \<notin> {CHR ''e'', CHR ''E'', CHR ''.'', CHR ''_'', CHR ''-'', CHR ''+''}" if "is_digit c" for c
    using that by (auto simp: is_digit_def)
  then have tw: "takeWhile (\<lambda>c. c \<noteq> CHR ''e'' \<and> c \<noteq> CHR ''E'') s = s" using assms by (simp add: takeWhile_eq_all_conv)
  have "split_on CHR ''.'' s = [s]" "split_on CHR ''_'' s = [s]" using assms(2) e by (auto intro!: split_on_absent)
  then have m: "parse_mantissa s = Some (of_nat (nat_of_digits s))"
    using assms by (simp add: parse_mantissa_def udigits_def list_all_iff)
  have "parse_signed parse_mantissa uminus s = Some (of_nat (nat_of_digits s))"
    using assms e m by (cases s) (auto simp: parse_signed_def)
  then show ?thesis by (simp add: parse_float_def strip tw Let_def)
qed

lemma bandwidth_suffix:
  assumes "0 \<le> n" and "c \<in> {CHR ''K'', CHR ''M''}"
  shows "is_ok (bandwidth_to_bps (show_int n @ [c]))"
proof -
  let ?s = "show_int n"
  have d: "?s \<noteq> []" "\<forall>c \<in> set ?s. is_digit c" using assms(1) show_nat_digits by (auto simp: show_int_nonneg)
  have code: "48 \<le> (of_char c' :: nat) \<and> (of_char c' :: nat) \<le> 57" if "is_digit c'" for c'
    using that by (simp add: is_digit_def less_eq_char_def)
  have "\<not> is_space c'" if "is_digit c'" for c' using code [OF that] by (auto simp: is_space_def Let_def)
  moreover have "\<not> is_space c" using assms(2) by (auto simp: is_space_def Let_def)
  ultimately have strip: "py_strip (?s @ [c]) = ?s @ [c]" using d by (intro py_strip_id) (simp add: hd_append)
  have "upper_char c' = c'" if "is_digit c'" for c' using code [OF that] by (auto simp: upper_char_def Let_def)
  then have "map upper_char ?s = ?s" using d by (simp add: map_idI)
  moreover have "upper_char c = c" using assms(2) by (auto simp: upper_char_def Let_def)
  ultimately show ?thesis
    using d assms(2) by (auto simp: bandwidth_to_bps_def strip Let_def float_times_def float_of_val_def parse_float_digits [OF d])
qed

lemma standard_bandwidth_ok: "is_ok (bandwidth_to_bps (format_bandwidth_from_pps pps sz))"
proof -
  have "0 \<le> max (trunc x) 1" "0 \<le> max (trunc x) 100" for x by auto
  then show ?thesis unfolding format_bandwidth_from_pps_def Let_def
    by (auto intro!: bandwidth_suffix)
qed

definition has_address :: "traffic_client \<Rightarrow> bool" where
  "has_address c = (text_or (tc_data_ip c) (tc_ip c) \<notin> {None, Some []})"

lemma standard_flow_ok:
  assumes "has_address s" and "has_address d" and "proto \<in> {''udp'', ''tcp''}"
  shows "\<exists>f x. standard_builder i s d proto (standard_bandwidths m) port = Inr f \<and> flow_pps f = Inr x"
proof -
  obtain a as b bs where "text_or (tc_data_ip s) (tc_ip s) = Some (a # as)" "text_or (tc_data_ip d) (tc_ip d) = Some (b # bs)"
    using assms(1,2) by (auto simp: has_address_def neq_Nil_conv)
  moreover have "\<exists>pps sz. map_of (standard_bandwidths m) proto = Some (format_bandwidth_from_pps pps sz)"
    using assms(3) by (auto simp: standard_bandwidths_def Let_def)
  ultimately obtain f pps sz where f: "standard_builder i s d proto (standard_bandwidths m) port = Inr f"
    "tf_bandwidth f = format_bandwidth_from_pps pps sz"
    by (auto simp: standard_builder_def build_candidate_flow_def Let_def)
  then obtain bps where "bandwidth_to_bps (tf_bandwidth f) = Inr bps" using standard_bandwidth_ok by (metis is_ok_iff)
  then show ?thesis using f by (auto simp: flow_pps_def estimate_flow_pps_def Let_def)
qed

subsection \<open>The planner always returns a plan\<close>

lemma rfoldM_ok: "(\<And>s x. x \<in> set xs \<Longrightarrow> \<exists>s'. f s x = Inr s') \<Longrightarrow> \<exists>s'. rfoldM f s xs = Inr s'"
proof (induction xs arbitrary: s)
  case (Cons x xs)
  obtain s' where "f s x = Inr s'" using Cons.prems [of x s] by auto
  then show ?case using Cons.IH [of s'] Cons.prems by simp
qed simp

lemma try_candidates_ok:
  assumes "\<And>i d proto port. d \<in> set ds \<Longrightarrow> proto \<in> {''udp'', ''tcp''} \<Longrightarrow> \<exists>f x. bld i src d proto (pl_bandwidth p) port = Inr f \<and> est f = Inr x"
  shows "\<exists>r. try_candidates bld est t p src st ds = Inr r"
  using assms
proof (induction ds arbitrary: st)
  case (Cons d ds)
  have IH: "\<exists>r. try_candidates bld est t p src s ds = Inr r" for s using Cons by (simp del: split_paired_Ex)
  let ?proto = "if dict_get (ps_out st) (tc_name src) 0 mod 2 = 0 then ''udp'' else ''tcp''"
  obtain f x where f: "bld (ps_flow_id st) src d ?proto (pl_bandwidth p) (pl_port_base p + dict_get (ps_in st) (tc_name d) 0) = Inr f" "est f = Inr x"
  proof -
    have "?proto \<in> {''udp'', ''tcp''}" by simp
    then show thesis using Cons.prems [of d ?proto] that by (metis list.set_intros(1))
  qed
  have "is_ok (admission_error est t p st f)" by (simp add: admission_error_def f(2) split: option.split)
  then obtain err where err: "admission_error est t p st f = Inr err" by (auto simp: is_ok_iff)
  obtain st1 where "admit_flow est t st f = Inr st1" by (simp add: admit_flow_def f(2) Let_def)
  then show ?case using IH f err by (simp add: Let_def split: option.split del: split_paired_Ex)
qed (simp del: split_paired_Ex)

lemma plan_flows_ok:
  assumes "\<forall>c \<in> set (tt_clients t). has_address c"
  shows "\<exists>st. plan_flows standard_builder flow_pps t (standard_params m limit) = Inr st"
proof -
  let ?p = "standard_params m limit"
  have added: "\<exists>r. try_add_from_pool standard_builder flow_pps t ?p s i pl = Inr r" if i: "i < length (tt_clients t)" for s i pl
    unfolding try_add_from_pool_def
  proof (rule try_candidates_ok)
    fix j d proto port
    assume d: "d \<in> set (ordered_candidates s (candidate_pool t s i pl))" and proto: "proto \<in> {''udp'', ''tcp''}"
    then have "d \<in> set (tt_clients t)"
      by (auto simp: ordered_candidates_def candidate_pool_def candidate_destinations_def Let_def split: if_splits
          intro!: nth_mem mod_less_divisor)
    then show "\<exists>f x. standard_builder j (tt_clients t ! i) d proto (pl_bandwidth ?p) port = Inr f \<and> flow_pps f = Inr x"
      using assms i standard_flow_ok [OF _ _ proto] by (simp add: standard_params_def)
  qed
  have "\<exists>s'. plan_client standard_builder flow_pps t ?p pl s i = Inr s'" if i: "i < length (tt_clients t)" for s i pl
  proof -
    obtain b s1 where 1: "try_add_from_pool standard_builder flow_pps t ?p s i pl = Inr (b, s1)" using added [OF i] by (metis surj_pair)
    obtain b' s2 where 2: "try_add_from_pool standard_builder flow_pps t ?p s1 i (if pl = ''cross'' then ''intra'' else ''cross'') = Inr (b', s2)"
      using added [OF i] by (metis surj_pair)
    show ?thesis unfolding plan_client_def using 1 2 by simp
  qed
  then show ?thesis unfolding plan_flows_def plan_round_def by (auto intro!: rfoldM_ok)
qed

subsection \<open>Plans of a manifest\<close>

lemma dicts_of_PDict [simp]: "dicts_of (map (\<lambda>d. PDict (f d)) ds) = map f ds"
  by (induction ds) (simp_all add: dicts_of_def)

lemma agent_entry_name: "entry_name (device_to_agent_entry m d) = Inr (dev_name d)"
  by (simp add: entry_name_def agent_entry_device_field device_fields_def exclude_none_def device_dump_def)

lemma read_client_name: "read_client d = Inr c \<Longrightarrow> entry_name d = Inr (tc_name c)"
  by (auto simp: read_client_def rbind_eq_Inr)

lemma view_names:
  assumes "to_agent_topology m = Inr topo" and "traffic_view topo = Inr t"
  shows "map tc_name (tt_clients t) = map dev_name (clients m) \<and> map fst (tt_roles t) = SWITCH_ROLES"
proof -
  let ?devs = "map (\<lambda>(group, ds). (group, PList (map (\<lambda>d. PDict (device_to_agent_entry m d)) ds))) (agent_groups m)"
  have "map_of topo ''devices'' = Some (PDict ?devs)"
    using assms(1) by (auto simp: to_agent_topology_def rbind_eq_Inr)
  with assms(2) obtain rs where cs: "rmapM read_client (group_entries ?devs ''clients'') = Inr (tt_clients t)"
    and rs: "role_names ?devs = Inr rs" "tt_roles t = rs"
    by (auto simp: traffic_view_def rbind_eq_Inr as_dict_def)
  have "group_entries ?devs ''clients'' = map (device_to_agent_entry m) (clients m)"
    by (simp add: group_entries_def get_val_def agent_groups_def)
  then have "list_all2 (\<lambda>d c. read_client d = Inr c) (map (device_to_agent_entry m) (clients m)) (tt_clients t)"
    using cs by (simp add: rmapM_eq_Inr)
  then have "list_all2 (\<lambda>d c. dev_name d = tc_name c) (clients m) (tt_clients t)"
    by (auto simp: list_all2_map1 agent_entry_name dest!: read_client_name elim!: list_all2_mono)
  then have "map dev_name (clients m) = map tc_name (tt_clients t)" by (induction rule: list_all2_induct) simp_all
  moreover have "map fst rs = SWITCH_ROLES"
  proof -
    have "list_all2 (\<lambda>r x. fst x = r) SWITCH_ROLES rs"
      using rs(1) unfolding role_names_def rmapM_eq_Inr by (rule list_all2_mono) (auto simp: rbind_eq_Inr)
    then show ?thesis by (induction rule: list_all2_induct) simp_all
  qed
  ultimately show ?thesis by (simp add: rs(2))
qed

lemma max_or_zero_le:
  assumes "0 \<le> c" and "\<And>x. x \<in> set xs \<Longrightarrow> x \<le> c"
  shows "max_or_zero xs \<le> c"
proof -
  have "fold max ys y \<le> c" if "y \<le> c" "\<forall>x \<in> set ys. x \<le> c" for y ys
    using that by (induction ys arbitrary: y) auto
  then show ?thesis using assms by (cases xs) (auto simp: max_or_zero_def)
qed

lemma dict_values_le:
  assumes "wf_dict d" and "\<And>k. k \<in> fst ` set d \<Longrightarrow> dict_get d k 0 \<le> c" and "x \<in> set (dict_values d)"
  shows "x \<le> c"
proof -
  obtain k where k: "(k, x) \<in> set d" using assms(3) by (auto simp: dict_values_def)
  then have "dict_get d k 0 = x" using assms(1) by (simp add: dict_get_def wf_dict_def)
  then show ?thesis using assms(2) [of k] k by force
qed

lemma round_le_int: "x \<le> of_int n \<Longrightarrow> \<bar>n\<bar> \<le> 2 ^ 53 \<Longrightarrow> py_round x k \<le> of_int n"
  using py_round_mono [of x "of_int n" k] by simp

text \<open>The largest rates in the reports stay within the limits.\<close>

lemma max_client_report:
  assumes "client_rates_ok est p st" and "estimate_client_pps est (ps_flows st) = Inr d" and "0 \<le> pl_max_pps p"
  shows "max_or_zero (dict_values d) \<le> of_int (pl_max_pps p)"
proof -
  have d: "wf_dict d" "[] \<notin> fst ` set d" and eq: "\<And>s. s \<noteq> [] \<Longrightarrow> dict_get d s 0 = dict_get (ps_client_pps st) s 0"
    and le: "\<And>s. dict_get (ps_client_pps st) s 0 \<le> of_int (pl_max_pps p)"
    using assms(1,2) by (auto simp: client_rates_ok_def)
  have bound: "dict_get d k 0 \<le> of_int (pl_max_pps p)" if "k \<in> fst ` set d" for k
    using le [of k] eq [of k] d(2) that by (cases "k = []") auto
  show ?thesis
    by (rule max_or_zero_le) (use assms(3) in simp, rule dict_values_le [OF d(1) bound])
qed

lemma max_switch_report:
  assumes "switch_rates_ok est t p st" and "pl_switch_limit p = Some l" and "0 \<le> l"
    and "rfoldM (add_flow_pps est t (estimator_switches t)) (zero_switches t) (ps_flows st) = Inr d"
  shows "max_or_zero (dict_values d) \<le> of_int l"
proof -
  have d: "wf_dict d" and "\<And>n. dict_get d n 0 = dict_get (ps_switch_pps st) n 0"
    and "\<And>n. dict_get (ps_switch_pps st) n 0 \<le> of_int l"
    using assms(1,2,4) by (simp_all add: switch_rates_ok_def)
  then have bound: "dict_get d n 0 \<le> of_int l" for n by simp
  show ?thesis
    by (rule max_or_zero_le) (use assms(3) in simp, rule dict_values_le [OF d bound])
qed

lemma max_switch_lookup:
  assumes "map fst (tt_roles t) = SWITCH_ROLES"
  shows "map_of (concat (map (\<lambda>(r, names). role_report sw r names) (tt_roles t)) @ [(''max_switch_pps'', v)]) ''max_switch_pps'' = Some v"
proof -
  have "\<exists>a b c d e. tt_roles t = [(''spine'', a), (''leaf'', b), (''core'', c), (''agg'', d), (''edge'', e)]"
    using assms by (auto simp: SWITCH_ROLES_def map_eq_Cons_conv)
  then show ?thesis by (auto simp: role_report_def Let_def)
qed

subsection \<open>The generator and its validator\<close>

lemma standard_keeps:
  "distinct (map tc_name (tt_clients t)) \<Longrightarrow> params_ok p \<Longrightarrow> plan_flows standard_builder flow_pps t p = Inr st \<Longrightarrow> planner_inv flow_pps t p st"
  unfolding standard_builder_def flow_pps_def by (rule standard.plan_flows_keeps)

lemma standard_params_ok: "0 \<le> m \<Longrightarrow> \<forall>l. limit = Some l \<longrightarrow> 0 \<le> l \<Longrightarrow> params_ok (standard_params m limit)"
  by (simp add: params_ok_def standard_params_def FLOWS_PER_CLIENT_def TRAFFIC_LISTENER_PORT_POOL_SIZE_def)

lemma flows_rated: "rfoldM (add_flow_pps est t sw) d fs = Inr d' \<Longrightarrow> f \<in> set fs \<Longrightarrow> \<exists>x. est f = Inr x"
  by (induction fs arbitrary: d) (auto simp: rbind_eq_Inr add_flow_pps_def)

lemma udp_rates_ok:
  assumes "\<forall>f \<in> set fs. \<exists>x. est f = Inr x"
  shows "\<exists>d. rfoldM (add_udp_pps est) d0 fs = Inr d"
proof (rule rfoldM_ok)
  fix s f assume "f \<in> set fs"
  then obtain x where "est f = Inr x" using assms by blast
  then show "\<exists>s'. add_udp_pps est s f = Inr s'" by (simp add: add_udp_pps_def)
qed

text \<open>The numbers of a configuration that its validation reads.\<close>

definition within_limits :: "int \<Rightarrow> int option \<Rightarrow> pydict \<Rightarrow> bool" where
  "within_limits mp limit traffic \<longleftrightarrow> (\<exists>stats rates x sw y.
     map_of traffic ''stats'' = Some (PDict stats) \<and> map_of stats ''estimated_pps_per_client'' = Some rates
     \<and> map_of stats ''estimated_max_pps_per_client'' = Some (PFloat x) \<and> x \<le> of_int mp
     \<and> map_of stats ''estimated_switch_pps'' = Some (PDict sw) \<and> map_of sw ''max_switch_pps'' = Some (PFloat y)
     \<and> (\<forall>l. limit = Some l \<longrightarrow> y \<le> of_int l))"

lemma validate_within:
  assumes "within_limits mp (switch_pps_limit (settings_or_default opts)) traffic"
    and "max_pps_per_client_for scl (switch_pps_limit (settings_or_default opts)) registry = Inr mp"
  shows "validate_traffic_config frepr fmt2 traffic scl opts registry = Inr True"
  using assms by (auto simp: within_limits_def validate_traffic_config_def Let_def val_get_def as_dict_def dict_get_def
      number_of_val_def not_less [symmetric] split: option.split)

lemma extend_profile_stats: "map_of (extend_profile traffic) ''stats'' = map_of traffic ''stats''"
  by (simp add: extend_profile_def AList.update_conv split: pyval.split)

lemma plan_standard_within:
  assumes names: "distinct (map tc_name (tt_clients t))" and roles: "map fst (tt_roles t) = SWITCH_ROLES"
    and addr: "\<forall>c \<in> set (tt_clients t). has_address c"
    and mp: "0 \<le> mp" "mp \<le> 2 ^ 53" and lim: "\<forall>l. limit = Some l \<longrightarrow> 0 \<le> l \<and> l \<le> 2 ^ 53"
  shows "\<exists>traffic. plan_standard_traffic standard_builder flow_pps (estimate_client_pps flow_pps) (estimate_switch_pps flow_pps)
           t scl mtu (standard_params mp limit) = Inr traffic \<and> within_limits mp limit (extend_profile traffic)"
proof -
  let ?p = "standard_params mp limit"
  obtain st where st: "plan_flows standard_builder flow_pps t ?p = Inr st" using plan_flows_ok [OF addr] by blast
  have inv: "planner_inv flow_pps t ?p st"
    using standard_keeps [OF names _ st] standard_params_ok mp lim by blast
  obtain pc where pc: "estimate_client_pps flow_pps (ps_flows st) = Inr pc"
    using inv by (auto simp: planner_inv_def client_rates_ok_def)
  obtain sw where sw: "rfoldM (add_flow_pps flow_pps t (estimator_switches t)) (zero_switches t) (ps_flows st) = Inr sw"
    using inv by (auto simp: planner_inv_def switch_rates_ok_def)
  obtain ud where ud: "rfoldM (add_udp_pps flow_pps) [] (ps_flows st) = Inr ud"
    using udp_rates_ok flows_rated [OF sw] by blast
  have client: "py_round (max_or_zero (dict_values pc)) 2 \<le> of_int mp"
    using max_client_report [OF _ pc, of ?p] inv mp by (intro round_le_int) (simp_all add: planner_inv_def standard_params_def)
  have switch: "py_round (max_or_zero (dict_values sw)) 2 \<le> of_int l" if "limit = Some l" for l
    using max_switch_report [OF _ _ _ sw, of ?p l] inv lim that
    by (intro round_le_int) (simp_all add: planner_inv_def standard_params_def)
  let ?report = "concat (map (\<lambda>(r, names). role_report sw r names) (tt_roles t))
      @ [(''max_switch_pps'', PFloat (py_round (max_or_zero (dict_values sw)) 2))]"
  have report: "estimate_switch_pps flow_pps t (ps_flows st) = Inr ?report" by (simp add: estimate_switch_pps_def sw)
  let ?stats = "traffic_stats st pc ud ?report"
  let ?traffic = "[(''profile'', PDict (traffic_profile scl ?p mtu)), (''flows'', PList (map (PDict \<circ> flow_dict) (ps_flows st))),
    (''stats'', PDict ?stats)]"
  have keys: "map_of ?stats ''estimated_pps_per_client'' = Some (rounded_rates pc)"
    "map_of ?stats ''estimated_max_pps_per_client'' = Some (PFloat (py_round (max_or_zero (dict_values pc)) 2))"
    "map_of ?stats ''estimated_switch_pps'' = Some (PDict ?report)"
    by (simp_all add: traffic_stats_def Let_def)
  have "map_of (extend_profile ?traffic) ''stats'' = Some (PDict ?stats)" by (simp add: extend_profile_stats)
  then have "within_limits mp limit (extend_profile ?traffic)"
    unfolding within_limits_def using keys client switch max_switch_lookup [OF roles] by blast
  then show ?thesis by (simp add: plan_standard_traffic_def st pc ud report)
qed

lemma link_mtu_ok:
  assumes "to_agent_topology m = Inr topo"
  shows "\<exists>i. infer_topology_link_mtu topo dflt = Inr i"
proof -
  have "\<exists>ms. rmapM (\<lambda>v. val_get v ''mtu'' PNone) (map (\<lambda>d. PDict (device_to_agent_entry m d)) ds) = Inr ms" for ds
    by (induction ds) (auto simp: val_get_def as_dict_def)
  moreover obtain ds where "dict_get topo ''devices'' (PDict []) = PDict ds"
    "val_get (PDict ds) ''clients'' (PList []) = Inr (PList (map (\<lambda>d. PDict (device_to_agent_entry m d)) (clients m)))"
    using assms by (auto simp: to_agent_topology_def rbind_eq_Inr agent_groups_def dict_get_def val_get_def as_dict_def)
  moreover have "dict_get topo ''defaults'' (PDict []) = PDict [(''link_mtu'', PInt (def_link_mtu (defaults m))), (''sonic_port_mtu'', PInt (def_sonic_port_mtu (defaults m)))]"
    "dict_get topo ''fabric'' (PDict []) = PDict []" "dict_get topo ''routing'' (PDict []) = PDict (routing_dump (routing m))"
    using assms by (auto simp: to_agent_topology_def rbind_eq_Inr dict_get_def)
  ultimately show ?thesis
    unfolding infer_topology_link_mtu_def by (auto simp: val_get_def as_dict_def iter_val_def rbind_eq_Inr split: option.split)
qed

lemma max_pps_bounds:
  assumes "get_scale_profile scl registry = Inr p" and "0 < max_pps_per_client p"
  shows "\<exists>mp. max_pps_per_client_for scl limit registry = Inr mp \<and> 0 < mp \<and> mp \<le> max_pps_per_client p"
  using assms by (auto simp: max_pps_per_client_for_def Let_def split: option.split)

text \<open>C29: the traffic planner admits flows within every budget. For clients with different names that have an
  address, non-negative packet limits and the builder and estimator of the generator, the planner returns a plan in
  which the flows are numbered in order, connect two different clients and repeat no pair; every client sends at most 4
  flows with alternating protocols and receives at most 4, on consecutive listener ports; the counters are those of the
  flows; and the packet rates of every client and switch are those the estimators compute from the final flows and are
  within the limits.\<close>

theorem traffic_plan_admits:
  assumes "distinct (map tc_name (tt_clients t))" and "\<forall>c \<in> set (tt_clients t). has_address c"
    and "0 \<le> mp" and "\<forall>l. limit = Some l \<longrightarrow> 0 \<le> l"
  shows "\<exists>st. plan_flows standard_builder flow_pps t (standard_params mp limit) = Inr st
     \<and> flows_wf (tc_name ` set (tt_clients t)) (standard_params mp limit) (ps_flows st) \<and> counts_ok st
     \<and> client_rates_ok flow_pps (standard_params mp limit) st \<and> switch_rates_ok flow_pps t (standard_params mp limit) st"
proof -
  obtain st where st: "plan_flows standard_builder flow_pps t (standard_params mp limit) = Inr st"
    using plan_flows_ok [OF assms(2)] by blast
  then have "planner_inv flow_pps t (standard_params mp limit) st"
    by (rule standard_keeps [OF assms(1) standard_params_ok [OF assms(3,4)]])
  then show ?thesis using st by (auto simp: planner_inv_def)
qed

definition rack_client :: "string \<Rightarrow> string \<Rightarrow> traffic_client" where
  "rack_client name leaf = \<lparr> tc_name = name, tc_leaf = Some leaf, tc_edge = None, tc_attached = Some leaf,
     tc_data_ip = Some ''10.0.0.1'', tc_ip = None \<rparr>"

definition rack_topology :: traffic_topology where
  "rack_topology = \<lparr> tt_clients = [rack_client ''c1'' ''leaf1'', rack_client ''c2'' ''leaf2''],
     tt_roles = [(''spine'', [''spine1'']), (''leaf'', [''leaf1'', ''leaf2'']), (''core'', []), (''agg'', []), (''edge'', [])],
     tt_pods = [] \<rparr>"

theorem traffic_plan_admits_witness:
  "\<exists>st. plan_flows standard_builder flow_pps rack_topology (standard_params 200 (Some 1000)) = Inr st
     \<and> flows_wf {''c1'', ''c2''} (standard_params 200 (Some 1000)) (ps_flows st) \<and> counts_ok st
     \<and> switch_rates_ok flow_pps rack_topology (standard_params 200 (Some 1000)) st"
proof -
  have hyps: "distinct (map tc_name (tt_clients rack_topology))" "\<forall>c \<in> set (tt_clients rack_topology). has_address c"
    and names: "tc_name ` set (tt_clients rack_topology) = {''c1'', ''c2''}"
    by (simp_all add: rack_topology_def rack_client_def has_address_def text_or_def)
  show ?thesis using traffic_plan_admits [OF hyps, of 200 "Some 1000"] unfolding names by auto
qed

text \<open>C30: the generated background traffic of the standard profile type passes its own validation. Take a
  valid manifest with a compiled plan (so that its agent projection exists) whose clients have addresses, a known
  scale whose client budget is positive and at most \<open>2 ^ 53\<close>, and a switch limit that is absent or between 0 and
  \<open>2 ^ 53\<close>. Then generation succeeds and the validator, with the same settings, accepts the configuration,
  although it reads rates that were recomputed from the flows and rounded. A negative limit, which
  \<open>TrafficSettings\<close> lets through, is excluded: the validator rejects every configuration under it.\<close>

theorem generated_traffic_validates:
  assumes valid: "validate_topology_references m = Inr m"
    and topo: "to_agent_topology m = Inr topo" "traffic_view topo = Inr t" "\<forall>c \<in> set (tt_clients t). has_address c"
    and prof: "get_scale_profile scl registry = Inr p" "0 < max_pps_per_client p" "max_pps_per_client p \<le> 2 ^ 53"
    and lim: "\<forall>l. switch_pps_limit (settings_or_default opts) = Some l \<longrightarrow> 0 \<le> l \<and> l \<le> 2 ^ 53"
  shows "\<exists>traffic. generate_traffic_config_from_topology m scl ''standard'' opts registry = Inr traffic
     \<and> validate_traffic_config frepr fmt2 traffic scl opts registry = Inr True"
proof -
  let ?limit = "switch_pps_limit (settings_or_default opts)"
  have "manifest_wf m" using valid by (simp add: validate_eq)
  then have "distinct (map dev_name (clients m))" by (simp add: manifest_wf_def clients_def devices_by_role_def distinct_map_filter)
  then have names: "distinct (map tc_name (tt_clients t))" and roles: "map fst (tt_roles t) = SWITCH_ROLES"
    using view_names [OF topo(1,2)] by simp_all
  obtain mp where mp: "max_pps_per_client_for scl ?limit registry = Inr mp" "0 < mp" "mp \<le> max_pps_per_client p"
    using max_pps_bounds [OF prof(1,2)] by blast
  obtain mtu where mtu: "infer_topology_link_mtu topo DEFAULT_LINK_MTU = Inr mtu" using link_mtu_ok [OF topo(1)] by blast
  have "0 \<le> mp" "mp \<le> 2 ^ 53" using mp prof(3) by linarith+
  then obtain traffic where traffic: "plan_standard_traffic standard_builder flow_pps (estimate_client_pps flow_pps)
      (estimate_switch_pps flow_pps) t scl mtu (standard_params mp ?limit) = Inr traffic"
    and within: "within_limits mp ?limit (extend_profile traffic)"
    using plan_standard_within [OF names roles topo(3) _ _ lim] by blast
  have "generate_traffic_config_from_topology m scl ''standard'' opts registry = Inr (extend_profile traffic)"
    unfolding generate_traffic_config_from_topology_def Let_def by (simp add: prof(1) topo mp(1) mtu traffic)
  then show ?thesis using validate_within [OF within mp(1)] by blast
qed

definition rack_device :: "string \<Rightarrow> device_role \<Rightarrow> string option \<Rightarrow> string option \<Rightarrow> device" where
  "rack_device n r ip att = \<lparr> dev_name = n, role = r, mgmt_ip = None, data_ip = ip, attached_switch = att, asn = None,
     router_id = None, metadata = [] \<rparr>"

definition rack_manifest :: topology_manifest where
  "rack_manifest = \<lparr> topology_id = ''dcn'', top_name = ''dcn'', scale = ''xs'', top_purpose = ''benchmark'', top_family = Clos_family,
     mgmt_network = ''m'', mgmt_subnet = ''172.20.20.0/24'', collector_ipv4 = ''172.20.20.200'', defaults = default_topology_defaults,
     facts = \<lparr> facts_spines = 1, facts_leafs = 2, facts_cores = 0, facts_aggs = 0, facts_edges = 0, facts_pods = 0,
       facts_clients_per_switch = 1, facts_total_clients = 2, facts_total_switches = 3, facts_fat_tree_k = None,
       facts_full_density = None, facts_host_density = None \<rparr>,
     devices = [rack_device ''spine1'' SPINE None None, rack_device ''leaf1'' LEAF None None, rack_device ''leaf2'' LEAF None None,
       rack_device ''c1'' CLIENT (Some ''10.0.0.1'') (Some ''leaf1''), rack_device ''c2'' CLIENT (Some ''10.0.0.2'') (Some ''leaf2'')],
     links = [], routing = \<lparr> spine_asn_md = None, leaf_asn_range = None, core_asn_range = None, agg_asn_range = None,
       edge_asn_range = None, ecmp_hash_policy_by_role = [(SPINE, 1), (LEAF, 1)], ecmp = True, bfd = False \<rparr>,
     pingmesh = \<lparr> cross_rack_pairs = None, destination_batch_size = None, rtt_port_pool_size = 1, rtt_ports_per_cycle = 1,
       cycle_interval_seconds = 1, df_payload_size = 9072 \<rparr>,
     pingmesh_plan_opt = Some \<lparr> settings = \<lparr> plan_id = ''p'', source_ports = [], port_batches = [], set_destination_batch_size = 1,
         set_cycle_interval_seconds = 1, coverage_epoch_cycles = 1, coverage_epoch_seconds = 1, complete_window_seconds = 1,
         set_df_payload_size = 9072 \<rparr>,
       plan_clients = [], coverage = \<lparr> directed_links = [], covered_switches = [], minimum_witnesses = 1 \<rparr> \<rparr> \<rparr>"

lemma rack_view: "\<exists>topo t. to_agent_topology rack_manifest = Inr topo \<and> traffic_view topo = Inr t \<and> (\<forall>c \<in> set (tt_clients t). has_address c)"
proof -
  have "(case to_agent_topology rack_manifest of Inl _ \<Rightarrow> False | Inr topo \<Rightarrow>
      (case traffic_view topo of Inl _ \<Rightarrow> False | Inr t \<Rightarrow> \<forall>c \<in> set (tt_clients t). has_address c))" by code_simp
  then show ?thesis by (auto split: sum.splits)
qed

theorem generated_traffic_validates_witness:
  "\<exists>traffic. generate_traffic_config_from_topology rack_manifest ''xs'' ''standard'' None None = Inr traffic
     \<and> validate_traffic_config (\<lambda>_. ''0.0'') (\<lambda>_. ''0.00'') traffic ''xs'' None None = Inr True"
proof -
  obtain topo t where v: "to_agent_topology rack_manifest = Inr topo" "traffic_view topo = Inr t" "\<forall>c \<in> set (tt_clients t). has_address c"
    using rack_view by blast
  have "manifest_wf rack_manifest" by code_simp
  then have valid: "validate_topology_references rack_manifest = Inr rack_manifest" by (simp add: validate_eq)
  have "(case get_scale_profile ''xs'' None of Inl _ \<Rightarrow> False | Inr p \<Rightarrow> max_pps_per_client p = 250)" by code_simp
  then obtain p where p: "get_scale_profile ''xs'' None = Inr p" "max_pps_per_client p = 250" by (auto split: sum.splits)
  show ?thesis
    by (rule generated_traffic_validates [OF valid v p(1)]) (simp_all add: p(2) settings_or_default_def DEFAULT_SWITCH_PPS_LIMIT_def)
qed

end
