(* ===== verification/Incident_Payloads.thy ===== *)
theory Incident_Payloads
  imports Py_Values
begin

text \<open>
  The size bound on what an agent observes (\<open>incident/payloads.py\<close>): the size of a value as compact JSON in UTF-8 and
  the compaction of a value that is too large. Shown: compaction terminates, leaves a value that fits as it is, keeps a
  dictionary a dictionary and returns a value within the bound.
\<close>

subsection \<open>The size of a JSON text\<close>

text \<open>The bytes of one character of a JSON string without \<open>ensure_ascii\<close>: the short escapes, \<open>\\u00XX\<close> for the other
  control characters, and two bytes of UTF-8 from 128 on.\<close>

definition utf8_size :: "char \<Rightarrow> int" where
  "utf8_size c = (if (of_char c :: nat) < 128 then 1 else 2)"

definition json_char_size :: "char \<Rightarrow> int" where
  "json_char_size c = (let n = (of_char c :: nat) in
     if n \<in> {34, 92, 8, 9, 10, 12, 13} then 2 else if n < 32 then 6 else utf8_size c)"

definition json_text_size :: "string \<Rightarrow> int" where
  "json_text_size s = 2 + sum_list (map json_char_size s)"

text \<open>Brackets and the commas between \<open>n\<close> entries.\<close>

definition json_frame :: "nat \<Rightarrow> int" where
  "json_frame n = 2 + (if n = 0 then 0 else int n - 1)"

fun json_size :: "(rat \<Rightarrow> string) \<Rightarrow> pyval \<Rightarrow> int" where
  "json_size frepr PNone = 4"
| "json_size frepr (PBool b) = (if b then 4 else 5)"
| "json_size frepr (PInt i) = int (length (show_int i))"
| "json_size frepr (PFloat r) = int (length (frepr r))"
| "json_size frepr (PStr s) = json_text_size s"
| "json_size frepr (PList vs) = json_frame (length vs) + sum_list (map (json_size frepr) vs)"
| "json_size frepr (PDict d) = json_frame (length d) + sum_list (map (\<lambda>(k, v). json_text_size k + 1 + json_size frepr v) d)"

subsection \<open>Compaction\<close>

text \<open>The longest prefix of whole characters within \<open>n\<close> bytes: a character cut in two is ignored by the decoder.\<close>

fun utf8_prefix :: "int \<Rightarrow> string \<Rightarrow> string" where
  "utf8_prefix n [] = []"
| "utf8_prefix n (c # s) = (if utf8_size c \<le> n then c # utf8_prefix (n - utf8_size c) s else [])"

text \<open>In the two loops, the items that would be omitted after the current one are those that remain.
  \<open>{**marker, "omitted_items": n}\<close>.\<close>

definition omitted :: "pydict \<Rightarrow> int \<Rightarrow> pyval" where
  "omitted marker n = PDict (AList.update ''omitted_items'' (PInt n) marker)"

definition remaining_budget :: "(rat \<Rightarrow> string) \<Rightarrow> int \<Rightarrow> pyval \<Rightarrow> int" where
  "remaining_budget frepr budget out = max 128 (budget - json_size frepr out - 256)"

lemma size_list_sort_key [simp]: "size_list f (sort_key k xs) = size_list f xs"
proof -
  have "size_list f (insort_key k x ys) = f x + 1 + size_list f ys" for x ys by (induction ys) auto
  then show ?thesis by (induction xs) simp_all
qed

function (sequential) compact_value :: "(rat \<Rightarrow> string) \<Rightarrow> pydict \<Rightarrow> pyval \<Rightarrow> int \<Rightarrow> pyval"
  and compact_items :: "(rat \<Rightarrow> string) \<Rightarrow> pydict \<Rightarrow> int \<Rightarrow> (string \<times> pyval) list \<Rightarrow> pydict \<Rightarrow> pydict"
  and compact_elems :: "(rat \<Rightarrow> string) \<Rightarrow> pydict \<Rightarrow> int \<Rightarrow> pyval list \<Rightarrow> pyval list \<Rightarrow> pyval list" where
  "compact_value frepr marker (PDict d) budget =
     (let out = compact_items frepr marker budget (sort_key fst d) []
      in PDict (AList.update ''_truncation'' (omitted marker (int (length d) - int (length out))) out))"
| "compact_value frepr marker (PList vs) budget =
     (let out = compact_elems frepr marker budget vs []
      in PList (out @ [PDict [(''_truncation'', omitted marker (int (length vs) - int (length out)))]]))"
| "compact_value frepr marker (PStr s) budget =
     PDict [(''_truncated_text'', PStr (utf8_prefix (max 0 (budget - 160)) s)), (''original_chars'', PInt (int (length s)))]"
| "compact_value frepr marker v budget = v"
| "compact_items frepr marker budget [] out = out"
| "compact_items frepr marker budget ((k, child) # items) out =
     (let out' = AList.update k (compact_value frepr marker child (remaining_budget frepr budget (PDict out))) out;
          candidate = AList.update ''_truncation'' (omitted marker (int (length items))) out'
      in if budget < json_size frepr (PDict candidate) then AList.delete k out'
         else compact_items frepr marker budget items out')"
| "compact_elems frepr marker budget [] out = out"
| "compact_elems frepr marker budget (child # vs) out =
     (let out' = out @ [compact_value frepr marker child (remaining_budget frepr budget (PList out))];
          candidate = out' @ [PDict [(''_truncation'', omitted marker (int (length vs)))]]
      in if budget < json_size frepr (PList candidate) then out
         else compact_elems frepr marker budget vs out')"
  by pat_completeness auto
termination
  by (relation "measure (\<lambda>x. case x of Inl (_, _, v, _) \<Rightarrow> 2 * size v
       | Inr (Inl (_, _, _, items, _)) \<Rightarrow> 2 * size_list (size_prod (\<lambda>_. 0) size) items + 1
       | Inr (Inr (_, _, _, vs, _)) \<Rightarrow> 2 * size_list size vs + 1)") auto

definition compact_json :: "(rat \<Rightarrow> string) \<Rightarrow> pyval \<Rightarrow> int \<Rightarrow> pyval" where
  "compact_json frepr v max_bytes =
     (let original_bytes = json_size frepr v in
      if original_bytes \<le> max_bytes then v
      else let marker = [(''truncated'', PBool True), (''original_bytes'', PInt original_bytes)];
               compacted = compact_value frepr marker v max_bytes
           in if json_size frepr compacted \<le> max_bytes then compacted else PDict [(''_truncation'', PDict marker)])"


subsection \<open>The bound\<close>

lemma show_nat_length: "n < 10 ^ k \<Longrightarrow> 0 < k \<Longrightarrow> length (show_nat n) \<le> k"
proof (induction n arbitrary: k rule: show_nat.induct)
  case (1 n)
  show ?case
  proof (cases "n < 10")
    case False
    then obtain j where k: "k = Suc j" "0 < j" using 1 by (cases k; cases "k - 1") auto
    then have "n div 10 < 10 ^ j" using 1(2) by (simp add: less_mult_imp_div_less mult.commute)
    then show ?thesis using 1(1) [OF False _ k(2)] False k by (subst show_nat.simps) simp
  qed (use 1 in \<open>subst show_nat.simps, simp\<close>)
qed

lemma json_char_size_pos: "0 \<le> json_char_size c"
  by (simp add: json_char_size_def utf8_size_def Let_def)

lemma json_text_size_pos: "0 \<le> json_text_size s"
  unfolding json_text_size_def using json_char_size_pos by (intro add_nonneg_nonneg sum_list_nonneg) auto

lemma json_size_pos: "0 \<le> json_size frepr v"
proof (induction v)
  case (PList vs)
  then have "0 \<le> sum_list (map (json_size frepr) vs)" by (intro sum_list_nonneg) auto
  then show ?case by (simp add: json_frame_def)
next
  case (PDict d)
  then have "0 \<le> sum_list (map (\<lambda>(k, v). json_text_size k + 1 + json_size frepr v) d)"
    by (intro sum_list_nonneg) (auto intro!: add_nonneg_nonneg json_text_size_pos)
  then show ?case by (simp add: json_frame_def)
qed (auto simp: json_text_size_pos)

lemma show_int_length: "0 \<le> n \<Longrightarrow> n < 10 ^ k \<Longrightarrow> 0 < k \<Longrightarrow> length (show_int n) \<le> k"
  using show_nat_length [of "nat n" k] by (simp add: show_int_nonneg nat_less_iff)

lemma marker_size:
  assumes "length (show_int n) \<le> 900"
  shows "json_size frepr (PDict [(''_truncation'', PDict [(''truncated'', PBool True), (''original_bytes'', PInt n)])]) \<le> 1024"
proof -
  have "json_text_size ''_truncation'' = 13" "json_text_size ''truncated'' = 11" "json_text_size ''original_bytes'' = 16"
    by code_simp+
  then show ?thesis using assms by (simp add: json_frame_def)
qed

lemma compact_json_fits:
  assumes "1024 \<le> max_bytes" and "json_size frepr v < 10 ^ k" and "0 < k" and "k \<le> 900"
  shows "json_size frepr (compact_json frepr v max_bytes) \<le> max_bytes"
proof -
  have "length (show_int (json_size frepr v)) \<le> 900"
    using show_int_length [OF json_size_pos assms(2,3)] assms(4) by linarith
  then have "json_size frepr (PDict [(''_truncation'', PDict [(''truncated'', PBool True), (''original_bytes'', PInt (json_size frepr v))])]) \<le> max_bytes"
    using marker_size assms(1) order_trans by blast
  then show ?thesis by (simp add: compact_json_def Let_def)
qed

lemma compact_json_dict: "\<exists>d'. compact_json frepr (PDict d) n = PDict d'"
  by (simp add: compact_json_def Let_def)


lemma compact_items_keys:
  "fst ` set (compact_items frepr marker budget items out) \<subseteq> fst ` set items \<union> fst ` set out"
proof (induction items arbitrary: out)
  case (Cons kv items)
  obtain k child where kv: "kv = (k, child)" by (cases kv)
  let ?out = "AList.update k (compact_value frepr marker child (remaining_budget frepr budget (PDict out))) out"
  have "fst ` set (AList.delete k ?out) \<subseteq> fst ` set out" unfolding keys_delete_set keys_update_set by blast
  moreover have "fst ` set (compact_items frepr marker budget items ?out) \<subseteq> fst ` set items \<union> insert k (fst ` set out)"
    using Cons [of ?out] by (simp add: keys_update_set)
  ultimately have "fst ` set (compact_items frepr marker budget ((k, child) # items) out) \<subseteq> insert k (fst ` set items \<union> fst ` set out)"
    unfolding compact_items.simps Let_def by (simp only: split: if_split) blast
  then show ?case by (simp add: kv)
qed simp

lemma compact_json_keys:
  assumes "compact_json frepr (PDict d) n \<noteq> PDict d"
  shows "\<exists>d'. compact_json frepr (PDict d) n = PDict d'
     \<and> ''_truncation'' \<in> fst ` set d' \<and> fst ` set d' \<subseteq> insert ''_truncation'' (fst ` set d)"
  using assms compact_items_keys [of frepr _ n "sort_key fst d" "[]"]
  by (auto simp: compact_json_def Let_def keys_update_set)

subsection \<open>Properties\<close>

text \<open>C34: what an agent observes is bounded. For a bound of at least 1024 bytes (and a value whose size has at
  most 100 digits) the compacted value is never larger than the bound, a value that fits is returned unchanged, and a
  dictionary stays a dictionary: when it was changed it says so under \<open>_truncation\<close>, and all its other keys are
  keys of the original.\<close>

theorem compact_json_bounded:
  assumes "1024 \<le> max_bytes" and "json_size frepr v < 10 ^ 100"
  shows "json_size frepr (compact_json frepr v max_bytes) \<le> max_bytes
     \<and> (compact_json frepr v max_bytes = v \<or> max_bytes < json_size frepr v)
     \<and> (\<forall>d. v = PDict d \<longrightarrow> (\<exists>d'. compact_json frepr v max_bytes = PDict d'
           \<and> (d' = d \<or> ''_truncation'' \<in> fst ` set d' \<and> fst ` set d' \<subseteq> insert ''_truncation'' (fst ` set d))))"
proof (intro conjI allI impI)
  show "json_size frepr (compact_json frepr v max_bytes) \<le> max_bytes"
    by (rule compact_json_fits [OF assms]) simp_all
  show "compact_json frepr v max_bytes = v \<or> max_bytes < json_size frepr v"
    by (auto simp: compact_json_def Let_def)
  fix d assume "v = PDict d"
  then show "\<exists>d'. compact_json frepr v max_bytes = PDict d'
      \<and> (d' = d \<or> ''_truncation'' \<in> fst ` set d' \<and> fst ` set d' \<subseteq> insert ''_truncation'' (fst ` set d))"
    using compact_json_keys [of frepr d max_bytes] by blast
qed

definition long_answer :: pyval where
  "long_answer = PDict [(''rows'', PList (replicate 2000 PNone)), (''up'', PBool True)]"

lemma long_answer_size: "json_size (\<lambda>_. ''0.0'') long_answer = 10020"
proof -
  have "json_text_size ''rows'' = 6" "json_text_size ''up'' = 4" by code_simp+
  then show ?thesis by (simp add: long_answer_def json_frame_def sum_list_replicate)
qed

theorem compact_json_bounded_witness:
  "json_size (\<lambda>_. ''0.0'') (compact_json (\<lambda>_. ''0.0'') long_answer 1024) \<le> 1024
   \<and> (\<exists>d'. compact_json (\<lambda>_. ''0.0'') long_answer 1024 = PDict d' \<and> ''_truncation'' \<in> fst ` set d')"
proof -
  let ?c = "compact_json (\<lambda>_. ''0.0'') long_answer 1024"
  have size: "json_size (\<lambda>_. ''0.0'') long_answer < 10 ^ 100" by (simp add: long_answer_size)
  note bounded = compact_json_bounded [OF order.refl size]
  have fits: "json_size (\<lambda>_. ''0.0'') ?c \<le> 1024" by (fact bounded [THEN conjunct1])
  note cut = bounded [THEN conjunct2, THEN conjunct2]
  have "?c \<noteq> long_answer"
  proof
    assume "?c = long_answer"
    then have "json_size (\<lambda>_. ''0.0'') long_answer \<le> 1024" using fits by (simp only:)
    then show False unfolding long_answer_size by simp
  qed
  moreover obtain d where d: "long_answer = PDict d" by (simp add: long_answer_def)
  moreover obtain d' where "?c = PDict d'" "d' = d \<or> ''_truncation'' \<in> fst ` set d'"
    using cut [rule_format, OF d] by (elim exE conjE disjE) simp_all
  ultimately show ?thesis by (intro conjI fits exI [of _ d']) auto
qed

end
