(* ===== verification/Incident_Engine.thy ===== *)
theory Incident_Engine
  imports Ground_Truth Incident_Payloads
begin

text \<open>
  The incident engine (\<open>incident/engine.py\<close>, \<open>incident/contracts.py\<close>): a prepared incident with its lifecycle
  and the diagnostic sessions over it. The physical backend, the clock, the tool registry, the topology directory and the
  close callback are parameters; the calls made on the backend are kept in a trace, in their order, so that the
  protocol of the engine can be stated. Operations are atomic: a system of one incident and its sessions
  makes one operation after the other.
  Shown: the lifecycle invariant (the backend is prepared once before any use, finished at most once, never used
  afterwards, and the close callback runs once), the budgets of sessions, and what a submission is rewarded.
\<close>

subsection \<open>Data\<close>

datatype incident_state = Created | Preparing | Active | Closing | Closed | Broken

fun incident_state_text :: "incident_state \<Rightarrow> string" where
  "incident_state_text Created = ''created''"
| "incident_state_text Preparing = ''preparing''"
| "incident_state_text Active = ''active''"
| "incident_state_text Closing = ''closing''"
| "incident_state_text Closed = ''closed''"
| "incident_state_text Broken = ''broken''"

datatype session_state = Session_active | Session_terminal

fun session_state_text :: "session_state \<Rightarrow> string" where
  "session_state_text Session_active = ''active''"
| "session_state_text Session_terminal = ''terminal''"

datatype failure_domain = Infrastructure | Agent | Protocol | Tool_execution | Cleanup

datatype cleanup_status = Not_started | Cleanup_succeeded | Cleanup_failed

datatype termination_reason = Submitted | Agent_error | Protocol_error | Limit_exhausted

record execution_failure =
  xf_domain :: failure_domain
  xf_phase :: string
  xf_message :: string
  xf_error_type :: "string option"

record session_transition =
  tr_valid :: bool
  tr_case_valid :: bool
  tr_state :: session_state
  tr_observation :: pydict
  tr_reward :: "rat option"
  tr_reward_components :: "(string, rat) dict"
  tr_metrics :: pydict
  tr_termination_reason :: "termination_reason option"
  tr_failure :: "execution_failure option"
  tr_cleanup_failure :: "execution_failure option"
  tr_cleanup_status :: cleanup_status
  tr_error :: "string option"

text \<open>The defaults of a transition.\<close>

definition new_transition :: "session_state \<Rightarrow> session_transition" where
  "new_transition st = \<lparr> tr_valid = True, tr_case_valid = True, tr_state = st, tr_observation = [], tr_reward = None,
     tr_reward_components = [], tr_metrics = [], tr_termination_reason = None, tr_failure = None, tr_cleanup_failure = None,
     tr_cleanup_status = Not_started, tr_error = None \<rparr>"

record simulator_config =
  max_active_runtimes :: int
  max_tool_calls :: int
  max_agent_seconds :: int
  max_tool_result_bytes :: int
  orphan_lease_ttl_seconds :: int

definition default_simulator_config :: simulator_config where
  "default_simulator_config = \<lparr> max_active_runtimes = 1, max_tool_calls = 20, max_agent_seconds = 300,
     max_tool_result_bytes = 8192, orphan_lease_ttl_seconds = 3600 \<rparr>"

definition validate_simulator_config :: "simulator_config \<Rightarrow> simulator_config res" where
  "validate_simulator_config c =
     rbind (raise_if (max_active_runtimes c < 1) (ValueError ''max_active_runtimes'')) (\<lambda>_.
     rbind (raise_if (max_tool_calls c < 1) (ValueError ''max_tool_calls'')) (\<lambda>_.
     rbind (raise_if (max_agent_seconds c < 1) (ValueError ''max_agent_seconds'')) (\<lambda>_.
     rbind (raise_if (max_tool_result_bytes c < 1024) (ValueError ''max_tool_result_bytes'')) (\<lambda>_.
     rbind (raise_if (orphan_lease_ttl_seconds c < 1) (ValueError ''orphan_lease_ttl_seconds'')) (\<lambda>_.
     rbind (raise_if (orphan_lease_ttl_seconds c < max_agent_seconds c + 300)
       (ValueError ''orphan_lease_ttl_seconds must cover max_agent_seconds plus 300 seconds of cleanup grace'')) (\<lambda>_.
     Inr c))))))"

record tool_action =
  ta_name :: string
  ta_arguments :: pydict

record diagnosis_location =
  dl_device :: "string option"
  dl_interface :: "string option"

record diagnosis_submission =
  ds_verdict :: string
  ds_fault_type :: "string option"
  ds_location :: diagnosis_location
  ds_evidence :: "string list"
  ds_confidence :: rat
  ds_reasoning :: string

definition validate_diagnosis :: "diagnosis_submission \<Rightarrow> diagnosis_submission res" where
  "validate_diagnosis d =
     rbind (raise_if (ds_verdict d \<notin> {''fault_detected'', ''network_healthy'', ''inconclusive''}) (ValueError ''verdict'')) (\<lambda>_.
     rbind (raise_if (ds_confidence d < 0 \<or> 1 < ds_confidence d) (ValueError ''confidence'')) (\<lambda>_. Inr d))"

text \<open>\<open>model_dump(exclude_none=True)\<close> of a location.\<close>

definition location_dump :: "diagnosis_location \<Rightarrow> pydict" where
  "location_dump l = exclude_none [(''device'', opt_val (dl_device l)), (''interface'', opt_val (dl_interface l))]"

record agent_usage =
  us_input_tokens :: int
  us_output_tokens :: int

definition usage_total_tokens :: "agent_usage \<Rightarrow> int" where
  "usage_total_tokens u = us_input_tokens u + us_output_tokens u"

subsection \<open>The backend\<close>

text \<open>The backend and the other parts that an incident is given: \<open>be_valid_call\<close> is \<open>validate_tool_call\<close>,
  \<open>be_topology\<close> the manifest of the backend's topology directory, \<open>be_digest\<close> the digest of the scenario and
  \<open>be_outer_deadline\<close> the deadline of a surrounding diagnosis budget.\<close>

record 'w backend =
  be_prepare :: "scenario_spec \<Rightarrow> 'w \<Rightarrow> pydict res \<times> 'w"
  be_call :: "tool_action \<Rightarrow> 'w \<Rightarrow> pydict res \<times> 'w"
  be_refresh :: "rat \<Rightarrow> 'w \<Rightarrow> unit res \<times> 'w"
  be_finish :: "bool \<Rightarrow> 'w \<Rightarrow> unit res \<times> 'w"
  be_on_close :: "('w \<Rightarrow> unit res \<times> 'w) option"
  be_now :: "'w \<Rightarrow> rat \<times> 'w"
  be_valid_call :: "string \<Rightarrow> pydict \<Rightarrow> bool"
  be_topology :: "topology_manifest res option"
  be_scenario :: scenario_spec
  be_digest :: string
  be_evaluator :: evaluator
  be_default_config :: "simulator_config option"
  be_outer_deadline :: "rat option"
  be_frepr :: "rat \<Rightarrow> string"

datatype backend_event = Prepare_event | Refresh_event rat | Call_event string | Finish_event bool | Close_event

record 'w incident =
  pi_world :: 'w
  pi_state :: incident_state
  pi_observation :: pydict
  pi_failure :: "execution_failure option"
  pi_cleanup_failure :: "execution_failure option"
  pi_cleanup_status :: cleanup_status
  pi_close_notified :: bool
  pi_trace :: "backend_event list"

definition new_incident :: "'w \<Rightarrow> 'w incident" where
  "new_incident w = \<lparr> pi_world = w, pi_state = Created, pi_observation = [], pi_failure = None, pi_cleanup_failure = None,
     pi_cleanup_status = Not_started, pi_close_notified = False, pi_trace = [] \<rparr>"

definition backend_do :: "backend_event \<Rightarrow> ('w \<Rightarrow> 'a res \<times> 'w) \<Rightarrow> ('w incident, 'a) io" where
  "backend_do ev f = (\<lambda>s. case f (pi_world s) of (r, w) \<Rightarrow> (r, s\<lparr> pi_world := w, pi_trace := pi_trace s @ [ev] \<rparr>))"

text \<open>The result of a computation with its exception as a value.\<close>

definition iattempt :: "('s, 'a) io \<Rightarrow> ('s, 'a res) io" where
  "iattempt m = (\<lambda>s. case m s of (r, s') \<Rightarrow> (Inr r, s'))"

fun err_class :: "py_error \<Rightarrow> string" where
  "err_class (ValueError m) = ''ValueError''"
| "err_class (KeyError m) = ''KeyError''"
| "err_class (IndexError m) = ''IndexError''"
| "err_class (TypeError m) = ''TypeError''"
| "err_class (RuntimeError m) = ''RuntimeError''"
| "err_class (TimeoutError m) = ''TimeoutError''"
| "err_class (OperationCancelled m) = ''OperationCancelled''"
| "err_class (AttributeError m) = ''AttributeError''"
| "err_class Diverged = []"

definition failure_of :: "failure_domain \<Rightarrow> string \<Rightarrow> py_error \<Rightarrow> execution_failure" where
  "failure_of dm ph e = \<lparr> xf_domain = dm, xf_phase = ph, xf_message = err_text e, xf_error_type = Some (err_class e) \<rparr>"

definition plain_failure :: "failure_domain \<Rightarrow> string \<Rightarrow> string \<Rightarrow> execution_failure" where
  "plain_failure dm ph msg = \<lparr> xf_domain = dm, xf_phase = ph, xf_message = msg, xf_error_type = None \<rparr>"

definition iwhen :: "bool \<Rightarrow> ('s, unit) io \<Rightarrow> ('s, unit) io" where
  "iwhen b m = (if b then m else ireturn ())"

subsection \<open>A prepared incident\<close>

definition notify_close :: "'w backend \<Rightarrow> ('w incident, unit) io" where
  "notify_close be =
     ibind (iget pi_close_notified) (\<lambda>notified.
     (case be_on_close be of
        Some callback \<Rightarrow> iwhen (\<not> notified)
          (ibind (imodify (\<lambda>s. s\<lparr> pi_close_notified := True \<rparr>)) (\<lambda>_. backend_do Close_event callback))
      | None \<Rightarrow> ireturn ()))"

definition finish_backend :: "'w backend \<Rightarrow> bool \<Rightarrow> ('w incident, unit) io" where
  "finish_backend be broken =
     ibind (iattempt (backend_do (Finish_event broken) (be_finish be broken))) (\<lambda>r.
     ibind (imodify (\<lambda>s. case r of
         Inl e \<Rightarrow> s\<lparr> pi_cleanup_status := Cleanup_failed, pi_cleanup_failure := Some (failure_of Cleanup ''cleanup'' e), pi_state := Broken \<rparr>
       | Inr _ \<Rightarrow> s\<lparr> pi_cleanup_status := Cleanup_succeeded, pi_state := (if broken then Broken else Closed) \<rparr>)) (\<lambda>_.
     notify_close be))"

definition incident_prepare :: "'w backend \<Rightarrow> ('w incident, unit) io" where
  "incident_prepare be =
     ibind (iget pi_state) (\<lambda>st.
     if st \<noteq> Created then ithrow (RuntimeError (''Incident cannot prepare from '' @ incident_state_text st))
     else ibind (imodify (\<lambda>s. s\<lparr> pi_state := Preparing \<rparr>)) (\<lambda>_.
       ibind (iattempt (backend_do Prepare_event (be_prepare be (be_scenario be)))) (\<lambda>r.
       (case r of
          Inl e \<Rightarrow> ibind (imodify (\<lambda>s. s\<lparr> pi_failure := Some (failure_of Infrastructure ''prepare'' e), pi_state := Broken \<rparr>)) (\<lambda>_.
            finish_backend be True)
        | Inr obs \<Rightarrow> imodify (\<lambda>s. s\<lparr> pi_observation := obs, pi_state := Active \<rparr>)))))"

definition require_incident_active :: "('w incident, unit) io" where
  "require_incident_active = ibind (iget pi_state) (\<lambda>st.
     if st \<noteq> Active then ithrow (RuntimeError (''Incident is not active: '' @ incident_state_text st)) else ireturn ())"

definition refresh_lease :: "'w backend \<Rightarrow> rat \<Rightarrow> ('w incident, unit) io" where
  "refresh_lease be min_seconds = backend_do (Refresh_event min_seconds) (be_refresh be min_seconds)"

definition case_id :: "'w backend \<Rightarrow> 'w incident \<Rightarrow> string" where
  "case_id be s = (let v = get_val (pi_observation s) ''case_id'' in
     if truthy v then py_str (be_frepr be) v else ''case-'' @ take 12 (be_digest be))"

definition incident_call_tool :: "'w backend \<Rightarrow> tool_action \<Rightarrow> ('w incident, pydict) io" where
  "incident_call_tool be action =
     ibind require_incident_active (\<lambda>_.
     if \<not> be_valid_call be (ta_name action) (ta_arguments action) then ithrow (ValueError (''Invalid tool action: '' @ ta_name action))
     else ibind (refresh_lease be 0) (\<lambda>_.
       ibind (backend_do (Call_event (ta_name action)) (be_call be action)) (\<lambda>result.
       ibind (refresh_lease be 0) (\<lambda>_. ireturn result))))"

text \<open>\<open>episode.model_dump(mode="json")\<close>.\<close>

definition episode_dump :: "episode_spec \<Rightarrow> pydict" where
  "episode_dump e = [(''episode_id'', PStr (episode_id e)), (''description'', PStr (ep_description e)), (''fault_type'', PStr (fault_type e)),
     (''target_device'', opt_val (target_device e)), (''target_interface'', opt_val (target_interface e)), (''target_prefix'', opt_val (target_prefix e)),
     (''mtu'', case ep_mtu e of None \<Rightarrow> PNone | Some i \<Rightarrow> PInt i), (''duration_seconds'', PInt (duration_seconds e)),
     (''stabilization_time'', PInt (stabilization_time e)), (''metadata'', PDict (ep_metadata e)), (''parameters'', PDict (ep_parameters e))]"

definition submission_output :: "diagnosis_submission \<Rightarrow> pydict list \<Rightarrow> rat \<Rightarrow> pydict \<Rightarrow> agent_output" where
  "submission_output d calls time md = \<lparr> ao_verdict = ds_verdict d, ao_fault_type = ds_fault_type d,
     ao_location = Some (location_dump (ds_location d)), ao_evidence = ds_evidence d, ao_confidence = PFloat (ds_confidence d),
     ao_reasoning = ds_reasoning d, ao_tool_calls = calls, ao_time_taken_seconds = PFloat (max 0 time), ao_metadata = md \<rparr>"

definition incident_truth :: "'w backend \<Rightarrow> pydict res" where
  "incident_truth be = (let e = sc_episode (be_scenario be) in
     if is_healthy e then Inr [] else build_episode_ground_truth (be_frepr be) (be_topology be) (episode_dump e))"

definition evaluation_metrics :: "evaluation_result \<Rightarrow> pydict" where
  "evaluation_metrics r = [(''correct_verdict'', PBool (er_correct_verdict r)), (''correct_device'', PBool (er_correct_device r)),
     (''correct_interface'', PBool (er_correct_interface r)), (''correct_fault_type'', PBool (er_correct_fault_type r)),
     (''fault_type_kpi'', PFloat (if er_correct_fault_type r then 1 else 0))]"

definition incident_evaluate :: "'w backend \<Rightarrow> diagnosis_submission \<Rightarrow> pydict list option \<Rightarrow> rat \<Rightarrow> pydict option
    \<Rightarrow> ('w incident, rat \<times> pydict \<times> pydict) io" where
  "incident_evaluate be d calls time md =
     ibind require_incident_active (\<lambda>_.
     ibind (refresh_lease be 0) (\<lambda>_.
     ibind (ilift (incident_truth be)) (\<lambda>gt.
     ibind (iget (case_id be)) (\<lambda>cid.
     ibind (ilift (evaluate (be_frepr be) (be_evaluator be)
        (submission_output d (case calls of Some cs \<Rightarrow> cs | None \<Rightarrow> []) time (case md of Some m \<Rightarrow> m | None \<Rightarrow> [])) gt cid)) (\<lambda>er.
     ireturn (er_score er, evaluation_metrics er, evaluation_result_to_dict er))))))"

definition incident_close :: "'w backend \<Rightarrow> ('w incident, cleanup_status) io" where
  "incident_close be =
     ibind (iget id) (\<lambda>s.
     if pi_state s = Closed then ireturn (pi_cleanup_status s)
     else if pi_cleanup_status s \<noteq> Not_started then ireturn (pi_cleanup_status s)
     else let broken = (pi_state s = Broken) in
       ibind (iwhen (\<not> broken) (imodify (\<lambda>s. s\<lparr> pi_state := Closing \<rparr>))) (\<lambda>_.
       ibind (finish_backend be broken) (\<lambda>_. iget pi_cleanup_status)))"

text \<open>\<open>IncidentEngine.prepare\<close>: a new incident, prepared.\<close>

definition engine_prepare :: "'w backend \<Rightarrow> 'w \<Rightarrow> unit res \<times> 'w incident" where
  "engine_prepare be w = incident_prepare be (new_incident w)"

subsection \<open>Sessions\<close>

record session =
  ss_config :: simulator_config
  ss_state :: session_state
  ss_started_at :: rat
  ss_tool_calls :: int
  ss_tool_call_records :: "pydict list"
  ss_evaluation_result :: "pydict option"
  ss_agent_cleanup_seconds :: rat

text \<open>The state that an operation of a session works on. \<open>ss_agent_cleanup_seconds\<close> is the measured time of the
  \<open>agent_cleanup\<close> phase, 0 when the session has no phase timings.\<close>

record 'w desk =
  dk_incident :: "'w incident"
  dk_session :: session

definition on_incident :: "('w incident, 'a) io \<Rightarrow> ('w desk, 'a) io" where
  "on_incident m = (\<lambda>s. case m (dk_incident s) of (r, i) \<Rightarrow> (r, s\<lparr> dk_incident := i \<rparr>))"

definition on_session :: "(session \<Rightarrow> session) \<Rightarrow> ('w desk, unit) io" where
  "on_session f = imodify (\<lambda>s. s\<lparr> dk_session := f (dk_session s) \<rparr>)"

definition read_now :: "'w backend \<Rightarrow> ('w incident, rat) io" where
  "read_now be = (\<lambda>s. case be_now be (pi_world s) of (t, w) \<Rightarrow> (Inr t, s\<lparr> pi_world := w \<rparr>))"

definition new_session :: "simulator_config \<Rightarrow> rat \<Rightarrow> session" where
  "new_session c t = \<lparr> ss_config = c, ss_state = Session_active, ss_started_at = t, ss_tool_calls = 0, ss_tool_call_records = [],
     ss_evaluation_result = None, ss_agent_cleanup_seconds = 0 \<rparr>"

definition open_session :: "'w backend \<Rightarrow> simulator_config option \<Rightarrow> ('w incident, session) io" where
  "open_session be config =
     ibind require_incident_active (\<lambda>_.
     (case (case config of Some c \<Rightarrow> Some c | None \<Rightarrow> be_default_config be) of
        None \<Rightarrow> ithrow (ValueError ''A SimulatorConfig is required when the incident has no default session config'')
      | Some c \<Rightarrow>
          ibind (refresh_lease be (of_int (max_agent_seconds c))) (\<lambda>_.
          ibind (read_now be) (\<lambda>t. ireturn (new_session c t)))))"

definition elapsed_time :: "'w backend \<Rightarrow> ('w desk, rat) io" where
  "elapsed_time be = ibind (on_incident (read_now be)) (\<lambda>t. iget (\<lambda>s. max 0 (fsub t (ss_started_at (dk_session s)))))"

definition require_active :: "('w desk, unit) io" where
  "require_active = ibind (iget (ss_state \<circ> dk_session)) (\<lambda>st.
     if st \<noteq> Session_active then ithrow (RuntimeError (''Diagnostic session is not active: '' @ session_state_text st))
     else on_incident require_incident_active)"

definition session_metrics :: "session \<Rightarrow> rat \<Rightarrow> pydict" where
  "session_metrics ss elapsed = [(''tool_calls'', PInt (ss_tool_calls ss)), (''elapsed_seconds'', PFloat elapsed)]"

definition bounded_tool_observation :: "'w backend \<Rightarrow> session \<Rightarrow> pydict \<Rightarrow> pydict" where
  "bounded_tool_observation be ss v =
     (case compact_json (be_frepr be) (PDict v) (max_tool_result_bytes (ss_config ss)) of
        PDict d \<Rightarrow> d | bounded \<Rightarrow> [(''result'', bounded)])"

definition limit_message :: "session \<Rightarrow> rat \<Rightarrow> string option" where
  "limit_message ss elapsed =
     (if of_int (max_agent_seconds (ss_config ss)) < max 0 (fsub elapsed (ss_agent_cleanup_seconds ss)) then Some ''max_agent_seconds exceeded''
      else if max_tool_calls (ss_config ss) \<le> ss_tool_calls ss then Some ''max_tool_calls exceeded''
      else None)"

definition limit_transition :: "rat \<Rightarrow> ('w desk, session_transition option) io" where
  "limit_transition elapsed =
     ibind (iget dk_session) (\<lambda>ss.
     (case limit_message ss elapsed of
        None \<Rightarrow> ireturn None
      | Some message \<Rightarrow>
          ibind (on_session (\<lambda>x. x\<lparr> ss_state := Session_terminal \<rparr>)) (\<lambda>_.
          ireturn (Some ((new_transition Session_terminal)\<lparr> tr_reward := Some 0, tr_reward_components := [(''outcome'', 0)],
            tr_metrics := session_metrics ss elapsed, tr_termination_reason := Some Limit_exhausted,
            tr_failure := Some (plain_failure Agent ''limits'' message), tr_error := Some message \<rparr>)))))"

text \<open>\<open>tool_deadline_scope\<close>: the earlier of the session's deadline and a surrounding one, which must not have passed. A
  surrounding deadline of 0 counts as none.\<close>

definition enter_deadline :: "'w backend \<Rightarrow> rat \<Rightarrow> ('w incident, unit) io" where
  "enter_deadline be deadline =
     (let d = (case be_outer_deadline be of Some p \<Rightarrow> if p \<noteq> 0 then min p deadline else deadline | None \<Rightarrow> deadline) in
      ibind (read_now be) (\<lambda>t. if fsub d t \<le> 0 then ithrow (TimeoutError ''Operation deadline exceeded'') else ireturn ()))"

text \<open>A tool call within the limits: it is counted and recorded, and every failure of it becomes a transition.\<close>

definition count_tool_call :: "tool_action \<Rightarrow> session \<Rightarrow> session" where
  "count_tool_call action x = x\<lparr> ss_tool_calls := ss_tool_calls x + 1,
     ss_tool_call_records := ss_tool_call_records x @ [[(''tool'', PStr (ta_name action)), (''args'', PDict (ta_arguments action))]] \<rparr>"

definition failed_transition :: "'w backend \<Rightarrow> session \<Rightarrow> tool_action \<Rightarrow> rat \<Rightarrow> execution_failure \<Rightarrow> string \<Rightarrow> session_transition" where
  "failed_transition be ss action elapsed failure msg = (new_transition (ss_state ss))\<lparr>
     tr_observation := bounded_tool_observation be ss [(''tool'', PStr (ta_name action)), (''success'', PBool False), (''error'', PStr msg)],
     tr_failure := Some failure, tr_error := Some msg, tr_metrics := session_metrics ss elapsed \<rparr>"

definition tool_transition :: "'w backend \<Rightarrow> session \<Rightarrow> tool_action \<Rightarrow> rat \<Rightarrow> pydict res \<Rightarrow> session_transition" where
  "tool_transition be ss action elapsed r = (case r of
       Inl e \<Rightarrow> failed_transition be ss action elapsed (failure_of Tool_execution ''tool_execution'' e) (err_text e)
     | Inr result \<Rightarrow> (new_transition (ss_state ss))\<lparr>
         tr_observation := bounded_tool_observation be ss [(''tool'', PStr (ta_name action)), (''result'', PDict result)],
         tr_metrics := session_metrics ss elapsed \<rparr>)"

definition counted_tool_call :: "'w backend \<Rightarrow> tool_action \<Rightarrow> rat \<Rightarrow> ('w desk, session_transition) io" where
  "counted_tool_call be action elapsed =
     ibind (on_session (count_tool_call action)) (\<lambda>_.
     ibind (iget dk_session) (\<lambda>ss.
     if \<not> be_valid_call be (ta_name action) (ta_arguments action)
     then let msg = ''Invalid tool action: '' @ ta_name action
          in ireturn (failed_transition be ss action elapsed (plain_failure Protocol ''tool_validation'' msg) msg)
     else ibind (iattempt (on_incident (
            ibind (enter_deadline be (fadd (ss_started_at ss) (of_int (max_agent_seconds (ss_config ss))))) (\<lambda>_.
            incident_call_tool be action)))) (\<lambda>r.
          ireturn (tool_transition be ss action elapsed r))))"

definition session_call_tool :: "'w backend \<Rightarrow> tool_action \<Rightarrow> ('w desk, session_transition) io" where
  "session_call_tool be action =
     ibind require_active (\<lambda>_.
     ibind (elapsed_time be) (\<lambda>elapsed.
     ibind (limit_transition elapsed) (\<lambda>limit.
     (case limit of Some tr \<Rightarrow> ireturn tr | None \<Rightarrow> counted_tool_call be action elapsed))))"

definition submit_transition :: "session \<Rightarrow> rat \<Rightarrow> pydict list \<Rightarrow> agent_usage option \<Rightarrow> rat \<Rightarrow> pydict \<Rightarrow> session_transition" where
  "submit_transition ss elapsed accounting_calls usage reward metrics = (new_transition Session_terminal)\<lparr>
     tr_reward := Some reward, tr_reward_components := [(''outcome'', reward)],
     tr_metrics := dict_update (AList.update ''tool_calls'' (PInt (int (length accounting_calls)))
         (dict_update metrics (session_metrics ss elapsed)))
       (case usage of None \<Rightarrow> []
        | Some u \<Rightarrow> [(''input_tokens'', PInt (us_input_tokens u)), (''output_tokens'', PInt (us_output_tokens u)),
                     (''total_tokens'', PInt (usage_total_tokens u))]),
     tr_termination_reason := Some Submitted \<rparr>"

definition evaluated_submission :: "'w backend \<Rightarrow> diagnosis_submission \<Rightarrow> agent_usage option \<Rightarrow> pydict list option \<Rightarrow> rat option
    \<Rightarrow> pydict option \<Rightarrow> rat \<Rightarrow> ('w desk, session_transition) io" where
  "evaluated_submission be d usage calls time md elapsed =
     ibind (iget dk_session) (\<lambda>ss.
     let accounting_calls = (case calls of Some (c # cs) \<Rightarrow> c # cs | _ \<Rightarrow> ss_tool_call_records ss);
         accounting_time = (case time of None \<Rightarrow> elapsed | Some t \<Rightarrow> max 0 t) in
     ibind (on_incident (incident_evaluate be d (Some accounting_calls) accounting_time md)) (\<lambda>(reward, metrics, result).
     ibind (on_session (\<lambda>x. x\<lparr> ss_evaluation_result := Some result, ss_state := Session_terminal \<rparr>)) (\<lambda>_.
     ireturn (submit_transition ss elapsed accounting_calls usage reward metrics))))"

definition session_submit :: "'w backend \<Rightarrow> diagnosis_submission \<Rightarrow> agent_usage option \<Rightarrow> pydict list option \<Rightarrow> rat option
    \<Rightarrow> pydict option \<Rightarrow> ('w desk, session_transition) io" where
  "session_submit be d usage calls time md =
     ibind require_active (\<lambda>_.
     ibind (elapsed_time be) (\<lambda>elapsed.
     ibind (limit_transition elapsed) (\<lambda>limit.
     (case limit of Some tr \<Rightarrow> ireturn tr | None \<Rightarrow> evaluated_submission be d usage calls time md elapsed))))"

definition session_terminate_failure :: "'w backend \<Rightarrow> failure_domain \<Rightarrow> string \<Rightarrow> termination_reason \<Rightarrow> ('w desk, session_transition) io" where
  "session_terminate_failure be dm message reason =
     ibind require_active (\<lambda>_.
     ibind (on_session (\<lambda>x. x\<lparr> ss_state := Session_terminal \<rparr>)) (\<lambda>_.
     ibind (elapsed_time be) (\<lambda>elapsed.
     ibind (iget dk_session) (\<lambda>ss.
     ireturn ((new_transition Session_terminal)\<lparr> tr_reward := Some 0, tr_reward_components := [(''outcome'', 0)],
       tr_metrics := session_metrics ss elapsed, tr_termination_reason := Some reason,
       tr_failure := Some (plain_failure dm ''diagnosis'' message), tr_error := Some message \<rparr>)))))"

text \<open>\<open>SessionToolGateway\<close>: a tool call as the toolkit presents it.\<close>

record tool_result =
  tl_success :: bool
  tl_data :: pyval
  tl_error :: pyval

definition gateway_result :: "session_transition \<Rightarrow> tool_result" where
  "gateway_result tr = (case tr_failure tr of
       Some f \<Rightarrow> \<lparr> tl_success = False, tl_data = PNone, tl_error = PStr (xf_message f) \<rparr>
     | None \<Rightarrow> let payload = get_val (tr_observation tr) ''result'' in
         (case payload of
            PDict p \<Rightarrow> if map_of p ''success'' \<noteq> None \<and> map_of p ''data'' \<noteq> None
              then \<lparr> tl_success = truthy (get_val p ''success''), tl_data = get_val p ''data'', tl_error = get_val p ''error'' \<rparr>
              else \<lparr> tl_success = True, tl_data = payload, tl_error = PNone \<rparr>
          | _ \<Rightarrow> \<lparr> tl_success = True, tl_data = payload, tl_error = PNone \<rparr>))"

definition gateway_call :: "'w backend \<Rightarrow> string \<Rightarrow> pydict \<Rightarrow> ('w desk, tool_result) io" where
  "gateway_call be name arguments =
     (if starts_with name ''_'' then ithrow (AttributeError name)
      else ibind (session_call_tool be \<lparr> ta_name = name, ta_arguments = arguments \<rparr>) (\<lambda>tr. ireturn (gateway_result tr)))"

subsection \<open>The system\<close>

text \<open>An incident with the sessions opened on it. An operation that raises leaves the state it had reached; measuring
  the cleanup of an agent is the only other change of a session.\<close>

record 'w system =
  sy_incident :: "'w incident"
  sy_sessions :: "session list"

datatype operation =
    Op_prepare
  | Op_open "simulator_config option"
  | Op_tool nat tool_action
  | Op_submit nat diagnosis_submission "agent_usage option" "pydict list option" "rat option" "pydict option"
  | Op_terminate nat failure_domain string termination_reason
  | Op_agent_cleanup nat rat
  | Op_close

definition at_session :: "nat \<Rightarrow> ('w desk, 'a) io \<Rightarrow> 'w system \<Rightarrow> 'w system" where
  "at_session i m s =
     (if i < length (sy_sessions s)
      then let d = snd (m \<lparr> dk_incident = sy_incident s, dk_session = sy_sessions s ! i \<rparr>)
           in \<lparr> sy_incident = dk_incident d, sy_sessions = (sy_sessions s)[i := dk_session d] \<rparr>
      else s)"

fun perform :: "'w backend \<Rightarrow> operation \<Rightarrow> 'w system \<Rightarrow> 'w system" where
  "perform be Op_prepare s = s\<lparr> sy_incident := snd (incident_prepare be (sy_incident s)) \<rparr>"
| "perform be (Op_open c) s = (case open_session be c (sy_incident s) of
       (Inr ss, i) \<Rightarrow> \<lparr> sy_incident = i, sy_sessions = sy_sessions s @ [ss] \<rparr>
     | (Inl _, i) \<Rightarrow> s\<lparr> sy_incident := i \<rparr>)"
| "perform be (Op_tool i a) s = at_session i (session_call_tool be a) s"
| "perform be (Op_submit i d u c t md) s = at_session i (session_submit be d u c t md) s"
| "perform be (Op_terminate i dm msg reason) s = at_session i (session_terminate_failure be dm msg reason) s"
| "perform be (Op_agent_cleanup i t) s = at_session i (on_session (\<lambda>x. x\<lparr> ss_agent_cleanup_seconds := t \<rparr>)) s"
| "perform be Op_close s = s\<lparr> sy_incident := snd (incident_close be (sy_incident s)) \<rparr>"

inductive system_reachable :: "'w backend \<Rightarrow> 'w system \<Rightarrow> bool" for be where
  start: "system_reachable be \<lparr> sy_incident = new_incident w, sy_sessions = [] \<rparr>"
| step: "system_reachable be s \<Longrightarrow> system_reachable be (perform be op s)"

subsection \<open>The lifecycle of an incident\<close>

text \<open>The calls a session makes on the backend.\<close>

fun usage_event :: "backend_event \<Rightarrow> bool" where
  "usage_event (Refresh_event _) = True"
| "usage_event (Call_event _) = True"
| "usage_event _ = False"

definition closing_events :: "'w backend \<Rightarrow> bool \<Rightarrow> backend_event list" where
  "closing_events be broken = Finish_event broken # (if be_on_close be = None then [] else [Close_event])"

text \<open>The trace and the fields that go with each state between two operations.\<close>

definition lifecycle :: "'w backend \<Rightarrow> 'w incident \<Rightarrow> bool" where
  "lifecycle be s \<longleftrightarrow> (case pi_state s of
       Created \<Rightarrow> pi_trace s = [] \<and> pi_cleanup_status s = Not_started \<and> pi_failure s = None \<and> pi_cleanup_failure s = None \<and> \<not> pi_close_notified s
     | Active \<Rightarrow> (\<exists>us. pi_trace s = Prepare_event # us \<and> list_all usage_event us)
         \<and> pi_cleanup_status s = Not_started \<and> pi_failure s = None \<and> pi_cleanup_failure s = None \<and> \<not> pi_close_notified s
     | Closed \<Rightarrow> (\<exists>us. pi_trace s \<in> {closing_events be False, Prepare_event # us @ closing_events be False} \<and> list_all usage_event us)
         \<and> pi_cleanup_status s = Cleanup_succeeded \<and> pi_failure s = None \<and> pi_cleanup_failure s = None
         \<and> pi_close_notified s = (be_on_close be \<noteq> None)
     | Broken \<Rightarrow> (\<exists>us. pi_trace s \<in> {closing_events be (pi_failure s \<noteq> None), Prepare_event # us @ closing_events be (pi_failure s \<noteq> None)} \<and> list_all usage_event us)
         \<and> pi_cleanup_status s \<noteq> Not_started \<and> (pi_cleanup_failure s \<noteq> None) = (pi_cleanup_status s = Cleanup_failed)
         \<and> (pi_failure s = None \<longrightarrow> pi_cleanup_status s = Cleanup_failed) \<and> pi_close_notified s = (be_on_close be \<noteq> None)
     | _ \<Rightarrow> False)"

lemma some_list_all [simp]: "\<exists>xs. list_all P xs" "Ex (list_all P)"
  by (rule exI [of _ "[]"], simp)+

lemma backend_do_fields [simp]:
  "pi_state (snd (backend_do ev f s)) = pi_state s" "pi_trace (snd (backend_do ev f s)) = pi_trace s @ [ev]"
  "pi_cleanup_status (snd (backend_do ev f s)) = pi_cleanup_status s" "pi_failure (snd (backend_do ev f s)) = pi_failure s"
  "pi_cleanup_failure (snd (backend_do ev f s)) = pi_cleanup_failure s" "pi_close_notified (snd (backend_do ev f s)) = pi_close_notified s"
  "pi_observation (snd (backend_do ev f s)) = pi_observation s"
  by (simp_all add: backend_do_def split: prod.split)

text \<open>What finishing the backend leaves, whether the backend raises or not.\<close>

lemma finish_backend_fields:
  assumes "\<not> pi_close_notified s"
  shows "\<exists>r. let s' = snd (finish_backend be broken s) in pi_trace s' = pi_trace s @ closing_events be broken
     \<and> pi_close_notified s' = (be_on_close be \<noteq> None) \<and> pi_failure s' = pi_failure s
     \<and> (if r then pi_cleanup_status s' = Cleanup_succeeded \<and> pi_cleanup_failure s' = pi_cleanup_failure s \<and> pi_state s' = (if broken then Broken else Closed)
        else pi_cleanup_status s' = Cleanup_failed \<and> pi_cleanup_failure s' \<noteq> None \<and> pi_state s' = Broken)"
proof -
  obtain r w where b: "be_finish be broken (pi_world s) = (r, w)" by fastforce
  show ?thesis
    using assms by (intro exI [of _ "is_ok r"])
      (cases r; auto simp: finish_backend_def ibind_def iattempt_def backend_do_def b notify_close_def iwhen_def closing_events_def Let_def
        split: option.splits prod.splits sum.splits)
qed

lemma lifecycle_prepare: "lifecycle be s \<Longrightarrow> lifecycle be (snd (incident_prepare be s))"
proof (cases "pi_state s = Created")
  case True
  assume l: "lifecycle be s"
  obtain r w where b: "be_prepare be (be_scenario be) (pi_world s) = (r, w)" by fastforce
  let ?s1 = "s\<lparr> pi_state := Preparing, pi_world := w, pi_trace := pi_trace s @ [Prepare_event] \<rparr>"
  show ?thesis
  proof (cases r)
    case (Inl e)
    let ?s2 = "?s1\<lparr> pi_failure := Some (failure_of Infrastructure ''prepare'' e), pi_state := Broken \<rparr>"
    have run: "snd (incident_prepare be s) = snd (finish_backend be True ?s2)"
      using True Inl b by (simp add: incident_prepare_def ibind_def iattempt_def backend_do_def)
    have "\<not> pi_close_notified ?s2" "pi_trace ?s2 = [Prepare_event]" "pi_cleanup_failure ?s2 = None"
      using l True by (simp_all add: lifecycle_def)
    then show ?thesis
      unfolding run using finish_backend_fields [of ?s2 be True]
      by (auto simp: lifecycle_def Let_def split: if_splits intro!: exI [of _ "[]"])
  next
    case (Inr obs)
    then show ?thesis using True b l by (simp add: incident_prepare_def ibind_def iattempt_def backend_do_def lifecycle_def)
  qed
qed (simp add: incident_prepare_def ibind_def)

lemma lifecycle_close: "lifecycle be s \<Longrightarrow> lifecycle be (snd (incident_close be s))"
proof (cases "pi_state s \<in> {Created, Active}")
  case True
  assume l: "lifecycle be s"
  let ?s = "s\<lparr> pi_state := Closing \<rparr>"
  have ns: "pi_cleanup_status s = Not_started" "\<not> pi_close_notified ?s" using l True by (auto simp: lifecycle_def)
  have "pi_cleanup_status (snd (finish_backend be False ?s)) = x \<Longrightarrow> snd (incident_close be s) = snd (finish_backend be False ?s)" for x
    using True ns by (auto simp: incident_close_def ibind_def iwhen_def Let_def split: prod.splits sum.splits)
  then have run: "snd (incident_close be s) = snd (finish_backend be False ?s)" by blast
  show ?thesis
    unfolding run using finish_backend_fields [OF ns(2), of be False] True l
    by (auto simp: lifecycle_def Let_def split: if_splits)
qed (auto simp: incident_close_def ibind_def lifecycle_def Let_def split: incident_state.splits)

subsection \<open>What sessions do to the incident\<close>

text \<open>\<open>used n s s'\<close>: from \<open>s\<close> to \<open>s'\<close> the incident kept its lifecycle fields, the backend was used only while it was
  active, and at most \<open>n\<close> tools were called.\<close>

fun is_call :: "backend_event \<Rightarrow> bool" where
  "is_call (Call_event _) = True"
| "is_call _ = False"

definition tool_calls_made :: "backend_event list \<Rightarrow> nat" where
  "tool_calls_made evs = length (filter is_call evs)"

definition used :: "nat \<Rightarrow> 'w incident \<Rightarrow> 'w incident \<Rightarrow> bool" where
  "used n s s' \<longleftrightarrow> pi_state s' = pi_state s \<and> pi_cleanup_status s' = pi_cleanup_status s \<and> pi_failure s' = pi_failure s
     \<and> pi_cleanup_failure s' = pi_cleanup_failure s \<and> pi_close_notified s' = pi_close_notified s
     \<and> (\<exists>us. pi_trace s' = pi_trace s @ us \<and> list_all usage_event us \<and> tool_calls_made us \<le> n \<and> (pi_state s \<noteq> Active \<longrightarrow> us = []))"

lemma used_refl [simp]: "used n s s"
  by (auto simp: used_def tool_calls_made_def intro: exI [of _ "[]"])

lemma used_trans: "used n s s1 \<Longrightarrow> used m s1 s2 \<Longrightarrow> used (n + m) s s2"
proof -
  assume a: "used n s s1" "used m s1 s2"
  then obtain us vs where "pi_trace s1 = pi_trace s @ us" "list_all usage_event us" "tool_calls_made us \<le> n" "pi_state s \<noteq> Active \<longrightarrow> us = []"
    "pi_trace s2 = pi_trace s1 @ vs" "list_all usage_event vs" "tool_calls_made vs \<le> m" "pi_state s \<noteq> Active \<longrightarrow> vs = []"
    unfolding used_def by metis
  then have "\<exists>ws. pi_trace s2 = pi_trace s @ ws \<and> list_all usage_event ws \<and> tool_calls_made ws \<le> n + m \<and> (pi_state s \<noteq> Active \<longrightarrow> ws = [])"
    by (intro exI [of _ "us @ vs"]) (auto simp: tool_calls_made_def)
  with a show ?thesis by (simp add: used_def)
qed

lemma used_mono: "used n s s' \<Longrightarrow> n \<le> m \<Longrightarrow> used m s s'"
  by (auto simp: used_def intro: order_trans)

lemma used_bind:
  assumes "used n s (snd (m s))" and "\<And>x s1. m s = (Inr x, s1) \<Longrightarrow> used k s1 (snd (f x s1))"
  shows "used (n + k) s (snd (ibind m f s))"
proof (cases "m s")
  case (Pair r s1)
  then show ?thesis
    using assms used_trans [of n s s1 k] used_mono [of n s s1 "n + k"] by (cases r) (auto simp: ibind_def)
qed

lemma used_do: "pi_state s = Active \<Longrightarrow> usage_event ev \<Longrightarrow> used (of_bool (is_call ev)) s (snd (backend_do ev f s))"
  by (simp add: used_def tool_calls_made_def)

lemma used_now [simp]: "used n s (snd (read_now be s))"
  by (auto simp: read_now_def used_def tool_calls_made_def split: prod.split)

lemma require_incident_active_eq: "require_incident_active s =
    ((if pi_state s = Active then Inr () else Inl (RuntimeError (''Incident is not active: '' @ incident_state_text (pi_state s)))), s)"
  by (simp add: require_incident_active_def ibind_def)

lemma refresh_active: "refresh_lease be x s = (r, s1) \<Longrightarrow> pi_state s1 = pi_state s"
  by (metis refresh_lease_def backend_do_fields(1) snd_conv)

lemma do_active: "backend_do ev f s = (r, s1) \<Longrightarrow> pi_state s1 = pi_state s"
  by (metis backend_do_fields(1) snd_conv)

lemma used_refresh: "pi_state s = Active \<Longrightarrow> used 0 s (snd (refresh_lease be x s))"
  using used_do [of s "Refresh_event x"] by (simp add: refresh_lease_def)

lemma used_ilift [simp]: "used n s (snd (ilift r s))" "used n s (snd (iget g s))" "used n s (snd (ireturn x s))" "used n s (snd (ithrow e s))"
  by simp_all

lemma used_call_tool: "used 1 s (snd (incident_call_tool be a s))"
proof (cases "pi_state s = Active \<and> be_valid_call be (ta_name a) (ta_arguments a)")
  case True
  have "used (0 + (1 + (0 + 0))) s (snd (ibind (refresh_lease be 0) (\<lambda>_.
       ibind (backend_do (Call_event (ta_name a)) (be_call be a)) (\<lambda>result.
       ibind (refresh_lease be 0) (\<lambda>_. ireturn result))) s))"
    using True used_do [of _ "Call_event (ta_name a)"]
    by (intro used_bind used_refresh) (auto dest!: refresh_active do_active)
  then show ?thesis using True by (simp add: incident_call_tool_def require_incident_active_eq ibind_def [of require_incident_active])
qed (auto simp: incident_call_tool_def ibind_def require_incident_active_eq)

lemma used_evaluate: "used 0 s (snd (incident_evaluate be d calls time md s))"
proof (cases "pi_state s = Active")
  case True
  have "used (0 + (0 + (0 + (0 + 0)))) s (snd (ibind (refresh_lease be 0) (\<lambda>_.
     ibind (ilift (incident_truth be)) (\<lambda>gt.
     ibind (iget (case_id be)) (\<lambda>cid.
     ibind (ilift (evaluate (be_frepr be) (be_evaluator be)
        (submission_output d (case calls of Some cs \<Rightarrow> cs | None \<Rightarrow> []) time (case md of Some m \<Rightarrow> m | None \<Rightarrow> [])) gt cid)) (\<lambda>er.
     ireturn (er_score er, evaluation_metrics er, evaluation_result_to_dict er))))) s))"
    using True by (intro used_bind used_refresh) auto
  then show ?thesis using True by (simp add: incident_evaluate_def require_incident_active_eq ibind_def [of require_incident_active])
qed (simp add: incident_evaluate_def ibind_def require_incident_active_eq)

lemma used_open: "used 0 s (snd (open_session be c s))"
proof (cases "pi_state s = Active")
  case True
  have "used (0 + (0 + 0)) s (snd (ibind (refresh_lease be x) (\<lambda>_. ibind (read_now be) (\<lambda>t. ireturn (new_session y t))) s))" for x y
    using True by (intro used_bind used_refresh) auto
  then show ?thesis
    using True by (auto simp: open_session_def require_incident_active_eq ibind_def [of require_incident_active] split: option.split)
qed (simp add: open_session_def ibind_def require_incident_active_eq)

lemma used_deadline_call: "used 1 s (snd (ibind (enter_deadline be t) (\<lambda>_. incident_call_tool be a) s))"
proof -
  have "used (0 + 0) s (snd (enter_deadline be t s))" unfolding enter_deadline_def Let_def by (intro used_bind) auto
  then show ?thesis
    using used_bind [of 0 s "enter_deadline be t" 1 "\<lambda>_. incident_call_tool be a", OF _ used_call_tool] by simp
qed

lemma lifecycle_used: "lifecycle be s \<Longrightarrow> used n s s' \<Longrightarrow> lifecycle be s'"
  by (cases "pi_state s") (auto simp: lifecycle_def used_def)

subsection \<open>What an operation does to a session\<close>

definition session_ok :: "session \<Rightarrow> bool" where
  "session_ok ss \<longleftrightarrow> 0 \<le> ss_tool_calls ss \<and> ss_tool_calls ss \<le> max 0 (max_tool_calls (ss_config ss))
     \<and> int (length (ss_tool_call_records ss)) = ss_tool_calls ss
     \<and> (ss_evaluation_result ss \<noteq> None \<longrightarrow> ss_state ss = Session_terminal)"

text \<open>An operation on a session keeps its invariant, counts every tool it calls on the backend, and does nothing when the
  session is terminal.\<close>

definition desk_step :: "'w desk \<Rightarrow> 'w desk \<Rightarrow> bool" where
  "desk_step d d' \<longleftrightarrow> (let ss = dk_session d; ss' = dk_session d' in
     ss_tool_calls ss \<le> ss_tool_calls ss' \<and> used (nat (ss_tool_calls ss' - ss_tool_calls ss)) (dk_incident d) (dk_incident d')
     \<and> (session_ok ss \<longrightarrow> session_ok ss') \<and> (ss_state ss = Session_terminal \<longrightarrow> d' = d))"

lemma desk_step_refl [simp]: "desk_step d d"
  by (simp add: desk_step_def Let_def)

lemma require_active_eq: "require_active d =
    ((if ss_state (dk_session d) \<noteq> Session_active
      then Inl (RuntimeError (''Diagnostic session is not active: '' @ session_state_text (ss_state (dk_session d))))
      else fst (require_incident_active (dk_incident d))), d)"
  by (simp add: require_active_def ibind_def on_incident_def require_incident_active_eq)

lemma require_active_bind: "ibind require_active f d =
    (case fst (require_active d) of Inl e \<Rightarrow> (Inl e, d) | Inr u \<Rightarrow> f u d)"
  by (simp add: ibind_def require_active_eq split: sum.split)

lemma elapsed_bind: "\<exists>e i. used n (dk_incident d) i \<and> ibind (elapsed_time be) f d = f e (d\<lparr> dk_incident := i \<rparr>)"
proof -
  obtain t w where t: "be_now be (pi_world (dk_incident d)) = (t, w)" by fastforce
  let ?i = "(dk_incident d)\<lparr> pi_world := w \<rparr>"
  have "used n (dk_incident d) ?i" using used_now [of n "dk_incident d" be] by (simp add: read_now_def t)
  then show ?thesis
    by (intro exI [of _ "max 0 (fsub t (ss_started_at (dk_session d)))"] exI [of _ ?i])
      (simp add: elapsed_time_def ibind_def on_incident_def read_now_def t)
qed

lemma limit_bind: "ibind (limit_transition e) f d =
    (case limit_message (dk_session d) e of
       None \<Rightarrow> f None d
     | Some msg \<Rightarrow> (\<lambda>tr. f (Some tr) (d\<lparr> dk_session := (dk_session d)\<lparr> ss_state := Session_terminal \<rparr> \<rparr>))
         ((new_transition Session_terminal)\<lparr> tr_reward := Some 0, tr_reward_components := [(''outcome'', 0)],
            tr_metrics := session_metrics (dk_session d) e, tr_termination_reason := Some Limit_exhausted,
            tr_failure := Some (plain_failure Agent ''limits'' msg), tr_error := Some msg \<rparr>))"
  by (simp add: limit_transition_def ibind_def on_session_def split: option.split)

lemma below_limit: "limit_message ss e = None \<Longrightarrow> ss_tool_calls ss < max_tool_calls (ss_config ss)"
  by (simp add: limit_message_def split: if_splits)

lemma io_binds:
  "ibind (on_session g) f d = f () (d\<lparr> dk_session := g (dk_session d) \<rparr>)" "ibind (iget h) k s = k (h s) s"
  "ibind (iattempt m) k' s' = (case m s' of (r, t) \<Rightarrow> k' r t)"
  "ibind (on_incident m') k2 d' = (case m' (dk_incident d') of (r, i) \<Rightarrow>
     (case r of Inl e \<Rightarrow> (Inl e, d'\<lparr> dk_incident := i \<rparr>) | Inr x \<Rightarrow> k2 x (d'\<lparr> dk_incident := i \<rparr>)))"
  by (simp_all add: ibind_def on_session_def on_incident_def iattempt_def split: prod.split sum.split)

text \<open>The frame of an operation: the checks, the clock and the limits, then \<open>body\<close>.\<close>

lemma limited_step:
  assumes body: "\<And>e i. used 0 (dk_incident d) i \<Longrightarrow> ss_state (dk_session d) = Session_active
      \<Longrightarrow> ss_tool_calls (dk_session d) < max_tool_calls (ss_config (dk_session d)) \<Longrightarrow> desk_step d (snd (body e (d\<lparr> dk_incident := i \<rparr>)))"
  shows "desk_step d (snd (ibind require_active (\<lambda>_. ibind (elapsed_time be) (\<lambda>elapsed.
     ibind (limit_transition elapsed) (\<lambda>limit. (case limit of Some tr \<Rightarrow> ireturn tr | None \<Rightarrow> body elapsed)))) d))"
proof (cases "fst (require_active d)")
  case (Inr u)
  then have act: "ss_state (dk_session d) = Session_active" by (simp add: require_active_eq split: if_splits)
  let ?f = "\<lambda>elapsed. ibind (limit_transition elapsed) (\<lambda>limit. (case limit of Some tr \<Rightarrow> ireturn tr | None \<Rightarrow> body elapsed))"
  obtain e i where i: "used 0 (dk_incident d) i" "ibind (elapsed_time be) ?f d = ?f e (d\<lparr> dk_incident := i \<rparr>)"
    using elapsed_bind [of 0 d be ?f] by blast
  show ?thesis
  proof (cases "limit_message (dk_session d) e")
    case (Some msg)
    then show ?thesis
      using i act Inr by (simp add: require_active_bind limit_bind desk_step_def Let_def session_ok_def)
  next
    case None
    then show ?thesis
      using i body [OF i(1) act below_limit [OF None], of e] Inr by (simp add: require_active_bind limit_bind)
  qed
qed (simp add: require_active_bind)

lemma call_tool_step: "desk_step d (snd (session_call_tool be a d))"
  unfolding session_call_tool_def
proof (rule limited_step)
  fix e i
  assume i: "used 0 (dk_incident d) i" and act: "ss_state (dk_session d) = Session_active"
    and lim: "ss_tool_calls (dk_session d) < max_tool_calls (ss_config (dk_session d))"
  let ?t = "fadd (ss_started_at (dk_session d)) (of_int (max_agent_seconds (ss_config (dk_session d))))"
  let ?ss = "count_tool_call a (dk_session d)"
  have "used (0 + 1) (dk_incident d) (snd (ibind (enter_deadline be ?t) (\<lambda>_. incident_call_tool be a) i))"
    using i used_deadline_call by (rule used_trans)
  moreover have "used 1 (dk_incident d) i" using i by (rule used_mono) simp
  moreover obtain r i1 where r: "ibind (enter_deadline be ?t) (\<lambda>_. incident_call_tool be a) i = (r, i1)" by fastforce
  moreover have "dk_session (snd (counted_tool_call be a e (d\<lparr> dk_incident := i \<rparr>))) = ?ss
      \<and> dk_incident (snd (counted_tool_call be a e (d\<lparr> dk_incident := i \<rparr>))) \<in> {i, i1}"
    by (simp add: counted_tool_call_def io_binds on_incident_def Let_def count_tool_call_def r)
  ultimately show "desk_step d (snd (counted_tool_call be a e (d\<lparr> dk_incident := i \<rparr>)))"
    using act lim by (auto simp: desk_step_def Let_def session_ok_def count_tool_call_def)
qed

lemma submit_step: "desk_step d (snd (session_submit be dg usage calls time md d))"
  unfolding session_submit_def
proof (rule limited_step)
  fix e i
  assume i: "used 0 (dk_incident d) i" and act: "ss_state (dk_session d) = Session_active"
  let ?calls = "case calls of Some (c # cs) \<Rightarrow> c # cs | _ \<Rightarrow> ss_tool_call_records (dk_session (d\<lparr> dk_incident := i \<rparr>))"
  let ?time = "case time of None \<Rightarrow> e | Some t \<Rightarrow> max 0 t"
  obtain r i' where r: "incident_evaluate be dg (Some ?calls) ?time md i = (r, i')" by fastforce
  have "used (0 + 0) (dk_incident d) i'" using used_trans [OF i used_evaluate] r by (metis snd_conv)
  moreover have "snd (evaluated_submission be dg usage calls time md e (d\<lparr> dk_incident := i \<rparr>)) = (case r of
      Inl _ \<Rightarrow> d\<lparr> dk_incident := i' \<rparr>
    | Inr (_, _, result) \<Rightarrow> \<lparr> dk_incident = i', dk_session = (dk_session d)\<lparr> ss_evaluation_result := Some result, ss_state := Session_terminal \<rparr> \<rparr>)"
  proof (cases r)
    case (Inl x)
    then show ?thesis by (simp add: evaluated_submission_def io_binds Let_def r)
  next
    case (Inr x)
    then show ?thesis
      by (cases x) (simp add: evaluated_submission_def io_binds Let_def r)
  qed
  ultimately show "desk_step d (snd (evaluated_submission be dg usage calls time md e (d\<lparr> dk_incident := i \<rparr>)))"
    using act by (auto simp: desk_step_def Let_def session_ok_def split: sum.split)
qed

lemma terminate_step: "desk_step d (snd (session_terminate_failure be dm msg reason d))"
proof (cases "fst (require_active d)")
  case (Inr u)
  then have act: "ss_state (dk_session d) = Session_active" by (simp add: require_active_eq split: if_splits)
  let ?d = "d\<lparr> dk_session := (dk_session d)\<lparr> ss_state := Session_terminal \<rparr> \<rparr>"
  let ?f = "\<lambda>elapsed. ibind (iget dk_session) (\<lambda>ss. ireturn ((new_transition Session_terminal)\<lparr> tr_reward := Some 0, tr_reward_components := [(''outcome'', 0)],
       tr_metrics := session_metrics ss elapsed, tr_termination_reason := Some reason,
       tr_failure := Some (plain_failure dm ''diagnosis'' msg), tr_error := Some msg \<rparr>))"
  obtain e i where "used 0 (dk_incident ?d) i" "ibind (elapsed_time be) ?f ?d = ?f e (?d\<lparr> dk_incident := i \<rparr>)"
    using elapsed_bind [of 0 ?d be ?f] by blast
  then show ?thesis
    using act Inr by (simp add: session_terminate_failure_def require_active_bind io_binds)
      (simp add: desk_step_def Let_def session_ok_def)
qed (simp add: session_terminate_failure_def require_active_bind)

subsection \<open>Reachable systems\<close>

lemma calls_append [simp]: "tool_calls_made (xs @ ys) = tool_calls_made xs + tool_calls_made ys"
  by (simp add: tool_calls_made_def)

lemma finish_calls: "tool_calls_made (pi_trace (snd (finish_backend be b s))) = tool_calls_made (pi_trace s)"
proof -
  obtain r w where f: "be_finish be b (pi_world s) = (r, w)" by fastforce
  show ?thesis
    by (cases r; auto simp: finish_backend_def ibind_def iattempt_def backend_do_def f notify_close_def iwhen_def tool_calls_made_def
        split: option.splits prod.splits sum.splits)
qed

lemma prepare_calls: "tool_calls_made (pi_trace (snd (incident_prepare be s))) = tool_calls_made (pi_trace s)"
proof -
  obtain r w where p: "be_prepare be (be_scenario be) (pi_world s) = (r, w)" by fastforce
  show ?thesis
    by (cases r) (simp_all add: incident_prepare_def ibind_def iattempt_def backend_do_def p finish_calls, simp_all add: tool_calls_made_def)
qed

lemma close_calls: "tool_calls_made (pi_trace (snd (incident_close be s))) = tool_calls_made (pi_trace s)"
proof -
  have "\<exists>s'. pi_trace s' = pi_trace s \<and> snd (incident_close be s) \<in> {s, snd (finish_backend be (pi_state s = Broken) s')}"
    by (intro exI [of _ "if pi_state s = Broken then s else s\<lparr> pi_state := Closing \<rparr>"])
      (auto simp: incident_close_def ibind_def iwhen_def Let_def split: prod.splits sum.splits)
  then show ?thesis by (auto simp: finish_calls)
qed

definition system_inv :: "'w backend \<Rightarrow> 'w system \<Rightarrow> bool" where
  "system_inv be s \<longleftrightarrow> lifecycle be (sy_incident s) \<and> (\<forall>ss \<in> set (sy_sessions s). session_ok ss)
     \<and> int (tool_calls_made (pi_trace (sy_incident s))) \<le> sum_list (map ss_tool_calls (sy_sessions s))"

lemma sum_list_map_update: "i < length xs \<Longrightarrow> sum_list (map f (xs[i := y])) = sum_list (map f xs) + f y - f (xs ! i)" for f :: "'a \<Rightarrow> int"
proof (induction xs arbitrary: i)
  case (Cons x xs)
  then show ?case by (cases i) auto
qed simp

lemma used_calls: "used n s s' \<Longrightarrow> tool_calls_made (pi_trace s') \<le> tool_calls_made (pi_trace s) + n"
  by (auto simp: used_def)

lemma at_session_inv:
  assumes inv: "system_inv be s" and step: "\<And>d. desk_step d (snd (m d))"
  shows "system_inv be (at_session i m s)"
proof (cases "i < length (sy_sessions s)")
  case True
  let ?d = "\<lparr> dk_incident = sy_incident s, dk_session = sy_sessions s ! i \<rparr>"
  let ?d' = "snd (m ?d)"
  have d: "desk_step ?d ?d'" by (rule step)
  have s': "at_session i m s = \<lparr> sy_incident = dk_incident ?d', sy_sessions = (sy_sessions s)[i := dk_session ?d'] \<rparr>"
    using True by (simp add: at_session_def Let_def)
  have u: "used (nat (ss_tool_calls (dk_session ?d') - ss_tool_calls (sy_sessions s ! i))) (sy_incident s) (dk_incident ?d')"
    and le: "ss_tool_calls (sy_sessions s ! i) \<le> ss_tool_calls (dk_session ?d')"
    and ok: "session_ok (sy_sessions s ! i) \<longrightarrow> session_ok (dk_session ?d')"
    using d by (simp_all add: desk_step_def Let_def)
  have "lifecycle be (dk_incident ?d')" using inv u by (auto simp: system_inv_def intro: lifecycle_used)
  moreover have "\<forall>ss \<in> set ((sy_sessions s)[i := dk_session ?d']). session_ok ss"
    using inv ok True by (auto simp: system_inv_def dest!: set_update_subset_insert [THEN subsetD])
  moreover have "int (tool_calls_made (pi_trace (dk_incident ?d'))) \<le> sum_list (map ss_tool_calls ((sy_sessions s)[i := dk_session ?d']))"
  proof -
    have "int (tool_calls_made (pi_trace (dk_incident ?d')))
        \<le> int (tool_calls_made (pi_trace (sy_incident s))) + (ss_tool_calls (dk_session ?d') - ss_tool_calls (sy_sessions s ! i))"
      using used_calls [OF u] le by linarith
    then show ?thesis using inv by (simp add: system_inv_def sum_list_map_update [OF True])
  qed
  ultimately show ?thesis by (simp add: system_inv_def s')
qed (use inv in \<open>simp add: at_session_def\<close>)

lemma open_session_ok: "open_session be c s = (Inr ss, s') \<Longrightarrow> session_ok ss \<and> ss_tool_calls ss = 0"
  by (auto simp: open_session_def ibind_eq_Inr session_ok_def new_session_def split: option.splits)

lemma open_inv:
  assumes "system_inv be s"
  shows "system_inv be (perform be (Op_open c) s)"
proof -
  obtain r i where o: "open_session be c (sy_incident s) = (r, i)" by fastforce
  have u: "used 0 (sy_incident s) i" using used_open [of "sy_incident s" be c] by (simp add: o)
  then have i: "lifecycle be i" "tool_calls_made (pi_trace i) \<le> tool_calls_made (pi_trace (sy_incident s))"
    using assms used_calls [OF u] by (auto simp: system_inv_def intro: lifecycle_used)
  show ?thesis
  proof (cases r)
    case (Inl e)
    then show ?thesis using assms i by (simp add: o system_inv_def)
  next
    case (Inr ss)
    then show ?thesis using assms i open_session_ok [of be c "sy_incident s" ss i] o by (auto simp: system_inv_def)
  qed
qed

lemma agent_cleanup_inv:
  assumes "system_inv be s"
  shows "system_inv be (perform be (Op_agent_cleanup i t) s)"
proof (cases "i < length (sy_sessions s)")
  case True
  then have "\<forall>ss \<in> set ((sy_sessions s)[i := (sy_sessions s ! i)\<lparr> ss_agent_cleanup_seconds := t \<rparr>]). session_ok ss"
    using assms by (auto simp: system_inv_def session_ok_def dest!: set_update_subset_insert [THEN subsetD] split: if_splits)
  then show ?thesis using True assms by (simp add: at_session_def on_session_def Let_def system_inv_def sum_list_map_update)
qed (use assms in \<open>simp add: at_session_def\<close>)

lemma system_reachable_inv: "system_reachable be s \<Longrightarrow> system_inv be s"
proof (induction rule: system_reachable.induct)
  case (start w)
  show ?case by (simp add: system_inv_def new_incident_def lifecycle_def tool_calls_made_def)
next
  case (step s op)
  then show ?case
  proof (cases op)
    case Op_prepare
    then show ?thesis using step.IH by (simp add: system_inv_def lifecycle_prepare prepare_calls)
  next
    case (Op_open c)
    then show ?thesis using open_inv [OF step.IH] by simp
  next
    case (Op_tool i a)
    then show ?thesis using at_session_inv [OF step.IH call_tool_step] by simp
  next
    case (Op_submit i d u c t md)
    then show ?thesis using at_session_inv [OF step.IH submit_step] by simp
  next
    case (Op_terminate i dm msg reason)
    then show ?thesis using at_session_inv [OF step.IH terminate_step] by simp
  next
    case (Op_agent_cleanup i t)
    then show ?thesis using agent_cleanup_inv [OF step.IH] by simp
  next
    case Op_close
    then show ?thesis using step.IH by (simp add: system_inv_def lifecycle_close close_calls)
  qed
qed

subsection \<open>Properties\<close>

text \<open>C31: the incident engine follows its protocol. In every reachable system of an incident and its sessions, whatever
  the backend returns or raises, the backend was prepared at most once and first, used only between preparation and
  finish, finished at most once and never used afterwards, and the close callback ran exactly once after the finish; the state
  agrees with the recorded failures and cleanup. Every session keeps within its tool budget and has a result
  only when it is terminal, and no more tools were called than the sessions counted.\<close>

theorem incident_lifecycle:
  assumes "system_reachable be s"
  shows "lifecycle be (sy_incident s) \<and> (\<forall>ss \<in> set (sy_sessions s). session_ok ss)
     \<and> int (tool_calls_made (pi_trace (sy_incident s))) \<le> sum_list (map ss_tool_calls (sy_sessions s))"
  using system_reachable_inv [OF assms] by (simp add: system_inv_def)

definition healthy_scenario :: scenario_spec where
  "healthy_scenario = \<lparr> scenario_id = ''s'', sc_name = ''s'', sc_description = [], topology_scale = ''xs'',
     sc_episode = \<lparr> episode_id = ''e'', ep_description = [], fault_type = ''none'', target_device = None, target_interface = None,
       target_prefix = None, ep_mtu = None, duration_seconds = 30, stabilization_time = 10, ep_metadata = [], ep_parameters = [] \<rparr>,
     sc_metadata = [], sc_parameters = [] \<rparr>"

definition quiet_backend :: "unit backend" where
  "quiet_backend = \<lparr> be_prepare = \<lambda>_ w. (Inr [], w), be_call = \<lambda>_ w. (Inr [(''up'', PBool True)], w), be_refresh = \<lambda>_ w. (Inr (), w),
     be_finish = \<lambda>_ w. (Inr (), w), be_on_close = Some (\<lambda>w. (Inr (), w)), be_now = \<lambda>w. (0, w), be_valid_call = \<lambda>_ _. True,
     be_topology = None, be_scenario = healthy_scenario, be_digest = ''0123456789abcdef'', be_evaluator = create_default_evaluator,
     be_default_config = Some default_simulator_config, be_outer_deadline = None, be_frepr = \<lambda>_. ''0.0'' \<rparr>"

definition pinged_system :: "unit system" where
  "pinged_system = perform quiet_backend Op_close (perform quiet_backend (Op_tool 0 \<lparr> ta_name = ''ping'', ta_arguments = [] \<rparr>)
     (perform quiet_backend (Op_open None) (perform quiet_backend Op_prepare \<lparr> sy_incident = new_incident (), sy_sessions = [] \<rparr>)))"

lemma pinged_trace:
  "pi_trace (sy_incident pinged_system) = [Prepare_event, Refresh_event 300, Refresh_event 0, Call_event ''ping'', Refresh_event 0, Finish_event False, Close_event]
   \<and> pi_state (sy_incident pinged_system) = Closed \<and> map ss_tool_calls (sy_sessions pinged_system) = [1]"
  by code_simp

theorem incident_lifecycle_witness:
  "system_reachable quiet_backend pinged_system \<and> pi_state (sy_incident pinged_system) = Closed
   \<and> lifecycle quiet_backend (sy_incident pinged_system) \<and> list_all session_ok (sy_sessions pinged_system)
   \<and> tool_calls_made (pi_trace (sy_incident pinged_system)) = 1"
proof -
  have r: "system_reachable quiet_backend pinged_system"
    unfolding pinged_system_def by (intro system_reachable.intros)
  have "tool_calls_made (pi_trace (sy_incident pinged_system)) = 1" by (simp add: pinged_trace tool_calls_made_def)
  then show ?thesis using incident_lifecycle [OF r] r pinged_trace by (simp add: list_all_iff)
qed

text \<open>C32: what is over stays over. On a terminal session, or on a session of an incident that is not active, tool
  calls, submissions and failure reports raise a \<open>RuntimeError\<close> that names the state, and change nothing: neither the session nor
  the incident, its backend included.\<close>

theorem finished_session_rejects:
  assumes "ss_state (dk_session d) \<noteq> Session_active \<or> pi_state (dk_incident d) \<noteq> Active"
  shows "\<exists>msg. session_call_tool be a d = (Inl (RuntimeError msg), d)
     \<and> session_submit be dg usage calls time md d = (Inl (RuntimeError msg), d)
     \<and> session_terminate_failure be dm text reason d = (Inl (RuntimeError msg), d)
     \<and> (msg = ''Diagnostic session is not active: '' @ session_state_text (ss_state (dk_session d))
        \<or> msg = ''Incident is not active: '' @ incident_state_text (pi_state (dk_incident d)))"
  using assms
  by (auto simp: session_call_tool_def session_submit_def session_terminate_failure_def require_active_bind require_active_eq
      require_incident_active_eq)

definition closed_desk :: "unit desk" where
  "closed_desk = \<lparr> dk_incident = sy_incident pinged_system, dk_session = hd (sy_sessions pinged_system) \<rparr>"

theorem finished_session_rejects_witness:
  "\<exists>msg. session_call_tool quiet_backend \<lparr> ta_name = ''ping'', ta_arguments = [] \<rparr> closed_desk = (Inl (RuntimeError msg), closed_desk)"
proof -
  have "ss_state (dk_session closed_desk) \<noteq> Session_active \<or> pi_state (dk_incident closed_desk) \<noteq> Active"
    using pinged_trace by (simp add: closed_desk_def)
  then show ?thesis using finished_session_rejects [of closed_desk quiet_backend "\<lparr> ta_name = ''ping'', ta_arguments = [] \<rparr>"] by blast
qed

text \<open>C33: a submission is rewarded with its evaluation. When a submission returns a transition, the session is terminal and
  either a limit was exhausted, the reward is 0 and no result is stored, or the reward is the score that the
  evaluator gives the submitted diagnosis, with the recorded tool calls unless others are given, against the
  ground truth of the incident's episode, and the evaluation is stored in the session.\<close>

theorem submission_rewarded:
  assumes "session_submit be dg usage calls time md d = (Inr tr, d')"
  shows "ss_state (dk_session d') = Session_terminal \<and> tr_state tr = Session_terminal
     \<and> (tr_termination_reason tr = Some Limit_exhausted \<and> tr_reward tr = Some 0
          \<and> ss_evaluation_result (dk_session d') = ss_evaluation_result (dk_session d)
        \<or> tr_termination_reason tr = Some Submitted
          \<and> (\<exists>gt t cid er. incident_truth be = Inr gt
             \<and> evaluate (be_frepr be) (be_evaluator be)
                 (submission_output dg (case calls of Some (c # cs) \<Rightarrow> c # cs | _ \<Rightarrow> ss_tool_call_records (dk_session d)) t
                    (case md of Some m \<Rightarrow> m | None \<Rightarrow> [])) gt cid = Inr er
             \<and> tr_reward tr = Some (er_score er) \<and> ss_evaluation_result (dk_session d') = Some (evaluation_result_to_dict er)))"
proof -
  let ?f = "\<lambda>elapsed. ibind (limit_transition elapsed) (\<lambda>limit.
     (case limit of Some tr \<Rightarrow> ireturn tr | None \<Rightarrow> evaluated_submission be dg usage calls time md elapsed))"
  have "session_submit be dg usage calls time md d = ibind (elapsed_time be) ?f d"
    using assms by (simp add: session_submit_def require_active_bind split: sum.splits)
  then obtain e i where run: "session_submit be dg usage calls time md d = ?f e (d\<lparr> dk_incident := i \<rparr>)"
    using elapsed_bind [of 0 d be ?f] by metis
  show ?thesis
  proof (cases "limit_message (dk_session d) e")
    case (Some msg)
    then show ?thesis using assms run by (auto simp: limit_bind new_transition_def)
  next
    case None
    let ?calls = "case calls of Some (c # cs) \<Rightarrow> c # cs | _ \<Rightarrow> ss_tool_call_records (dk_session (d\<lparr> dk_incident := i \<rparr>))"
    let ?time = "case time of None \<Rightarrow> e | Some t \<Rightarrow> max 0 t"
    have "evaluated_submission be dg usage calls time md e (d\<lparr> dk_incident := i \<rparr>) = (Inr tr, d')"
      using assms run None by (simp add: limit_bind)
    then obtain reward metrics result i' where ev: "incident_evaluate be dg (Some ?calls) ?time md i = (Inr (reward, metrics, result), i')"
      and tr: "tr = submit_transition (dk_session d) e ?calls usage reward metrics"
      and d': "dk_session d' = (dk_session d)\<lparr> ss_evaluation_result := Some result, ss_state := Session_terminal \<rparr>"
      by (auto simp: evaluated_submission_def io_binds Let_def split: prod.splits sum.splits)
    then obtain gt cid er where "incident_truth be = Inr gt"
      "evaluate (be_frepr be) (be_evaluator be) (submission_output dg ?calls ?time (case md of Some m \<Rightarrow> m | None \<Rightarrow> [])) gt cid = Inr er"
      "reward = er_score er" "result = evaluation_result_to_dict er"
      by (auto simp: incident_evaluate_def ibind_eq_Inr)
    moreover have "?calls = (case calls of Some (c # cs) \<Rightarrow> c # cs | _ \<Rightarrow> ss_tool_call_records (dk_session d))"
      by (simp split: option.split list.split)
    ultimately show ?thesis
      by (intro conjI disjI2 exI [of _ gt] exI [of _ ?time] exI [of _ cid] exI [of _ er])
        (simp_all add: tr d' submit_transition_def new_transition_def)
  qed
qed

definition open_desk :: "unit desk" where
  "open_desk = \<lparr> dk_incident = (new_incident ())\<lparr> pi_state := Active \<rparr>, dk_session = new_session default_simulator_config 0 \<rparr>"

definition healthy_submission :: diagnosis_submission where
  "healthy_submission = \<lparr> ds_verdict = ''network_healthy'', ds_fault_type = None, ds_location = \<lparr> dl_device = None, dl_interface = None \<rparr>,
     ds_evidence = [], ds_confidence = 1, ds_reasoning = [] \<rparr>"

lemma healthy_submitted:
  "(case session_submit quiet_backend healthy_submission None None None None open_desk of
      (Inl _, _) \<Rightarrow> False | (Inr tr, _) \<Rightarrow> tr_reward tr = Some 1 \<and> tr_termination_reason tr = Some Submitted)"
  by code_simp

theorem submission_rewarded_witness:
  "\<exists>tr d' er. session_submit quiet_backend healthy_submission None None None None open_desk = (Inr tr, d')
     \<and> tr_reward tr = Some 1 \<and> ss_state (dk_session d') = Session_terminal
     \<and> er_score er = 1 \<and> ss_evaluation_result (dk_session d') = Some (evaluation_result_to_dict er)"
proof -
  obtain tr d' where s: "session_submit quiet_backend healthy_submission None None None None open_desk = (Inr tr, d')"
    "tr_reward tr = Some 1" "tr_termination_reason tr = Some Submitted"
    using healthy_submitted by (auto split: prod.splits sum.splits)
  show ?thesis using submission_rewarded [OF s(1)] s by auto
qed

end
