(* ===== verification/Detector_Coverage.thy ===== *)
theory Detector_Coverage
  imports Pingmesh_Planner Py_Text
begin

text \<open>
  The audit of recorded Pingmesh rows against the compiled plan (\<open>pingmesh/_detector_coverage.py\<close>): what the plan expects of
  every client and cycle, the judgment of each row, and the summary. A row is a dictionary of values, as
  the query parser returns it.
  Shown: the audit judges a set of rows complete exactly when every row records a probe of the plan from a healthy
  socket batch and every pair has been probed on every port batch; the rows of one healthy epoch of a compiled
  plan are complete; and a row that explains its send errors by regular loss has seen at least three lost packets.
\<close>

subsection \<open>Rows\<close>

definition field_int :: "pydict \<Rightarrow> string \<Rightarrow> int option" where
  "field_int row k = (case map_of row k of
       None \<Rightarrow> None
     | Some v \<Rightarrow> (case int_of_val v of Inr i \<Rightarrow> Some i | Inl _ \<Rightarrow> None))"

text \<open>\<open>row.get(key) in (None, "")\<close>.\<close>

definition absent :: "pydict \<Rightarrow> string \<Rightarrow> bool" where
  "absent row k = (case get_val row k of PNone \<Rightarrow> True | PStr s \<Rightarrow> s = [] | _ \<Rightarrow> False)"

text \<open>A name that is known to be text.\<close>

definition row_text :: "pydict \<Rightarrow> string \<Rightarrow> string" where
  "row_text row k = (case get_val row k of PStr s \<Rightarrow> s | _ \<Rightarrow> [])"

text \<open>\<open>str(row.get("_time") or row.get("time") or "")\<close>.\<close>

definition row_time :: "(rat \<Rightarrow> string) \<Rightarrow> pydict \<Rightarrow> string" where
  "row_time frepr row = str_or_empty frepr (val_or (get_val row ''_time'') (get_val row ''time''))"

subsection \<open>What the plan expects\<close>

text \<open>A frame as the audit sees it: the destination batch, the port batch and the names of the targets.\<close>

type_synonym expected_frame = "int \<times> int \<times> string set"

type_synonym probe_task = "string \<times> string \<times> int"

record expectations =
  ex_combinations :: "probe_task set"
  ex_frames :: "(string \<times> int, expected_frame) dict"
  ex_destinations :: "int set"

definition frame_names :: "client_probe_plan \<Rightarrow> probe_frame \<Rightarrow> string set res" where
  "frame_names c f = rbind (rmapM (\<lambda>i. if i < length (targets c) then Inr (targets c ! i)
        else Inl (IndexError ''list index out of range'')) (target_indices f)) (\<lambda>ns. Inr (set ns))"

definition expect_frame :: "client_probe_plan \<Rightarrow> expectations \<Rightarrow> nat \<times> probe_frame \<Rightarrow> expectations res" where
  "expect_frame c ex cf = (case cf of (cycle, f) \<Rightarrow>
     rbind (frame_names c f) (\<lambda>names. Inr \<lparr>
       ex_combinations = ex_combinations ex \<union> (\<lambda>name. (plan_client c, name, int (port_batch_index f))) ` names,
       ex_frames = AList.update (plan_client c, int cycle) (int (destination_batch_index f), int (port_batch_index f), names) (ex_frames ex),
       ex_destinations = (if names = {} then ex_destinations ex else insert (int (destination_batch_index f)) (ex_destinations ex)) \<rparr>))"

definition expect_client :: "expectations \<Rightarrow> client_probe_plan \<Rightarrow> expectations res" where
  "expect_client ex c = rfoldM (expect_frame c) ex (enumerate 0 (frames c))"

definition compile_coverage_expectations :: "pingmesh_plan \<Rightarrow> expectations res" where
  "compile_coverage_expectations plan =
     rfoldM expect_client \<lparr> ex_combinations = {}, ex_frames = [], ex_destinations = {} \<rparr> (plan_clients plan)"

subsection \<open>The judgment of a row\<close>

text \<open>\<open>_expected_frames.get((source, cycle % epoch))\<close>; a source that is no text is in no frame, one that cannot be hashed raises.\<close>

definition row_frame :: "plan_settings \<Rightarrow> expectations \<Rightarrow> pydict \<Rightarrow> expected_frame option res" where
  "row_frame st ex row = (case field_int row ''probe_cycle'' of
       None \<Rightarrow> Inr None
     | Some cycle \<Rightarrow>
         if cycle < 0 then Inr None
         else let source = get_val row ''src_name'' in
           if \<not> hashable source then Inl (TypeError ''unhashable type'')
           else Inr (case source of PStr s \<Rightarrow> map_of (ex_frames ex) (s, cycle mod int (coverage_epoch_cycles st)) | _ \<Rightarrow> None))"

text \<open>The frame of a row that the plan expects, \<open>None\<close> for an unexpected row.\<close>

definition matching_frame :: "plan_settings \<Rightarrow> expectations \<Rightarrow> pydict \<Rightarrow> expected_frame option res" where
  "matching_frame st ex row =
     rbind (row_frame st ex row) (\<lambda>frame. (case frame of
        None \<Rightarrow> Inr None
      | Some (destination_batch, port_batch, names) \<Rightarrow>
          if get_val row ''plan_id'' \<noteq> PStr (plan_id st) \<or> field_int row ''destination_batch_index'' \<noteq> Some destination_batch
             \<or> field_int row ''port_batch_index'' \<noteq> Some port_batch then Inr None
          else let destination = get_val row ''dst_name'' in
            if \<not> hashable destination then Inl (TypeError ''unhashable type'')
            else Inr (case destination of PStr d \<Rightarrow> if d \<in> names then Some (destination_batch, port_batch, names) else None
                      | _ \<Rightarrow> None)))"

definition has_expected_socket_batch :: "plan_settings \<Rightarrow> pydict \<Rightarrow> bool" where
  "has_expected_socket_batch st row = (case field_int row ''port_batch_index'' of
       None \<Rightarrow> False
     | Some b \<Rightarrow> 0 \<le> b \<and> b < int (length (port_batches st))
         \<and> field_int row ''rtt_ports_total'' = Some (int (length (source_ports st)))
         \<and> field_int row ''rtt_ports_active'' = Some (int (length (port_batches st ! nat b))))"

definition has_valid_socket_batch :: "plan_settings \<Rightarrow> pydict \<Rightarrow> bool" where
  "has_valid_socket_batch st row = (has_expected_socket_batch st row \<and> field_int row ''local_probe_errors'' = Some 0)"

definition required_fields :: "string list" where
  "required_fields = [''plan_id'', ''src_name'', ''dst_name'', ''probe_cycle'', ''destination_batch_index'', ''port_batch_index'',
     ''rtt_ports_active'', ''rtt_ports_total'', ''local_probe_errors'']"

definition reported_fields :: "string list" where
  "reported_fields = [''_time'', ''src_name'', ''dst_name'', ''plan_id'', ''probe_cycle'', ''destination_batch_index'', ''port_batch_index'']"

record invalid_row =
  iv_src :: string
  iv_dst :: string
  iv_port_batch_index :: int
  iv_probe_cycle :: "int option"
  iv_time :: string
  iv_local_probe_errors :: "int option"
  iv_socket_batch_valid :: bool

record row_audit =
  au_valid :: "pydict list"
  au_invalid_rows :: "invalid_row list"
  au_invalid_tasks :: "probe_task set"
  au_invalid_socket_rows :: int
  au_unexpected_rows :: int
  au_incomplete_record_rows :: int
  au_unexpected_records :: "pydict list"

definition new_audit :: row_audit where
  "new_audit = \<lparr> au_valid = [], au_invalid_rows = [], au_invalid_tasks = {}, au_invalid_socket_rows = 0, au_unexpected_rows = 0,
     au_incomplete_record_rows = 0, au_unexpected_records = [] \<rparr>"

definition count_incomplete :: "pydict \<Rightarrow> row_audit \<Rightarrow> row_audit" where
  "count_incomplete row au = (if list_ex (absent row) required_fields
     then au\<lparr> au_incomplete_record_rows := au_incomplete_record_rows au + 1 \<rparr> else au)"

definition count_unexpected :: "pydict \<Rightarrow> row_audit \<Rightarrow> row_audit" where
  "count_unexpected row au = au\<lparr> au_unexpected_rows := au_unexpected_rows au + 1,
     au_unexpected_records := au_unexpected_records au
       @ (if length (au_unexpected_records au) < 20 then [map (\<lambda>k. (k, get_val row k)) reported_fields] else []) \<rparr>"

definition count_invalid :: "(rat \<Rightarrow> string) \<Rightarrow> plan_settings \<Rightarrow> int \<Rightarrow> pydict \<Rightarrow> row_audit \<Rightarrow> row_audit" where
  "count_invalid frepr st port_batch row au = au\<lparr> au_invalid_socket_rows := au_invalid_socket_rows au + 1,
     au_invalid_tasks := insert (row_text row ''src_name'', row_text row ''dst_name'', port_batch) (au_invalid_tasks au),
     au_invalid_rows := au_invalid_rows au @ [\<lparr> iv_src = row_text row ''src_name'', iv_dst = row_text row ''dst_name'',
       iv_port_batch_index = port_batch, iv_probe_cycle = field_int row ''probe_cycle'', iv_time = row_time frepr row,
       iv_local_probe_errors = field_int row ''local_probe_errors'', iv_socket_batch_valid = has_expected_socket_batch st row \<rparr>] \<rparr>"

definition audit_row :: "(rat \<Rightarrow> string) \<Rightarrow> plan_settings \<Rightarrow> expectations \<Rightarrow> row_audit \<Rightarrow> pydict \<Rightarrow> row_audit res" where
  "audit_row frepr st ex au row =
     rbind (matching_frame st ex row) (\<lambda>frame. Inr (let au' = count_incomplete row au in
       (case frame of
          None \<Rightarrow> count_unexpected row au'
        | Some (_, port_batch, _) \<Rightarrow>
            if \<not> has_valid_socket_batch st row then count_invalid frepr st port_batch row au'
            else au'\<lparr> au_valid := au_valid au' @ [row] \<rparr>)))"

subsection \<open>The summary\<close>

record coverage_summary =
  cs_plan_id :: string
  cs_coverage_status :: string
  cs_expected_epoch_cycles :: int
  cs_observed_cycle_span :: int
  cs_min_source_cycle_span :: int
  cs_source_clients_observed :: int
  cs_expected_source_clients :: int
  cs_destination_pairs_observed :: int
  cs_expected_destination_pairs :: int
  cs_pair_port_combinations_observed :: int
  cs_expected_pair_port_combinations :: int
  cs_missing_pair_port_combinations :: int
  cs_missing_tasks :: "probe_task list"
  cs_invalid_tasks :: "probe_task list"
  cs_invalid_rows :: "invalid_row list"
  cs_observable_pairs :: "(string \<times> string) list"
  cs_min_samples_per_pair :: int
  cs_port_batches_observed :: "int list"
  cs_destination_batches_observed :: "int list"
  cs_missing_port_batches :: "int list"
  cs_missing_destination_batches :: "int list"
  cs_missing_source_clients :: int
  cs_invalid_socket_rows :: int
  cs_unexpected_rows :: int
  cs_incomplete_record_rows :: int
  cs_unexpected_records :: "pydict list"

text \<open>\<open>int(row[key])\<close> of a valid row, where it is known to succeed.\<close>

definition row_int :: "pydict \<Rightarrow> string \<Rightarrow> int" where
  "row_int row k = (case field_int row k of Some i \<Rightarrow> i | None \<Rightarrow> 0)"

definition row_pair :: "pydict \<Rightarrow> string \<times> string" where
  "row_pair row = (row_text row ''src_name'', row_text row ''dst_name'')"

definition row_task :: "pydict \<Rightarrow> probe_task" where
  "row_task row = (row_text row ''src_name'', row_text row ''dst_name'', row_int row ''port_batch_index'')"

definition count_keys :: "'k list \<Rightarrow> ('k, int) dict" where
  "count_keys ks = fold (\<lambda>k. counter_add k 1) ks []"

text \<open>\<open>max(values) - min(values) + 1\<close>, 0 of no values.\<close>

definition cycle_span :: "int list \<Rightarrow> int" where
  "cycle_span cycles = (if cycles = [] then 0 else Max (set cycles) - Min (set cycles) + 1)"

definition min_or_zero :: "int list \<Rightarrow> int" where
  "min_or_zero xs = (if xs = [] then 0 else Min (set xs))"

definition build_summary :: "pingmesh_plan \<Rightarrow> expectations \<Rightarrow> row_audit \<Rightarrow> coverage_summary" where
  "build_summary plan ex au =
     (let st = settings plan; valid = au_valid au;
          combinations = count_keys (map row_task valid);
          pairs = count_keys (map row_pair valid);
          missing = ex_combinations ex - set (dict_keys combinations);
          sources = remdups (map (\<lambda>row. row_text row ''src_name'') valid);
          by_source = map (\<lambda>(s, rows). (s, map (\<lambda>row. row_int row ''probe_cycle'') rows)) (group_by (\<lambda>row. row_text row ''src_name'') valid);
          ports = set (map (\<lambda>row. row_int row ''port_batch_index'') valid);
          destinations = set (map (\<lambda>row. row_int row ''destination_batch_index'') valid)
      in \<lparr> cs_plan_id = plan_id st,
           cs_coverage_status = (if missing = {} \<and> au_unexpected_rows au = 0 \<and> au_invalid_socket_rows au = 0 then ''complete'' else ''incomplete''),
           cs_expected_epoch_cycles = int (coverage_epoch_cycles st),
           cs_observed_cycle_span = cycle_span (map (\<lambda>row. row_int row ''probe_cycle'') valid),
           cs_min_source_cycle_span = min_or_zero (map (cycle_span \<circ> snd) by_source),
           cs_source_clients_observed = int (length sources),
           cs_expected_source_clients = int (length (plan_clients plan)),
           cs_destination_pairs_observed = int (length pairs),
           cs_expected_destination_pairs = int (directed_pair_count plan),
           cs_pair_port_combinations_observed = int (length combinations),
           cs_expected_pair_port_combinations = int (card (ex_combinations ex)),
           cs_missing_pair_port_combinations = int (card missing),
           cs_missing_tasks = sorted_list_of_set missing,
           cs_invalid_tasks = sorted_list_of_set (au_invalid_tasks au),
           cs_invalid_rows = au_invalid_rows au,
           cs_observable_pairs = sort (dict_keys pairs),
           cs_min_samples_per_pair = min_or_zero (dict_values pairs),
           cs_port_batches_observed = sorted_list_of_set ports,
           cs_destination_batches_observed = sorted_list_of_set destinations,
           cs_missing_port_batches = sorted_list_of_set (set (map int [0..<length (port_batches st)]) - ports),
           cs_missing_destination_batches = sorted_list_of_set (ex_destinations ex - destinations),
           cs_missing_source_clients = int (length (plan_clients plan)) - int (length sources),
           cs_invalid_socket_rows = au_invalid_socket_rows au,
           cs_unexpected_rows = au_unexpected_rows au,
           cs_incomplete_record_rows = au_incomplete_record_rows au,
           cs_unexpected_records = au_unexpected_records au \<rparr>)"

definition summarize_coverage :: "(rat \<Rightarrow> string) \<Rightarrow> pingmesh_plan \<Rightarrow> expectations \<Rightarrow> pydict list \<Rightarrow> coverage_summary res" where
  "summarize_coverage frepr plan ex rows =
     rbind (rfoldM (audit_row frepr (settings plan) ex) new_audit rows) (\<lambda>au. Inr (build_summary plan ex au))"

subsection \<open>Send errors of the DF probes\<close>

text \<open>\<open>str(row.get(name) or row.get(ip) or "")\<close>.\<close>

definition row_end :: "(rat \<Rightarrow> string) \<Rightarrow> pydict \<Rightarrow> string \<Rightarrow> string \<Rightarrow> string" where
  "row_end frepr row name ip = str_or_empty frepr (val_or (get_val row name) (get_val row ip))"

definition socket_batch_key :: "(rat \<Rightarrow> string) \<Rightarrow> pydict \<Rightarrow> probe_task option" where
  "socket_batch_key frepr row =
     (let source = row_end frepr row ''src_name'' ''src_ip''; destination = row_end frepr row ''dst_name'' ''dst_ip'' in
      if source = [] \<or> destination = [] then None
      else Some (source, destination, case field_int row ''port_batch_index'' of Some b \<Rightarrow> b | None \<Rightarrow> -1))"

definition add_regular_loss :: "(rat \<Rightarrow> string) \<Rightarrow> pydict \<Rightarrow> (probe_task, int) dict \<Rightarrow> (probe_task, int) dict" where
  "add_regular_loss frepr row losses =
     (case (socket_batch_key frepr row, field_int row ''packets_sent'', field_int row ''packets_lost'') of
        (Some key, Some sent, Some lost) \<Rightarrow>
          if sent \<le> 0 \<or> lost < 0 \<or> sent < lost then losses else counter_add key lost losses
      | _ \<Rightarrow> losses)"

definition regular_loss_by_socket_batch :: "(rat \<Rightarrow> string) \<Rightarrow> pydict list \<Rightarrow> (probe_task, int) dict" where
  "regular_loss_by_socket_batch frepr rows = fold (add_regular_loss frepr) rows []"

definition is_explained_df_send_error :: "(rat \<Rightarrow> string) \<Rightarrow> (probe_task, int) dict \<Rightarrow> pydict \<Rightarrow> bool" where
  "is_explained_df_send_error frepr losses row =
     (case (field_int row ''local_probe_errors'', socket_batch_key frepr row) of
        (Some errors, Some key) \<Rightarrow> errors \<noteq> 0 \<and> field_int row ''df_mtu_drops'' = Some errors \<and> 3 \<le> dict_get losses key 0
      | _ \<Rightarrow> False)"

subsection \<open>The expectations of a plan\<close>

definition names_of :: "client_probe_plan \<Rightarrow> probe_frame \<Rightarrow> string set" where
  "names_of c f = (!) (targets c) ` set (target_indices f)"

definition indices_ok :: "client_probe_plan \<Rightarrow> bool" where
  "indices_ok c \<longleftrightarrow> (\<forall>f \<in> set (frames c). \<forall>i \<in> set (target_indices f). i < length (targets c))"

definition frame_entry :: "client_probe_plan \<Rightarrow> nat \<times> probe_frame \<Rightarrow> (string \<times> int) \<times> expected_frame" where
  "frame_entry c cf = (case cf of (i, f) \<Rightarrow>
     ((plan_client c, int i), int (destination_batch_index f), int (port_batch_index f), names_of c f))"

text \<open>The tasks of a client: every target of a frame, on the port batch of the frame.\<close>

definition client_tasks :: "client_probe_plan \<Rightarrow> probe_task set" where
  "client_tasks c = {(plan_client c, t, int (port_batch_index f)) | t f. f \<in> set (frames c) \<and> t \<in> names_of c f}"

definition client_destinations :: "client_probe_plan \<Rightarrow> int set" where
  "client_destinations c = {int (destination_batch_index f) | f. f \<in> set (frames c) \<and> target_indices f \<noteq> []}"

lemma frame_names_ok: "(frame_names c f = Inr names) = ((\<forall>i \<in> set (target_indices f). i < length (targets c)) \<and> names = names_of c f)"
proof -
  have "(rmapM (\<lambda>i. if i < length (targets c) then Inr (targets c ! i) else Inl (IndexError ''list index out of range'')) xs = Inr ns)
      = ((\<forall>i \<in> set xs. i < length (targets c)) \<and> ns = map ((!) (targets c)) xs)" for xs ns
    by (induction xs arbitrary: ns) (auto simp: rbind_eq_Inr)
  then show ?thesis by (auto simp: frame_names_def rbind_eq_Inr names_of_def)
qed

lemma expect_frames:
  "(rfoldM (expect_frame c) ex cfs = Inr ex') =
     ((\<forall>cf \<in> set cfs. \<forall>i \<in> set (target_indices (snd cf)). i < length (targets c))
      \<and> ex' = \<lparr> ex_combinations = ex_combinations ex \<union> {(plan_client c, t, int (port_batch_index f)) | t f. f \<in> snd ` set cfs \<and> t \<in> names_of c f},
             ex_frames = fold (\<lambda>(k, v). AList.update k v) (map (frame_entry c) cfs) (ex_frames ex),
             ex_destinations = ex_destinations ex \<union> {int (destination_batch_index f) | f. f \<in> snd ` set cfs \<and> target_indices f \<noteq> []} \<rparr>)"
proof (induction cfs arbitrary: ex)
  case (Cons cf cfs)
  obtain i f where cf: "cf = (i, f)" by (cases cf)
  have step: "(expect_frame c ex cf = Inr ex1) = ((\<forall>i \<in> set (target_indices f). i < length (targets c))
      \<and> ex1 = \<lparr> ex_combinations = ex_combinations ex \<union> (\<lambda>name. (plan_client c, name, int (port_batch_index f))) ` names_of c f,
           ex_frames = (case frame_entry c cf of (k, v) \<Rightarrow> AList.update k v) (ex_frames ex),
           ex_destinations = (if names_of c f = {} then ex_destinations ex else insert (int (destination_batch_index f)) (ex_destinations ex)) \<rparr>)"
    for ex1 by (auto simp: expect_frame_def cf rbind_eq_Inr frame_names_ok frame_entry_def)
  have empty: "(names_of c f = {}) = (target_indices f = [])" by (simp add: names_of_def)
  show ?case
    unfolding rfoldM.simps rbind_eq_Inr step Cons.IH
    by (auto simp: cf empty) 
qed (cases ex, auto)

definition plan_frames :: "pingmesh_plan \<Rightarrow> ((string \<times> int) \<times> expected_frame) list" where
  "plan_frames plan = concat (map (\<lambda>c. map (frame_entry c) (enumerate 0 (frames c))) (plan_clients plan))"

lemma snd_enumerate: "snd ` set (enumerate n xs) = set xs"
  using map_snd_enumerate [of n xs] by (metis list.set_map)

lemma expect_client_eq:
  "(expect_client ex c = Inr ex') =
     (indices_ok c \<and> ex' = \<lparr> ex_combinations = ex_combinations ex \<union> client_tasks c,
             ex_frames = fold (\<lambda>(k, v). AList.update k v) (map (frame_entry c) (enumerate 0 (frames c))) (ex_frames ex),
             ex_destinations = ex_destinations ex \<union> client_destinations c \<rparr>)"
proof -
  have all: "(\<forall>cf \<in> set (enumerate 0 (frames c)). \<forall>i \<in> set (target_indices (snd cf)). i < length (targets c)) = indices_ok c"
    unfolding indices_ok_def snd_enumerate [of 0 "frames c", symmetric] by simp
  show ?thesis
    unfolding expect_client_def expect_frames all snd_enumerate by (simp add: client_tasks_def client_destinations_def)
qed

lemma expect_clients:
  "(rfoldM expect_client ex cs = Inr ex') =
     (list_all indices_ok cs
      \<and> ex' = \<lparr> ex_combinations = ex_combinations ex \<union> (\<Union>c \<in> set cs. client_tasks c),
             ex_frames = fold (\<lambda>(k, v). AList.update k v) (concat (map (\<lambda>c. map (frame_entry c) (enumerate 0 (frames c))) cs)) (ex_frames ex),
             ex_destinations = ex_destinations ex \<union> (\<Union>c \<in> set cs. client_destinations c) \<rparr>)"
proof (induction cs arbitrary: ex)
  case (Cons c cs)
  show ?case
    unfolding rfoldM.simps rbind_eq_Inr expect_client_eq Cons.IH by (simp add: Un_assoc)
qed (cases ex, auto)

lemma expectations_eq:
  "(compile_coverage_expectations plan = Inr ex) =
     (list_all indices_ok (plan_clients plan)
      \<and> ex = \<lparr> ex_combinations = (\<Union>c \<in> set (plan_clients plan). client_tasks c), ex_frames = dict_of (plan_frames plan),
             ex_destinations = (\<Union>c \<in> set (plan_clients plan). client_destinations c) \<rparr>)"
  by (simp add: compile_coverage_expectations_def expect_clients plan_frames_def dict_of_def)

text \<open>The expected frame of a client and a cycle is the frame of the plan, when no two clients have one name.\<close>

definition plan_names :: "pingmesh_plan \<Rightarrow> string list" where
  "plan_names plan = map plan_client (plan_clients plan)"

lemma distinct_plan_frames:
  assumes "distinct (plan_names plan)"
  shows "distinct (map fst (plan_frames plan))"
proof -
  have keys: "map fst (map (frame_entry c) (enumerate 0 (frames c))) = map (\<lambda>i. (plan_client c, int i)) [0..<length (frames c)]" for c
    by (simp add: frame_entry_def comp_def split_beta map_fst_enumerate
        flip: map_map [of "\<lambda>i. (plan_client c, int i)" fst, unfolded comp_def])
  have "distinct (concat (map (\<lambda>c. map (\<lambda>i. (plan_client c, int i)) [0..<length (frames c)]) (plan_clients plan)))"
    using assms unfolding plan_names_def
    by (intro distinct_concat_map) (auto simp: distinct_map inj_on_def)
  then show ?thesis by (simp add: plan_frames_def map_concat comp_def keys [unfolded map_map comp_def])
qed

lemma expected_frame_eq:
  assumes "distinct (plan_names plan)" and "compile_coverage_expectations plan = Inr ex"
  shows "(map_of (ex_frames ex) (s, k) = Some fr) =
     (\<exists>c \<in> set (plan_clients plan). \<exists>i < length (frames c). s = plan_client c \<and> k = int i \<and> ((s, k), fr) = frame_entry c (i, frames c ! i))"
proof -
  have "map_of (ex_frames ex) (s, k) = map_of (rev (plan_frames plan)) (s, k)"
    using assms(2) by (simp add: expectations_eq map_of_dict_of)
  also have "\<dots> = Some fr \<longleftrightarrow> ((s, k), fr) \<in> set (plan_frames plan)"
    using distinct_plan_frames [OF assms(1)] by (simp add: map_of_eq_Some_iff rev_map [symmetric] del: rev_map)
  also have "\<dots> = (\<exists>c \<in> set (plan_clients plan). \<exists>i < length (frames c). s = plan_client c \<and> k = int i \<and> ((s, k), fr) = frame_entry c (i, frames c ! i))"
    by (force simp: plan_frames_def in_set_enumerate_eq frame_entry_def)
  finally show ?thesis .
qed


subsection \<open>Records of probes\<close>

text \<open>In cycle \<open>k\<close> the plan makes client \<open>c\<close> probe with its frame \<open>cycle_frame plan c k\<close>, if it has one for that cycle.\<close>

definition cycle_index :: "pingmesh_plan \<Rightarrow> int \<Rightarrow> nat" where
  "cycle_index plan k = nat (k mod int (coverage_epoch_cycles (settings plan)))"

definition cycle_frame :: "pingmesh_plan \<Rightarrow> client_probe_plan \<Rightarrow> int \<Rightarrow> probe_frame" where
  "cycle_frame plan c k = frames c ! cycle_index plan k"

text \<open>A row that records the probe of target \<open>t\<close> by client \<open>c\<close> in cycle \<open>k\<close>.\<close>

definition records_probe :: "pingmesh_plan \<Rightarrow> pydict \<Rightarrow> client_probe_plan \<Rightarrow> int \<Rightarrow> string \<Rightarrow> bool" where
  "records_probe plan row c k t \<longleftrightarrow>
     get_val row ''plan_id'' = PStr (plan_id (settings plan)) \<and> get_val row ''src_name'' = PStr (plan_client c) \<and> get_val row ''dst_name'' = PStr t
     \<and> field_int row ''probe_cycle'' = Some k \<and> 0 \<le> k \<and> cycle_index plan k < length (frames c) \<and> t \<in> names_of c (cycle_frame plan c k)
     \<and> field_int row ''destination_batch_index'' = Some (int (destination_batch_index (cycle_frame plan c k)))
     \<and> field_int row ''port_batch_index'' = Some (int (port_batch_index (cycle_frame plan c k)))"

definition planned_row :: "pingmesh_plan \<Rightarrow> pydict \<Rightarrow> bool" where
  "planned_row plan row \<longleftrightarrow> (\<exists>c \<in> set (plan_clients plan). \<exists>k t. records_probe plan row c k t)"

lemma matching_frame_eq:
  assumes names: "distinct (plan_names plan)" and ex: "compile_coverage_expectations plan = Inr ex"
    and epoch: "0 < coverage_epoch_cycles (settings plan)"
  shows "(matching_frame (settings plan) ex row = Inr (Some fr)) =
     (\<exists>c \<in> set (plan_clients plan). \<exists>k t. records_probe plan row c k t \<and>
        fr = (int (destination_batch_index (cycle_frame plan c k)), int (port_batch_index (cycle_frame plan c k)), names_of c (cycle_frame plan c k)))"
    (is "?l = ?r")
proof
  have nonneg: "0 \<le> k mod int (coverage_epoch_cycles (settings plan))" for k using epoch by simp
  note frame = expected_frame_eq [OF names ex]
  show ?r if ?l
  proof -
    obtain d p names where fr: "fr = (d, p, names)" by (cases fr)
    from that obtain fr' where row: "row_frame (settings plan) ex row = Inr (Some fr')"
      by (auto simp: matching_frame_def rbind_eq_Inr split: option.splits)
    then obtain k s where k: "field_int row ''probe_cycle'' = Some k" "0 \<le> k" "get_val row ''src_name'' = PStr s"
      and look: "map_of (ex_frames ex) (s, k mod int (coverage_epoch_cycles (settings plan))) = Some fr'"
      by (auto simp: row_frame_def Let_def split: option.splits if_splits pyval.splits)
    from that row obtain t where t: "get_val row ''plan_id'' = PStr (plan_id (settings plan))" "field_int row ''destination_batch_index'' = Some d"
        "field_int row ''port_batch_index'' = Some p" "get_val row ''dst_name'' = PStr t" "t \<in> names" and same: "fr' = (d, p, names)"
      by (auto simp: matching_frame_def fr Let_def split: if_splits pyval.splits prod.splits)
    from look obtain c i where c: "c \<in> set (plan_clients plan)" "i < length (frames c)" "s = plan_client c"
      "k mod int (coverage_epoch_cycles (settings plan)) = int i" and entry: "((s, int i), fr') = frame_entry c (i, frames c ! i)"
      by (auto simp: frame)
    have "cycle_index plan k = i" using c(4) by (simp add: cycle_index_def)
    then have "records_probe plan row c k t \<and> fr = (int (destination_batch_index (cycle_frame plan c k)),
        int (port_batch_index (cycle_frame plan c k)), names_of c (cycle_frame plan c k))"
      using k t c entry same by (simp add: records_probe_def cycle_frame_def frame_entry_def fr)
    then show ?r using c(1) by blast
  qed
  show ?l if ?r
  proof -
    from that obtain c k t where c: "c \<in> set (plan_clients plan)" and r: "records_probe plan row c k t"
      and fr: "fr = (int (destination_batch_index (cycle_frame plan c k)), int (port_batch_index (cycle_frame plan c k)), names_of c (cycle_frame plan c k))"
      by blast
    let ?i = "cycle_index plan k"
    have i: "int ?i = k mod int (coverage_epoch_cycles (settings plan))" using nonneg by (simp add: cycle_index_def)
    have "map_of (ex_frames ex) (plan_client c, int ?i) = Some fr"
      unfolding frame using c r fr by (intro bexI [of _ c] exI [of _ ?i]) (auto simp: records_probe_def frame_entry_def cycle_frame_def)
    then have "row_frame (settings plan) ex row = Inr (Some fr)"
      using r by (simp add: row_frame_def records_probe_def hashable_def i)
    then show ?l using r by (simp add: matching_frame_def fr records_probe_def hashable_def)
  qed
qed

lemma matching_planned:
  assumes "distinct (plan_names plan)" and "compile_coverage_expectations plan = Inr ex" and "0 < coverage_epoch_cycles (settings plan)"
  shows "(\<exists>fr. matching_frame (settings plan) ex row = Inr (Some fr)) = planned_row plan row"
  unfolding matching_frame_eq [OF assms] planned_row_def by blast

subsection \<open>The audit of the rows\<close>

definition accepted_row :: "plan_settings \<Rightarrow> expectations \<Rightarrow> pydict \<Rightarrow> bool" where
  "accepted_row st ex row = (case matching_frame st ex row of Inr (Some _) \<Rightarrow> has_valid_socket_batch st row | _ \<Rightarrow> False)"

lemma audit_rows:
  assumes "rfoldM (audit_row frepr st ex) au rows = Inr au'"
  shows "au_valid au' = au_valid au @ [row \<leftarrow> rows. accepted_row st ex row]"
    and "au_unexpected_rows au' = au_unexpected_rows au + int (length [row \<leftarrow> rows. matching_frame st ex row = Inr None])"
    and "au_invalid_socket_rows au' = au_invalid_socket_rows au
      + int (length [row \<leftarrow> rows. matching_frame st ex row \<noteq> Inr None \<and> \<not> accepted_row st ex row])"
proof -
  have "au_valid au' = au_valid au @ [row \<leftarrow> rows. accepted_row st ex row]
    \<and> au_unexpected_rows au' = au_unexpected_rows au + int (length [row \<leftarrow> rows. matching_frame st ex row = Inr None])
    \<and> au_invalid_socket_rows au' = au_invalid_socket_rows au
        + int (length [row \<leftarrow> rows. matching_frame st ex row \<noteq> Inr None \<and> \<not> accepted_row st ex row])"
    using assms
  proof (induction rows arbitrary: au)
    case (Cons row rows)
    then obtain au1 where au1: "audit_row frepr st ex au row = Inr au1" and rest: "rfoldM (audit_row frepr st ex) au1 rows = Inr au'"
      by (auto simp: rbind_eq_Inr)
    show ?case
      using Cons.IH [OF rest] au1
      by (auto simp: audit_row_def rbind_eq_Inr Let_def accepted_row_def count_incomplete_def count_unexpected_def count_invalid_def
          split: option.splits if_splits prod.splits)
  qed simp
  then show "au_valid au' = au_valid au @ [row \<leftarrow> rows. accepted_row st ex row]"
    and "au_unexpected_rows au' = au_unexpected_rows au + int (length [row \<leftarrow> rows. matching_frame st ex row = Inr None])"
    and "au_invalid_socket_rows au' = au_invalid_socket_rows au
      + int (length [row \<leftarrow> rows. matching_frame st ex row \<noteq> Inr None \<and> \<not> accepted_row st ex row])" by blast+
qed

lemma keys_count_keys: "set (dict_keys (count_keys ks)) = set ks" and wf_count_keys: "wf_dict (count_keys ks)"
proof -
  have "set (dict_keys (fold (\<lambda>k. counter_add k 1) ks d)) = set ks \<union> set (dict_keys d)" for d
    by (induction ks arbitrary: d) (auto simp: counter_add_def dict_keys_def keys_update_set)
  then show "set (dict_keys (count_keys ks)) = set ks" by (simp add: count_keys_def dict_keys_def)
  have "wf_dict d \<Longrightarrow> wf_dict (fold (\<lambda>k. counter_add k 1) ks d)" for d
    by (induction ks arbitrary: d) (simp_all add: counter_add_def al.wf_store)
  then show "wf_dict (count_keys ks)" by (simp add: count_keys_def al.wf_empty)
qed

lemma length_count_keys: "length (count_keys ks) = card (set ks)"
  using wf_count_keys [of ks] keys_count_keys [of ks] distinct_card [of "map fst (count_keys ks)"]
  by (simp add: wf_dict_def dict_keys_def)


lemma audit_total: "rfoldM (audit_row frepr st ex) au rows = Inr au' \<Longrightarrow> row \<in> set rows \<Longrightarrow> \<exists>fr. matching_frame st ex row = Inr fr"
  by (induction rows arbitrary: au) (auto simp: rbind_eq_Inr audit_row_def)

lemma audit_succeeds:
  "(\<And>row. row \<in> set rows \<Longrightarrow> is_ok (matching_frame st ex row)) \<Longrightarrow> \<exists>au'. rfoldM (audit_row frepr st ex) au rows = Inr au'"
proof (induction rows arbitrary: au)
  case (Cons row rows)
  then have "is_ok (matching_frame st ex row)" by simp
  then obtain fr where "matching_frame st ex row = Inr fr" by (auto simp: is_ok_iff)
  then show ?case using Cons by (simp add: audit_row_def)
qed simp

lemma planned_task:
  assumes "records_probe plan row c k t"
  shows "row_task row = (plan_client c, t, int (port_batch_index (cycle_frame plan c k)))"
  using assms by (simp add: records_probe_def row_task_def row_text_def row_int_def)

lemma summary_status:
  assumes "rfoldM (audit_row frepr (settings plan) ex) new_audit rows = Inr au"
  shows "(cs_coverage_status (build_summary plan ex au) = ''complete'') =
     ((\<forall>row \<in> set rows. accepted_row (settings plan) ex row) \<and> ex_combinations ex \<subseteq> row_task ` set rows)"
proof -
  note au = audit_rows [OF assms]
  have "(cs_coverage_status (build_summary plan ex au) = ''complete'') =
      (ex_combinations ex - row_task ` set (au_valid au) = {} \<and> au_unexpected_rows au = 0 \<and> au_invalid_socket_rows au = 0)"
    by (simp add: build_summary_def Let_def keys_count_keys)
  also have "au_unexpected_rows au = 0 \<longleftrightarrow> (\<forall>row \<in> set rows. matching_frame (settings plan) ex row \<noteq> Inr None)"
    by (simp add: au new_audit_def filter_empty_conv)
  also have "au_invalid_socket_rows au = 0 \<longleftrightarrow> (\<forall>row \<in> set rows. matching_frame (settings plan) ex row = Inr None \<or> accepted_row (settings plan) ex row)"
    by (auto simp: au new_audit_def filter_empty_conv)
  finally have e: "(cs_coverage_status (build_summary plan ex au) = ''complete'') =
      (ex_combinations ex - row_task ` set (au_valid au) = {} \<and> (\<forall>row \<in> set rows. matching_frame (settings plan) ex row \<noteq> Inr None)
       \<and> (\<forall>row \<in> set rows. matching_frame (settings plan) ex row = Inr None \<or> accepted_row (settings plan) ex row))" .
  have "accepted_row (settings plan) ex row \<Longrightarrow> matching_frame (settings plan) ex row \<noteq> Inr None" for row
    by (auto simp: accepted_row_def)
  then have "(\<forall>row \<in> set rows. matching_frame (settings plan) ex row \<noteq> Inr None)
       \<and> (\<forall>row \<in> set rows. matching_frame (settings plan) ex row = Inr None \<or> accepted_row (settings plan) ex row)
     \<longleftrightarrow> (\<forall>row \<in> set rows. accepted_row (settings plan) ex row)" by blast
  moreover have "set (au_valid au) = set rows" if "\<forall>row \<in> set rows. accepted_row (settings plan) ex row"
    using that by (auto simp: au new_audit_def)
  ultimately show ?thesis using e by auto
qed

lemma accepted_planned:
  assumes "distinct (plan_names plan)" and "compile_coverage_expectations plan = Inr ex" and "0 < coverage_epoch_cycles (settings plan)"
  shows "accepted_row (settings plan) ex row = (planned_row plan row \<and> has_valid_socket_batch (settings plan) row)"
  using matching_planned [OF assms, of row] by (auto simp: accepted_row_def split: sum.splits option.splits)

text \<open>Every client sends, over the cycles of an epoch from \<open>k0\<close> on, the probes of its frames and nothing else, and each record is
  of a socket batch without local errors.\<close>

definition healthy_epoch :: "pingmesh_plan \<Rightarrow> int \<Rightarrow> pydict list \<Rightarrow> bool" where
  "healthy_epoch plan k0 rows \<longleftrightarrow>
     (\<forall>row \<in> set rows. planned_row plan row \<and> has_valid_socket_batch (settings plan) row)
     \<and> (\<forall>c \<in> set (plan_clients plan). \<forall>k \<in> {k0..<k0 + int (coverage_epoch_cycles (settings plan))}.
          \<forall>t \<in> names_of c (cycle_frame plan c k). \<exists>row \<in> set rows. records_probe plan row c k t)"

lemma epoch_index:
  assumes "i < coverage_epoch_cycles (settings plan)"
  shows "\<exists>k \<in> {k0..<k0 + int (coverage_epoch_cycles (settings plan))}. cycle_index plan k = i"
proof -
  let ?e = "int (coverage_epoch_cycles (settings plan))"
  have e: "0 < ?e" using assms by linarith
  have "(k0 + (int i - k0) mod ?e) mod ?e = int i" using assms by (simp add: mod_add_right_eq)
  moreover have "(int i - k0) mod ?e < ?e" "0 \<le> (int i - k0) mod ?e" using e by simp_all
  ultimately show ?thesis by (intro bexI [of _ "k0 + (int i - k0) mod ?e"]) (simp_all add: cycle_index_def)
qed

text \<open>The shape of the frames of a compiled plan.\<close>

lemma compiled_frames:
  assumes wf: "manifest_wf m" and pol: "policy_ok (pingmesh m)" and ok: "compile_pingmesh_plan sha256 fp m = Inr plan"
    and c: "c \<in> set (plan_clients plan)"
  shows "indices_ok c" and "length (frames c) = coverage_epoch_cycles (settings plan)" and "0 < length (frames c)"
    and "j < length (targets c) \<Longrightarrow> \<exists>f \<in> set (frames c). j \<in> set (target_indices f)"
    and "f \<in> set (frames c) \<Longrightarrow> port_batch_index f < length (port_batches (settings plan))"
proof -
  obtain peers counts bs nb i where sel: "select_peers m = Inr (peers, counts)"
    and bs: "bs = batch_size_of (pingmesh m) peers" and nb: "nb = destination_batches_of bs peers"
    and st: "settings plan = (compile_settings (pingmesh m) bs nb)\<lparr>plan_id := i\<rparr>"
    and pl: "plan_clients plan = map (client_plan sha256 (client_names m) peers bs
           (port_batches (settings plan)) nb (cycle_interval_seconds (pingmesh m))) (client_names m)"
    using compile_cases [OF ok] by metis
  define pool per where "pool = nat (rtt_port_pool_size (pingmesh m))" and "per = nat (rtt_ports_per_cycle (pingmesh m))"
  obtain name where n: "name \<in> set (client_names m)" and cn: "c = client_plan sha256 (client_names m) peers bs
      (port_batches (settings plan)) nb (cycle_interval_seconds (pingmesh m)) name" using c pl by auto
  note enough = batches_enough [OF wf pol sel n]
  have pos: "0 < bs" "0 < per" "0 < pool" using enough(1) pol by (simp_all add: bs per_def pool_def policy_ok_def)
  have batches: "port_batches (settings plan) = map (chunk pool per) [0..<chunk_count pool per]"
    by (simp add: st compile_settings_def Let_def pool_def per_def)
  have len: "length (targets c) = length (dict_get peers name [])" by (simp add: cn client_plan_def Let_def)
  have nb': "chunk_count (length (targets c)) bs \<le> nb" using enough(2) [of bs] by (simp add: len nb)
  have fr: "frames c = make_frames bs (length (targets c)) (port_batches (settings plan)) nb"
    by (simp add: cn client_plan_def Let_def)
  have frames: "f \<in> set (frames c) \<longleftrightarrow> (\<exists>pb d. pb < chunk_count pool per \<and> d < nb \<and> f = make_frame bs (length (targets c)) (pb, chunk pool per pb) d)" for f
    unfolding fr make_frames_def batches enumerate_map_upt
    by (simp add: image_iff) (metis atLeastLessThan_iff le0)
  have ports: "0 < chunk_count pool per" using chunk_count_bound [OF pos(2,3)] by linarith
  show "indices_ok c" by (auto simp: indices_ok_def frames make_frame_def Let_def chunk_def)
  show "port_batch_index f < length (port_batches (settings plan))" if "f \<in> set (frames c)"
    using that by (auto simp: frames make_frame_def Let_def batches)
  show "length (frames c) = coverage_epoch_cycles (settings plan)"
    unfolding fr by (simp add: make_frames_def length_concat comp_def st compile_settings_def Let_def sum_list_triv)
  show target: "\<exists>f \<in> set (frames c). j \<in> set (target_indices f)" if j: "j < length (targets c)" for j
  proof -
    have "j div bs < nb" using chunk_count_bound [OF pos(1) j] nb' by linarith
    moreover have "j \<in> set (chunk (length (targets c)) bs (j div bs))" using j pos(1) by (simp add: set_chunk)
    ultimately show ?thesis
      using ports by (intro bexI [of _ "make_frame bs (length (targets c)) (0, chunk pool per 0) (j div bs)"])
        (auto simp: frames make_frame_def Let_def)
  qed
  have "0 < length (targets c)" using plan_targets(2) [OF wf pol ok c] by simp
  then show "0 < length (frames c)" using target by (cases "frames c") auto
qed

text \<open>The rows that the agents write in a healthy epoch.\<close>

definition probe_record :: "pingmesh_plan \<Rightarrow> client_probe_plan \<Rightarrow> int \<Rightarrow> string \<Rightarrow> pydict" where
  "probe_record plan c k t = (let f = cycle_frame plan c k; st = settings plan in
     [(''plan_id'', PStr (plan_id st)), (''src_name'', PStr (plan_client c)), (''dst_name'', PStr t), (''probe_cycle'', PInt k),
      (''destination_batch_index'', PInt (int (destination_batch_index f))), (''port_batch_index'', PInt (int (port_batch_index f))),
      (''rtt_ports_total'', PInt (int (length (source_ports st)))),
      (''rtt_ports_active'', PInt (int (length (port_batches st ! port_batch_index f)))), (''local_probe_errors'', PInt 0)])"

definition epoch_rows :: "pingmesh_plan \<Rightarrow> int \<Rightarrow> pydict list" where
  "epoch_rows plan k0 = concat (map (\<lambda>c. concat (map (\<lambda>k. map (\<lambda>i. probe_record plan c k (targets c ! i)) (target_indices (cycle_frame plan c k)))
     [k0..k0 + int (coverage_epoch_cycles (settings plan)) - 1])) (plan_clients plan))"

lemma probe_record_fields:
  "get_val (probe_record plan c k t) ''plan_id'' = PStr (plan_id (settings plan))"
  "get_val (probe_record plan c k t) ''src_name'' = PStr (plan_client c)"
  "get_val (probe_record plan c k t) ''dst_name'' = PStr t"
  "field_int (probe_record plan c k t) ''probe_cycle'' = Some k"
  "field_int (probe_record plan c k t) ''destination_batch_index'' = Some (int (destination_batch_index (cycle_frame plan c k)))"
  "field_int (probe_record plan c k t) ''port_batch_index'' = Some (int (port_batch_index (cycle_frame plan c k)))"
  "field_int (probe_record plan c k t) ''rtt_ports_total'' = Some (int (length (source_ports (settings plan))))"
  "field_int (probe_record plan c k t) ''rtt_ports_active'' = Some (int (length (port_batches (settings plan) ! port_batch_index (cycle_frame plan c k))))"
  "field_int (probe_record plan c k t) ''local_probe_errors'' = Some 0"
  by (simp_all add: probe_record_def Let_def get_val_def field_int_def int_of_val_def)

lemma epoch_rows_healthy:
  assumes "manifest_wf m" and "policy_ok (pingmesh m)" and "compile_pingmesh_plan sha256 fp m = Inr plan" and "0 \<le> k0"
  shows "healthy_epoch plan k0 (epoch_rows plan k0)"
proof -
  note shape = compiled_frames [OF assms(1-3)]
  have row: "records_probe plan (probe_record plan c k t) c k t \<and> has_valid_socket_batch (settings plan) (probe_record plan c k t)"
    if c: "c \<in> set (plan_clients plan)" and "0 \<le> k" and "t \<in> names_of c (cycle_frame plan c k)" for c k t
  proof -
    have i: "cycle_index plan k < length (frames c)"
      using shape(2,3) [OF c] by (simp add: cycle_index_def nat_less_iff)
    then have "port_batch_index (cycle_frame plan c k) < length (port_batches (settings plan))"
      unfolding cycle_frame_def by (intro shape(5) [OF c]) simp
    then show ?thesis
      using i that by (simp add: records_probe_def has_valid_socket_batch_def has_expected_socket_batch_def probe_record_fields)
  qed
  have rows: "row \<in> set (epoch_rows plan k0) \<longleftrightarrow> (\<exists>c \<in> set (plan_clients plan). \<exists>k \<in> {k0..<k0 + int (coverage_epoch_cycles (settings plan))}.
      \<exists>t \<in> names_of c (cycle_frame plan c k). row = probe_record plan c k t)" for row
  proof -
    have "{k0..k0 + int (coverage_epoch_cycles (settings plan)) - 1} = {k0..<k0 + int (coverage_epoch_cycles (settings plan))}" by auto
    then show ?thesis unfolding epoch_rows_def names_of_def by (simp add: image_iff)
  qed
  have "planned_row plan row \<and> has_valid_socket_batch (settings plan) row" if "row \<in> set (epoch_rows plan k0)" for row
  proof -
    from that obtain c k t where c: "c \<in> set (plan_clients plan)" and "k0 \<le> k" "t \<in> names_of c (cycle_frame plan c k)"
      and r: "row = probe_record plan c k t" by (auto simp: rows)
    then have "records_probe plan row c k t \<and> has_valid_socket_batch (settings plan) row" unfolding r using assms(4) by (intro row) auto
    then show ?thesis using c unfolding planned_row_def by blast
  qed
  moreover have "\<exists>row \<in> set (epoch_rows plan k0). records_probe plan row c k t"
    if "c \<in> set (plan_clients plan)" "k \<in> {k0..<k0 + int (coverage_epoch_cycles (settings plan))}" "t \<in> names_of c (cycle_frame plan c k)" for c k t
  proof -
    have "probe_record plan c k t \<in> set (epoch_rows plan k0)" unfolding rows using that by blast
    then show ?thesis using row [of c k t] that assms(4) by (intro bexI [of _ "probe_record plan c k t"]) simp_all
  qed
  ultimately show ?thesis unfolding healthy_epoch_def by blast
qed

lemma compiled_expectations:
  assumes "manifest_wf m" and "policy_ok (pingmesh m)" and "compile_pingmesh_plan sha256 fp m = Inr plan"
  shows "distinct (plan_names plan)" and "\<exists>ex. compile_coverage_expectations plan = Inr ex"
    and "c \<in> set (plan_clients plan) \<Longrightarrow> 0 < coverage_epoch_cycles (settings plan)"
  using plan_targets(1) [OF assms] client_names_distinct [OF assms(1)] compiled_frames [OF assms]
  by (auto simp: plan_names_def expectations_eq list_all_iff)

lemma compiled_pairs:
  assumes "manifest_wf m" and "policy_ok (pingmesh m)" and "compile_pingmesh_plan sha256 fp m = Inr plan"
  shows "card (SIGMA c : set (plan_clients plan). set (targets c)) = directed_pair_count plan"
proof -
  have dc: "distinct (plan_clients plan)" using compiled_expectations(1) [OF assms] by (simp add: plan_names_def distinct_map)
  have "card (SIGMA c : set (plan_clients plan). set (targets c)) = (\<Sum>c \<in> set (plan_clients plan). card (set (targets c)))"
    by (rule card_SigmaI) auto
  also have "\<dots> = (\<Sum>c \<in> set (plan_clients plan). length (targets c))"
    using plan_targets(2) [OF assms] by (intro sum.cong) (auto simp: distinct_card)
  also have "\<dots> = directed_pair_count plan" using dc by (simp add: directed_pair_count_def sum_list_distinct_conv_sum_set)
  finally show ?thesis .
qed

lemma names_subset: "indices_ok c \<Longrightarrow> f \<in> set (frames c) \<Longrightarrow> names_of c f \<subseteq> set (targets c)"
  by (auto simp: names_of_def indices_ok_def)

lemma tasks_covered:
  assumes "compile_coverage_expectations plan = Inr ex"
  shows "(ex_combinations ex \<subseteq> row_task ` R) = (\<forall>c \<in> set (plan_clients plan). \<forall>f \<in> set (frames c). \<forall>t \<in> names_of c f.
           \<exists>row \<in> R. row_task row = (plan_client c, t, int (port_batch_index f)))"
proof -
  have image: "(\<exists>row \<in> R. row_task row = x) = (x \<in> row_task ` R)" for x by (simp add: image_iff eq_commute)
  have "ex_combinations ex = (\<Union>c \<in> set (plan_clients plan). client_tasks c)" using assms by (simp add: expectations_eq)
  then show ?thesis by (simp add: image client_tasks_def subset_iff del: image_iff) blast
qed

subsection \<open>Properties\<close>

text \<open>C35: coverage is complete exactly when the records are those of the plan. For a plan whose clients have different names,
  the summary says \<open>complete\<close> if and only if every row records a probe that the plan makes its client send in
  that cycle, from a full socket batch without local errors, and every target of every frame was probed by some row on the
  port batch of the frame.\<close>

theorem coverage_complete_iff:
  assumes names: "distinct (plan_names plan)" and epoch: "0 < coverage_epoch_cycles (settings plan)"
    and ex: "compile_coverage_expectations plan = Inr ex" and s: "summarize_coverage frepr plan ex rows = Inr s"
  shows "(cs_coverage_status s = ''complete'') =
     ((\<forall>row \<in> set rows. planned_row plan row \<and> has_valid_socket_batch (settings plan) row)
      \<and> (\<forall>c \<in> set (plan_clients plan). \<forall>f \<in> set (frames c). \<forall>t \<in> names_of c f.
           \<exists>row \<in> set rows. row_task row = (plan_client c, t, int (port_batch_index f))))"
proof -
  obtain au where au: "rfoldM (audit_row frepr (settings plan) ex) new_audit rows = Inr au" and s': "s = build_summary plan ex au"
    using s by (auto simp: summarize_coverage_def rbind_eq_Inr)
  show ?thesis
    unfolding s' summary_status [OF au] accepted_planned [OF names ex epoch] tasks_covered [OF ex] by (rule refl)
qed

text \<open>What the rows of a healthy epoch of a compiled plan cover: every task, and exactly the pairs and clients of the
  plan.\<close>

lemma healthy_task:
  assumes compiled: "manifest_wf m" "policy_ok (pingmesh m)" "compile_pingmesh_plan sha256 fp m = Inr plan"
    and healthy: "healthy_epoch plan k0 rows"
    and c: "c \<in> set (plan_clients plan)" and f: "f \<in> set (frames c)" and t: "t \<in> names_of c f"
  shows "\<exists>row \<in> set rows. row_task row = (plan_client c, t, int (port_batch_index f))"
proof -
  obtain i where i: "i < length (frames c)" "f = frames c ! i" using f by (auto simp: in_set_conv_nth)
  then obtain k where k: "k \<in> {k0..<k0 + int (coverage_epoch_cycles (settings plan))}" "cycle_frame plan c k = f"
    using epoch_index [of i plan k0] compiled_frames(2) [OF compiled c] by (auto simp: cycle_frame_def)
  then obtain row where "row \<in> set rows" "records_probe plan row c k t" using healthy c t unfolding healthy_epoch_def by blast
  then show ?thesis using planned_task k(2) by blast
qed

lemma healthy_pairs:
  assumes compiled: "manifest_wf m" "policy_ok (pingmesh m)" "compile_pingmesh_plan sha256 fp m = Inr plan"
    and healthy: "healthy_epoch plan k0 rows"
  shows "row_pair ` set rows = (\<Union>c \<in> set (plan_clients plan). Pair (plan_client c) ` set (targets c))"
proof (intro equalityI subsetI)
  fix p assume "p \<in> row_pair ` set rows"
  then obtain row c k t where "row \<in> set rows" "p = row_pair row" and c: "c \<in> set (plan_clients plan)" "records_probe plan row c k t"
    using healthy by (auto simp: healthy_epoch_def planned_row_def)
  moreover have "t \<in> set (targets c)"
    using c(2) names_subset [OF compiled_frames(1) [OF compiled c(1)], of "cycle_frame plan c k"]
    by (auto simp: records_probe_def cycle_frame_def)
  ultimately show "p \<in> (\<Union>c \<in> set (plan_clients plan). Pair (plan_client c) ` set (targets c))"
    by (auto simp: records_probe_def row_pair_def row_text_def)
next
  fix p assume "p \<in> (\<Union>c \<in> set (plan_clients plan). Pair (plan_client c) ` set (targets c))"
  then obtain c t where ct: "c \<in> set (plan_clients plan)" "t \<in> set (targets c)" "p = (plan_client c, t)" by blast
  then obtain j where c: "c \<in> set (plan_clients plan)" "j < length (targets c)" and p: "p = (plan_client c, targets c ! j)"
    by (metis in_set_conv_nth)
  then obtain f where f: "f \<in> set (frames c)" "targets c ! j \<in> names_of c f"
    using compiled_frames(4) [OF compiled c] by (auto simp: names_of_def)
  obtain row where "row \<in> set rows" "row_task row = (plan_client c, targets c ! j, int (port_batch_index f))"
    using healthy_task [OF compiled healthy c(1) f] by blast
  then show "p \<in> row_pair ` set rows" unfolding p by (intro image_eqI [of _ _ row]) (simp_all add: row_task_def row_pair_def)
qed

lemma healthy_sources:
  assumes compiled: "manifest_wf m" "policy_ok (pingmesh m)" "compile_pingmesh_plan sha256 fp m = Inr plan"
    and healthy: "healthy_epoch plan k0 rows"
  shows "(\<lambda>row. row_text row ''src_name'') ` set rows = set (plan_names plan)"
proof -
  have "fst ` Pair (plan_client c) ` set (targets c) = {plan_client c}" if "c \<in> set (plan_clients plan)" for c
    using plan_targets(2) [OF compiled that] by (simp add: image_image image_constant_conv)
  then have "fst ` (\<Union>c \<in> set (plan_clients plan). Pair (plan_client c) ` set (targets c)) = set (plan_names plan)"
    unfolding image_UN by (auto simp: plan_names_def)
  moreover have "(\<lambda>row. row_text row ''src_name'') ` set rows = fst ` row_pair ` set rows"
    by (simp add: image_image row_pair_def)
  ultimately show ?thesis by (simp add: healthy_pairs [OF compiled healthy])
qed

lemma plan_pairs_card:
  assumes compiled: "manifest_wf m" "policy_ok (pingmesh m)" "compile_pingmesh_plan sha256 fp m = Inr plan"
    and names: "distinct (plan_names plan)"
  shows "card (\<Union>c \<in> set (plan_clients plan). Pair (plan_client c) ` set (targets c)) = directed_pair_count plan"
proof -
  have "inj_on (\<lambda>(c, t). (plan_client c, t)) (SIGMA c : set (plan_clients plan). set (targets c))"
    using names by (auto simp: inj_on_def plan_names_def distinct_map)
  moreover have "(\<lambda>(c, t). (plan_client c, t)) ` (SIGMA c : set (plan_clients plan). set (targets c))
      = (\<Union>c \<in> set (plan_clients plan). Pair (plan_client c) ` set (targets c))" by force
  ultimately show ?thesis using card_image compiled_pairs [OF compiled] by fastforce
qed

text \<open>C36: a healthy epoch of a compiled plan is complete. When every client sends the probes of its frames, over any
  epoch, and nothing else, then the audit of the records succeeds and says \<open>complete\<close>: no task is missing, no row is unexpected
  or invalid, every client of the plan was seen as a source and none is missing, and all the pairs of the plan were
  observed.\<close>

theorem healthy_epoch_complete:
  assumes "manifest_wf m" and "policy_ok (pingmesh m)" and "compile_pingmesh_plan sha256 fp m = Inr plan"
    and healthy: "healthy_epoch plan k0 rows"
  shows "\<exists>ex s. compile_coverage_expectations plan = Inr ex \<and> summarize_coverage frepr plan ex rows = Inr s
     \<and> cs_coverage_status s = ''complete'' \<and> cs_missing_tasks s = [] \<and> cs_unexpected_rows s = 0 \<and> cs_invalid_socket_rows s = 0
     \<and> cs_source_clients_observed s = int (length (plan_clients plan))
     \<and> cs_expected_source_clients s = int (length (plan_clients plan)) \<and> cs_missing_source_clients s = 0
     \<and> cs_destination_pairs_observed s = cs_expected_destination_pairs s"
proof -
  obtain ex where names: "distinct (plan_names plan)" and ex: "compile_coverage_expectations plan = Inr ex"
    using compiled_expectations [OF assms(1-3)] by blast
  have epoch: "0 < coverage_epoch_cycles (settings plan)" if "row \<in> set rows" for row
    using healthy that compiled_expectations(3) [OF assms(1-3)] by (auto simp: healthy_epoch_def planned_row_def)
  have acc: "accepted_row (settings plan) ex row" if "row \<in> set rows" for row
    using healthy that accepted_planned [OF names ex epoch [OF that]] by (simp add: healthy_epoch_def)
  then have "is_ok (matching_frame (settings plan) ex row)" if "row \<in> set rows" for row
    using that by (fastforce simp: accepted_row_def split: sum.splits)
  then obtain au where au: "rfoldM (audit_row frepr (settings plan) ex) new_audit rows = Inr au"
    using audit_succeeds by metis
  note counts = audit_rows [OF au]
  have valid: "set (au_valid au) = set rows" using acc by (auto simp: counts new_audit_def)
  have tasks: "ex_combinations ex \<subseteq> row_task ` set rows"
    unfolding tasks_covered [OF ex] using healthy_task [OF assms(1-4)] by blast
  have pairs: "cs_destination_pairs_observed (build_summary plan ex au) = int (directed_pair_count plan)"
    using healthy_pairs [OF assms(1-4)] plan_pairs_card [OF assms(1-3) names]
    by (simp add: build_summary_def Let_def length_count_keys valid)
  have "length (remdups (map (\<lambda>row. row_text row ''src_name'') (au_valid au))) = card ((\<lambda>row. row_text row ''src_name'') ` set rows)"
    by (simp add: length_remdups_card_conv valid)
  also have "\<dots> = length (plan_clients plan)"
    unfolding healthy_sources [OF assms(1-4)] distinct_card [OF names] by (simp add: plan_names_def)
  finally have sources: "cs_source_clients_observed (build_summary plan ex au) = int (length (plan_clients plan))"
    by (simp add: build_summary_def Let_def)
  have "cs_coverage_status (build_summary plan ex au) = ''complete''" using summary_status [OF au] acc tasks by blast
  moreover have "cs_missing_tasks (build_summary plan ex au) = []"
  proof -
    have "ex_combinations ex - set (dict_keys (count_keys (map row_task (au_valid au)))) = {}" using tasks by (auto simp: keys_count_keys valid)
    then show ?thesis by (simp only: build_summary_def Let_def coverage_summary.select_convs) simp
  qed
  ultimately show ?thesis using ex au pairs sources
    by (intro exI [of _ ex]) (auto simp: summarize_coverage_def build_summary_def Let_def split: if_splits)
qed

definition small_epoch :: "pydict list" where
  "small_epoch = epoch_rows small_plan 40"

lemma small_epoch_healthy: "healthy_epoch small_plan 40 small_epoch"
  unfolding small_epoch_def by (rule epoch_rows_healthy [OF small_valid small_policy_ok small_plan_eq]) simp

theorem healthy_epoch_complete_witness:
  "\<exists>ex s. compile_coverage_expectations small_plan = Inr ex \<and> summarize_coverage (\<lambda>_. ''0.0'') small_plan ex small_epoch = Inr s
     \<and> cs_coverage_status s = ''complete'' \<and> cs_missing_source_clients s = 0"
  using healthy_epoch_complete [OF small_valid small_policy_ok small_plan_eq small_epoch_healthy] by blast

theorem coverage_complete_iff_witness:
  "\<exists>ex s. compile_coverage_expectations small_plan = Inr ex \<and> summarize_coverage (\<lambda>_. ''0.0'') small_plan ex [] = Inr s
     \<and> cs_coverage_status s \<noteq> ''complete''"
proof -
  note w = small_valid small_policy_ok small_plan_eq
  obtain ex where names: "distinct (plan_names small_plan)" and ex: "compile_coverage_expectations small_plan = Inr ex"
    using compiled_expectations [OF w] by blast
  have s: "summarize_coverage (\<lambda>_. ''0.0'') small_plan ex [] = Inr (build_summary small_plan ex new_audit)"
    by (simp add: summarize_coverage_def)
  let ?c = "hd (plan_clients small_plan)"
  have c: "?c \<in> set (plan_clients small_plan)" by (rule small_first_client)
  have "0 < length (targets ?c)" using plan_targets(2) [OF w c] by simp
  then obtain f where f: "f \<in> set (frames ?c)" "0 \<in> set (target_indices f)" using compiled_frames(4) [OF w c] by blast
  then have "targets ?c ! 0 \<in> names_of ?c f" unfolding names_of_def using f(2) by (intro image_eqI [of _ _ 0]) simp_all
  then show ?thesis using coverage_complete_iff [OF names compiled_expectations(3) [OF w c] ex s] c f(1) ex s by fastforce
qed

end
