(* ===== verification/Detector_Analysis.thy ===== *)
theory Detector_Analysis
  imports Detector_Coverage
begin

text \<open>
  The detection of anomalies in a baseline and a current snapshot of Pingmesh rows (\<open>pingmesh/_detector_analysis.py\<close>): rows grouped by
  path and by path and port batch, medians, loss statistics, and the three detectors.
  Shown: the anomalies of an analysis are exactly the paths that satisfy the criterion of their type, each once and
  in order; comparing a snapshot with itself reports nothing but paths that lose every packet.
\<close>

subsection \<open>Data\<close>

record anomaly =
  an_type :: string
  an_src_ip :: string
  an_src_name :: string
  an_dst_ip :: string
  an_dst_name :: string
  an_src_leaf :: string
  an_dst_leaf :: string
  an_value :: rat
  an_baseline :: rat
  an_threshold :: rat
  an_severity :: string
  an_timestamp :: string
  an_samples_sent :: int
  an_samples_lost :: int
  an_sample_count :: int
  an_windows_observed :: "string list"
  an_persistence :: "string option"

text \<open>The attributes of a detector; the address of the database and its credentials are not needed.\<close>

record detector =
  dt_client_to_leaf :: "(string, string) dict"
  dt_loss_pct_threshold :: rat
  dt_loss_pct_delta :: rat
  dt_pingmesh_clients :: "string list"
  dt_client_addresses :: "(string, string option) dict"
  dt_topology_id :: string
  dt_plan :: pingmesh_plan
  dt_expectations :: expectations
  dt_plan_id :: string

text \<open>\<open>_as_float\<close>, and the float of a field, 0 of a missing one.\<close>

definition as_float :: "pyval \<Rightarrow> rat" where
  "as_float v = (case float_of_val v of Inr r \<Rightarrow> r | Inl _ \<Rightarrow> 0)"

definition field_float :: "pydict \<Rightarrow> string \<Rightarrow> rat" where
  "field_float row k = as_float (get_val row k)"

text \<open>\<open>str(row.get(k, ""))\<close>.\<close>

definition field_str :: "(rat \<Rightarrow> string) \<Rightarrow> pydict \<Rightarrow> string \<Rightarrow> string" where
  "field_str frepr row k = py_str frepr (dict_get row k (PStr []))"

subsection \<open>Groups\<close>

definition path_key :: "(rat \<Rightarrow> string) \<Rightarrow> pydict \<Rightarrow> string \<times> string" where
  "path_key frepr row = (field_str frepr row ''src_ip'', field_str frepr row ''dst_ip'')"

definition batch_key :: "(rat \<Rightarrow> string) \<Rightarrow> pydict \<Rightarrow> string \<times> string \<times> string" where
  "batch_key frepr row = (field_str frepr row ''src_ip'', field_str frepr row ''dst_ip'', field_str frepr row ''port_batch_index'')"

definition group_in_time :: "(rat \<Rightarrow> string) \<Rightarrow> (pydict \<Rightarrow> 'k) \<Rightarrow> pydict list \<Rightarrow> ('k, pydict list) dict" where
  "group_in_time frepr key rows = map (\<lambda>(k, points). (k, sort_key (row_time frepr) points)) (group_by key rows)"

definition group_by_path :: "(rat \<Rightarrow> string) \<Rightarrow> pydict list \<Rightarrow> (string \<times> string, pydict list) dict" where
  "group_by_path frepr rows = group_in_time frepr (path_key frepr) rows"

definition group_by_path_port_batch :: "(rat \<Rightarrow> string) \<Rightarrow> pydict list \<Rightarrow> (string \<times> string \<times> string, pydict list) dict" where
  "group_by_path_port_batch frepr rows = group_in_time frepr (batch_key frepr) rows"

subsection \<open>Statistics\<close>

text \<open>\<open>statistics.median\<close> of at least one float.\<close>

definition median :: "rat list \<Rightarrow> rat" where
  "median xs = (let s = sort xs; n = length s in
     if odd n then s ! (n div 2) else fdiv (fadd (s ! (n div 2 - 1)) (s ! (n div 2))) 2)"

record loss_stats =
  ls_loss_pct :: rat
  ls_sent :: rat
  ls_lost :: rat
  ls_samples :: int
  ls_mtu_drops :: rat

definition loss_stats_of :: "string \<Rightarrow> pydict list \<Rightarrow> loss_stats option" where
  "loss_stats_of prefix rows =
     (let counted = [(field_float row (prefix @ ''packets_sent''), field_float row (prefix @ ''packets_lost'')).
            row \<leftarrow> rows, 0 < field_float row (prefix @ ''packets_sent'')];
          mtu_drops = (if prefix = [] then 0 else foldl fadd 0 (map (\<lambda>row. field_float row ''df_mtu_drops'') rows)) in
      if counted = [] then None
      else let total_sent = py_fsum (map fst counted); total_lost = py_fsum (map snd counted) in
        Some \<lparr> ls_loss_pct = fmul (fdiv total_lost total_sent) 100, ls_sent = total_sent, ls_lost = total_lost,
          ls_samples = int (length counted), ls_mtu_drops = mtu_drops \<rparr>)"

definition rtt_values :: "pydict list \<Rightarrow> rat list" where
  "rtt_values points = [v \<leftarrow> map (\<lambda>p. field_float p ''rtt_avg'') points. 0 < v]"

subsection \<open>Anomalies\<close>

definition signal_severity :: "string \<Rightarrow> rat \<Rightarrow> rat \<Rightarrow> rat \<Rightarrow> string" where
  "signal_severity ty v baseline threshold =
     (if ty = ''latency_spike'' then
        (let increase = max 0 (fsub v baseline) in
         if 50 \<le> increase then ''high'' else if 10 \<le> increase then ''medium'' else ''low'')
      else if threshold = 0 then ''high''
      else let ratio = fdiv v threshold in
        if 2 < ratio then ''high'' else if 3 / 2 < ratio then ''medium'' else ''low'')"

text \<open>\<open>now\<close> is the text of the clock, for a row without a time.\<close>

definition new_anomaly :: "(rat \<Rightarrow> string) \<Rightarrow> string \<Rightarrow> string \<Rightarrow> pydict \<Rightarrow> rat \<Rightarrow> rat \<Rightarrow> rat \<Rightarrow> string option \<Rightarrow> int \<Rightarrow> int \<Rightarrow> int \<Rightarrow> anomaly" where
  "new_anomaly frepr now ty point v baseline threshold severity sent lost count = \<lparr>
     an_type = ty, an_src_ip = field_str frepr point ''src_ip'', an_src_name = field_str frepr point ''src_name'',
     an_dst_ip = field_str frepr point ''dst_ip'', an_dst_name = field_str frepr point ''dst_name'',
     an_src_leaf = field_str frepr point ''src_leaf'', an_dst_leaf = field_str frepr point ''dst_leaf'',
     an_value = v, an_baseline = baseline, an_threshold = threshold,
     an_severity = (case severity of Some s \<Rightarrow> s | None \<Rightarrow> signal_severity ty v baseline threshold),
     an_timestamp = or_else (row_time frepr point) now,
     an_samples_sent = sent, an_samples_lost = lost, an_sample_count = count, an_windows_observed = [], an_persistence = None \<rparr>"

definition MIN_LATENCY_DELTA_MS :: rat where "MIN_LATENCY_DELTA_MS = 20"
definition MIN_PATH_LOST_PROBES :: rat where "MIN_PATH_LOST_PROBES = 3"
definition MIN_CONFIRMED_DF_PROBES :: rat where "MIN_CONFIRMED_DF_PROBES = 16"

text \<open>Each detector judges one group of current rows against the group of baseline rows with the same key, \<open>[]\<close> when
  there is none.\<close>

definition latency_anomaly :: "(rat \<Rightarrow> string) \<Rightarrow> string \<Rightarrow> pydict list \<Rightarrow> pydict list \<Rightarrow> anomaly option" where
  "latency_anomaly frepr now baseline_points current_points =
     (let baseline_values = rtt_values baseline_points; current_values = rtt_values current_points in
      if current_values = [] \<or> baseline_values = [] then None
      else let baseline = median baseline_values; current = median current_values; threshold = fadd baseline MIN_LATENCY_DELTA_MS in
        if current < threshold then None
        else Some (new_anomaly frepr now ''latency_spike'' (hd current_points) current baseline threshold None 0 0 (int (length current_values))))"

definition detect_latency_from_rows :: "(rat \<Rightarrow> string) \<Rightarrow> string \<Rightarrow> (string \<times> string, pydict list) dict \<Rightarrow> (string \<times> string, pydict list) dict \<Rightarrow> anomaly list" where
  "detect_latency_from_rows frepr now baseline_paths current_paths =
     List.map_filter (\<lambda>(k, points). latency_anomaly frepr now (dict_get baseline_paths k []) points) current_paths"

definition loss_threshold :: "detector \<Rightarrow> loss_stats \<Rightarrow> rat" where
  "loss_threshold dt baseline = max (dt_loss_pct_threshold dt) (fadd (ls_loss_pct baseline) (dt_loss_pct_delta dt))"

definition loss_anomaly :: "(rat \<Rightarrow> string) \<Rightarrow> string \<Rightarrow> detector \<Rightarrow> loss_stats \<Rightarrow> loss_stats \<Rightarrow> pydict list \<Rightarrow> anomaly option" where
  "loss_anomaly frepr now dt baseline current points =
     (let threshold = loss_threshold dt baseline in
      if ls_sent current \<le> ls_lost current
      then Some (new_anomaly frepr now ''path_unreachable'' (hd points) 100 (ls_loss_pct baseline) 100 (Some ''high'')
             (trunc (ls_sent current)) (trunc (ls_lost current)) (ls_samples current))
      else if threshold \<le> ls_loss_pct current \<and> MIN_PATH_LOST_PROBES \<le> ls_lost current
      then Some (new_anomaly frepr now ''packet_loss'' (hd points) (ls_loss_pct current) (ls_loss_pct baseline) threshold None
             (trunc (ls_sent current)) (trunc (ls_lost current)) (ls_samples current))
      else None)"

text \<open>The statistics of the paths whose current rows sent something, and of their baselines.\<close>

definition loss_paths :: "(string \<times> string, pydict list) dict \<Rightarrow> (string \<times> string, pydict list) dict
    \<Rightarrow> (loss_stats option \<times> loss_stats \<times> pydict list) list" where
  "loss_paths baseline_paths current_paths =
     List.map_filter (\<lambda>(k, points). case loss_stats_of [] points of
         None \<Rightarrow> None
       | Some current \<Rightarrow> if ls_sent current \<le> 0 then None else Some (loss_stats_of [] (dict_get baseline_paths k []), current, points)) current_paths"

definition detect_loss_from_rows :: "(rat \<Rightarrow> string) \<Rightarrow> string \<Rightarrow> detector \<Rightarrow> (string \<times> string, pydict list) dict \<Rightarrow> (string \<times> string, pydict list) dict
    \<Rightarrow> anomaly list \<times> int" where
  "detect_loss_from_rows frepr now dt baseline_paths current_paths =
     (let paths = loss_paths baseline_paths current_paths in
      (List.map_filter (\<lambda>(baseline, current, points). case baseline of None \<Rightarrow> None | Some b \<Rightarrow> loss_anomaly frepr now dt b current points) paths,
       int (length [p \<leftarrow> paths. fst p = None])))"

definition df_anomaly :: "(rat \<Rightarrow> string) \<Rightarrow> string \<Rightarrow> detector \<Rightarrow> pydict list \<Rightarrow> pydict list \<Rightarrow> anomaly option" where
  "df_anomaly frepr now dt baseline_points current_points =
     (case (loss_stats_of ''df_'' baseline_points, loss_stats_of ''df_'' current_points, loss_stats_of [] baseline_points, loss_stats_of [] current_points) of
        (Some baseline_df, Some current_df, Some baseline_rtt, Some current_rtt) \<Rightarrow>
          (let rtt_threshold = loss_threshold dt baseline_rtt;
               rtt_healthy = (0 < ls_sent current_rtt \<and> ls_loss_pct current_rtt < rtt_threshold \<and> ls_lost current_rtt = 0);
               df_loss_signal = (MIN_CONFIRMED_DF_PROBES \<le> ls_sent current_df \<and> ls_sent current_df \<le> ls_lost current_df
                 \<and> 15 \<le> fsub (ls_loss_pct current_df) (ls_loss_pct baseline_df)) in
           if \<not> rtt_healthy \<or> \<not> df_loss_signal \<or> 0 < ls_mtu_drops current_df then None
           else Some (new_anomaly frepr now ''mtu_or_fragmentation_suspect'' (hd current_points) (ls_loss_pct current_df) (ls_loss_pct baseline_df)
             (max 20 (fadd (ls_loss_pct baseline_df) 15)) (Some ''high'') (trunc (ls_sent current_df)) (trunc (ls_lost current_df)) (ls_samples current_df)))
      | _ \<Rightarrow> None)"

definition path_of_batch :: "string \<times> string \<times> string \<Rightarrow> string \<times> string" where
  "path_of_batch k = (fst k, fst (snd k))"

definition detect_df_from_rows :: "(rat \<Rightarrow> string) \<Rightarrow> string \<Rightarrow> detector \<Rightarrow> (string \<times> string \<times> string, pydict list) dict
    \<Rightarrow> (string \<times> string \<times> string, pydict list) dict \<Rightarrow> anomaly list" where
  "detect_df_from_rows frepr now dt baseline_batches current_batches =
     dict_values (dict_of (List.map_filter (\<lambda>(k, points). map_option (Pair (path_of_batch k))
       (df_anomaly frepr now dt (dict_get baseline_batches k []) points)) current_batches))"

subsection \<open>The analysis\<close>

record snapshot_analysis =
  sa_anomalies :: "anomaly list"
  sa_quality :: "(string, int) dict"

definition anomaly_key :: "anomaly \<Rightarrow> string \<times> string \<times> string" where
  "anomaly_key a = (an_type a, an_src_ip a, an_dst_ip a)"

definition absolute_unreachable :: "pydict list \<Rightarrow> bool" where
  "absolute_unreachable points = (case loss_stats_of [] points of
     None \<Rightarrow> False | Some s \<Rightarrow> 0 < ls_sent s \<and> ls_sent s \<le> ls_lost s)"

definition absolute_loss :: "detector \<Rightarrow> pydict list \<Rightarrow> bool" where
  "absolute_loss dt points = (\<not> absolute_unreachable points \<and> (case loss_stats_of [] points of
     None \<Rightarrow> False | Some s \<Rightarrow> dt_loss_pct_threshold dt \<le> ls_loss_pct s \<and> MIN_PATH_LOST_PROBES \<le> ls_lost s))"

definition absolute_mtu :: "pydict list \<Rightarrow> bool" where
  "absolute_mtu points = (case (loss_stats_of [] points, loss_stats_of ''df_'' points) of
     (Some regular, Some df) \<Rightarrow> 0 < ls_sent regular \<and> ls_lost regular = 0 \<and> MIN_CONFIRMED_DF_PROBES \<le> ls_sent df
        \<and> ls_sent df \<le> ls_lost df \<and> ls_mtu_drops df = 0
   | _ \<Rightarrow> False)"

definition sum_field :: "pydict list \<Rightarrow> string \<Rightarrow> int" where
  "sum_field rows k = trunc (py_fsum (map (\<lambda>row. field_float row k) rows))"

definition analyze_snapshot_rows :: "(rat \<Rightarrow> string) \<Rightarrow> string \<Rightarrow> detector \<Rightarrow> pydict list \<Rightarrow> pydict list \<Rightarrow> snapshot_analysis" where
  "analyze_snapshot_rows frepr now dt baseline_rows current_rows =
     (let baseline_paths = group_by_path frepr baseline_rows; current_paths = group_by_path frepr current_rows;
          baseline_batches = group_by_path_port_batch frepr baseline_rows; current_batches = group_by_path_port_batch frepr current_rows;
          (loss_anomalies, insufficient_baseline) = detect_loss_from_rows frepr now dt baseline_paths current_paths;
          anomalies = detect_latency_from_rows frepr now baseline_paths current_paths @ loss_anomalies
            @ detect_df_from_rows frepr now dt baseline_batches current_batches;
          losses = regular_loss_by_socket_batch frepr current_rows;
          unexplained = [row \<leftarrow> current_rows. \<not> is_explained_df_send_error frepr losses row]
      in \<lparr> sa_anomalies = sort_key anomaly_key anomalies,
           sa_quality =
             [(''baseline_paths_observed'', int (length baseline_paths)),
              (''current_paths_observed'', int (length current_paths)),
              (''not_observed_paths'', int (length [k \<leftarrow> dict_keys baseline_paths. k \<notin> set (dict_keys current_paths)])),
              (''insufficient_baseline_paths'', insufficient_baseline),
              (''absolute_unreachable_paths'', int (length [points \<leftarrow> dict_values current_paths. absolute_unreachable points])),
              (''absolute_packet_loss_paths'', int (length [points \<leftarrow> dict_values current_paths. absolute_loss dt points])),
              (''absolute_network_mtu_paths'', int (card (path_of_batch ` fst ` set [kp \<leftarrow> current_batches. absolute_mtu (snd kp)]))),
              (''local_df_mtu_drops'', sum_field unexplained ''df_mtu_drops''),
              (''local_probe_errors'', sum_field unexplained ''local_probe_errors'')] \<rparr>)"

subsection \<open>Evidence of probe pairs\<close>

record phase_evidence =
  ev_samples :: int
  ev_rtt_median_ms :: "rat option"
  ev_rtt_max_ms :: "rat option"
  ev_local_probe_errors :: int
  ev_regular :: "loss_stats option"
  ev_df :: "loss_stats option"

record pair_evidence =
  pe_src :: string
  pe_dst :: string
  pe_baseline :: phase_evidence
  pe_fault :: phase_evidence

definition evidence_of :: "pydict list \<Rightarrow> phase_evidence" where
  "evidence_of points = \<lparr> ev_samples = int (length points),
     ev_rtt_median_ms = (let rtts = rtt_values points in if rtts = [] then None else Some (median rtts)),
     ev_rtt_max_ms = (if points = [] then None else Some (Max (set (map (\<lambda>row. field_float row ''rtt_max'') points)))),
     ev_local_probe_errors = sum_list (map (\<lambda>row. trunc (field_float row ''local_probe_errors'')) points),
     ev_regular = loss_stats_of [] points, ev_df = loss_stats_of ''df_'' points \<rparr>"

text \<open>The rows of a pair: a row whose names are texts; one whose names cannot be hashed raises.\<close>

definition rows_of_pair :: "pydict list \<Rightarrow> string \<times> string \<Rightarrow> pydict list" where
  "rows_of_pair rows p = [row \<leftarrow> rows. get_val row ''src_name'' = PStr (fst p) \<and> get_val row ''dst_name'' = PStr (snd p)]"

definition row_hashable :: "pydict \<Rightarrow> bool" where
  "row_hashable row = (hashable (get_val row ''src_name'') \<and> hashable (get_val row ''dst_name''))"

definition probe_pair_evidence :: "pydict list \<Rightarrow> pydict list \<Rightarrow> (string \<times> string) list \<Rightarrow> pair_evidence list res" where
  "probe_pair_evidence baseline_rows current_rows pairs =
     rbind (raise_if (\<not> list_all row_hashable (baseline_rows @ current_rows)) (TypeError ''unhashable type'')) (\<lambda>_.
     Inr (map (\<lambda>p. \<lparr> pe_src = fst p, pe_dst = snd p, pe_baseline = evidence_of (rows_of_pair baseline_rows p),
         pe_fault = evidence_of (rows_of_pair current_rows p) \<rparr>) (sort (remdups pairs))))"


subsection \<open>Groups are the rows with a key\<close>

definition group_rows :: "(rat \<Rightarrow> string) \<Rightarrow> (pydict \<Rightarrow> 'k) \<Rightarrow> pydict list \<Rightarrow> 'k \<Rightarrow> pydict list" where
  "group_rows frepr key rows k = sort_key (row_time frepr) [row \<leftarrow> rows. key row = k]"

lemma map_of_group_in_time:
  "map_of (group_in_time frepr key rows) k = (if k \<in> key ` set rows then Some (group_rows frepr key rows k) else None)"
  by (auto simp: group_in_time_def map_of_map map_of_group_by Let_def group_rows_def filter_empty_conv)

lemma group_rows_empty: "k \<notin> key ` set rows \<Longrightarrow> group_rows frepr key rows k = []"
proof -
  assume "k \<notin> key ` set rows"
  then have "[row \<leftarrow> rows. key row = k] = []" by (auto simp: filter_empty_conv)
  then show ?thesis unfolding group_rows_def by (simp only: sort_key_simps)
qed

lemma get_group_in_time: "dict_get (group_in_time frepr key rows) k [] = group_rows frepr key rows k"
  by (simp add: dict_get_def map_of_group_in_time group_rows_empty)

lemma wf_group_in_time: "wf_dict (group_in_time frepr key rows)"
  using wf_group_by [of key rows] by (simp add: wf_dict_def group_in_time_def comp_def split_beta)

lemma mem_group_in_time:
  "((k, points) \<in> set (group_in_time frepr key rows)) = (k \<in> key ` set rows \<and> points = group_rows frepr key rows k)"
  using wf_group_in_time [of frepr key rows] map_of_group_in_time [of frepr key rows k]
  by (metis (full_types) map_of_eq_Some_iff option.distinct(1) option.inject wf_dict_def)

lemma hd_group_rows: "k \<in> key ` set rows \<Longrightarrow> key (hd (group_rows frepr key rows k)) = k"
proof -
  assume "k \<in> key ` set rows"
  then have "group_rows frepr key rows k \<noteq> []" by (force simp: group_rows_def filter_empty_conv simp flip: set_empty)
  then have "hd (group_rows frepr key rows k) \<in> set (group_rows frepr key rows k)" by simp
  then show ?thesis by (simp add: group_rows_def)
qed

subsection \<open>Filtering a dictionary\<close>

lemma map_filter_keys:
  assumes "distinct (map fst d)" and "\<And>k v a. (k, v) \<in> set d \<Longrightarrow> f (k, v) = Some a \<Longrightarrow> key a = g k" and "inj g"
  shows "distinct (map key (List.map_filter f d))"
    and "set (map key (List.map_filter f d)) = {g k | k v. (k, v) \<in> set d \<and> f (k, v) \<noteq> None}"
proof -
  have "distinct (map key (List.map_filter f d)) \<and> set (map key (List.map_filter f d)) = {g k | k v. (k, v) \<in> set d \<and> f (k, v) \<noteq> None}"
    using assms(1,2)
  proof (induction d)
    case (Cons kv d)
    obtain k v where kv: "kv = (k, v)" by (cases kv)
    have IH: "distinct (map key (List.map_filter f d))" "set (map key (List.map_filter f d)) = {g k | k v. (k, v) \<in> set d \<and> f (k, v) \<noteq> None}"
    proof -
      have "key a = g k" if "(k, v) \<in> set d" "f (k, v) = Some a" for k v a
        using Cons.prems(2) [of k v a] that by simp
      then have "distinct (map key (List.map_filter f d)) \<and> set (map key (List.map_filter f d)) = {g k | k v. (k, v) \<in> set d \<and> f (k, v) \<noteq> None}"
        using Cons.IH Cons.prems(1) by fastforce
      then show "distinct (map key (List.map_filter f d))" "set (map key (List.map_filter f d)) = {g k | k v. (k, v) \<in> set d \<and> f (k, v) \<noteq> None}"
        by blast+
    qed
    have "g k \<notin> {g k | k v. (k, v) \<in> set d \<and> f (k, v) \<noteq> None}" using Cons.prems(1) assms(3) by (force simp: kv dest: injD)
    moreover have "key a = g k" if "f (k, v) = Some a" for a using Cons.prems(2) [of k v a] that by (simp add: kv)
    ultimately show ?case
      using IH by (cases "f (k, v)") (auto simp: kv List.map_filter_simps)
  qed (simp add: List.map_filter_simps)
  then show "distinct (map key (List.map_filter f d))" "set (map key (List.map_filter f d)) = {g k | k v. (k, v) \<in> set d \<and> f (k, v) \<noteq> None}"
    by blast+
qed

lemma map_filter_map_filter:
  "List.map_filter f (List.map_filter g xs) = List.map_filter (\<lambda>x. case g x of None \<Rightarrow> None | Some y \<Rightarrow> f y) xs"
  by (induction xs) (auto simp: List.map_filter_simps split: option.split)

lemma set_map_filter: "set (List.map_filter f xs) = {y. \<exists>x \<in> set xs. f x = Some y}"
  by (induction xs) (auto simp: List.map_filter_simps split: option.split)

subsection \<open>The criteria of the detectors\<close>

definition latency_signal :: "pydict list \<Rightarrow> pydict list \<Rightarrow> bool" where
  "latency_signal b c \<longleftrightarrow> rtt_values b \<noteq> [] \<and> rtt_values c \<noteq> [] \<and> fadd (median (rtt_values b)) 20 \<le> median (rtt_values c)"

definition unreachable_signal :: "pydict list \<Rightarrow> pydict list \<Rightarrow> bool" where
  "unreachable_signal b c \<longleftrightarrow> (\<exists>x y. loss_stats_of [] b = Some x \<and> loss_stats_of [] c = Some y \<and> 0 < ls_sent y \<and> ls_sent y \<le> ls_lost y)"

definition loss_signal :: "detector \<Rightarrow> pydict list \<Rightarrow> pydict list \<Rightarrow> bool" where
  "loss_signal dt b c \<longleftrightarrow> (\<exists>x y. loss_stats_of [] b = Some x \<and> loss_stats_of [] c = Some y \<and> 0 < ls_sent y \<and> ls_lost y < ls_sent y
     \<and> loss_threshold dt x \<le> ls_loss_pct y \<and> 3 \<le> ls_lost y)"

text \<open>All the unfragmented probes of at least 16 were lost, which is 15 points worse than before, while no regular probe was
  lost and no drop was counted by the sender.\<close>

definition mtu_signal :: "detector \<Rightarrow> pydict list \<Rightarrow> pydict list \<Rightarrow> bool" where
  "mtu_signal dt b c \<longleftrightarrow> (\<exists>x y v w. loss_stats_of ''df_'' b = Some x \<and> loss_stats_of ''df_'' c = Some y
     \<and> loss_stats_of [] b = Some v \<and> loss_stats_of [] c = Some w \<and> 0 < ls_sent w \<and> ls_lost w = 0 \<and> ls_loss_pct w < loss_threshold dt v
     \<and> 16 \<le> ls_sent y \<and> ls_sent y \<le> ls_lost y \<and> 15 \<le> fsub (ls_loss_pct y) (ls_loss_pct x) \<and> ls_mtu_drops y \<le> 0)"

lemma loss_stats_empty [simp]: "loss_stats_of prefix [] = None"
  by (simp add: loss_stats_of_def)

lemma signals_of_nothing: "\<not> latency_signal b []" "\<not> unreachable_signal b []" "\<not> loss_signal dt b []" "\<not> mtu_signal dt b []"
  by (simp_all add: latency_signal_def unreachable_signal_def loss_signal_def mtu_signal_def rtt_values_def)

lemma new_anomaly_key: "anomaly_key (new_anomaly frepr now ty point v baseline threshold severity sent lost count) = (ty, path_key frepr point)"
  by (simp add: anomaly_key_def new_anomaly_def path_key_def)

lemma latency_anomaly_signal:
  "(latency_anomaly frepr now b c \<noteq> None) = latency_signal b c"
  "latency_anomaly frepr now b c = Some a \<Longrightarrow> anomaly_key a = (''latency_spike'', path_key frepr (hd c))"
  by (auto simp: latency_anomaly_def latency_signal_def Let_def MIN_LATENCY_DELTA_MS_def new_anomaly_key split: if_splits)

text \<open>The anomaly of one path in the loss detector.\<close>

definition path_loss :: "(rat \<Rightarrow> string) \<Rightarrow> string \<Rightarrow> detector \<Rightarrow> pydict list \<Rightarrow> pydict list \<Rightarrow> anomaly option" where
  "path_loss frepr now dt b c = (case loss_stats_of [] c of
      None \<Rightarrow> None
    | Some y \<Rightarrow> if ls_sent y \<le> 0 then None else (case loss_stats_of [] b of None \<Rightarrow> None | Some x \<Rightarrow> loss_anomaly frepr now dt x y c))"

lemma detect_loss_eq:
  "fst (detect_loss_from_rows frepr now dt baseline_paths current_paths) =
     List.map_filter (\<lambda>(k, points). path_loss frepr now dt (dict_get baseline_paths k []) points) current_paths"
  unfolding detect_loss_from_rows_def loss_paths_def Let_def fst_conv map_filter_map_filter
  by (intro arg_cong [of _ _ "\<lambda>f. List.map_filter f current_paths"] ext) (auto simp: path_loss_def split: option.splits if_splits)

lemma path_loss_signal:
  "(\<exists>a. path_loss frepr now dt b c = Some a \<and> anomaly_key a = (ty, p)) =
     ((ty = ''path_unreachable'' \<and> unreachable_signal b c \<or> ty = ''packet_loss'' \<and> loss_signal dt b c) \<and> p = path_key frepr (hd c))"
  by (auto simp: path_loss_def loss_anomaly_def unreachable_signal_def loss_signal_def Let_def MIN_PATH_LOST_PROBES_def new_anomaly_key
      split: option.splits if_splits)

lemma path_loss_key:
  "path_loss frepr now dt b c = Some a \<Longrightarrow> anomaly_key a = (an_type a, path_key frepr (hd c)) \<and> an_type a \<in> {''path_unreachable'', ''packet_loss''}"
  using path_loss_signal [of frepr now dt b c "an_type a" "snd (anomaly_key a)"] by (auto simp: anomaly_key_def)

lemma df_anomaly_signal:
  "(df_anomaly frepr now dt b c \<noteq> None) = mtu_signal dt b c"
  "df_anomaly frepr now dt b c = Some a \<Longrightarrow> anomaly_key a = (''mtu_or_fragmentation_suspect'', path_key frepr (hd c))"
  by (auto simp: df_anomaly_def mtu_signal_def Let_def MIN_CONFIRMED_DF_PROBES_def new_anomaly_key split: if_splits option.splits)

subsection \<open>The keys of the detected anomalies\<close>

abbreviation path_rows :: "(rat \<Rightarrow> string) \<Rightarrow> pydict list \<Rightarrow> string \<times> string \<Rightarrow> pydict list" where
  "path_rows frepr \<equiv> group_rows frepr (path_key frepr)"

abbreviation batch_rows :: "(rat \<Rightarrow> string) \<Rightarrow> pydict list \<Rightarrow> string \<times> string \<times> string \<Rightarrow> pydict list" where
  "batch_rows frepr \<equiv> group_rows frepr (batch_key frepr)"

definition path_signal :: "(rat \<Rightarrow> string) \<Rightarrow> detector \<Rightarrow> pydict list \<Rightarrow> pydict list \<Rightarrow> string \<Rightarrow> string \<times> string \<Rightarrow> bool" where
  "path_signal frepr dt base cur ty p \<longleftrightarrow>
     ty = ''latency_spike'' \<and> latency_signal (path_rows frepr base p) (path_rows frepr cur p)
   \<or> ty = ''path_unreachable'' \<and> unreachable_signal (path_rows frepr base p) (path_rows frepr cur p)
   \<or> ty = ''packet_loss'' \<and> loss_signal dt (path_rows frepr base p) (path_rows frepr cur p)
   \<or> ty = ''mtu_or_fragmentation_suspect''
       \<and> (\<exists>b. mtu_signal dt (batch_rows frepr base (fst p, snd p, b)) (batch_rows frepr cur (fst p, snd p, b)))"

lemma path_of_batch_key: "path_of_batch (batch_key frepr row) = path_key frepr row"
  by (simp add: path_of_batch_def batch_key_def path_key_def)

lemma latency_keys:
  fixes frepr now base cur
  defines "found \<equiv> detect_latency_from_rows frepr now (group_by_path frepr base) (group_by_path frepr cur)"
  shows "distinct (map anomaly_key found)"
    and "set (map anomaly_key found) = {(''latency_spike'', p) | p. latency_signal (path_rows frepr base p) (path_rows frepr cur p)}"
proof -
  let ?f = "\<lambda>(k, points). latency_anomaly frepr now (dict_get (group_by_path frepr base) k []) points"
  have key: "anomaly_key a = (''latency_spike'', k)" if "(k, points) \<in> set (group_by_path frepr cur)" "?f (k, points) = Some a" for k points a
    using that latency_anomaly_signal(2) hd_group_rows by (fastforce simp: group_by_path_def mem_group_in_time)
  have "distinct (map fst (group_by_path frepr cur))" using wf_group_in_time by (simp add: group_by_path_def wf_dict_def)
  note keys = map_filter_keys [of "group_by_path frepr cur" ?f anomaly_key "Pair ''latency_spike''", OF this key]
  show "distinct (map anomaly_key found)"
    unfolding found_def detect_latency_from_rows_def by (rule keys(1)) (simp_all add: inj_on_def)
  have "set (map anomaly_key found) = {(''latency_spike'', k) | k v. (k, v) \<in> set (group_by_path frepr cur) \<and> ?f (k, v) \<noteq> None}"
    unfolding found_def detect_latency_from_rows_def by (rule keys(2)) (simp_all add: inj_on_def)
  also have "\<dots> = {(''latency_spike'', p) | p. latency_signal (path_rows frepr base p) (path_rows frepr cur p)}"
    unfolding group_by_path_def get_group_in_time mem_group_in_time
    by (auto simp: latency_anomaly_signal(1) [simplified]) (metis group_rows_empty signals_of_nothing(1))
  finally show "set (map anomaly_key found) = {(''latency_spike'', p) | p. latency_signal (path_rows frepr base p) (path_rows frepr cur p)}" .
qed


lemma loss_keys:
  fixes frepr now dt base cur
  defines "found \<equiv> fst (detect_loss_from_rows frepr now dt (group_by_path frepr base) (group_by_path frepr cur))"
  shows "distinct (map anomaly_key found)"
    and "set (map anomaly_key found) =
       {(ty, p). ty = ''path_unreachable'' \<and> unreachable_signal (path_rows frepr base p) (path_rows frepr cur p)
               \<or> ty = ''packet_loss'' \<and> loss_signal dt (path_rows frepr base p) (path_rows frepr cur p)}"
proof -
  let ?f = "\<lambda>(k, points). path_loss frepr now dt (dict_get (group_by_path frepr base) k []) points"
  have hd: "path_key frepr (hd points) = k" if "(k, points) \<in> set (group_by_path frepr cur)" for k points
    using that hd_group_rows by (fastforce simp: group_by_path_def mem_group_in_time)
  have key: "snd (anomaly_key a) = id k" if "(k, points) \<in> set (group_by_path frepr cur)" "?f (k, points) = Some a" for k points a
    using that hd path_loss_key by (metis case_prod_conv id_apply snd_conv)
  have "distinct (map fst (group_by_path frepr cur))" using wf_group_in_time by (simp add: group_by_path_def wf_dict_def)
  note keys = map_filter_keys [of "group_by_path frepr cur" ?f "snd \<circ> anomaly_key" id, OF this, unfolded comp_def, OF key]
  have "distinct (map (\<lambda>a. snd (anomaly_key a)) found)"
    unfolding found_def detect_loss_eq by (rule keys(1)) simp_all
  then have "distinct (map snd (map anomaly_key found))" by (simp add: comp_def)
  then show "distinct (map anomaly_key found)" unfolding distinct_map [of snd] by (rule conjunct1)
  have "set (map anomaly_key found) = {(ty, p). \<exists>points. (p, points) \<in> set (group_by_path frepr cur)
      \<and> (\<exists>a. ?f (p, points) = Some a \<and> anomaly_key a = (ty, p))}"
  proof (intro equalityI subsetI)
    fix x assume "x \<in> set (map anomaly_key found)"
    then obtain a k points where "x = anomaly_key a" "(k, points) \<in> set (group_by_path frepr cur)" "?f (k, points) = Some a"
      unfolding found_def detect_loss_eq by (auto simp: set_map_filter)
    moreover from key [OF calculation(2,3)] obtain ty where ty: "anomaly_key a = (ty, k)" by (cases "anomaly_key a") simp
    ultimately have "x = (ty, k)" "(k, points) \<in> set (group_by_path frepr cur)" "?f (k, points) = Some a" by simp_all
    then show "x \<in> {(ty, p). \<exists>points. (p, points) \<in> set (group_by_path frepr cur) \<and> (\<exists>a. ?f (p, points) = Some a \<and> anomaly_key a = (ty, p))}"
      using ty by auto
  qed (auto simp: found_def detect_loss_eq set_map_filter, force)
  moreover have "(\<exists>points. (p, points) \<in> set (group_by_path frepr cur) \<and> (\<exists>a. ?f (p, points) = Some a \<and> anomaly_key a = (ty, p)))
      = (ty = ''path_unreachable'' \<and> unreachable_signal (path_rows frepr base p) (path_rows frepr cur p)
         \<or> ty = ''packet_loss'' \<and> loss_signal dt (path_rows frepr base p) (path_rows frepr cur p))" for ty p
  proof (cases "p \<in> path_key frepr ` set cur")
    case True
    then show ?thesis
      by (simp add: group_by_path_def get_group_in_time mem_group_in_time path_loss_signal hd_group_rows del: image_iff)
  next
    case False
    then show ?thesis by (simp add: group_by_path_def mem_group_in_time group_rows_empty signals_of_nothing del: image_iff)
  qed
  ultimately show "set (map anomaly_key found) =
       {(ty, p). ty = ''path_unreachable'' \<and> unreachable_signal (path_rows frepr base p) (path_rows frepr cur p)
               \<or> ty = ''packet_loss'' \<and> loss_signal dt (path_rows frepr base p) (path_rows frepr cur p)}" by (simp only:)
qed

lemma df_keys:
  fixes frepr now dt base cur
  defines "found \<equiv> detect_df_from_rows frepr now dt (group_by_path_port_batch frepr base) (group_by_path_port_batch frepr cur)"
  shows "distinct (map anomaly_key found)"
    and "set (map anomaly_key found) = {(''mtu_or_fragmentation_suspect'', p) | p.
       \<exists>b. mtu_signal dt (batch_rows frepr base (fst p, snd p, b)) (batch_rows frepr cur (fst p, snd p, b))}"
proof -
  let ?f = "\<lambda>(k, points). map_option (Pair (path_of_batch k)) (df_anomaly frepr now dt (dict_get (group_by_path_port_batch frepr base) k []) points)"
  define kvs where "kvs = List.map_filter ?f (group_by_path_port_batch frepr cur)"
  have mem: "(p, a) \<in> set kvs \<longleftrightarrow> (\<exists>k. k \<in> batch_key frepr ` set cur \<and> p = path_of_batch k
      \<and> df_anomaly frepr now dt (batch_rows frepr base k) (batch_rows frepr cur k) = Some a)" for p a
    unfolding kvs_def set_map_filter by (auto simp: group_by_path_port_batch_def get_group_in_time mem_group_in_time Bex_def)
  have key: "anomaly_key a = (''mtu_or_fragmentation_suspect'', p)" if "(p, a) \<in> set kvs" for p a
    using that by (auto simp: mem df_anomaly_signal(2) hd_group_rows path_of_batch_key simp flip: path_of_batch_key)
  have found: "found = map snd (dict_of kvs)" by (simp add: found_def detect_df_from_rows_def dict_values_def kvs_def)
  have dict: "(p, a) \<in> set kvs" if "(p, a) \<in> set (dict_of kvs)" for p a
  proof -
    have "map_of (dict_of kvs) p = Some a" using that wf_dict_of [of kvs] by (simp add: wf_dict_def)
    then show ?thesis by (auto simp: map_of_dict_of dest: map_of_SomeD)
  qed
  have e: "map anomaly_key found = map (Pair ''mtu_or_fragmentation_suspect'') (map fst (dict_of kvs))"
    unfolding found using dict key by auto
  show "distinct (map anomaly_key found)"
    unfolding e using wf_dict_of [of kvs] by (simp add: distinct_map inj_on_def wf_dict_def)
  have "set (map fst (dict_of kvs)) = fst ` set kvs" using keys_dict_of [of kvs] by (simp add: dict_keys_def)
  also have "\<dots> = {p. \<exists>b. mtu_signal dt (batch_rows frepr base (fst p, snd p, b)) (batch_rows frepr cur (fst p, snd p, b))}"
  proof (intro set_eqI iffI)
    fix p assume "p \<in> fst ` set kvs"
    then obtain a where "(p, a) \<in> set kvs" by auto
    then obtain k where "p = path_of_batch k" "df_anomaly frepr now dt (batch_rows frepr base k) (batch_rows frepr cur k) = Some a"
      unfolding mem by blast
    then have "mtu_signal dt (batch_rows frepr base k) (batch_rows frepr cur k)" "k = (fst p, snd p, snd (snd k))"
      using df_anomaly_signal(1) [of frepr now dt] by (fastforce simp: path_of_batch_def)+
    then show "p \<in> {p. \<exists>b. mtu_signal dt (batch_rows frepr base (fst p, snd p, b)) (batch_rows frepr cur (fst p, snd p, b))}"
      by (metis (mono_tags, lifting) mem_Collect_eq)
  next
    fix p assume "p \<in> {p. \<exists>b. mtu_signal dt (batch_rows frepr base (fst p, snd p, b)) (batch_rows frepr cur (fst p, snd p, b))}"
    then obtain k where k: "mtu_signal dt (batch_rows frepr base k) (batch_rows frepr cur k)" "p = path_of_batch k"
      by (auto simp: path_of_batch_def)
    then obtain a where "df_anomaly frepr now dt (batch_rows frepr base k) (batch_rows frepr cur k) = Some a"
      using df_anomaly_signal(1) [of frepr now dt] by blast
    moreover have "k \<in> batch_key frepr ` set cur" using k(1) group_rows_empty signals_of_nothing(4) by metis
    ultimately have "(p, a) \<in> set kvs" unfolding mem using k(2) by blast
    then show "p \<in> fst ` set kvs" by force
  qed
  finally have fst: "set (map fst (dict_of kvs)) = {p. \<exists>b. mtu_signal dt (batch_rows frepr base (fst p, snd p, b)) (batch_rows frepr cur (fst p, snd p, b))}" .
  have "set (map anomaly_key found) = Pair ''mtu_or_fragmentation_suspect'' ` set (map fst (dict_of kvs))"
    unfolding e by (rule list.set_map)
  then show "set (map anomaly_key found) = {(''mtu_or_fragmentation_suspect'', p) | p.
       \<exists>b. mtu_signal dt (batch_rows frepr base (fst p, snd p, b)) (batch_rows frepr cur (fst p, snd p, b))}"
    unfolding fst by blast
qed

lemma map_sort_key: "map f (sort_key f xs) = sort (map f xs)"
proof -
  have "map f (insort_key f x ys) = insort (f x) (map f ys)" for x ys by (induction ys) auto
  then show ?thesis by (induction xs) simp_all
qed

lemma signal_union:
  "{(a, p) | p. P p} \<union> ({(ty, p). ty = b \<and> Q p \<or> ty = c \<and> R p} \<union> {(d, p) | p. S p})
     = {(ty, p). ty = a \<and> P p \<or> ty = b \<and> Q p \<or> ty = c \<and> R p \<or> ty = d \<and> S p}"
  by auto

lemma analysis_keys:
  fixes frepr now dt base cur
  defines "keys \<equiv> map anomaly_key (sa_anomalies (analyze_snapshot_rows frepr now dt base cur))"
  shows "sorted_wrt (<) keys" and "set keys = {(ty, p). path_signal frepr dt base cur ty p}"
proof -
  define latency where "latency = detect_latency_from_rows frepr now (group_by_path frepr base) (group_by_path frepr cur)"
  define loss where "loss = fst (detect_loss_from_rows frepr now dt (group_by_path frepr base) (group_by_path frepr cur))"
  define df where "df = detect_df_from_rows frepr now dt (group_by_path_port_batch frepr base) (group_by_path_port_batch frepr cur)"
  have keys: "keys = sort (map anomaly_key (latency @ loss @ df))"
    by (simp add: keys_def analyze_snapshot_rows_def Let_def latency_def loss_def df_def split_beta map_sort_key)
  have parts: "set (map anomaly_key latency) = {(''latency_spike'', p) | p. latency_signal (path_rows frepr base p) (path_rows frepr cur p)}"
      "set (map anomaly_key loss) = {(ty, p). ty = ''path_unreachable'' \<and> unreachable_signal (path_rows frepr base p) (path_rows frepr cur p)
               \<or> ty = ''packet_loss'' \<and> loss_signal dt (path_rows frepr base p) (path_rows frepr cur p)}"
      "set (map anomaly_key df) = {(''mtu_or_fragmentation_suspect'', p) | p.
       \<exists>b. mtu_signal dt (batch_rows frepr base (fst p, snd p, b)) (batch_rows frepr cur (fst p, snd p, b))}"
    unfolding latency_def loss_def df_def by (rule latency_keys loss_keys df_keys)+
  have "distinct (map anomaly_key latency)" "distinct (map anomaly_key loss)" "distinct (map anomaly_key df)"
    unfolding latency_def loss_def df_def by (rule latency_keys loss_keys df_keys)+
  then have "distinct (map anomaly_key latency @ map anomaly_key loss @ map anomaly_key df)"
    unfolding distinct_append set_append parts by auto
  then show "sorted_wrt (<) keys" by (simp add: keys strict_sorted_iff)
  have "set keys = set (map anomaly_key latency) \<union> (set (map anomaly_key loss) \<union> set (map anomaly_key df))"
    by (simp add: keys)
  then show "set keys = {(ty, p). path_signal frepr dt base cur ty p}"
    unfolding parts path_signal_def signal_union .
qed


subsection \<open>Comparing a snapshot with itself\<close>

lemma fadd_above:
  assumes "2 \<le> d" and "\<bar>x\<bar> \<le> 2 ^ 50"
  shows "x < fadd x d"
proof -
  have c: "x \<le> of_int \<lceil>x\<rceil>" "of_int \<lceil>x\<rceil> < x + 1" by linarith+
  have "x \<le> of_int (2 ^ 50)" "of_int (- (2 ^ 50)) - 1 < x" using assms(2) by auto
  then have "\<lceil>x\<rceil> \<le> 2 ^ 50" "- (2 ^ 50) \<le> \<lceil>x\<rceil>" unfolding ceiling_le_iff le_ceiling_iff by blast+
  moreover have "\<bar>n + 1\<bar> \<le> 2 ^ 53" if "n \<le> 2 ^ 50" "- (2 ^ 50) \<le> n" for n :: int using that by simp
  ultimately have "\<bar>\<lceil>x\<rceil> + 1\<bar> \<le> 2 ^ 53" by blast
  then have "fl (of_int (\<lceil>x\<rceil> + 1)) = of_int (\<lceil>x\<rceil> + 1)" by (rule fl_of_int)
  moreover have "fl (of_int (\<lceil>x\<rceil> + 1)) \<le> fl (x + d)" using c assms(1) by (intro fl_mono) simp
  ultimately have "of_int \<lceil>x\<rceil> + 1 \<le> fadd x d" by (simp add: fadd_def)
  then show ?thesis using c(1) by linarith
qed

lemma median_bound:
  assumes "xs \<noteq> []" and "\<And>x. x \<in> set xs \<Longrightarrow> \<bar>x\<bar> \<le> 2 ^ 50"
  shows "\<bar>median xs\<bar> \<le> 2 ^ 50"
proof -
  let ?s = "sort xs"
  have nth: "\<bar>?s ! i\<bar> \<le> 2 ^ 50" if "i < length ?s" for i
    using that assms(2) by (metis nth_mem set_sort)
  show ?thesis
  proof (cases "odd (length ?s)")
    case True
    then show ?thesis using nth assms(1) by (simp add: median_def Let_def)
  next
    case False
    let ?a = "?s ! (length ?s div 2 - 1)" and ?b = "?s ! (length ?s div 2)"
    have ab: "\<bar>?a\<bar> \<le> 2 ^ 50" "\<bar>?b\<bar> \<le> 2 ^ 50" using assms(1) by (intro nth; simp add: div_less_dividend less_imp_diff_less)+
    have bound: "\<bar>fl y\<bar> \<le> of_int m" if "\<bar>y\<bar> \<le> of_int m" "\<bar>m\<bar> \<le> 2 ^ 53" for y m
      using that fl_mono [of y "of_int m"] fl_mono [of "of_int (- m)" y] fl_of_int [of m] fl_of_int [of "- m"] by (auto simp: abs_le_iff)
    have "\<bar>fadd ?a ?b\<bar> \<le> of_int (2 ^ 51)" unfolding fadd_def using ab abs_triangle_ineq [of ?a ?b] by (intro bound) auto
    then have "\<bar>fdiv (fadd ?a ?b) 2\<bar> \<le> of_int (2 ^ 50)" unfolding fdiv_def by (intro bound) auto
    then show ?thesis using False by (simp add: median_def Let_def)
  qed
qed

lemma no_self_latency:
  assumes "\<And>row. row \<in> set rows \<Longrightarrow> field_float row ''rtt_avg'' \<le> 2 ^ 50"
  shows "\<not> latency_signal rows rows"
proof
  assume l: "latency_signal rows rows"
  then have "\<bar>median (rtt_values rows)\<bar> \<le> 2 ^ 50"
    using assms by (intro median_bound) (auto simp: latency_signal_def rtt_values_def)
  then show False using l fadd_above [of 20 "median (rtt_values rows)"] by (simp add: latency_signal_def)
qed

lemma no_self_loss:
  assumes "2 \<le> dt_loss_pct_delta dt"
  shows "\<not> loss_signal dt rows rows"
proof
  assume "loss_signal dt rows rows"
  then obtain y where y: "loss_stats_of [] rows = Some y" "0 < ls_sent y" "ls_lost y < ls_sent y" "loss_threshold dt y \<le> ls_loss_pct y" "3 \<le> ls_lost y"
    by (auto simp: loss_signal_def)
  then have pct: "ls_loss_pct y = fmul (fdiv (ls_lost y) (ls_sent y)) 100"
    by (auto simp: loss_stats_of_def Let_def split: if_splits)
  have "in_unit (ls_lost y / ls_sent y)" using y by (simp add: in_unit_def)
  then have "in_unit (fdiv (ls_lost y) (ls_sent y))" unfolding fdiv_def by (rule in_unit_fl)
  then have r: "0 \<le> fdiv (ls_lost y) (ls_sent y) * 100" "fdiv (ls_lost y) (ls_sent y) * 100 \<le> 100" by (simp_all add: in_unit_def)
  have "0 \<le> ls_loss_pct y" "ls_loss_pct y \<le> 100"
    unfolding pct fmul_def using fl_nonneg [OF r(1)] fl_mono [OF r(2)] fl_of_int [of 100] by simp_all
  then have "ls_loss_pct y < fadd (ls_loss_pct y) (dt_loss_pct_delta dt)" using assms by (intro fadd_above) simp_all
  then show False using y(4) by (simp add: loss_threshold_def)
qed

lemma no_self_mtu: "\<not> mtu_signal dt rows rows"
  by (auto simp: mtu_signal_def fsub_def)

subsection \<open>Properties\<close>

text \<open>C37: the anomalies of an analysis are exactly those of the criteria. A path (a pair of addresses) is reported with a type if and only
  if its rows in the two snapshots, in the order of their times, satisfy the criterion of that type, and the list of
  anomalies is strictly ordered by type and addresses: no path is reported twice with one type.\<close>

theorem anomalies_exact:
  "set (map anomaly_key (sa_anomalies (analyze_snapshot_rows frepr now dt base cur))) = {(ty, p). path_signal frepr dt base cur ty p}
   \<and> sorted_wrt (<) (map anomaly_key (sa_anomalies (analyze_snapshot_rows frepr now dt base cur)))"
  using analysis_keys by blast

text \<open>C38: no change, no relative anomaly. Comparing a snapshot with itself reports nothing but unreachable paths, which lost all
  their packets: no latency spike, no packet loss and no MTU suspect, for round-trip times up to 2 to the 50 and a loss delta of at
  least 2 points (5 by default).\<close>

theorem same_snapshot_quiet:
  assumes "\<And>row. row \<in> set rows \<Longrightarrow> field_float row ''rtt_avg'' \<le> 2 ^ 50" and "2 \<le> dt_loss_pct_delta dt"
  shows "set (map anomaly_key (sa_anomalies (analyze_snapshot_rows frepr now dt rows rows)))
     = {(''path_unreachable'', p) | p. unreachable_signal (path_rows frepr rows p) (path_rows frepr rows p)}"
proof -
  have "\<not> latency_signal (path_rows frepr rows p) (path_rows frepr rows p)" for p
    using assms(1) by (intro no_self_latency) (simp add: group_rows_def)
  then show ?thesis
    unfolding analysis_keys(2) path_signal_def using no_self_loss [OF assms(2)] no_self_mtu by auto
qed

definition lossy_rows :: "pydict list" where
  "lossy_rows = map (\<lambda>lost. [(''src_ip'', PStr ''10.0.0.1''), (''dst_ip'', PStr ''10.0.0.2''), (''rtt_avg'', PFloat 7),
     (''packets_sent'', PFloat 10), (''packets_lost'', PFloat lost)]) [5, 6]"

definition quiet_detector :: detector where
  "quiet_detector = \<lparr> dt_client_to_leaf = [], dt_loss_pct_threshold = 5, dt_loss_pct_delta = 5, dt_pingmesh_clients = [], dt_client_addresses = [],
     dt_topology_id = [], dt_plan = small_plan, dt_expectations = \<lparr> ex_combinations = {}, ex_frames = [], ex_destinations = {} \<rparr>, dt_plan_id = [] \<rparr>"

theorem same_snapshot_quiet_witness:
  "set (map anomaly_key (sa_anomalies (analyze_snapshot_rows (\<lambda>_. ''0.0'') ''now'' quiet_detector lossy_rows lossy_rows)))
     = {(''path_unreachable'', p) | p. unreachable_signal (path_rows (\<lambda>_. ''0.0'') lossy_rows p) (path_rows (\<lambda>_. ''0.0'') lossy_rows p)}"
  by (rule same_snapshot_quiet)
    (auto simp: quiet_detector_def lossy_rows_def field_float_def as_float_def get_val_def float_of_val_def)

end
