(* ===== verification/Detector_Ingestion.thy ===== *)
theory Detector_Ingestion
  imports Detector_Analysis
begin

text \<open>
  The proof that a fixed observation window has been ingested (\<open>pingmesh/_detector_ingestion.py\<close>): the frames seen in a wider
  query must be complete between a boundary before and one after the window, and the records of the window must be
  those of the frames. The parser of ISO timestamps and the SHA-256
  of the records are parameters.
  Shown: a window that is judged ready has, for every client, boundaries on both sides with every target of every
  cycle between them recorded, and the snapshot contains the record of each of them that lies in the window.
\<close>

subsection \<open>Fields that must be there\<close>

definition row_field :: "pydict \<Rightarrow> string \<Rightarrow> pyval res" where
  "row_field row k = (case map_of row k of None \<Rightarrow> Inl (KeyError k) | Some v \<Rightarrow> Inr v)"

text \<open>\<open>datetime.fromisoformat\<close> is the parameter \<open>tm\<close>: \<open>None\<close> when it refuses the text, \<open>Some None\<close> for a time without a zone.\<close>

definition parse_stamp :: "(string \<Rightarrow> rat option option) \<Rightarrow> string \<Rightarrow> rat res" where
  "parse_stamp tm s = (let text = py_replace ''Z'' ''+00:00'' s in
     case tm text of
       Some (Some t) \<Rightarrow> Inr t
     | Some None \<Rightarrow> Inl (ValueError ''Pingmesh timestamps must include a timezone'')
     | None \<Rightarrow> Inl (ValueError (''Invalid isoformat string: '' @ py_repr text)))"

definition stamp_of_val :: "(string \<Rightarrow> rat option option) \<Rightarrow> pyval \<Rightarrow> rat res" where
  "stamp_of_val tm v = (case v of PStr s \<Rightarrow> parse_stamp tm s | _ \<Rightarrow> Inl (AttributeError ''replace''))"

definition row_stamp :: "(string \<Rightarrow> rat option option) \<Rightarrow> pydict \<Rightarrow> rat res" where
  "row_stamp tm row = rbind (row_field row ''_time'') (stamp_of_val tm)"

definition row_integer :: "pydict \<Rightarrow> string \<Rightarrow> int res" where
  "row_integer row k = rbind (row_field row k) (\<lambda>v. rbind (float_of_val v) (\<lambda>r.
     if of_int \<lfloor>r\<rfloor> \<noteq> r \<or> r < 0 then Inl (ValueError (''invalid '' @ k)) else Inr \<lfloor>r\<rfloor>))"

type_synonym record_key = "pyval \<times> int \<times> pyval \<times> pyval"

definition record_key :: "pydict \<Rightarrow> record_key res" where
  "record_key row = rbind (row_field row ''src_name'') (\<lambda>source. rbind (row_integer row ''probe_cycle'') (\<lambda>cycle.
     rbind (row_field row ''dst_name'') (\<lambda>destination. rbind (row_field row ''_time'') (\<lambda>timestamp.
     Inr (source, cycle, destination, timestamp)))))"

definition SNAPSHOT_FIELDS :: "string list" where
  "SNAPSHOT_FIELDS = [''rtt_min'', ''rtt_avg'', ''rtt_max'', ''packets_sent'', ''packets_lost'', ''df_packets_sent'', ''df_packets_lost'',
     ''df_mtu_drops'', ''local_probe_errors'', ''probe_cycle'', ''destination_batch_index'', ''port_batch_index'', ''rtt_ports_active'',
     ''rtt_ports_total'']"

definition PROGRESS_FIELDS :: "string list" where
  "PROGRESS_FIELDS = [''probe_cycle'', ''destination_batch_index'', ''port_batch_index'']"

definition PROGRESS_KEYS :: "string list" where
  "PROGRESS_KEYS = PROGRESS_FIELDS @ [''plan_id'', ''_time'', ''src_name'', ''dst_name'']"

subsection \<open>The boundary padding\<close>

definition longest_idle :: "client_probe_plan \<Rightarrow> nat" where
  "longest_idle c = snd (fold (\<lambda>f (run, longest). let run' = (if target_indices f = [] then run + 1 else 0)
     in (run', max longest (min run' (length (frames c))))) (frames c @ frames c) (0, 0))"

definition boundary_padding_seconds :: "pingmesh_plan \<Rightarrow> int" where
  "boundary_padding_seconds plan =
     (int (fold (\<lambda>c longest. max longest (longest_idle c)) (plan_clients plan) 0) + 2) * set_cycle_interval_seconds (settings plan)"

subsection \<open>Frames in progress\<close>

text \<open>The rows of each source and cycle by target.\<close>

type_synonym progress = "(string \<times> int, (string, pydict) dict) dict"

definition address_matches :: "detector \<Rightarrow> pydict \<Rightarrow> string \<Rightarrow> bool" where
  "address_matches dt row side = (case get_val row (side @ ''_name'') of
       PStr name \<Rightarrow> (case map_of (dt_client_addresses dt) name of
           Some (Some address) \<Rightarrow> get_val row (side @ ''_ip'') = PStr address | _ \<Rightarrow> True)
     | _ \<Rightarrow> True)"

definition expected_frame_at :: "detector \<Rightarrow> pyval \<Rightarrow> int \<Rightarrow> expected_frame option" where
  "expected_frame_at dt source cycle = (case source of
       PStr s \<Rightarrow> map_of (ex_frames (dt_expectations dt)) (s, cycle mod int (coverage_epoch_cycles (settings (dt_plan dt))))
     | _ \<Rightarrow> None)"

text \<open>The identity of a frame: \<open>plan_id\<close>, the frame, the target and the two batches, tested in this order.\<close>

definition frame_identity :: "detector \<Rightarrow> pydict \<Rightarrow> pyval \<Rightarrow> int \<Rightarrow> pyval \<Rightarrow> bool res" where
  "frame_identity dt row source cycle destination =
     (if get_val row ''plan_id'' \<noteq> PStr (dt_plan_id dt) then Inr False
      else (case expected_frame_at dt source cycle of
         None \<Rightarrow> Inr False
       | Some (destination_batch, port_batch, names) \<Rightarrow>
           if \<not> hashable destination then Inl (TypeError ''unhashable type'')
           else (case destination of
              PStr d \<Rightarrow> if d \<notin> names then Inr False
                 else rbind (row_integer row ''destination_batch_index'') (\<lambda>db.
                   if db \<noteq> destination_batch then Inr False
                   else rbind (row_integer row ''port_batch_index'') (\<lambda>pb. Inr (pb = port_batch)))
            | _ \<Rightarrow> Inr False)))"

definition val_text :: "pyval \<Rightarrow> string" where
  "val_text v = (case v of PStr s \<Rightarrow> s | _ \<Rightarrow> [])"

definition progress_row :: "(string \<Rightarrow> rat option option) \<Rightarrow> detector \<Rightarrow> progress \<Rightarrow> pydict \<Rightarrow> progress res" where
  "progress_row tm dt fs row =
     rbind (record_key row) (\<lambda>(source, cycle, destination, timestamp).
     rbind (stamp_of_val tm timestamp) (\<lambda>_.
     rbind (raise_if (\<not> hashable source) (TypeError ''unhashable type'')) (\<lambda>_.
     rbind (frame_identity dt row source cycle destination) (\<lambda>expected.
     rbind (raise_if (\<not> expected) (ValueError ''unexpected frame identity, peer or port batch'')) (\<lambda>_.
     rbind (raise_if (\<not> address_matches dt row ''src'' \<or> \<not> address_matches dt row ''dst'')
       (ValueError ''client address does not match the manifest'')) (\<lambda>_.
     (let k = (val_text source, cycle); seen = dict_get fs k [] in
      rbind (raise_if (case map_of seen (val_text destination) of None \<Rightarrow> False | Some previous \<Rightarrow> get_val previous ''_time'' \<noteq> timestamp)
        (ValueError ''repeated cycle/peer at a different timestamp; possible source restart'')) (\<lambda>_.
      Inr (AList.update k (AList.update (val_text destination) row seen) fs)))))))))"

definition progress_frames :: "(string \<Rightarrow> rat option option) \<Rightarrow> detector \<Rightarrow> pydict list \<Rightarrow> progress res" where
  "progress_frames tm dt rows = rfoldM (progress_row tm dt) [] rows"

subsection \<open>The audit of a window\<close>

definition complete_progress :: "pydict \<Rightarrow> bool" where
  "complete_progress row = list_all (\<lambda>k. \<not> absent row k) PROGRESS_KEYS"

definition in_window :: "rat \<Rightarrow> rat \<Rightarrow> rat \<Rightarrow> bool" where
  "in_window start stop t = (start \<le> t \<and> t < stop)"

fun incomplete_in_window :: "(string \<Rightarrow> rat option option) \<Rightarrow> rat \<Rightarrow> rat \<Rightarrow> pydict list \<Rightarrow> bool res" where
  "incomplete_in_window tm start stop [] = Inr False"
| "incomplete_in_window tm start stop (row # rows) =
     (if complete_progress row then incomplete_in_window tm start stop rows
      else rbind (row_stamp tm row) (\<lambda>t. if in_window start stop t then Inr True else incomplete_in_window tm start stop rows))"

text \<open>The observations of all sources: source, time and cycle.\<close>

definition cycle_observations :: "(string \<Rightarrow> rat option option) \<Rightarrow> (string \<times> int) \<times> (string, pydict) dict \<Rightarrow> (string \<times> rat \<times> int) list res" where
  "cycle_observations tm entry =
     rmapM (\<lambda>row. rbind (row_stamp tm row) (\<lambda>t. Inr (fst (fst entry), t, snd (fst entry)))) (dict_values (snd entry))"

definition observations_of :: "(string \<Rightarrow> rat option option) \<Rightarrow> progress \<Rightarrow> (string \<times> rat \<times> int) list res" where
  "observations_of tm fs = rbind (rmapM (cycle_observations tm) fs) (\<lambda>xss. Inr (concat xss))"

definition ordered_of :: "(string \<times> rat \<times> int) list \<Rightarrow> string \<Rightarrow> (rat \<times> int) list" where
  "ordered_of observations source = sort (map snd [ob \<leftarrow> observations. fst ob = source])"

definition cycles_fall :: "(rat \<times> int) list \<Rightarrow> bool" where
  "cycles_fall ordered = list_ex (\<lambda>(before, after). snd after < snd before) (zip ordered (tl ordered))"

record window_audit =
  wa_pending :: "string list"
  wa_expected :: "record_key set"

definition window_records :: "(string \<Rightarrow> rat option option) \<Rightarrow> rat \<Rightarrow> rat \<Rightarrow> pydict list \<Rightarrow> record_key list res" where
  "window_records tm start stop rows = rbind (rmapM (\<lambda>row. rbind (row_stamp tm row) (\<lambda>t.
     if in_window start stop t then rbind (record_key row) (\<lambda>k. Inr [k]) else Inr [])) rows) (\<lambda>kss. Inr (concat kss))"

text \<open>A cycle that the plan does not have is a \<open>KeyError\<close> of the pair; it is caught like the other errors and only its text
  (the \<open>repr\<close> of the pair) is seen.\<close>

definition window_cycle :: "(string \<Rightarrow> rat option option) \<Rightarrow> detector \<Rightarrow> rat \<Rightarrow> rat \<Rightarrow> progress \<Rightarrow> string \<Rightarrow> window_audit \<Rightarrow> int \<Rightarrow> window_audit res" where
  "window_cycle tm dt start stop fs source wa cycle =
     (case expected_frame_at dt (PStr source) cycle of
        None \<Rightarrow> Inl (ValueError (''('' @ py_repr source @ '', '' @ show_int (cycle mod int (coverage_epoch_cycles (settings (dt_plan dt)))) @ '')''))
      | Some (_, _, names) \<Rightarrow>
          (let seen = dict_get fs (source, cycle) [] in
           rbind (window_records tm start stop (dict_values seen)) (\<lambda>ks.
           Inr \<lparr> wa_pending = wa_pending wa @ (if set (dict_keys seen) \<noteq> names then [source @ ''/'' @ show_int cycle @ '': missing frame targets''] else []),
                 wa_expected = wa_expected wa \<union> set ks \<rparr>)))"

definition cycles_before :: "rat \<Rightarrow> (rat \<times> int) list \<Rightarrow> int list" where
  "cycles_before start ordered = map snd [ob \<leftarrow> ordered. fst ob < start]"

definition cycles_after :: "rat \<Rightarrow> (rat \<times> int) list \<Rightarrow> int list" where
  "cycles_after stop ordered = map snd [ob \<leftarrow> ordered. stop \<le> fst ob]"

definition window_source :: "(string \<Rightarrow> rat option option) \<Rightarrow> detector \<Rightarrow> rat \<Rightarrow> rat \<Rightarrow> progress \<Rightarrow> (string \<times> rat \<times> int) list
    \<Rightarrow> window_audit \<Rightarrow> string \<Rightarrow> window_audit res" where
  "window_source tm dt start stop fs observations wa source =
     (let ordered = ordered_of observations source; before = cycles_before start ordered; after = cycles_after stop ordered in
      if cycles_fall ordered
      then Inl (ValueError (source @ '': cycle/time order conflict; possible source restart or clock reversal''))
      else if before = [] \<or> after = []
      then Inr (wa\<lparr> wa_pending := wa_pending wa @ [source @ '': missing '' @ (if before = [] then ''preceding'' else ''following'') @ '' boundary''] \<rparr>)
      else rfoldM (window_cycle tm dt start stop fs source) wa [Max (set before)..Min (set after)])"

text \<open>Equality of dictionaries does not look at the order.\<close>

definition same_row :: "pydict \<Rightarrow> pydict \<Rightarrow> bool" where
  "same_row a b = list_all (\<lambda>k. map_of a k = map_of b k) (map fst a @ map fst b)"

definition snapshot_row :: "string list \<times> (record_key, pydict) dict \<Rightarrow> pydict \<Rightarrow> (string list \<times> (record_key, pydict) dict) res" where
  "snapshot_row st row = (case st of (pending, actual) \<Rightarrow>
     if list_ex (absent row) (SNAPSHOT_FIELDS @ [''plan_id'', ''_time'', ''src_name'', ''dst_name''])
     then Inr (pending @ [''snapshot: missing required fields''], actual)
     else rbind (rmapM (\<lambda>k. rbind (row_field row k) float_of_val) SNAPSHOT_FIELDS) (\<lambda>_.
       rbind (record_key row) (\<lambda>k. (case k of (source, _, destination, timestamp) \<Rightarrow>
       rbind (raise_if (\<not> (hashable source \<and> hashable destination \<and> hashable timestamp)) (TypeError ''unhashable type'')) (\<lambda>_.
       rbind (raise_if (case map_of actual k of None \<Rightarrow> False | Some previous \<Rightarrow> \<not> same_row previous row)
         (ValueError ''conflicting duplicate snapshot record'')) (\<lambda>_.
       Inr (pending, AList.update k row actual)))))))"

record ingestion =
  ig_status :: string
  ig_error :: "string option"
  ig_expected_records :: int
  ig_observed_records :: int
  ig_reasons :: "string list"
  ig_records_sha256 :: "string option"

definition digest_rows :: "(record_key, pydict) dict \<Rightarrow> ((string \<times> int \<times> string \<times> string) \<times> rat list) list" where
  "digest_rows actual = sort_key fst (map (\<lambda>((source, cycle, destination, timestamp), row).
     ((val_text source, cycle, val_text destination, val_text timestamp), map (field_float row) SNAPSHOT_FIELDS)) actual)"

definition audit_window :: "(string \<Rightarrow> rat option option) \<Rightarrow> (((string \<times> int \<times> string \<times> string) \<times> rat list) list \<Rightarrow> string) \<Rightarrow> detector
    \<Rightarrow> pydict list \<Rightarrow> pydict list \<Rightarrow> rat \<Rightarrow> rat \<Rightarrow> ingestion res" where
  "audit_window tm digest dt progress_rows snapshot_rows start stop =
     rbind (incomplete_in_window tm start stop progress_rows) (\<lambda>incomplete.
     rbind (progress_frames tm dt [row \<leftarrow> progress_rows. complete_progress row]) (\<lambda>fs.
     rbind (observations_of tm fs) (\<lambda>observations.
     rbind (rfoldM (window_source tm dt start stop fs observations)
        \<lparr> wa_pending = (if incomplete then [''progress: missing required fields''] else []), wa_expected = {} \<rparr> (dt_pingmesh_clients dt)) (\<lambda>wa.
     rbind (rfoldM snapshot_row (wa_pending wa, []) snapshot_rows) (\<lambda>(pending, actual).
     (let pending' = pending @ (if set (dict_keys actual) \<noteq> wa_expected wa then [''snapshot and frame records do not match''] else []) in
      rbind (progress_frames tm dt (dict_values actual)) (\<lambda>_.
      Inr \<lparr> ig_status = (if pending' \<noteq> [] then ''pending'' else ''ready''), ig_error = None,
        ig_expected_records = int (card (wa_expected wa)), ig_observed_records = int (length actual), ig_reasons = take 20 pending',
        ig_records_sha256 = (if pending' = [] then Some (digest (digest_rows actual)) else None) \<rparr>)))))))"

text \<open>\<open>KeyError\<close>, \<open>TypeError\<close> and \<open>ValueError\<close> make the window invalid, other exceptions pass.\<close>

definition invalid_ingestion :: "py_error \<Rightarrow> ingestion" where
  "invalid_ingestion e = \<lparr> ig_status = ''invalid'', ig_error = Some (err_text e), ig_expected_records = 0, ig_observed_records = 0,
     ig_reasons = [], ig_records_sha256 = None \<rparr>"

definition audit_ingestion :: "(string \<Rightarrow> rat option option) \<Rightarrow> (((string \<times> int \<times> string \<times> string) \<times> rat list) list \<Rightarrow> string) \<Rightarrow> detector
    \<Rightarrow> pydict list \<Rightarrow> pydict list \<Rightarrow> string \<Rightarrow> string \<Rightarrow> ingestion res" where
  "audit_ingestion tm digest dt progress_rows snapshot_rows start_time end_time =
     rbind (parse_stamp tm start_time) (\<lambda>start. rbind (parse_stamp tm end_time) (\<lambda>stop.
     (case audit_window tm digest dt progress_rows snapshot_rows start stop of
        Inr r \<Rightarrow> Inr r
      | Inl e \<Rightarrow> (case e of KeyError _ \<Rightarrow> Inr (invalid_ingestion e) | TypeError _ \<Rightarrow> Inr (invalid_ingestion e)
          | ValueError _ \<Rightarrow> Inr (invalid_ingestion e) | _ \<Rightarrow> Inl e))))"

subsection \<open>Steps of a fold\<close>

lemma rfoldM_step:
  assumes "rfoldM f s xs = Inr s'" and "x \<in> set xs" and "\<And>s x s'. f s x = Inr s' \<Longrightarrow> R s s'"
    and refl: "\<And>s. R s s" and trans: "\<And>a b c. R a b \<Longrightarrow> R b c \<Longrightarrow> R a c"
  shows "\<exists>s1 s2. f s1 x = Inr s2 \<and> R s s1 \<and> R s2 s'"
  using assms(1,2)
proof (induction xs arbitrary: s)
  case (Cons y xs)
  then obtain s0 where s0: "f s y = Inr s0" "rfoldM f s0 xs = Inr s'" by (auto simp: rbind_eq_Inr)
  have all: "R a s'" if "rfoldM f a ys = Inr s'" for a ys
    using that by (induction ys arbitrary: a) (auto simp: rbind_eq_Inr intro: refl trans assms(3))
  show ?case
  proof (cases "x = y")
    case True
    then show ?thesis using s0 refl all [OF s0(2)] by blast
  next
    case False
    then obtain s1 s2 where "f s1 x = Inr s2" "R s0 s1" "R s2 s'" using Cons.IH [OF s0(2)] Cons.prems(2) by auto
    then show ?thesis using assms(3) [OF s0(1)] trans by blast
  qed
qed simp

lemma rmapM_value: "rmapM f xs = Inr ys \<Longrightarrow> y \<in> set ys \<Longrightarrow> \<exists>x \<in> set xs. f x = Inr y"
  by (induction xs arbitrary: ys) (auto simp: rbind_eq_Inr)

lemma rmapM_applied: "rmapM f xs = Inr ys \<Longrightarrow> x \<in> set xs \<Longrightarrow> \<exists>y \<in> set ys. f x = Inr y"
  by (induction xs arbitrary: ys) (auto simp: rbind_eq_Inr)

subsection \<open>What the frames in progress hold\<close>

text \<open>A row that records the probe of a target by a source in a cycle, at a time.\<close>

definition seen_at :: "(string \<Rightarrow> rat option option) \<Rightarrow> pydict \<Rightarrow> string \<Rightarrow> int \<Rightarrow> string \<Rightarrow> rat \<Rightarrow> bool" where
  "seen_at tm row source cycle target t \<longleftrightarrow>
     (\<exists>timestamp. record_key row = Inr (PStr source, cycle, PStr target, PStr timestamp) \<and> parse_stamp tm timestamp = Inr t)"

definition frames_from :: "(string \<Rightarrow> rat option option) \<Rightarrow> pydict set \<Rightarrow> progress \<Rightarrow> bool" where
  "frames_from tm R fs \<longleftrightarrow> (\<forall>((source, cycle), seen) \<in> set fs. \<forall>(target, row) \<in> set seen. row \<in> R \<and> (\<exists>t. seen_at tm row source cycle target t))"

lemma frames_fromD:
  "frames_from tm R fs \<Longrightarrow> ((source, cycle), seen) \<in> set fs \<Longrightarrow> (target, row) \<in> set seen \<Longrightarrow>
     row \<in> R \<and> (\<exists>t. seen_at tm row source cycle target t)"
  unfolding frames_from_def by (drule (1) bspec, simp only: case_prod_conv, drule (1) bspec, simp)

lemma dict_get_member: "x \<in> set (dict_get fs k []) \<Longrightarrow> \<exists>seen. (k, seen) \<in> set fs \<and> x \<in> set seen"
  by (cases "map_of fs k") (auto simp: dict_get_def dest: map_of_SomeD)

lemma frames_from_get:
  "frames_from tm R fs \<Longrightarrow> (target, row) \<in> set (dict_get fs (source, cycle) []) \<Longrightarrow>
     row \<in> R \<and> (\<exists>t. seen_at tm row source cycle target t)"
  using dict_get_member [of "(target, row)" fs "(source, cycle)"] frames_fromD [of tm R fs source cycle _ target row] by blast

lemma progress_row_frames:
  assumes "progress_row tm dt fs row = Inr fs'" and "frames_from tm R fs" and "row \<in> R"
  shows "frames_from tm R fs'" and "\<exists>source cycle target t. seen_at tm row source cycle target t"
proof -
  from assms(1) obtain source cycle destination timestamp t where k: "record_key row = Inr (source, cycle, destination, timestamp)"
    and t: "stamp_of_val tm timestamp = Inr t" and i: "frame_identity dt row source cycle destination = Inr True"
    and fs': "fs' = AList.update (val_text source, cycle) (AList.update (val_text destination) row (dict_get fs (val_text source, cycle) [])) fs"
    by (auto simp: progress_row_def rbind_eq_Inr Let_def split: prod.splits)
  obtain s where s: "source = PStr s" using i by (auto simp: frame_identity_def expected_frame_at_def split: if_splits option.splits pyval.splits)
  obtain d where d: "destination = PStr d" using i by (auto simp: frame_identity_def split: if_splits option.splits pyval.splits)
  obtain ts where ts: "timestamp = PStr ts" "parse_stamp tm ts = Inr t"
    using t by (auto simp: stamp_of_val_def split: pyval.splits)
  have row: "seen_at tm row s cycle d t" using k s d ts by (simp add: seen_at_def)
  then show "\<exists>source cycle target t. seen_at tm row source cycle target t" by blast
  have old: "row' \<in> R \<and> (\<exists>t. seen_at tm row' s cycle target t)" if "(target, row') \<in> set (dict_get fs (s, cycle) [])" for target row'
    using frames_from_get [OF assms(2) that] .
  have "row' \<in> R \<and> (\<exists>t. seen_at tm row' source' cycle' target t)"
    if m: "((source', cycle'), seen) \<in> set fs'" "(target, row') \<in> set seen" for source' cycle' seen target row'
  proof (cases "((source', cycle'), seen) \<in> set fs")
    case True
    then show ?thesis using frames_fromD [OF assms(2)] m(2) by blast
  next
    case False
    then have "source' = s" "cycle' = cycle" "seen = AList.update d row (dict_get fs (s, cycle) [])"
      using m(1) set_alist_update unfolding fs' s d by (fastforce simp: val_text_def)+
    then show ?thesis using m(2) set_alist_update [of d row "dict_get fs (s, cycle) []"] old row assms(3) by auto
  qed
  then show "frames_from tm R fs'" by (fastforce simp: frames_from_def)
qed

lemma progress_frames_from:
  assumes "progress_frames tm dt rows = Inr fs"
  shows "frames_from tm (set rows) fs"
proof -
  have "frames_from tm R fs'" if "rfoldM (progress_row tm dt) fs rows = Inr fs'" "frames_from tm R fs" "set rows \<subseteq> R" for R fs fs' rows
    using that by (induction rows arbitrary: fs) (auto simp: rbind_eq_Inr dest: progress_row_frames(1))
  from this [of "[]" rows fs "set rows"] assms show ?thesis by (simp add: progress_frames_def frames_from_def)
qed

lemma progress_frames_rows:
  assumes "progress_frames tm dt rows = Inr fs" and "row \<in> set rows"
  shows "\<exists>source cycle target t. seen_at tm row source cycle target t"
proof -
  have "\<exists>source cycle target t. seen_at tm row source cycle target t" if "rfoldM (progress_row tm dt) fs rows = Inr fs'" "row \<in> set rows"
      "frames_from tm UNIV fs" for fs fs' rows
    using that
  proof (induction rows arbitrary: fs)
    case (Cons x rows)
    then obtain fs1 where "progress_row tm dt fs x = Inr fs1" "rfoldM (progress_row tm dt) fs1 rows = Inr fs'" by (auto simp: rbind_eq_Inr)
    then show ?case using Cons progress_row_frames [of tm dt fs x fs1 UNIV] by auto
  qed simp
  then show ?thesis using assms by (fastforce simp: progress_frames_def frames_from_def)
qed

lemma frames_values:
  assumes "frames_from tm R fs" and "row \<in> set (dict_values (dict_get fs (source, cycle) []))"
  shows "row \<in> R \<and> (\<exists>target t. seen_at tm row source cycle target t)"
proof -
  obtain target where "(target, row) \<in> set (dict_get fs (source, cycle) [])" using assms(2) by (auto simp: dict_values_def)
  then show ?thesis using frames_from_get [OF assms(1)] by blast
qed

lemma frames_keys:
  assumes "frames_from tm R fs" and "target \<in> set (dict_keys (dict_get fs (source, cycle) []))"
  shows "\<exists>row. row \<in> R \<and> (\<exists>t. seen_at tm row source cycle target t) \<and> row \<in> set (dict_values (dict_get fs (source, cycle) []))"
proof -
  obtain row where m: "(target, row) \<in> set (dict_get fs (source, cycle) [])" using assms(2) by (auto simp: dict_keys_def)
  then have "row \<in> set (dict_values (dict_get fs (source, cycle) []))" by (force simp: dict_values_def)
  then show ?thesis using frames_from_get [OF assms(1) m] by blast
qed

lemma seen_at_stamp: "seen_at tm row source cycle target t \<Longrightarrow> row_stamp tm row = Inr t"
  by (auto simp: seen_at_def row_stamp_def record_key_def rbind_eq_Inr stamp_of_val_def)

lemma observations_seen:
  assumes "frames_from tm R fs" and "observations_of tm fs = Inr obs" and "(source, t, cycle) \<in> set obs"
  shows "\<exists>row \<in> R. \<exists>target. seen_at tm row source cycle target t"
proof -
  from assms(2) obtain xss where xss: "rmapM (cycle_observations tm) fs = Inr xss" "obs = concat xss"
    by (auto simp: observations_of_def rbind_eq_Inr)
  then obtain xs where xs: "xs \<in> set xss" "(source, t, cycle) \<in> set xs" using assms(3) by auto
  obtain x where x: "x \<in> set fs" "cycle_observations tm x = Inr xs" using rmapM_value [OF xss(1) xs(1)] by blast
  obtain k seen where ks: "x = (k, seen)" by (cases x)
  then have k: "(k, seen) \<in> set fs" using x(1) by simp
  obtain row where row: "row \<in> set (dict_values seen)" "rbind (row_stamp tm row) (\<lambda>t. Inr (fst k, t, snd k)) = Inr (source, t, cycle)"
    using rmapM_value [OF x(2) [unfolded cycle_observations_def ks fst_conv snd_conv] xs(2)] by blast
  then have s: "row_stamp tm row = Inr t" "k = (source, cycle)" by (auto simp: rbind_eq_Inr prod_eq_iff)
  obtain target where "(target, row) \<in> set seen" using row(1) by (auto simp: dict_values_def)
  then obtain t' where "row \<in> R" "seen_at tm row source cycle target t'"
    using frames_fromD [OF assms(1)] k unfolding s by blast
  then show ?thesis using s(1) seen_at_stamp by fastforce
qed


subsection \<open>What the audit of a window accumulates\<close>

definition audit_le :: "window_audit \<Rightarrow> window_audit \<Rightarrow> bool" where
  "audit_le a b \<longleftrightarrow> (wa_pending b = [] \<longrightarrow> wa_pending a = []) \<and> wa_expected a \<subseteq> wa_expected b"

lemma audit_le_refl: "audit_le a a" and audit_le_trans: "audit_le a b \<Longrightarrow> audit_le b c \<Longrightarrow> audit_le a c"
  by (auto simp: audit_le_def)

lemma window_cycle_le: "window_cycle tm dt start stop fs source wa cycle = Inr wa' \<Longrightarrow> audit_le wa wa'"
  by (auto simp: window_cycle_def audit_le_def rbind_eq_Inr Let_def split: option.splits)

lemma window_source_cases:
  assumes "window_source tm dt start stop fs obs wa source = Inr wa'"
  obtains (missing) x where "wa' = wa\<lparr> wa_pending := wa_pending wa @ [x] \<rparr>"
  | (cycles) "\<not> cycles_fall (ordered_of obs source)" and "cycles_before start (ordered_of obs source) \<noteq> []"
      and "cycles_after stop (ordered_of obs source) \<noteq> []"
      and "rfoldM (window_cycle tm dt start stop fs source) wa
        [Max (set (cycles_before start (ordered_of obs source)))..Min (set (cycles_after stop (ordered_of obs source)))] = Inr wa'"
  using assms unfolding window_source_def Let_def by (simp split: if_splits) blast+

lemma window_source_le:
  assumes "window_source tm dt start stop fs obs wa source = Inr wa'"
  shows "audit_le wa wa'"
  using assms
proof (cases rule: window_source_cases)
  case cycles
  show ?thesis by (rule rfoldM_invariant [OF cycles(4)]) (blast intro: audit_le_refl audit_le_trans window_cycle_le)+
qed (simp add: audit_le_def)

lemma window_records_mem:
  assumes "window_records tm start stop rows = Inr ks"
  shows "(k \<in> set ks) = (\<exists>row \<in> set rows. \<exists>t. row_stamp tm row = Inr t \<and> in_window start stop t \<and> record_key row = Inr k)"
proof -
  have "(k \<in> set (concat kss)) = (\<exists>row \<in> set rows. \<exists>t. row_stamp tm row = Inr t \<and> in_window start stop t \<and> record_key row = Inr k)"
    if "rmapM (\<lambda>row. rbind (row_stamp tm row) (\<lambda>t. if in_window start stop t then rbind (record_key row) (\<lambda>k. Inr [k]) else Inr [])) rows = Inr kss" for kss
    using that
  proof (induction rows arbitrary: kss)
    case (Cons row rows)
    from Cons.prems obtain t ks kss' where t: "row_stamp tm row = Inr t" and ks: "(if in_window start stop t then rbind (record_key row) (\<lambda>k. Inr [k]) else Inr []) = Inr ks"
      and rest: "rmapM (\<lambda>row. rbind (row_stamp tm row) (\<lambda>t. if in_window start stop t then rbind (record_key row) (\<lambda>k. Inr [k]) else Inr [])) rows = Inr kss'"
      and kss: "kss = ks # kss'" by (auto simp: rbind_eq_Inr)
    have "(k \<in> set ks) = (in_window start stop t \<and> record_key row = Inr k)" using ks by (auto simp: rbind_eq_Inr split: if_splits)
    then show ?case using Cons.IH [OF rest] t by (auto simp: kss)
  qed simp
  then show ?thesis using assms by (auto simp: window_records_def rbind_eq_Inr)
qed

text \<open>What a cycle without a complaint shows.\<close>

lemma window_cycle_ready:
  assumes "window_cycle tm dt start stop fs source wa cycle = Inr wa'" and "wa_pending wa' = []" and fs: "frames_from tm R fs"
  shows "\<exists>d p names. expected_frame_at dt (PStr source) cycle = Some (d, p, names) \<and>
     (\<forall>target \<in> names. \<exists>row \<in> R. \<exists>t. seen_at tm row source cycle target t \<and> (in_window start stop t \<longrightarrow> projr (record_key row) \<in> wa_expected wa'))"
proof -
  let ?seen = "dict_get fs (source, cycle) []"
  from assms(1,2) obtain d p names ks where e: "expected_frame_at dt (PStr source) cycle = Some (d, p, names)"
    and ks: "window_records tm start stop (dict_values ?seen) = Inr ks" and keys: "set (dict_keys ?seen) = names"
    and wa': "set ks \<subseteq> wa_expected wa'"
    by (auto simp: window_cycle_def rbind_eq_Inr Let_def split: option.splits if_splits prod.splits)
  have "\<exists>row \<in> R. \<exists>t. seen_at tm row source cycle target t \<and> (in_window start stop t \<longrightarrow> projr (record_key row) \<in> wa_expected wa')"
    if "target \<in> names" for target
  proof -
    obtain row t where row: "row \<in> R" "seen_at tm row source cycle target t" "row \<in> set (dict_values ?seen)"
      using frames_keys [OF fs] keys \<open>target \<in> names\<close> by blast
    then have key: "record_key row = Inr (projr (record_key row))" and stamp: "row_stamp tm row = Inr t"
      using seen_at_stamp by (auto simp: seen_at_def)
    then have "in_window start stop t \<Longrightarrow> projr (record_key row) \<in> set ks" using row(3) by (subst window_records_mem [OF ks]) blast
    then show ?thesis using row wa' by blast
  qed
  then show ?thesis using e by blast
qed

text \<open>Every expected record is that of a row in the window.\<close>

definition expected_from :: "(string \<Rightarrow> rat option option) \<Rightarrow> rat \<Rightarrow> rat \<Rightarrow> pydict set \<Rightarrow> window_audit \<Rightarrow> bool" where
  "expected_from tm start stop R wa \<longleftrightarrow> (\<forall>k \<in> wa_expected wa. \<exists>row \<in> R. \<exists>source cycle target t.
     record_key row = Inr k \<and> seen_at tm row source cycle target t \<and> in_window start stop t)"

lemma window_cycle_from:
  assumes "expected_from tm start stop R wa" and "window_cycle tm dt start stop fs source wa cycle = Inr wa'" and fs: "frames_from tm R fs"
  shows "expected_from tm start stop R wa'"
proof -
  let ?seen = "dict_get fs (source, cycle) []"
  from assms(2) obtain ks where ks: "window_records tm start stop (dict_values ?seen) = Inr ks" "wa_expected wa' = wa_expected wa \<union> set ks"
    by (auto simp: window_cycle_def rbind_eq_Inr Let_def split: option.splits if_splits prod.splits)
  have "\<exists>row \<in> R. \<exists>source cycle target t. record_key row = Inr k \<and> seen_at tm row source cycle target t \<and> in_window start stop t" if "k \<in> set ks" for k
  proof -
    from that have "\<exists>row \<in> set (dict_values ?seen). \<exists>t. row_stamp tm row = Inr t \<and> in_window start stop t \<and> record_key row = Inr k"
      unfolding window_records_mem [OF ks(1)] .
    then obtain row t where row: "row \<in> set (dict_values ?seen)" "row_stamp tm row = Inr t" "in_window start stop t" "record_key row = Inr k"
      by (elim bexE exE conjE)
    obtain target t' where s: "row \<in> R" "seen_at tm row source cycle target t'" using frames_values [OF fs row(1)] by blast
    then have "t' = t" using seen_at_stamp [OF s(2)] row(2) by simp
    then show ?thesis using row s by blast
  qed
  then show ?thesis using assms(1) unfolding expected_from_def ks(2) by blast
qed

lemma window_source_from:
  assumes "expected_from tm start stop R wa" and "window_source tm dt start stop fs obs wa source = Inr wa'" and fs: "frames_from tm R fs"
  shows "expected_from tm start stop R wa'"
proof -
  from assms(2) show ?thesis
  proof (cases rule: window_source_cases)
    case missing
    then show ?thesis using assms(1) by (simp add: expected_from_def)
  next
    case cycles
    show ?thesis using cycles(4) assms(1) by (rule rfoldM_invariant) (rule window_cycle_from [OF _ _ fs])
  qed
qed

subsection \<open>Cycles in the order of time\<close>

lemma cycles_rise: "\<not> cycles_fall xs \<Longrightarrow> sorted (map snd xs)"
  unfolding cycles_fall_def
proof (induction xs)
  case (Cons x xs)
  then show ?case by (cases xs) auto
qed simp

lemma ordered_cycles:
  assumes "\<not> cycles_fall (ordered_of obs source)" and "(t, c) \<in> set (ordered_of obs source)" and "(u, d) \<in> set (ordered_of obs source)" and "t < u"
  shows "c \<le> d"
proof -
  let ?xs = "ordered_of obs source"
  obtain i j where i: "i < length ?xs" "?xs ! i = (t, c)" and j: "j < length ?xs" "?xs ! j = (u, d)" using assms(2,3) by (auto simp: in_set_conv_nth)
  have "i < j"
  proof (rule ccontr)
    assume "\<not> i < j"
    then have "?xs ! j \<le> ?xs ! i" using i(1) by (intro sorted_nth_mono) (simp_all add: ordered_of_def)
    then show False using i(2) j(2) assms(4) by auto
  qed
  then have "map snd ?xs ! i \<le> map snd ?xs ! j" using cycles_rise [OF assms(1)] j(1) by (intro sorted_nth_mono) simp_all
  then show ?thesis using i j by simp
qed

lemma ordered_member: "((t, c) \<in> set (ordered_of obs source)) = ((source, t, c) \<in> set obs)"
  by (force simp: ordered_of_def)


subsection \<open>The records of the snapshot\<close>

lemma snapshot_row_cases:
  assumes "snapshot_row (pending, actual) row = Inr st"
  shows "(\<exists>x. st = (pending @ [x], actual)) \<or> (\<exists>k. record_key row = Inr k \<and> st = (pending, AList.update k row actual))"
  using assms by (auto simp: snapshot_row_def rbind_eq_Inr split: if_splits prod.splits)

lemma snapshot_rows:
  assumes "rfoldM snapshot_row (pending, actual) rows = Inr (pending', actual')"
  shows "pending' = [] \<Longrightarrow> pending = [] \<and> (\<forall>row \<in> set rows. \<exists>k \<in> fst ` set actual'. record_key row = Inr k)"
    and "fst ` set actual \<subseteq> fst ` set actual'"
    and "fst ` set actual' \<subseteq> fst ` set actual \<union> {k. \<exists>row \<in> set rows. record_key row = Inr k}"
proof -
  have "(pending' = [] \<longrightarrow> pending = [] \<and> (\<forall>row \<in> set rows. \<exists>k \<in> fst ` set actual'. record_key row = Inr k))
     \<and> fst ` set actual \<subseteq> fst ` set actual' \<and> fst ` set actual' \<subseteq> fst ` set actual \<union> {k. \<exists>row \<in> set rows. record_key row = Inr k}"
    using assms
  proof (induction rows arbitrary: pending actual)
    case (Cons row rows)
    then obtain pending1 actual1 where step: "snapshot_row (pending, actual) row = Inr (pending1, actual1)"
      and rest: "rfoldM snapshot_row (pending1, actual1) rows = Inr (pending', actual')" by (auto simp: rbind_eq_Inr)
    note IH = Cons.IH [OF rest]
    from snapshot_row_cases [OF step] consider (missing) x where "pending1 = pending @ [x]" "actual1 = actual"
      | (key) k where "record_key row = Inr k" "pending1 = pending" "actual1 = AList.update k row actual" by auto
    then show ?case
    proof cases
      case missing
      then have "pending' \<noteq> []" using IH by blast
      then show ?thesis using IH missing by auto
    next
      case key
      then have "fst ` set actual1 = insert k (fst ` set actual)" by (simp add: keys_update_set)
      then show ?thesis using IH key by auto
    qed
  qed simp
  then show "pending' = [] \<Longrightarrow> pending = [] \<and> (\<forall>row \<in> set rows. \<exists>k \<in> fst ` set actual'. record_key row = Inr k)"
    and "fst ` set actual \<subseteq> fst ` set actual'"
    and "fst ` set actual' \<subseteq> fst ` set actual \<union> {k. \<exists>row \<in> set rows. record_key row = Inr k}" by blast+
qed

lemma frames_from_mono: "frames_from tm R fs \<Longrightarrow> R \<subseteq> S \<Longrightarrow> frames_from tm S fs"
  unfolding frames_from_def by (fastforce split: prod.splits)

lemma rbind_InrE: "rbind m f = Inr y \<Longrightarrow> (\<And>x. m = Inr x \<Longrightarrow> f x = Inr y \<Longrightarrow> P) \<Longrightarrow> P"
  by (auto simp: rbind_eq_Inr)

subsection \<open>Properties\<close>

text \<open>Between two boundaries: a record of the client before the window, one after it, and every target of the frame of
  every cycle from the one to the other recorded, where the records in the window are those of the snapshot.\<close>

definition window_covered :: "(string \<Rightarrow> rat option option) \<Rightarrow> detector \<Rightarrow> pydict set \<Rightarrow> pydict set \<Rightarrow> rat \<Rightarrow> rat \<Rightarrow> string \<Rightarrow> bool" where
  "window_covered tm dt progress snapshot start stop source \<longleftrightarrow> (\<exists>left right. (start \<le> stop \<longrightarrow> left \<le> right)
     \<and> (\<exists>row \<in> progress. \<exists>target t. seen_at tm row source left target t \<and> t < start)
     \<and> (\<exists>row \<in> progress. \<exists>target t. seen_at tm row source right target t \<and> stop \<le> t)
     \<and> (\<forall>cycle \<in> {left..right}. \<exists>d p names. expected_frame_at dt (PStr source) cycle = Some (d, p, names)
         \<and> (\<forall>target \<in> names. \<exists>row \<in> progress. \<exists>t. seen_at tm row source cycle target t
              \<and> (in_window start stop t \<longrightarrow> (\<exists>row' \<in> snapshot. record_key row' = record_key row)))))"

lemma source_covered:
  assumes "window_source tm dt start stop fs obs wa source = Inr wa'" and pending: "wa_pending wa' = []"
    and fs: "frames_from tm R fs" and obs: "observations_of tm fs = Inr obs"
    and snapshot: "\<And>k. k \<in> wa_expected wa' \<Longrightarrow> \<exists>row' \<in> S. record_key row' = Inr k"
  shows "window_covered tm dt R S start stop source"
  using assms(1)
proof (cases rule: window_source_cases)
  case missing
  then show ?thesis using pending by simp
next
  case cycles
  let ?o = "ordered_of obs source"
  let ?left = "Max (set (cycles_before start ?o))" and ?right = "Min (set (cycles_after stop ?o))"
  have left: "?left \<in> set (cycles_before start ?o)" and right: "?right \<in> set (cycles_after stop ?o)"
    using cycles(2,3) by (intro Max_in Min_in; simp)+
  obtain t where t: "(t, ?left) \<in> set ?o" "t < start" using left by (auto simp: cycles_before_def)
  obtain u where u: "(u, ?right) \<in> set ?o" "stop \<le> u" using right by (auto simp: cycles_after_def)
  have seen: "\<exists>row \<in> R. \<exists>target. seen_at tm row source c target x" if "(x, c) \<in> set ?o" for x c
    using observations_seen [OF fs obs] that unfolding ordered_member by blast
  have order: "?left \<le> ?right" if "start \<le> stop" using that t(2) u(2) by (intro ordered_cycles [OF cycles(1) t(1) u(1)]) linarith
  have frames: "\<exists>d p names. expected_frame_at dt (PStr source) cycle = Some (d, p, names)
      \<and> (\<forall>target \<in> names. \<exists>row \<in> R. \<exists>t. seen_at tm row source cycle target t
           \<and> (in_window start stop t \<longrightarrow> (\<exists>row' \<in> S. record_key row' = record_key row)))" if "cycle \<in> {?left..?right}" for cycle
  proof -
    have c: "cycle \<in> set [?left..?right]" using that by simp
    have "\<exists>wa1 wa2. window_cycle tm dt start stop fs source wa1 cycle = Inr wa2 \<and> audit_le wa wa1 \<and> audit_le wa2 wa'"
      by (rule rfoldM_step [where R = audit_le, OF cycles(4) c]) (erule window_cycle_le, rule audit_le_refl, erule (1) audit_le_trans)
    then obtain wa1 wa2 where step: "window_cycle tm dt start stop fs source wa1 cycle = Inr wa2" "audit_le wa2 wa'" by (elim exE conjE)
    then have p2: "wa_pending wa2 = []" and sub: "wa_expected wa2 \<subseteq> wa_expected wa'" using pending by (auto simp: audit_le_def)
    have "\<exists>row' \<in> S. record_key row' = record_key row" if s: "seen_at tm row source cycle target x" and k: "projr (record_key row) \<in> wa_expected wa2" for row target x
    proof -
      have "record_key row = Inr (projr (record_key row))" using s by (auto simp: seen_at_def)
      moreover obtain row' where "row' \<in> S" "record_key row' = Inr (projr (record_key row))" using snapshot sub k by blast
      ultimately show ?thesis by metis
    qed
    then show ?thesis using window_cycle_ready [OF step(1) p2 fs] by meson
  qed
  show ?thesis
    unfolding window_covered_def using order seen [OF t(1)] t(2) seen [OF u(1)] u(2) frames by blast
qed

text \<open>C39: a window that is judged ready has been ingested. If the audit of a window says \<open>ready\<close>, then every client has a record before the
  window and one after it, in cycles \<open>left\<close> and \<open>right\<close>, every target of every frame between these cycles was recorded, and the
  record of each of these probes that lies in the window is in the snapshot. And the snapshot holds nothing
  else: each of its rows has the identity of such a record in the window.\<close>

theorem ready_window_complete:
  assumes "audit_ingestion tm digest dt progress snapshot start_time end_time = Inr r" and "ig_status r = ''ready''"
  shows "\<exists>start stop. parse_stamp tm start_time = Inr start \<and> parse_stamp tm end_time = Inr stop
     \<and> (\<forall>source \<in> set (dt_pingmesh_clients dt). window_covered tm dt (set progress) (set snapshot) start stop source)
     \<and> (\<forall>row \<in> set snapshot. \<exists>row' \<in> set progress. \<exists>source cycle target t. record_key row = record_key row'
          \<and> seen_at tm row' source cycle target t \<and> in_window start stop t)"
proof -
  from assms(1) obtain start stop where times: "parse_stamp tm start_time = Inr start" "parse_stamp tm end_time = Inr stop"
    and caught: "(case audit_window tm digest dt progress snapshot start stop of
        Inr r' \<Rightarrow> Inr r'
      | Inl e \<Rightarrow> (case e of KeyError _ \<Rightarrow> Inr (invalid_ingestion e) | TypeError _ \<Rightarrow> Inr (invalid_ingestion e)
          | ValueError _ \<Rightarrow> Inr (invalid_ingestion e) | _ \<Rightarrow> Inl e)) = Inr r"
    unfolding audit_ingestion_def by (elim rbind_InrE) (rule that)
  have audit: "audit_window tm digest dt progress snapshot start stop = Inr r"
    using caught assms(2) by (cases "audit_window tm digest dt progress snapshot start stop") (auto simp: invalid_ingestion_def split: py_error.splits)
  let ?R = "set progress"
  obtain incomplete fs obs wa st where
    fs: "progress_frames tm dt [row \<leftarrow> progress. complete_progress row] = Inr fs" and obs: "observations_of tm fs = Inr obs"
    and wa: "rfoldM (window_source tm dt start stop fs obs)
        \<lparr> wa_pending = (if incomplete then [''progress: missing required fields''] else []), wa_expected = {} \<rparr> (dt_pingmesh_clients dt) = Inr wa"
    and st: "rfoldM snapshot_row (wa_pending wa, []) snapshot = Inr st"
    and res: "(case st of (pending, actual) \<Rightarrow> (let pending' = pending @ (if set (dict_keys actual) \<noteq> wa_expected wa then [''snapshot and frame records do not match''] else []) in
      rbind (progress_frames tm dt (dict_values actual)) (\<lambda>_.
      Inr \<lparr> ig_status = (if pending' \<noteq> [] then ''pending'' else ''ready''), ig_error = None,
        ig_expected_records = int (card (wa_expected wa)), ig_observed_records = int (length actual), ig_reasons = take 20 pending',
        ig_records_sha256 = (if pending' = [] then Some (digest (digest_rows actual)) else None) \<rparr>))) = Inr r"
    using audit unfolding audit_window_def by (elim rbind_InrE) (rule that)
  obtain pending actual where st': "st = (pending, actual)" by (cases st)
  from res assms(2) have "pending = []" and keys: "set (dict_keys actual) = wa_expected wa"
    unfolding st' case_prod_conv Let_def by (auto simp: rbind_eq_Inr split: if_splits)
  then have snap: "rfoldM snapshot_row (wa_pending wa, []) snapshot = Inr ([], actual)" using st st' by simp
  have from_R: "frames_from tm ?R fs" using progress_frames_from [OF fs] by (rule frames_from_mono) auto
  note rows = snapshot_rows [OF snap]
  have pending: "wa_pending wa = []" using rows(1) by simp
  have recorded: "\<exists>row' \<in> set snapshot. record_key row' = Inr k" if "k \<in> wa_expected wa" for k
    using that rows(3) keys by (auto simp: dict_keys_def)
  have "window_covered tm dt (set progress) (set snapshot) start stop source" if "source \<in> set (dt_pingmesh_clients dt)" for source
  proof -
    have "\<exists>wa1 wa2. window_source tm dt start stop fs obs wa1 source = Inr wa2
        \<and> audit_le \<lparr> wa_pending = (if incomplete then [''progress: missing required fields''] else []), wa_expected = {} \<rparr> wa1 \<and> audit_le wa2 wa"
      by (rule rfoldM_step [where R = audit_le, OF wa that]) (erule window_source_le, rule audit_le_refl, erule (1) audit_le_trans)
    then obtain wa1 wa2 where step: "window_source tm dt start stop fs obs wa1 source = Inr wa2" "audit_le wa2 wa" by (elim exE conjE)
    then show ?thesis
      using pending recorded by (intro source_covered [OF step(1) _ from_R obs]) (auto simp: audit_le_def)
  qed
  moreover have "expected_from tm start stop ?R wa"
    using wa by (rule rfoldM_invariant) (simp add: expected_from_def, rule window_source_from [OF _ _ from_R])
  then have "\<exists>row' \<in> set progress. \<exists>source cycle target t. record_key row = record_key row' \<and> seen_at tm row' source cycle target t \<and> in_window start stop t"
    if "row \<in> set snapshot" for row
  proof -
    from rows(1) that obtain k where k: "k \<in> fst ` set actual" "record_key row = Inr k" by blast
    then have "k \<in> wa_expected wa" using keys by (simp add: dict_keys_def)
    then obtain row' source cycle target t where row': "row' \<in> ?R" "record_key row' = Inr k" "seen_at tm row' source cycle target t" "in_window start stop t"
      using \<open>expected_from tm start stop ?R wa\<close> unfolding expected_from_def by (auto dest: bspec)
    then show ?thesis using k(2) by (intro bexI [of _ row'] exI conjI) auto
  qed
  ultimately show ?thesis using times by blast
qed

definition tiny_plan :: pingmesh_plan where
  "tiny_plan = \<lparr> settings = \<lparr> plan_id = ''p'', source_ports = [33000], port_batches = [[0]], set_destination_batch_size = 1,
       set_cycle_interval_seconds = 1, coverage_epoch_cycles = 1, coverage_epoch_seconds = 1, complete_window_seconds = 1, set_df_payload_size = 1 \<rparr>,
     plan_clients = [\<lparr> plan_client = ''a'', targets = [''b''], startup_delay_ms = 0,
       frames = [\<lparr> destination_batch_index = 0, port_batch_index = 0, target_indices = [0], probes = [] \<rparr>] \<rparr>],
     coverage = \<lparr> directed_links = [], covered_switches = [], minimum_witnesses = 0 \<rparr> \<rparr>"

definition tiny_detector :: detector where
  "tiny_detector = \<lparr> dt_client_to_leaf = [], dt_loss_pct_threshold = 5, dt_loss_pct_delta = 5, dt_pingmesh_clients = [''a''],
     dt_client_addresses = [(''a'', Some ''10.0.0.1'')], dt_topology_id = ''t'', dt_plan = tiny_plan,
     dt_expectations = (case compile_coverage_expectations tiny_plan of Inr ex \<Rightarrow> ex
       | Inl _ \<Rightarrow> \<lparr> ex_combinations = {}, ex_frames = [], ex_destinations = {} \<rparr>), dt_plan_id = ''p'' \<rparr>"

definition tiny_row :: "rat \<Rightarrow> string \<Rightarrow> pydict" where
  "tiny_row cycle t = [(''_time'', PStr t), (''src_name'', PStr ''a''), (''dst_name'', PStr ''b''), (''src_ip'', PStr ''10.0.0.1''),
     (''plan_id'', PStr ''p''), (''probe_cycle'', PFloat cycle)]
     @ map (\<lambda>k. (k, PFloat 0)) [k \<leftarrow> SNAPSHOT_FIELDS. k \<noteq> ''probe_cycle'']"

definition tiny_clock :: "string \<Rightarrow> rat option option" where
  "tiny_clock s = map_of [(''1'', Some 1), (''2'', Some 2), (''3'', Some 3)] s"

lemma tiny_ready:
  "(case audit_ingestion tiny_clock (\<lambda>_. ''sha'') tiny_detector [tiny_row 1 ''1'', tiny_row 2 ''2'', tiny_row 3 ''3''] [tiny_row 2 ''2''] ''2'' ''3'' of
      Inl _ \<Rightarrow> False | Inr r \<Rightarrow> ig_status r = ''ready'')"
  by code_simp

theorem ready_window_complete_witness:
  "\<exists>r. audit_ingestion tiny_clock (\<lambda>_. ''sha'') tiny_detector [tiny_row 1 ''1'', tiny_row 2 ''2'', tiny_row 3 ''3''] [tiny_row 2 ''2''] ''2'' ''3'' = Inr r
     \<and> ig_status r = ''ready''
     \<and> window_covered tiny_clock tiny_detector {tiny_row 1 ''1'', tiny_row 2 ''2'', tiny_row 3 ''3''} {tiny_row 2 ''2''} 2 3 ''a''"
proof -
  obtain r where r: "audit_ingestion tiny_clock (\<lambda>_. ''sha'') tiny_detector [tiny_row 1 ''1'', tiny_row 2 ''2'', tiny_row 3 ''3'']
      [tiny_row 2 ''2''] ''2'' ''3'' = Inr r" "ig_status r = ''ready''"
    using tiny_ready by (auto split: sum.splits)
  have "''a'' \<in> set (dt_pingmesh_clients tiny_detector)" "parse_stamp tiny_clock ''2'' = Inr 2" "parse_stamp tiny_clock ''3'' = Inr 3"
    by (simp add: tiny_detector_def) code_simp+
  then show ?thesis using ready_window_complete [OF r] r by auto
qed

end
