(* ===== verification/Spec2Isabelle.thy ===== *)
theory Spec2Isabelle
  imports Clos_Builder Fat_Tree_Builder Impairment_Handlers Periodic_Controller Ground_Truth Traffic_Planner Incident_Engine Detector_Ingestion
begin

text \<open>
  A verification development of NetOpsBench, a benchmark that deploys emulated data-centre fabrics, loads them with
  background traffic, injects faults, lets an agent diagnose them from tool calls and telemetry, and scores the
  diagnosis. Paths below are relative to \<open>src/netopsbench\<close>.

  \<^bold>\<open>The parts of the program and how they interact.\<close>
  A scale profile (\<open>models/profiles.py\<close>) gives the size of a fabric. The topology package plans it: addresses, devices,
  cables and render settings of a CLOS or a fat tree, as a \<open>FabricPlan\<close> around a \<open>TopologyManifest\<close>. The Pingmesh
  planner compiles the manifest into an immutable probe plan, and the traffic planner into background flows. A scenario names one
  fault; the fault registry resolves and validates it and the injector applies it with a handler, over command
  execution on the containers, tracking what must be recovered. An incident prepares the fault through a backend, and
  its sessions route the tool calls and the diagnosis of an agent; the detector audits and analyses the recorded Pingmesh rows. The evaluator compares the agent's answer with
  the ground truth of the episode and aggregates a report.

  \<^bold>\<open>Theories.\<close>
  \<^item> \<open>Py_Prelude\<close>, \<open>Py_Float\<close>, \<open>Py_Values\<close>, \<open>Py_Text\<close>: the Python that the components share. Exceptions are values
    (\<open>py_error\<close>, results in \<open>res\<close>), dictionaries are association lists in insertion order, dynamic values are \<open>pyval\<close>,
    binary64 numbers are the rationals they denote with every operation rounded by \<open>fl\<close>.
  \<^item> \<open>Interface_Names\<close> (\<open>platform/utils/interface_names.py\<close>): the equivalence of interface names holds exactly when
    they name one port, and conversions invert each other.
  \<^item> \<open>Scale_Profiles\<close> (\<open>models/profiles.py\<close>): schemas, validators, the registry and the built-in profiles; a registry
    merged from profile files is a map in which the last definition of a name wins.
  \<^item> \<open>Addressing\<close> (\<open>platform/topology/planning.py\<close>): the part of \<open>ipaddress\<close> that is used, management and client
    addresses; access links are disjoint, and the default collector is found and avoids allocated addresses.
  \<^item> \<open>Topology_Model\<close> (\<open>models/topology.py\<close>, \<open>models/pingmesh.py\<close>): the manifest, its cross-reference validator, proved
    equivalent to the declarative \<open>manifest_wf\<close>, and the projection for agents.
  \<^item> \<open>Graph_BFS\<close>, \<open>Pingmesh_Planner\<close> (\<open>platform/pingmesh/planner.py\<close>): the breadth-first searches compute distances and
    count shortest paths; an accepted plan covers every link by probes on shortest paths, probes each flow once per
    epoch, and is symmetric.
  \<^item> \<open>Fabric_Plan\<close>, \<open>Clos_Builder\<close>, \<open>Fat_Tree_Builder\<close> (\<open>platform/topology/plan.py\<close>, \<open>config.py\<close>, \<open>generator.py\<close>,
    \<open>clos_builder.py\<close>, \<open>fat_tree_builder.py\<close>): configurations and plans; each builder is a refinement of the
    abstract fabric: the plan it returns is well formed, accepted by every validator, and its links are exactly those
    of the topology.
  \<^item> \<open>Fault_Registry\<close>, \<open>Fault_Coverage\<close> (\<open>models/scenario.py\<close>, \<open>platform/faults/specs.py\<close>, \<open>catalog.py\<close>, \<open>models.py\<close>,
    \<open>builtin/*\<close>): fault specifications, aliases, parameter validation and the coverage units.
  \<^item> \<open>Fault_Recovery\<close>, \<open>Fault_Services\<close> (\<open>platform/faults/injector.py\<close>, \<open>services/*\<close>): the injector's state in the monad
    \<open>io\<close> (a function from the injector, with the outside world inside, to a result and an injector), tracking and batch
    recovery, command execution and device queries. A batch recovery keeps every fault that was not recovered.
  \<^item> \<open>Route_Handlers\<close>, \<open>Impairment_Handlers\<close>, \<open>Link_Handler\<close> (\<open>platform/faults/handlers/*\<close>): the handlers as written, and
    for each the transaction property: an injection that fails leaves either nothing behind or a tracked fault. For
    routes and impairments it assumes that commands which only read a node leave it as it was.
  \<^item> \<open>Periodic_Controller\<close> (\<open>platform/faults/services/periodic.py\<close>): the flapping thread as a step relation; phases
    alternate and a stop request ends it.
  \<^item> \<open>Fault_Type_Judge\<close>, \<open>Scorer\<close>, \<open>Ground_Truth\<close> (\<open>evaluator/*\<close>, \<open>platform/incident/scoring.py\<close>): scoring, location
    matching against all equivalent ends of a link, so that naming the far end of a faulty link scores like naming
    its target, and the report, whose rates, breakdowns included, are bounded.
  \<^item> \<open>Traffic_Planner\<close> (\<open>platform/traffic/estimator.py\<close>, \<open>planner.py\<close>, \<open>generator.py\<close>): admission of flows under budgets,
    and the validation of what was generated.
  \<^item> \<open>Detector_Coverage\<close>, \<open>Detector_Analysis\<close>, \<open>Detector_Ingestion\<close> (\<open>platform/pingmesh/_detector_coverage.py\<close>,
    \<open>_detector_analysis.py\<close>, \<open>_detector_ingestion.py\<close>): the rows that the probes of a plan leave in the database. The audit calls them
    complete exactly when they are the records of the plan, the anomalies are exactly the paths that satisfy the
    criterion of a type, and a window that is called ready contains every record between two boundaries.
  \<^item> \<open>Incident_Payloads\<close>, \<open>Incident_Engine\<close> (\<open>platform/incident/payloads.py\<close>, \<open>contracts.py\<close>, \<open>engine.py\<close>): the lifecycle of an
    incident over a backend that may return or raise anything, with the trace of the calls made on it, the sessions
    of agents with their budgets and rewards, and the bound on what an agent observes.

  \<^bold>\<open>Parameters of the model.\<close>
  SHA-256, JSON parsing, the parsing of ISO timestamps, the decimal text of a float, the process environment, the clock, the
  backend of an incident and the language model of the judge are arguments of the definitions that use them. Threads are step relations whose events are the returns of waits
  and operations.

  \<^bold>\<open>Bounds and fuel.\<close>
  Strings are sequences of code points below 256. Floats have no overflow, NaN or infinity. Integers are unbounded,
  as in Python. Decimal literals of more than 4300 digits, netmask and IPv6 notations are outside the model;
  the integers that Python takes for IPv6 addresses are in it. The only fuel is
  that of the loop that reads back the state of a port: it polls every tenth of a second for three seconds, and
  \<open>LINK_FUEL\<close> = 31 rounds are proved to be enough (\<open>link_handler_terminates\<close>).

  \<^bold>\<open>Not modelled.\<close>
  The device and control-plane handlers, the renderer (Jinja templates), scenario execution and its incident backend, the
  queries and the report of the detector, observability, runtime deployment, the orchestration of benchmark sessions, the
  simulator service, the agents' tools and the command line: they are I/O on containers,
  InfluxDB, HTTP and files around the parts above, and nearly every line of them is a call to such a service.
\<close>

end
